(* ===== verification/Prelude.thy ===== *)
theory Prelude
  imports Main "HOL-Library.Word" "HOL-Library.Sublist"
begin

text \<open>
  What every component shares: Rust strings and characters, the error type
  \<open>AppError\<close> of \<open>src/backend/shared/common/src/errors.rs\<close>, results and their
  short-circuiting bind (the operator \<open>?\<close>), JSON values, identifiers, and
  the generic lemmas on these. \<open>app_simps\<close> collects the definitions that component proofs unfold,
  \<open>app_splits\<close> is the bundle of case splits they need.
\<close>

named_theorems app_simps \<open>definitions of the model that proofs unfold\<close>

section \<open>Characters and strings\<close>

text \<open>
  A Rust \<open>char\<close> is a Unicode scalar value; a \<open>str\<close> is a sequence of them stored in UTF-8.
  The model keeps the sequence of scalar values. \<open>str.len()\<close> counts UTF-8 bytes
  (\<open>str_len\<close>) and \<open>str.chars().count()\<close> counts scalar values (\<open>length\<close>).
\<close>

type_synonym uchar = nat
type_synonym rstr = "uchar list"

definition lit :: "string \<Rightarrow> rstr" where
  "lit s = map of_char s"

definition utf8_len :: "uchar \<Rightarrow> nat" where
  "utf8_len c = (if c < 128 then 1 else if c < 2048 then 2 else if c < 65536 then 3 else 4)"

definition str_len :: "rstr \<Rightarrow> nat" where
  "str_len s = sum_list (map utf8_len s)"

text \<open>The Unicode property \<open>White_Space\<close> (\<open>char::is_whitespace\<close>) and the category \<open>Cc\<close>
  (\<open>char::is_control\<close>).\<close>

definition is_whitespace :: "uchar \<Rightarrow> bool" where
  "is_whitespace c \<longleftrightarrow> (9 \<le> c \<and> c \<le> 13) \<or> c = 32 \<or> c = 133 \<or> c = 160 \<or> c = 5760
     \<or> (8192 \<le> c \<and> c \<le> 8202) \<or> c = 8232 \<or> c = 8233 \<or> c = 8239 \<or> c = 8287 \<or> c = 12288"

definition is_control :: "uchar \<Rightarrow> bool" where
  "is_control c \<longleftrightarrow> c < 32 \<or> (127 \<le> c \<and> c < 160)"

definition is_ascii_digit :: "uchar \<Rightarrow> bool" where
  "is_ascii_digit c \<longleftrightarrow> 48 \<le> c \<and> c \<le> 57"

definition is_ascii_lowercase :: "uchar \<Rightarrow> bool" where
  "is_ascii_lowercase c \<longleftrightarrow> 97 \<le> c \<and> c \<le> 122"

definition is_ascii_uppercase :: "uchar \<Rightarrow> bool" where
  "is_ascii_uppercase c \<longleftrightarrow> 65 \<le> c \<and> c \<le> 90"

definition is_ascii_alphabetic :: "uchar \<Rightarrow> bool" where
  "is_ascii_alphabetic c \<longleftrightarrow> is_ascii_lowercase c \<or> is_ascii_uppercase c"

definition is_ascii_alphanumeric :: "uchar \<Rightarrow> bool" where
  "is_ascii_alphanumeric c \<longleftrightarrow> is_ascii_alphabetic c \<or> is_ascii_digit c"

definition is_ascii_hexdigit :: "uchar \<Rightarrow> bool" where
  "is_ascii_hexdigit c \<longleftrightarrow> is_ascii_digit c \<or> (97 \<le> c \<and> c \<le> 102) \<or> (65 \<le> c \<and> c \<le> 70)"

definition to_ascii_uppercase :: "rstr \<Rightarrow> rstr" where
  "to_ascii_uppercase s = map (\<lambda>c. if is_ascii_lowercase c then c - 32 else c) s"

definition to_ascii_lowercase :: "rstr \<Rightarrow> rstr" where
  "to_ascii_lowercase s = map (\<lambda>c. if is_ascii_uppercase c then c + 32 else c) s"

definition trim_start :: "rstr \<Rightarrow> rstr" where
  "trim_start s = dropWhile is_whitespace s"

definition trim_end :: "rstr \<Rightarrow> rstr" where
  "trim_end s = rev (dropWhile is_whitespace (rev s))"

definition trim :: "rstr \<Rightarrow> rstr" where
  "trim s = trim_end (trim_start s)"

definition starts_with :: "rstr \<Rightarrow> rstr \<Rightarrow> bool" where
  "starts_with s p \<longleftrightarrow> take (length p) s = p"

definition ends_with :: "rstr \<Rightarrow> rstr \<Rightarrow> bool" where
  "ends_with s p \<longleftrightarrow> length p \<le> length s \<and> drop (length s - length p) s = p"

definition strip_prefix :: "rstr \<Rightarrow> rstr \<Rightarrow> rstr option" where
  "strip_prefix s p = (if starts_with s p then Some (drop (length p) s) else None)"

definition strip_suffix :: "rstr \<Rightarrow> rstr \<Rightarrow> rstr option" where
  "strip_suffix s p = (if ends_with s p then Some (take (length s - length p) s) else None)"

text \<open>\<open>split_once s c\<close> is \<open>s.split_once(c)\<close> for one character.\<close>

fun split_once :: "rstr \<Rightarrow> uchar \<Rightarrow> (rstr \<times> rstr) option" where
  "split_once [] c = None"
| "split_once (x # xs) c =
     (if x = c then Some ([], xs)
      else case split_once xs c of None \<Rightarrow> None | Some (a, b) \<Rightarrow> Some (x # a, b))"

lemmas char_class_defs = is_whitespace_def is_control_def is_ascii_digit_def
  is_ascii_lowercase_def is_ascii_uppercase_def is_ascii_alphabetic_def
  is_ascii_alphanumeric_def is_ascii_hexdigit_def

lemma lit_simps [simp]:
  "lit [] = []"
  "lit (c # cs) = of_char c # lit cs"
  by (simp_all add: lit_def)

lemma length_lit [simp]: "length (lit s) = length s"
  by (simp add: lit_def)

lemma str_len_simps [simp]:
  "str_len [] = 0"
  "str_len (c # cs) = utf8_len c + str_len cs"
  "str_len (xs @ ys) = str_len xs + str_len ys"
  by (simp_all add: str_len_def)

lemma utf8_len_bounds: "1 \<le> utf8_len c" "utf8_len c \<le> 4"
  by (auto simp: utf8_len_def)

lemma length_le_str_len: "length s \<le> str_len s"
proof (induction s)
  case Nil
  then show ?case by simp
next
  case (Cons c s)
  then show ?case using utf8_len_bounds(1) [of c] by simp
qed

lemma str_len_le_length: "str_len s \<le> 4 * length s"
proof (induction s)
  case Nil
  then show ?case by simp
next
  case (Cons c s)
  then show ?case using utf8_len_bounds(2) [of c] by simp
qed

lemma str_len_ascii: "list_all (\<lambda>c. c < 128) s \<Longrightarrow> str_len s = length s"
  by (induction s) (auto simp: utf8_len_def)

lemma str_len_eq_0 [simp]: "str_len s = 0 \<longleftrightarrow> s = []"
  by (cases s) (auto simp: utf8_len_def)

lemma split_once_Some:
  "split_once s c = Some (a, b) \<Longrightarrow> s = a @ c # b \<and> c \<notin> set a"
  by (induction s arbitrary: a) (auto split: if_splits option.splits)

lemma split_once_None: "split_once s c = None \<longleftrightarrow> c \<notin> set s"
  by (induction s) (auto split: option.splits)

lemma split_once_join: "c \<notin> set a \<Longrightarrow> split_once (a @ c # b) c = Some (a, b)"
  by (induction a) auto

lemma strip_prefix_Some: "strip_prefix s p = Some r \<longleftrightarrow> s = p @ r"
  by (auto simp: strip_prefix_def starts_with_def) (metis append_take_drop_id)

lemma strip_suffix_Some: "strip_suffix s p = Some r \<longleftrightarrow> s = r @ p"
  by (auto simp: strip_suffix_def ends_with_def) (metis append_take_drop_id)

lemma strip_same [simp]:
  "strip_prefix (p @ r) p = Some r" "strip_suffix (r @ p) p = Some r"
  "strip_prefix (c # r) [c] = Some r"
  by (auto simp: strip_prefix_Some strip_suffix_Some)

lemma starts_with_prefix: "starts_with s p \<longleftrightarrow> prefix p s"
  by (auto simp: starts_with_def prefix_def) (metis append_take_drop_id)

lemma starts_with_single [simp]: "starts_with s [c] \<longleftrightarrow> s \<noteq> [] \<and> hd s = c"
  by (cases s) (auto simp: starts_with_def)

lemma ends_with_single [simp]: "ends_with s [c] \<longleftrightarrow> s \<noteq> [] \<and> last s = c"
  by (cases s rule: rev_cases) (auto simp: ends_with_def)

subsection \<open>Trimming\<close>

lemma dropWhile_hd: "dropWhile P xs = y # ys \<Longrightarrow> \<not> P y"
  by (induction xs) (auto split: if_splits)

lemma dropWhile_suffix: "\<exists>us. xs = us @ dropWhile P xs \<and> (\<forall>u\<in>set us. P u)"
  by (metis takeWhile_dropWhile_id set_takeWhileD)

lemma trim_Nil_iff: "trim s = [] \<longleftrightarrow> (\<forall>c\<in>set s. is_whitespace c)"
proof -
  have "trim s = [] \<longleftrightarrow> (\<forall>c\<in>set (dropWhile is_whitespace s). is_whitespace c)"
    by (simp add: trim_def trim_start_def trim_end_def)
  also have "\<dots> \<longleftrightarrow> (\<forall>c\<in>set s. is_whitespace c)"
    by (induction s) auto
  finally show ?thesis .
qed

lemma set_trim: "set (trim s) \<subseteq> set s"
  by (auto simp: trim_def trim_start_def trim_end_def dest!: set_dropWhileD)

lemma trim_start_fixed: "(s \<noteq> [] \<Longrightarrow> \<not> is_whitespace (hd s)) \<Longrightarrow> trim_start s = s"
  by (cases s) (auto simp: trim_start_def)

lemma trim_end_fixed: "(s \<noteq> [] \<Longrightarrow> \<not> is_whitespace (last s)) \<Longrightarrow> trim_end s = s"
  by (cases s rule: rev_cases) (auto simp: trim_end_def)

lemma trim_hd: "trim s \<noteq> [] \<Longrightarrow> \<not> is_whitespace (hd (trim s))"
proof -
  assume ne: "trim s \<noteq> []"
  let ?d = "dropWhile is_whitespace s"
  obtain us where "rev ?d = us @ rev (trim s)"
    using dropWhile_suffix [of "rev ?d" is_whitespace]
    by (auto simp: trim_def trim_start_def trim_end_def)
  then have d: "?d = trim s @ rev us" by (metis rev_append rev_rev_ident)
  with ne have "hd ?d = hd (trim s)" "?d \<noteq> []" by auto
  then show ?thesis by (metis dropWhile_hd list.exhaust_sel)
qed

lemma trim_last: "trim s \<noteq> [] \<Longrightarrow> \<not> is_whitespace (last (trim s))"
proof -
  assume "trim s \<noteq> []"
  then obtain y ys where "dropWhile is_whitespace (rev (trim_start s)) = y # ys"
    by (cases "dropWhile is_whitespace (rev (trim_start s))") (auto simp: trim_def trim_end_def)
  then show ?thesis using dropWhile_hd by (fastforce simp: trim_def trim_end_def)
qed

lemma trim_idem [simp]: "trim (trim s) = trim s"
  using trim_start_fixed [OF trim_hd] trim_end_fixed [OF trim_last] by (simp add: trim_def)

lemma str_len_mono: "\<exists>us vs. s = us @ t @ vs \<Longrightarrow> str_len t \<le> str_len s"
  by auto

lemma trim_sublist: "\<exists>us vs. s = us @ trim s @ vs"
proof -
  obtain us where "s = us @ trim_start s"
    using dropWhile_suffix [of s is_whitespace] by (auto simp: trim_start_def)
  moreover obtain vs where "rev (trim_start s) = vs @ rev (trim s)"
    using dropWhile_suffix [of "rev (trim_start s)" is_whitespace] by (auto simp: trim_def trim_end_def)
  then have "trim_start s = trim s @ rev vs" by (metis rev_append rev_rev_ident)
  ultimately show ?thesis by metis
qed

lemma str_len_trim: "str_len (trim s) \<le> str_len s"
  by (rule str_len_mono [OF trim_sublist])

section \<open>Errors and results\<close>

text \<open>
  \<open>AppError\<close> with the constructors of the source. A fallible function returns
  \<open>AppError + 'a\<close>; \<open>and_then\<close> is the early return of the operator \<open>?\<close>.
\<close>

datatype AppError =
    Unauthorized rstr
  | Forbidden rstr
  | NotFound rstr
  | BadRequest rstr
  | Validation rstr
  | Conflict rstr
  | Internal rstr
  | Database rstr
  | TooManyRequests rstr "64 word"
  | ServiceUnavailable rstr

text \<open>The \<open>Display\<close> of an error.\<close>

fun error_text :: "AppError \<Rightarrow> rstr" where
  "error_text (Unauthorized m) = lit ''Unauthorized: '' @ m"
| "error_text (Forbidden m) = lit ''Forbidden: '' @ m"
| "error_text (NotFound m) = lit ''Not found: '' @ m"
| "error_text (BadRequest m) = lit ''Bad request: '' @ m"
| "error_text (Validation m) = lit ''Validation: '' @ m"
| "error_text (Conflict m) = lit ''Conflict: '' @ m"
| "error_text (Internal m) = lit ''Internal: '' @ m"
| "error_text (Database m) = lit ''Database: '' @ m"
| "error_text (TooManyRequests m _) = lit ''Too many requests: '' @ m"
| "error_text (ServiceUnavailable m) = lit ''Service unavailable: '' @ m"

type_synonym 'a AppResult = "AppError + 'a"

fun and_then :: "'e + 'a \<Rightarrow> ('a \<Rightarrow> 'e + 'b) \<Rightarrow> 'e + 'b" where
  "and_then (Inl e) f = Inl e"
| "and_then (Inr x) f = f x"

fun map_err :: "('e \<Rightarrow> 'f) \<Rightarrow> 'e + 'a \<Rightarrow> 'f + 'a" where
  "map_err f (Inl e) = Inl (f e)"
| "map_err f (Inr x) = Inr x"

definition ok_or :: "'a option \<Rightarrow> 'e \<Rightarrow> 'e + 'a" where
  "ok_or x e = (case x of None \<Rightarrow> Inl e | Some y \<Rightarrow> Inr y)"

definition ensure :: "bool \<Rightarrow> 'e \<Rightarrow> 'e + unit" where
  "ensure b e = (if b then Inr () else Inl e)"

fun is_ok :: "'e + 'a \<Rightarrow> bool" where
  "is_ok (Inl _) = False"
| "is_ok (Inr _) = True"

lemma and_then_eq_Inr [simp]: "and_then r f = Inr y \<longleftrightarrow> (\<exists>x. r = Inr x \<and> f x = Inr y)"
  by (cases r) auto

lemma and_then_eq_Inl [simp]:
  "and_then r f = Inl e \<longleftrightarrow> r = Inl e \<or> (\<exists>x. r = Inr x \<and> f x = Inl e)"
  by (cases r) auto

lemma and_then_assoc: "and_then (and_then r f) g = and_then r (\<lambda>x. and_then (f x) g)"
  by (cases r) auto

lemma ensure_simps [simp]:
  "ensure b e = Inr u \<longleftrightarrow> b"
  "ensure b e = Inl e' \<longleftrightarrow> \<not> b \<and> e' = e"
  "is_ok (ensure b e) \<longleftrightarrow> b"
  by (auto simp: ensure_def)

lemma ok_or_simps [simp]:
  "ok_or x e = Inr y \<longleftrightarrow> x = Some y"
  "ok_or x e = Inl e' \<longleftrightarrow> x = None \<and> e' = e"
  "ok_or (Some z) e = Inr z" "ok_or None e = Inl e"
  by (auto simp: ok_or_def split: option.splits)

lemma is_ok_iff: "is_ok r \<longleftrightarrow> (\<exists>x. r = Inr x)"
  by (cases r) auto

lemma is_ok_and_then [simp]: "is_ok (and_then r f) \<longleftrightarrow> (\<exists>x. r = Inr x \<and> is_ok (f x))"
  by (cases r) auto

lemma map_err_simps [simp]:
  "map_err f r = Inr x \<longleftrightarrow> r = Inr x"
  "map_err f r = Inl e \<longleftrightarrow> (\<exists>e'. r = Inl e' \<and> e = f e')"
  by (cases r; auto)+

text \<open>\<open>iter().map(f).collect::<Result<Vec<_>, _>>()\<close>: the first error wins.\<close>

fun collect :: "('a \<Rightarrow> 'e + 'b) \<Rightarrow> 'a list \<Rightarrow> 'e + 'b list" where
  "collect f [] = Inr []"
| "collect f (x # xs) = and_then (f x) (\<lambda>y. and_then (collect f xs) (\<lambda>ys. Inr (y # ys)))"

lemma collect_Inr: "collect f xs = Inr ys \<longleftrightarrow> list_all2 (\<lambda>x y. f x = Inr y) xs ys"
  by (induction xs arbitrary: ys) (auto simp: list_all2_Cons1)

lemma collect_Inl: "collect f xs = Inl e \<Longrightarrow> \<exists>x\<in>set xs. f x = Inl e"
  by (induction xs) auto

lemma length_collect: "collect f xs = Inr ys \<Longrightarrow> length ys = length xs"
  by (auto simp: collect_Inr list_all2_lengthD)

lemmas app_splits = if_splits option.splits sum.splits prod.splits

section \<open>Identifiers, numbers and JSON\<close>

type_synonym uuid = "128 word"

text \<open>
  An IEEE double is a dyadic number \<open>m * 2 ^ e\<close>, an infinity or not-a-number. A
  \<open>serde_json::Number\<close> is a non-negative or negative 64-bit integer or a double.
\<close>

datatype f64 = Fin int int | Inf bool | NaN

fun is_finite :: "f64 \<Rightarrow> bool" where
  "is_finite (Fin _ _) = True"
| "is_finite _ = False"

datatype jnum = PosInt "64 word" | NegInt "64 word" | Float f64

fun as_f64_finite :: "jnum \<Rightarrow> bool" where
  "as_f64_finite (Float x) = is_finite x"
| "as_f64_finite _ = True"

datatype json =
    JNull
  | JBool bool
  | JNumber jnum
  | JString rstr
  | JArray "json list"
  | JObject "(rstr \<times> json) list"

fun as_str :: "json \<Rightarrow> rstr option" where
  "as_str (JString s) = Some s"
| "as_str _ = None"

fun as_bool :: "json \<Rightarrow> bool option" where
  "as_bool (JBool b) = Some b"
| "as_bool _ = None"

fun as_array :: "json \<Rightarrow> json list option" where
  "as_array (JArray xs) = Some xs"
| "as_array _ = None"

fun as_i64 :: "json \<Rightarrow> int option" where
  "as_i64 (JNumber (PosInt n)) = (if uint n < 2 ^ 63 then Some (uint n) else None)"
| "as_i64 (JNumber (NegInt n)) = Some (sint n)"
| "as_i64 _ = None"

fun as_object :: "json \<Rightarrow> (rstr \<times> json) list option" where
  "as_object (JObject kvs) = Some kvs"
| "as_object _ = None"

fun json_get :: "json \<Rightarrow> rstr \<Rightarrow> json option" where
  "json_get (JObject kvs) k = map_of kvs k"
| "json_get _ k = None"

lemma as_str_Some [simp]: "as_str v = Some s \<longleftrightarrow> v = JString s"
  by (cases v) auto

lemma as_array_Some [simp]: "as_array v = Some xs \<longleftrightarrow> v = JArray xs"
  by (cases v) auto

section \<open>Lists as Rust uses them\<close>

text \<open>\<open>iter().find(p)\<close> is \<open>List.find\<close>; pushing a value that is not there yet keeps first occurrences.\<close>

lemma find_Some_iff: "List.find P xs = Some x \<Longrightarrow> x \<in> set xs \<and> P x"
  by (induction xs) (auto split: if_splits)

lemma find_None_iff: "List.find P xs = None \<longleftrightarrow> (\<forall>x\<in>set xs. \<not> P x)"
  by (induction xs) auto

lemma find_unique:
  assumes "x \<in> set xs" and "P x" and "\<And>y. y \<in> set xs \<Longrightarrow> P y \<Longrightarrow> y = x"
  shows "List.find P xs = Some x"
proof (cases "List.find P xs")
  case None
  with assms(1,2) show ?thesis by (simp add: find_None_iff)
next
  case (Some y)
  with find_Some_iff [OF this] assms(3) show ?thesis by blast
qed

definition push_new :: "'a \<Rightarrow> 'a list \<Rightarrow> 'a list" where
  "push_new x xs = (if x \<in> set xs then xs else xs @ [x])"

lemma push_new_simps [simp]:
  "set (push_new x xs) = insert x (set xs)"
  "distinct (push_new x xs) \<longleftrightarrow> distinct xs"
  by (auto simp: push_new_def)

section \<open>Tables\<close>

text \<open>A table is the list of its rows; \<open>UPDATE ... WHERE\<close> changes the rows it hits in place.\<close>

definition update_rows :: "('r \<Rightarrow> bool) \<Rightarrow> ('r \<Rightarrow> 'r) \<Rightarrow> 'r list \<Rightarrow> 'r list" where
  "update_rows P f rs = map (\<lambda>r. if P r then f r else r) rs"

definition db_error :: "string \<Rightarrow> AppError" where
  "db_error m = Database (lit m)"

lemma set_update_rows: "set (update_rows P f rs) = (\<lambda>r. if P r then f r else r) ` set rs"
  by (simp add: update_rows_def)

lemma length_update_rows [simp]: "length (update_rows P f rs) = length rs"
  by (simp add: update_rows_def)

lemma map_update_rows: "(\<And>r. g (f r) = g r) \<Longrightarrow> map g (update_rows P f rs) = map g rs"
  by (auto simp: update_rows_def)

lemma filter_update_rows:
  "(\<And>r. Q (f r) = Q r) \<Longrightarrow> filter Q (update_rows P f rs) = update_rows P f (filter Q rs)"
  by (induction rs) (auto simp: update_rows_def)

lemma update_rows_id: "(\<And>r. r \<in> set rs \<Longrightarrow> \<not> P r) \<Longrightarrow> update_rows P f rs = rs"
  by (induction rs) (auto simp: update_rows_def)

lemma distinct_map_update_rows: "(\<And>r. g (f r) = g r) \<Longrightarrow> distinct (map g (update_rows P f rs)) = distinct (map g rs)"
  by (simp add: map_update_rows)

lemma sort_key_update_rows:
  assumes "\<And>r. g (f r) = g r"
  shows "sort_key g (update_rows P f rs) = update_rows P f (sort_key g rs)"
proof -
  have "insort_key g (h x) (map h xs) = map h (insort_key g x xs)" if "\<And>r. g (h r) = g r" for h x xs
    using that by (induction xs) auto
  then have "sort_key g (map h rs) = map h (sort_key g rs)" if "\<And>r. g (h r) = g r" for h
    using that by (induction rs) auto
  then show ?thesis using assms by (simp add: update_rows_def)
qed

section \<open>Runs of a state machine\<close>

text \<open>
  A component with state is a deterministic step function on operations. The locale is the
  contract its operations give: an invariant of the start state that every operation keeps. Its clients get
  the invariant after any sequence of operations.
\<close>

fun run :: "('s \<Rightarrow> 'o \<Rightarrow> 's) \<Rightarrow> 's \<Rightarrow> 'o list \<Rightarrow> 's" where
  "run step s [] = s"
| "run step s (x # xs) = run step (step s x) xs"

lemma run_append: "run step s (xs @ ys) = run step (run step s xs) ys"
  by (induction xs arbitrary: s) auto

locale stepped =
  fixes init :: 's
    and step :: "'s \<Rightarrow> 'o \<Rightarrow> 's"
    and inv :: "'s \<Rightarrow> bool"
  assumes inv_init: "inv init"
    and inv_step: "inv s \<Longrightarrow> inv (step s x)"
begin

lemma inv_run_from: "inv s \<Longrightarrow> inv (run step s xs)"
  by (induction xs arbitrary: s) (auto intro: inv_step)

lemma inv_run: "inv (run step init xs)"
  by (rule inv_run_from [OF inv_init])

end

end
