(* ===== verification/List_Rank.thy ===== *)
theory List_Rank
  imports Prelude "HOL-Library.List_Lexorder"
begin

text \<open>
  The fractional ranks that order the items of a list,
  \<open>src/backend/api/src/lists/rank.rs\<close>. A rank is a string over 62 digits, compared byte by byte
  (the column \<open>list_items.rank\<close> has collation \<open>"C"\<close>), which is the lexicographic
  order of \<open>List_Lexorder\<close>. The main result is that \<open>between\<close> returns a rank strictly
  between its neighbours, so an item can be placed at any position without touching the others.
  The subtraction of two digit positions is on \<open>usize\<close>; the model returns
  \<open>None\<close> where it would overflow, and the theorem shows that it does not on ordered ranks.
\<close>

section \<open>The source\<close>

definition DIGITS :: rstr where
  "DIGITS = lit ''0123456789ABCDEFGHIJKLMNOPQRSTUVWXYZabcdefghijklmnopqrstuvwxyz''"

fun position :: "'a \<Rightarrow> 'a list \<Rightarrow> nat option" where
  "position x [] = None"
| "position x (y # ys) = (if y = x then Some 0 else map_option Suc (position x ys))"

definition digit :: "uchar \<Rightarrow> nat" where
  "digit b = (case position b DIGITS of None \<Rightarrow> 0 | Some i \<Rightarrow> i)"

definition div_ceil :: "nat \<Rightarrow> nat \<Rightarrow> nat" where
  "div_ceil a b = (a + b - 1) div b"

text \<open>How many leading bytes of \<open>high\<close> agree with \<open>low\<close> padded with zeros.\<close>

fun shared_count :: "rstr \<Rightarrow> rstr \<Rightarrow> nat" where
  "shared_count low [] = 0"
| "shared_count [] (h # hs) = (if h = 48 then Suc (shared_count [] hs) else 0)"
| "shared_count (l # ls) (h # hs) = (if h = l then Suc (shared_count ls hs) else 0)"

definition first_digit :: "rstr \<Rightarrow> nat \<Rightarrow> nat" where
  "first_digit s d = (case s of [] \<Rightarrow> d | b # _ \<Rightarrow> digit b)"

function midpoint :: "rstr \<Rightarrow> rstr option \<Rightarrow> rstr option" where
  "midpoint low high =
     (let shared = (case high of None \<Rightarrow> 0 | Some h \<Rightarrow> shared_count low h) in
      if shared > 0
      then map_option ((@) (take shared (the high)))
             (midpoint (drop shared low) (Some (drop shared (the high))))
      else
        let low_digit = first_digit low 0;
            high_digit = (case high of None \<Rightarrow> length DIGITS | Some h \<Rightarrow> first_digit h (length DIGITS))
        in if high_digit < low_digit then None
           else if high_digit - low_digit > 1
           then Some [DIGITS ! div_ceil (low_digit + high_digit) 2]
           else if high \<noteq> None \<and> length (the high) > 1
           then Some [hd (the high)]
           else map_option ((#) (DIGITS ! low_digit)) (midpoint (drop 1 low) None))"
  by pat_completeness auto

lemma length_DIGITS [simp]: "length DIGITS = 62"
  by (simp add: DIGITS_def)

lemma shared_count_le: "shared_count low high \<le> length high"
  by (induction low high rule: shared_count.induct) auto

termination midpoint
proof (relation "measure (\<lambda>(low, high). length low + (case high of None \<Rightarrow> 0 | Some h \<Rightarrow> Suc (length h)))",
    goal_cases)
  case 1
  show ?case by simp
next
  case (2 low high shared)
  then obtain h where "high = Some h" "0 < shared_count low h"
    by (cases high) auto
  with 2 shared_count_le [of low h] show ?case by auto
next
  case (3 low high shared low_digit high_digit)
  then show ?case
    by (cases low; cases high) (auto simp: first_digit_def split: list.splits)
qed

declare midpoint.simps [simp del]

definition between :: "rstr option \<Rightarrow> rstr option \<Rightarrow> rstr option" where
  "between before after = midpoint (case before of None \<Rightarrow> [] | Some b \<Rightarrow> b) after"

section \<open>Digits\<close>

definition rank_char :: "uchar \<Rightarrow> bool" where
  "rank_char c \<longleftrightarrow> c \<in> set DIGITS"

text \<open>A stored rank is a non-empty string of digits that does not end in the digit zero.\<close>

definition valid_rank :: "rstr \<Rightarrow> bool" where
  "valid_rank r \<longleftrightarrow> list_all rank_char r \<and> r \<noteq> [] \<and> last r \<noteq> 48"

lemma rank_char_iff:
  "rank_char c \<longleftrightarrow> (48 \<le> c \<and> c \<le> 57) \<or> (65 \<le> c \<and> c \<le> 90) \<or> (97 \<le> c \<and> c \<le> 122)"
  unfolding rank_char_def DIGITS_def by simp arith

lemma position_Some: "position x xs = Some i \<Longrightarrow> i < length xs \<and> xs ! i = x"
  by (induction xs arbitrary: i) (auto split: if_splits)

lemma position_None: "position x xs = None \<longleftrightarrow> x \<notin> set xs"
  by (induction xs) auto

lemma position_nth: "distinct xs \<Longrightarrow> i < length xs \<Longrightarrow> position (xs ! i) xs = Some i"
proof (induction xs arbitrary: i)
  case Nil
  then show ?case by simp
next
  case (Cons x xs)
  then show ?case by (cases i) auto
qed

lemma strict_sorted_DIGITS: "sorted_wrt (<) DIGITS"
  by (simp add: DIGITS_def)

lemma distinct_DIGITS: "distinct DIGITS"
  using strict_sorted_DIGITS strict_sorted_iff by blast

lemma digit_nth [simp]: "i < 62 \<Longrightarrow> digit (DIGITS ! i) = i"
  by (simp add: digit_def position_nth distinct_DIGITS)

lemma nth_digit: "rank_char c \<Longrightarrow> DIGITS ! digit c = c"
  using position_Some [of c DIGITS] position_None [of c DIGITS]
  by (auto simp: digit_def rank_char_def split: option.splits)

lemma digit_less_62: "digit c < 62"
  using position_Some [of c DIGITS] by (auto simp: digit_def split: option.splits)

lemma DIGITS_mono: "i < j \<Longrightarrow> j < 62 \<Longrightarrow> DIGITS ! i < DIGITS ! j"
  using strict_sorted_DIGITS by (simp add: sorted_wrt_iff_nth_less)

lemma digit_mono_iff: "rank_char a \<Longrightarrow> rank_char b \<Longrightarrow> digit a < digit b \<longleftrightarrow> a < b"
  using DIGITS_mono [of "digit a" "digit b"] DIGITS_mono [of "digit b" "digit a"]
    digit_less_62 nth_digit
  by (metis linorder_neqE_nat order_less_asym)

lemma rank_char_nth [simp]: "i < 62 \<Longrightarrow> rank_char (DIGITS ! i)"
  by (simp add: rank_char_def)

lemma digit_zero [simp]: "digit 48 = 0"
  by (simp add: digit_def DIGITS_def)

lemma nth_zero [simp]: "DIGITS ! 0 = 48"
  by (simp add: DIGITS_def)

lemma nth_neq_zero: "0 < i \<Longrightarrow> i < 62 \<Longrightarrow> DIGITS ! i \<noteq> 48"
  using DIGITS_mono [of 0 i] by simp

lemma div_ceil_between:
  "l + 1 < h \<Longrightarrow> l < div_ceil (l + h) 2 \<and> div_ceil (l + h) 2 < h"
  by (simp add: div_ceil_def) arith

section \<open>An open upper end\<close>

lemma midpoint_None_Nil: "midpoint [] None = Some [DIGITS ! 31]"
  by (subst midpoint.simps) (simp add: first_digit_def div_ceil_def)

lemma midpoint_None_small:
  "digit c \<le> 60 \<Longrightarrow> midpoint (c # low) None = Some [DIGITS ! div_ceil (digit c + 62) 2]"
  by (subst midpoint.simps) (simp add: first_digit_def Let_def less_diff_conv)

lemma midpoint_None_z:
  "digit c = 61 \<Longrightarrow> midpoint (c # low) None = map_option ((#) (DIGITS ! 61)) (midpoint low None)"
  by (subst midpoint.simps) (simp add: first_digit_def Let_def)

lemma midpoint_above:
  assumes "list_all rank_char low"
  shows "\<exists>m. midpoint low None = Some m \<and> valid_rank m \<and> low < m"
  using assms
proof (induction low)
  case Nil
  then show ?case by (simp add: midpoint_None_Nil valid_rank_def nth_neq_zero)
next
  case (Cons c low)
  show ?case
  proof (cases "digit c \<le> 60")
    case True
    let ?d = "div_ceil (digit c + 62) 2"
    have d: "digit c < ?d" "?d < 62" using True div_ceil_between [of "digit c" 62] by auto
    then have "c < DIGITS ! ?d"
      using DIGITS_mono [of "digit c" ?d] nth_digit [of c] Cons.prems by simp
    with True d show ?thesis by (simp add: midpoint_None_small valid_rank_def nth_neq_zero)
  next
    case False
    then have z: "digit c = 61" using digit_less_62 [of c] by simp
    then have c: "DIGITS ! 61 = c" using nth_digit [of c] Cons.prems by simp
    obtain m where "midpoint low None = Some m" "valid_rank m" "low < m"
      using Cons by auto
    with z c Cons.prems show ?thesis by (simp add: midpoint_None_z valid_rank_def)
  qed
qed

section \<open>Between two ranks\<close>

text \<open>
  \<open>gap low high\<close> is what remains of two ordered ranks after their shared prefix is removed:
  their first digits differ.
\<close>

definition gap :: "rstr \<Rightarrow> rstr \<Rightarrow> bool" where
  "gap low high \<longleftrightarrow> list_all rank_char low \<and> valid_rank high \<and> first_digit low 0 < digit (hd high)"

lemma shared_count_gap: "gap low high \<Longrightarrow> shared_count low high = 0"
  by (cases low; cases high) (auto simp: gap_def first_digit_def valid_rank_def)

lemma first_digit_Cons [simp]: "first_digit (c # s) d = digit c"
  by (simp add: first_digit_def)

lemma first_digit_less_62: "first_digit low 0 < 62"
  by (auto simp: first_digit_def digit_less_62 split: list.splits)

lemma less_of_first_digit:
  "list_all rank_char low \<Longrightarrow> rank_char c \<Longrightarrow> first_digit low 0 < digit c \<Longrightarrow> low < c # s"
  by (cases low) (auto simp: first_digit_def digit_mono_iff)

lemma midpoint_in_gap:
  assumes g: "gap low high"
  shows "\<exists>m. midpoint low (Some high) = Some m \<and> valid_rank m \<and> low < m \<and> m < high"
proof -
  obtain h hs where high: "high = h # hs" and h: "rank_char h" "first_digit low 0 < digit h"
    and low: "list_all rank_char low"
    using g by (cases high) (auto simp: gap_def valid_rank_def)
  let ?l = "first_digit low 0" and ?d = "div_ceil (first_digit low 0 + digit h) 2"
  have shared: "shared_count low (h # hs) = 0" using g shared_count_gap high by simp
  consider (wide) "?l + 1 < digit h" | (prefix) "digit h = ?l + 1" "hs \<noteq> []"
    | (tight) "digit h = ?l + 1" "hs = []"
    using h(2) by linarith
  then show ?thesis
  proof cases
    case wide
    then have d: "?l < ?d" "?d < digit h" using div_ceil_between by auto
    then have "?d < 62" using digit_less_62 [of h] by simp
    with d h have "DIGITS ! ?d < h" "low < [DIGITS ! ?d]" "DIGITS ! ?d \<noteq> 48"
      using digit_mono_iff [of "DIGITS ! ?d" h] less_of_first_digit [OF low] nth_neq_zero by auto
    moreover have "midpoint low (Some high) = Some [DIGITS ! ?d]"
      using wide shared
      by (subst midpoint.simps) (simp add: high Let_def less_diff_conv)
    ultimately show ?thesis using \<open>?d < 62\<close> by (simp add: valid_rank_def high)
  next
    case prefix
    then have "midpoint low (Some high) = Some [h]"
      using shared by (subst midpoint.simps) (simp add: high Let_def)
    moreover have "h \<noteq> 48" using h(2) by auto
    ultimately show ?thesis using prefix h less_of_first_digit [OF low h]
      by (auto simp: valid_rank_def high neq_Nil_conv)
  next
    case tight
    have tl: "list_all rank_char (drop 1 low)" using low by (cases low) auto
    obtain m where m: "midpoint (drop 1 low) None = Some m" "valid_rank m" "drop 1 low < m"
      using midpoint_above [OF tl] by blast
    have "midpoint low (Some high) = Some (DIGITS ! ?l # m)"
      using tight shared m by (subst midpoint.simps) (simp add: high Let_def)
    moreover have "low < DIGITS ! ?l # m"
      using m(3) low by (cases low) (auto simp: first_digit_def nth_digit)
    moreover have "DIGITS ! ?l < h"
      using h digit_mono_iff [of "DIGITS ! ?l" h] first_digit_less_62 [of low] by simp
    ultimately show ?thesis
      using m(2) first_digit_less_62 [of low] by (simp add: valid_rank_def high)
  qed
qed

text \<open>Removing the shared prefix of two ordered ranks leaves a gap.\<close>

lemma shared_prefix_gap:
  assumes "list_all rank_char low" "valid_rank high" "low < high"
  shows "gap (drop (shared_count low high) low) (drop (shared_count low high) high)"
  using assms
proof (induction low high rule: shared_count.induct)
  case (1 low)
  then show ?case by (simp add: valid_rank_def)
next
  case (2 h hs)
  show ?case
  proof (cases "h = 48")
    case True
    with 2 have "valid_rank hs" by (auto simp: valid_rank_def split: if_splits)
    moreover then have "[] < hs" by (cases hs) (auto simp: valid_rank_def)
    ultimately show ?thesis using 2 True by simp
  next
    case False
    have "rank_char h" using 2 by (simp add: valid_rank_def)
    then have "48 < h" using False by (auto simp: rank_char_iff)
    then have "0 < digit h" using \<open>rank_char h\<close> digit_mono_iff [of 48 h] by (simp add: rank_char_iff)
    with False 2 show ?thesis by (simp add: gap_def first_digit_def)
  qed
next
  case (3 l ls h hs)
  show ?case
  proof (cases "h = l")
    case True
    with 3 have "ls < hs" by simp
    with 3 True have "valid_rank hs" by (cases hs) (auto simp: valid_rank_def)
    with 3 True \<open>ls < hs\<close> show ?thesis by simp
  next
    case False
    with 3 show ?thesis by (auto simp: gap_def first_digit_def digit_mono_iff valid_rank_def)
  qed
qed

lemma shared_prefix_low:
  "take (shared_count low high) high = take (shared_count low high) low
     @ replicate (shared_count low high - length low) 48"
  by (induction low high rule: shared_count.induct) auto

lemma less_append_same: "xs < ys \<Longrightarrow> zs @ xs < zs @ (ys :: rstr)"
  by (induction zs) auto

lemma less_append_more: "ys \<noteq> [] \<Longrightarrow> xs < xs @ (ys :: rstr)"
  by (induction xs) (auto simp: neq_Nil_conv)

lemma below_shared_prefix:
  fixes low high m :: rstr
  assumes "drop n low < m" and t: "take n high = take n low @ replicate (n - length low) 48"
  shows "low < take n high @ m"
proof (cases "length low < n")
  case True
  then show ?thesis using less_append_more [of "replicate (n - length low) 48 @ m" low] t by (simp add: neq_Nil_conv)
next
  case False
  then have "take n high = take n low" using t by simp
  then show ?thesis using less_append_same [OF assms(1), of "take n low"] by simp
qed

lemma midpoint_shared:
  "shared_count low high > 0 \<Longrightarrow> midpoint low (Some high) =
     map_option ((@) (take (shared_count low high) high))
       (midpoint (drop (shared_count low high) low) (Some (drop (shared_count low high) high)))"
  by (subst midpoint.simps) (simp add: Let_def)

lemma midpoint_between:
  assumes low: "list_all rank_char low" and high: "valid_rank high" and less: "low < high"
  shows "\<exists>m. midpoint low (Some high) = Some m \<and> valid_rank m \<and> low < m \<and> m < high"
proof -
  let ?n = "shared_count low high"
  obtain m where m: "midpoint (drop ?n low) (Some (drop ?n high)) = Some m" "valid_rank m"
    "drop ?n low < m" "m < drop ?n high"
    using midpoint_in_gap [OF shared_prefix_gap [OF low high less]] by blast
  have eq: "midpoint low (Some high) = Some (take ?n high @ m)"
    using m(1) midpoint_shared [of low high] by (cases "?n = 0") auto
  have "low < take ?n high @ m" by (rule below_shared_prefix [OF m(3) shared_prefix_low])
  moreover have "take ?n high @ m < high"
    using less_append_same [OF m(4), of "take ?n high"] by simp
  moreover have "valid_rank (take ?n high @ m)"
    using m(2) high by (auto simp: valid_rank_def list_all_iff dest: in_set_takeD)
  ultimately show ?thesis using eq by blast
qed

section \<open>The contract of \<open>between\<close>\<close>

text \<open>
  What a client that keeps ranked rows relies on: for ordered neighbours, either of which may
  be missing, a rank exists, is valid and lies strictly between them. The client's
  consequence: with a fresh rank below every rank of the suffix and above
  every rank of the prefix, a sorted sequence stays sorted.
\<close>

locale fractional_rank =
  fixes valid :: "'r \<Rightarrow> bool"
    and less_rank :: "'r \<Rightarrow> 'r \<Rightarrow> bool"
    and mid :: "'r option \<Rightarrow> 'r option \<Rightarrow> 'r option"
  assumes rank_trans: "less_rank a b \<Longrightarrow> less_rank b c \<Longrightarrow> less_rank a c"
    and mid_ok: "pred_option valid lo \<Longrightarrow> pred_option valid hi \<Longrightarrow>
      (\<And>a b. lo = Some a \<Longrightarrow> hi = Some b \<Longrightarrow> less_rank a b) \<Longrightarrow>
      \<exists>m. mid lo hi = Some m \<and> valid m \<and> (\<forall>a. lo = Some a \<longrightarrow> less_rank a m)
        \<and> (\<forall>b. hi = Some b \<longrightarrow> less_rank m b)"
begin

definition last_opt :: "'r list \<Rightarrow> 'r option" where
  "last_opt xs = (if xs = [] then None else Some (last xs))"

definition hd_opt :: "'r list \<Rightarrow> 'r option" where
  "hd_opt xs = (if xs = [] then None else Some (hd xs))"

lemma sorted_insert_mid:
  assumes srt: "sorted_wrt less_rank (xs @ ys)" and v: "list_all valid (xs @ ys)"
  shows "\<exists>m. mid (last_opt xs) (hd_opt ys) = Some m \<and> valid m
    \<and> sorted_wrt less_rank (xs @ m # ys)"
proof -
  have lh: "less_rank (last xs) (hd ys)" if "xs \<noteq> []" "ys \<noteq> []"
    using srt that by (simp add: sorted_wrt_append)
  obtain m where m: "mid (last_opt xs) (hd_opt ys) = Some m" "valid m"
    "\<forall>a. last_opt xs = Some a \<longrightarrow> less_rank a m" "\<forall>b. hd_opt ys = Some b \<longrightarrow> less_rank m b"
  proof -
    have "pred_option valid (last_opt xs)" "pred_option valid (hd_opt ys)"
      using v by (auto simp: last_opt_def hd_opt_def list_all_iff)
    moreover have "less_rank a b" if "last_opt xs = Some a" "hd_opt ys = Some b" for a b
      using that lh by (auto simp: last_opt_def hd_opt_def split: if_splits)
    ultimately show ?thesis using mid_ok [of "last_opt xs" "hd_opt ys"] that by blast
  qed
  have xs_m: "\<forall>x\<in>set xs. less_rank x m"
  proof (cases xs rule: rev_cases)
    case (snoc as a)
    with m(3) srt show ?thesis
      by (auto simp: last_opt_def sorted_wrt_append intro: rank_trans)
  qed simp
  have m_ys: "\<forall>y\<in>set ys. less_rank m y"
  proof (cases ys)
    case (Cons b bs)
    with m(4) srt show ?thesis
      by (auto simp: hd_opt_def sorted_wrt_append intro: rank_trans)
  qed simp
  show ?thesis using m(1,2) xs_m m_ys srt by (auto simp: sorted_wrt_append)
qed

end

interpretation rank: fractional_rank valid_rank "(<)" between
proof (unfold_locales, goal_cases)
  case (1 a b c)
  then show ?case by (rule less_trans)
next
  case (2 lo hi)
  have lo: "list_all rank_char (case lo of None \<Rightarrow> [] | Some b \<Rightarrow> b)"
    using 2(1) by (auto simp: valid_rank_def split: option.splits)
  show ?case
  proof (cases hi)
    case None
    with midpoint_above [OF lo] show ?thesis by (auto simp: between_def)
  next
    case (Some b)
    have "(case lo of None \<Rightarrow> [] | Some b \<Rightarrow> b) < b"
      using 2 Some by (cases lo) (auto simp: valid_rank_def neq_Nil_conv)
    with midpoint_between [OF lo, of b] 2(2) Some show ?thesis by (auto simp: between_def)
  qed
qed

text \<open>
  C1. \<open>rank::between\<close> is total on ordered ranks (its subtraction never overflows), and its result is a valid rank
  strictly above the lower neighbour and strictly below the upper one; a missing neighbour
  is an open end.
\<close>

theorem between_strict:
  assumes "pred_option valid_rank low" and "pred_option valid_rank high"
    and "\<forall>a b. low = Some a \<and> high = Some b \<longrightarrow> a < b"
  shows "\<exists>m. between low high = Some m \<and> valid_rank m
    \<and> (\<forall>a. low = Some a \<longrightarrow> a < m) \<and> (\<forall>b. high = Some b \<longrightarrow> m < b)"
  using rank.mid_ok [of low high] assms by blast

theorem between_strict_witness:
  "\<exists>m. between (Some (lit ''az'')) (Some (lit ''b'')) = Some m \<and> valid_rank m
     \<and> lit ''az'' < m \<and> m < lit ''b''"
  using between_strict [of "Some (lit ''az'')" "Some (lit ''b'')"]
  by (simp add: valid_rank_def rank_char_iff)

end
