(* ===== verification/Validation.thy ===== *)
theory Validation
  imports Prelude
begin

text \<open>
  The field validators of \<open>src/backend/shared/common/src/validation.rs\<close> and the adapter module
  \<open>rules\<close> that request types name. Each validator keeps the order of its checks, so the message a
  caller sees is the one the source returns. \<open>len()\<close> counts bytes and \<open>chars().count()\<close>
  counts characters, as in the source.
\<close>

section \<open>Validators\<close>

definition validate_email :: "rstr \<Rightarrow> unit AppResult" where
  "validate_email email =
     (if str_len email > 255 then Inl (Validation (lit ''Invalid email address''))
      else case split_once email 64 of
        None \<Rightarrow> Inl (Validation (lit ''Invalid email address''))
      | Some (local, domain) \<Rightarrow>
          if local = [] \<or> domain = [] \<or> 46 \<notin> set domain
             \<or> starts_with domain (lit ''.'') \<or> ends_with domain (lit ''.'')
          then Inl (Validation (lit ''Invalid email address''))
          else Inr ())"

definition validate_password :: "rstr \<Rightarrow> unit AppResult" where
  "validate_password password = (if str_len password < 8 then Inl (Validation (lit ''Password must be at least 8 characters''))
     else if str_len password > 128 then Inl (Validation (lit ''Password must be at most 128 characters''))
     else Inr ())"

definition validate_display_name :: "rstr \<Rightarrow> unit AppResult" where
  "validate_display_name name = (let trimmed = trim name in
     if trimmed = [] then Inl (Validation (lit ''Display name cannot be empty''))
     else if str_len trimmed > 100 then Inl (Validation (lit ''Display name must be at most 100 characters''))
     else Inr ())"

definition validate_workspace_name :: "rstr \<Rightarrow> unit AppResult" where
  "validate_workspace_name name = (let trimmed = trim name in
     if trimmed = [] then Inl (Validation (lit ''Workspace name cannot be empty''))
     else if str_len trimmed > 100 then Inl (Validation (lit ''Workspace name must be at most 100 characters''))
     else Inr ())"

definition validate_channel_name :: "rstr \<Rightarrow> unit AppResult" where
  "validate_channel_name name = (let trimmed = trim name in
     if trimmed = [] then Inl (Validation (lit ''Channel name cannot be empty''))
     else if str_len trimmed > 80 then Inl (Validation (lit ''Channel name must be at most 80 characters''))
     else Inr ())"

definition validate_message_content :: "rstr \<Rightarrow> unit AppResult" where
  "validate_message_content content = (if trim content = [] then Inl (Validation (lit ''Message content cannot be empty''))
     else if str_len content > 4000 then Inl (Validation (lit ''Message content must be at most 4000 characters''))
     else Inr ())"

definition validate_message_body :: "rstr \<Rightarrow> unit AppResult" where
  "validate_message_body content = (if str_len content > 4000 then Inl (Validation (lit ''Message content must be at most 4000 characters'')) else Inr ())"

definition validate_avatar_url :: "rstr \<Rightarrow> unit AppResult" where
  "validate_avatar_url url = (if str_len url > 500 then Inl (Validation (lit ''Avatar URL must be at most 500 characters''))
     else
       let is_absolute = (starts_with url (lit ''http://'') \<or> starts_with url (lit ''https://''));
           is_site_relative = (starts_with url (lit ''/'') \<and> \<not> starts_with url (lit ''//''))
       in if \<not> is_absolute \<and> \<not> is_site_relative
          then Inl (Validation (lit ''Avatar URL must be an http(s) or site-relative URL''))
          else Inr ())"

definition emoji_name_char :: "uchar \<Rightarrow> bool" where
  "emoji_name_char c \<longleftrightarrow> is_ascii_lowercase c \<or> is_ascii_digit c \<or> c = 95 \<or> c = 45"

definition custom_emoji_name :: "rstr \<Rightarrow> rstr option" where
  "custom_emoji_name emoji = (case strip_prefix emoji (lit '':'') of
       None \<Rightarrow> None
     | Some rest \<Rightarrow>
         (case strip_suffix rest (lit '':'') of
            None \<Rightarrow> None
          | Some name \<Rightarrow>
              if 2 \<le> str_len name \<and> str_len name \<le> 32 \<and> list_all emoji_name_char name
              then Some name else None))"

definition validate_reaction_emoji :: "rstr \<Rightarrow> unit AppResult" where
  "validate_reaction_emoji emoji = (if custom_emoji_name emoji \<noteq> None then Inr ()
     else if emoji = [] then Inl (Validation (lit ''Reaction cannot be empty''))
     else if length emoji > 8 then Inl (Validation (lit ''Reaction must be at most 8 characters''))
     else if list_ex is_control emoji then Inl (Validation (lit ''Reaction cannot contain control characters''))
     else Inr ())"

definition validate_reminder_content :: "rstr \<Rightarrow> unit AppResult" where
  "validate_reminder_content content = (if trim content = [] then Inl (Validation (lit ''Reminder content cannot be empty''))
     else if str_len content > 4000 then Inl (Validation (lit ''Reminder content must be at most 4000 characters''))
     else Inr ())"

definition validate_channel_topic :: "rstr \<Rightarrow> unit AppResult" where
  "validate_channel_topic topic = (if str_len topic > 500 then Inl (Validation (lit ''Channel topic must be at most 500 characters'')) else Inr ())"

definition validate_description :: "rstr \<Rightarrow> unit AppResult" where
  "validate_description description = (if str_len description > 4000 then Inl (Validation (lit ''Description must be at most 4000 characters'')) else Inr ())"

definition validate_hook_name :: "rstr \<Rightarrow> unit AppResult" where
  "validate_hook_name name = (let trimmed = trim name in
     if trimmed = [] then Inl (Validation (lit ''Integration name cannot be empty''))
     else if str_len trimmed > 100 then Inl (Validation (lit ''Integration name must be at most 100 characters''))
     else Inr ())"

definition validate_hex_colour :: "rstr \<Rightarrow> unit AppResult" where
  "validate_hex_colour colour = (let digits = (case strip_prefix colour (lit ''#'') of None \<Rightarrow> [] | Some d \<Rightarrow> d) in
     if str_len digits \<noteq> 6 \<or> \<not> list_all is_ascii_hexdigit digits
     then Inl (Validation (lit ''A colour must be # followed by six hex digits''))
     else Inr ())"

definition validate_bio :: "rstr \<Rightarrow> unit AppResult" where
  "validate_bio bio = (if str_len bio > 500 then Inl (Validation (lit ''Bio must be at most 500 characters'')) else Inr ())"

definition validate_timezone :: "rstr \<Rightarrow> unit AppResult" where
  "validate_timezone timezone = (if timezone = [] \<or> str_len timezone > 50
     then Inl (Validation (lit ''Timezone must be between 1 and 50 characters''))
     else if \<not> list_all (\<lambda>c. is_ascii_alphanumeric c \<or> c = 47 \<or> c = 95 \<or> c = 45 \<or> c = 43) timezone
     then Inl (Validation (lit ''Timezone must be an IANA name, e.g. Europe/Belgrade''))
     else Inr ())"

definition validate_icon_url :: "rstr \<Rightarrow> unit AppResult" where
  "validate_icon_url url = validate_avatar_url url"

text \<open>The version nibble of a UUID is the high half of its seventh byte (bits 76 to 79).\<close>

definition get_version_num :: "uuid \<Rightarrow> uuid" where
  "get_version_num u = (u div 2 ^ 76) mod 16"

definition validate_client_message_id :: "uuid \<Rightarrow> unit AppResult" where
  "validate_client_message_id u = (if u = 0 \<or> get_version_num u \<noteq> 4
     then Inl (Validation (lit ''client_message_id must be a version 4 UUID''))
     else Inr ())"

definition validate_bookmark_label :: "rstr \<Rightarrow> unit AppResult" where
  "validate_bookmark_label label = (let trimmed = trim label in
     if trimmed = [] then Inl (Validation (lit ''Bookmark needs a label''))
     else if length trimmed > 80 then Inl (Validation (lit ''Bookmark label must be at most 80 characters''))
     else Inr ())"

definition validate_bookmark_url :: "rstr \<Rightarrow> unit AppResult" where
  "validate_bookmark_url url = (if str_len url > 2000 then Inl (Validation (lit ''Bookmark URL must be at most 2000 characters''))
     else if \<not> (starts_with url (lit ''http://'') \<or> starts_with url (lit ''https://''))
     then Inl (Validation (lit ''Bookmark URL must start with http:// or https://''))
     else if list_ex is_control url then Inl (Validation (lit ''Bookmark URL cannot contain control characters''))
     else Inr ())"

definition validate_status_text :: "rstr \<Rightarrow> unit AppResult" where
  "validate_status_text text = (if length text > 100 then Inl (Validation (lit ''Status must be at most 100 characters''))
     else if list_ex is_control text then Inl (Validation (lit ''Status cannot contain control characters''))
     else Inr ())"

definition validate_title :: "rstr \<Rightarrow> unit AppResult" where
  "validate_title title = (if length (trim title) > 100 then Inl (Validation (lit ''Title must be at most 100 characters''))
     else if list_ex is_control title then Inl (Validation (lit ''Title cannot contain control characters''))
     else Inr ())"

definition validate_pronouns :: "rstr \<Rightarrow> unit AppResult" where
  "validate_pronouns pronouns = (if length (trim pronouns) > 30 then Inl (Validation (lit ''Pronouns must be at most 30 characters''))
     else if list_ex is_control pronouns then Inl (Validation (lit ''Pronouns cannot contain control characters''))
     else Inr ())"

definition validate_status_emoji :: "rstr \<Rightarrow> unit AppResult" where
  "validate_status_emoji emoji = (if custom_emoji_name emoji \<noteq> None then Inr ()
     else if length emoji > 16 then Inl (Validation (lit ''Status emoji must be at most 16 characters''))
     else if list_ex is_control emoji \<or> list_ex is_whitespace emoji
     then Inl (Validation (lit ''Status emoji is not an emoji''))
     else Inr ())"

definition validate_notification_keyword :: "rstr \<Rightarrow> unit AppResult" where
  "validate_notification_keyword keyword = (let trimmed = trim keyword; len = length trimmed in
     if \<not> (2 \<le> len \<and> len \<le> 64) then Inl (Validation (lit ''A keyword must be 2 to 64 characters''))
     else if starts_with trimmed (lit ''@'') \<or> starts_with trimmed (lit ''#'')
     then Inl (Validation (lit ''A keyword cannot start with @ or #''))
     else if list_ex is_control trimmed then Inl (Validation (lit ''A keyword cannot contain control characters''))
     else Inr ())"

section \<open>The rules module\<close>

text \<open>
  \<open>rules::adapt\<close> turns a validator's error into the message a \<open>garde\<close> report carries. The
  validators of this file only raise \<open>Validation\<close>; another error is shown with its
  display prefix (\<open>thiserror\<close>'s format strings).
\<close>

fun adapt :: "unit AppResult \<Rightarrow> rstr + unit" where
  "adapt (Inl (Validation m)) = Inl m"
| "adapt (Inl other) = Inl (error_text other)"
| "adapt (Inr u) = Inr u"

definition avatar_url_or_empty :: "rstr \<Rightarrow> rstr + unit" where
  "avatar_url_or_empty v = (if v = [] then Inr () else adapt (validate_avatar_url v))"

definition icon_url_or_empty :: "rstr \<Rightarrow> rstr + unit" where
  "icon_url_or_empty v = (if v = [] then Inr () else adapt (validate_icon_url v))"

definition display_name_or_blank :: "rstr \<Rightarrow> rstr + unit" where
  "display_name_or_blank v = (if trim v = [] then Inr () else adapt (validate_display_name v))"

definition status_text_or_blank :: "rstr \<Rightarrow> rstr + unit" where
  "status_text_or_blank v =
     (let trimmed = trim v in if trimmed = [] then Inr () else adapt (validate_status_text trimmed))"

definition status_emoji_or_blank :: "rstr \<Rightarrow> rstr + unit" where
  "status_emoji_or_blank v =
     (let trimmed = trim v in if trimmed = [] then Inr () else adapt (validate_status_emoji trimmed))"

definition client_message_id :: "uuid \<Rightarrow> rstr + unit" where
  "client_message_id v = adapt (validate_client_message_id v)"

section \<open>What acceptance means\<close>

lemmas validator_defs = validate_email_def validate_password_def validate_display_name_def
  validate_workspace_name_def validate_channel_name_def validate_message_content_def
  validate_message_body_def validate_avatar_url_def validate_reaction_emoji_def
  validate_reminder_content_def validate_channel_topic_def validate_description_def
  validate_hook_name_def validate_hex_colour_def validate_bio_def validate_timezone_def
  validate_icon_url_def validate_client_message_id_def validate_bookmark_label_def
  validate_bookmark_url_def validate_status_text_def validate_title_def validate_pronouns_def
  validate_status_emoji_def validate_notification_keyword_def

lemma adapt_Inr [simp]: "adapt r = Inr u \<longleftrightarrow> r = Inr u"
  by (induction r rule: adapt.induct) auto

text \<open>
  \<open>validate_email\<close> accepts exactly the strings of at most 255 bytes that split at their
  first \<open>@\<close> into a non-empty local part and a domain that has a dot, but not at either
  end.
\<close>

theorem validate_email_iff:
  "validate_email email = Inr () \<longleftrightarrow>
     str_len email \<le> 255 \<and>
     (\<exists>local domain. email = local @ 64 # domain \<and> 64 \<notin> set local \<and> local \<noteq> []
        \<and> 46 \<in> set domain \<and> hd domain \<noteq> 46 \<and> last domain \<noteq> 46)"
proof -
  have dot: "domain \<noteq> [] \<and> 46 \<in> set domain \<and> \<not> starts_with domain (lit ''.'')
      \<and> \<not> ends_with domain (lit ''.'') \<longleftrightarrow> 46 \<in> set domain \<and> hd domain \<noteq> 46 \<and> last domain \<noteq> 46"
    for domain
    by (cases domain) auto
  show ?thesis (is "?L \<longleftrightarrow> _ \<and> ?R")
  proof (cases "split_once email 64")
    case None
    then have "64 \<notin> set email" by (simp add: split_once_None)
    then show ?thesis using None by (auto simp: validate_email_def)
  next
    case (Some p)
    then obtain local domain where p: "split_once email 64 = Some (local, domain)" by (cases p) auto
    have "?R \<longleftrightarrow> local \<noteq> [] \<and> 46 \<in> set domain \<and> hd domain \<noteq> 46 \<and> last domain \<noteq> 46"
      using split_once_Some [OF p] split_once_join [of 64] p by (metis Pair_inject option.inject)
    then show ?thesis using p dot [of domain] by (auto simp: validate_email_def)
  qed
qed

text \<open>
  C3. A bookmark is rendered as a link for others, so an accepted one is an absolute \<open>http\<close> or \<open>https\<close>
  URL without control characters: whatever its letter case or padding, no accepted string
  has another scheme.
\<close>

theorem validate_bookmark_url_safe:
  assumes "validate_bookmark_url url = Inr ()"
  shows "\<exists>rest. (url = lit ''http://'' @ rest \<or> url = lit ''https://'' @ rest)
      \<and> str_len url \<le> 2000 \<and> list_all (\<lambda>c. \<not> is_control c) rest"
proof -
  have "\<exists>rest. url = lit ''http://'' @ rest \<or> url = lit ''https://'' @ rest"
    using assms by (auto simp: validate_bookmark_url_def starts_with_prefix prefix_def split: if_splits)
  then show ?thesis
    using assms by (auto simp: validate_bookmark_url_def list_ex_iff list_all_iff split: if_splits)
qed

theorem validate_bookmark_url_safe_witness:
  "\<exists>rest. (lit ''https://x.dev'' = lit ''http://'' @ rest \<or> lit ''https://x.dev'' = lit ''https://'' @ rest)
      \<and> str_len (lit ''https://x.dev'') \<le> 2000 \<and> list_all (\<lambda>c. \<not> is_control c) rest"
  by (rule validate_bookmark_url_safe) (simp add: validate_bookmark_url_def starts_with_def utf8_len_def is_control_def)

lemma emoji_name_ascii: "list_all emoji_name_char name \<Longrightarrow> str_len name = length name"
  by (rule str_len_ascii) (auto simp: list_all_iff emoji_name_char_def char_class_defs)

text \<open>
  Wrapping a name in colons and reading it back is the identity, and
  \<open>custom_emoji_name\<close> reads a shortcode only from such a string: the names are exactly the 2 to 32 character
  strings over lower-case letters, digits, \<open>_\<close> and \<open>-\<close>.
\<close>

theorem custom_emoji_name_iff:
  "custom_emoji_name emoji = Some name \<longleftrightarrow>
     emoji = lit '':'' @ name @ lit '':'' \<and> 2 \<le> length name \<and> length name \<le> 32
     \<and> list_all emoji_name_char name"
proof
  assume "custom_emoji_name emoji = Some name"
  then show "emoji = lit '':'' @ name @ lit '':'' \<and> 2 \<le> length name \<and> length name \<le> 32
     \<and> list_all emoji_name_char name"
    by (auto simp: custom_emoji_name_def strip_prefix_Some strip_suffix_Some emoji_name_ascii
        split: option.splits if_splits)
next
  assume "emoji = lit '':'' @ name @ lit '':'' \<and> 2 \<le> length name \<and> length name \<le> 32
     \<and> list_all emoji_name_char name"
  then show "custom_emoji_name emoji = Some name"
    by (simp add: custom_emoji_name_def emoji_name_ascii)
qed

end
