(* ===== verification/Workspace.thy ===== *)
theory Workspace
  imports Prelude
begin

text \<open>
  Workspaces, channels, members and roles: \<open>src/backend/api/src/workspace/models.rs\<close>, with the
  lookups of \<open>workspace/repo.rs\<close> and \<open>conversations/repo.rs\<close> that authorisation uses. The rows
  of the database are lists of records, a timestamp is its number of microseconds.
\<close>

type_synonym timestamp = int

definition SECOND :: timestamp where "SECOND = 1000000"

section \<open>Roles\<close>

datatype WorkspaceRole = Guest | Member | Admin | Owner

fun level :: "WorkspaceRole \<Rightarrow> 8 word" where
  "level Guest = 10"
| "level Member = 20"
| "level Admin = 40"
| "level Owner = 50"

definition has_at_least :: "WorkspaceRole \<Rightarrow> WorkspaceRole \<Rightarrow> bool" where
  "has_at_least r minimum \<longleftrightarrow> level minimum \<le> level r"

text \<open>\<open>{:?}\<close> of a role, as the error messages print it.\<close>

fun role_debug :: "WorkspaceRole \<Rightarrow> rstr" where
  "role_debug Guest = lit ''Guest''"
| "role_debug Member = lit ''Member''"
| "role_debug Admin = lit ''Admin''"
| "role_debug Owner = lit ''Owner''"

text \<open>The derived \<open>PartialOrd\<close> of the enum is the order of the levels.\<close>

lemma level_inj: "level a = level b \<Longrightarrow> a = b"
  by (cases a; cases b) simp_all

instantiation WorkspaceRole :: linorder
begin

definition less_eq_WorkspaceRole :: "WorkspaceRole \<Rightarrow> WorkspaceRole \<Rightarrow> bool" where
  "less_eq_WorkspaceRole a b \<longleftrightarrow> level a \<le> level b"

definition less_WorkspaceRole :: "WorkspaceRole \<Rightarrow> WorkspaceRole \<Rightarrow> bool" where
  "less_WorkspaceRole a b \<longleftrightarrow> level a < level b"

instance
  by standard (auto simp: less_eq_WorkspaceRole_def less_WorkspaceRole_def intro: level_inj)

end

lemma has_at_least_iff: "has_at_least r m \<longleftrightarrow> m \<le> r"
  by (simp add: has_at_least_def less_eq_WorkspaceRole_def)

section \<open>Channels and members\<close>

datatype ChannelType = Public | Private | Dm | GroupDm

datatype ChannelRole = ChMember | ChAdmin

datatype PostPolicy = Everyone | Moderators

record Channel =
  ch_id :: uuid
  ch_workspace_id :: uuid
  ch_name :: "rstr option"
  channel_type :: ChannelType
  ch_topic :: "rstr option"
  ch_description :: "rstr option"
  ch_created_by :: "uuid option"
  is_default :: bool
  is_archived :: bool
  ch_settings :: json
  ch_created_at :: timestamp
  ch_updated_at :: timestamp

record WorkspaceMember =
  wm_workspace_id :: uuid
  wm_user_id :: uuid
  role :: WorkspaceRole
  wm_joined_at :: timestamp
  is_bot :: bool

record ChannelMember =
  cm_channel_id :: uuid
  cm_user_id :: uuid
  cm_role :: ChannelRole
  last_read_at :: "timestamp option"
  last_read_msg :: "uuid option"
  is_starred :: bool
  cm_joined_at :: timestamp

record Workspace =
  ws_id :: uuid
  ws_owner_id :: uuid
  ws_settings :: json
  ws_is_active :: bool

section \<open>Workspace rules\<close>

datatype WhoMay = Members | Admins

definition WORKFLOW_BUILDERS :: rstr where
  "WORKFLOW_BUILDERS = lit ''workflow_builders''"

definition BROADCAST_MENTIONS :: rstr where
  "BROADCAST_MENTIONS = lit ''broadcast_mentions''"

definition PUBLIC_CHANNEL_CREATORS :: rstr where
  "PUBLIC_CHANNEL_CREATORS = lit ''public_channel_creators''"

definition PRIVATE_CHANNEL_CREATORS :: rstr where
  "PRIVATE_CHANNEL_CREATORS = lit ''private_channel_creators''"

fun who_may_as_str :: "WhoMay \<Rightarrow> rstr" where
  "who_may_as_str Members = lit ''members''"
| "who_may_as_str Admins = lit ''admins''"

definition who_may_of :: "json \<Rightarrow> rstr \<Rightarrow> WhoMay" where
  "who_may_of settings key =
     (if Option.bind (json_get settings key) as_str = Some (lit ''admins'') then Admins else Members)"

fun who_may_allows :: "WhoMay \<Rightarrow> WorkspaceRole \<Rightarrow> bool" where
  "who_may_allows Members r = has_at_least r Member"
| "who_may_allows Admins r = has_at_least r Admin"

text \<open>\<open>UpdateWorkspaceRequest::settings_patch\<close>: only the fields the request carries.\<close>

record UpdateWorkspaceRequest =
  link_previews :: "bool option"
  workflow_builders :: "WhoMay option"
  broadcast_mentions :: "WhoMay option"
  public_channel_creators :: "WhoMay option"
  private_channel_creators :: "WhoMay option"

definition settings_patch :: "UpdateWorkspaceRequest \<Rightarrow> (rstr \<times> json) list" where
  "settings_patch req =
     (case link_previews req of None \<Rightarrow> [] | Some on \<Rightarrow> [(lit ''link_previews'', JBool on)])
     @ concat (map (\<lambda>(key, rule).
         case rule of None \<Rightarrow> [] | Some r \<Rightarrow> [(key, JString (who_may_as_str r))])
         [(WORKFLOW_BUILDERS, workflow_builders req),
          (BROADCAST_MENTIONS, broadcast_mentions req),
          (PUBLIC_CHANNEL_CREATORS, public_channel_creators req),
          (PRIVATE_CHANNEL_CREATORS, private_channel_creators req)])"

section \<open>Invites\<close>

record CreateInviteRequest =
  ci_email :: "rstr option"
  ci_role :: "WorkspaceRole option"
  ci_expires_in_hours :: "64 word option"
  ci_max_uses :: "32 word option"

record InviteLifetime =
  max_uses :: "32 word"
  expires_in_hours :: "64 word"

definition MAX_HOURS :: int where
  "MAX_HOURS = 168"

definition MAX_LINK_USES :: int where
  "MAX_LINK_USES = 100"

definition resolve_invite :: "CreateInviteRequest \<Rightarrow> InviteLifetime AppResult" where
  "resolve_invite req =
     (let hours = (case ci_expires_in_hours req of None \<Rightarrow> word_of_int MAX_HOURS | Some h \<Rightarrow> h) in
      if \<not> (1 \<le> sint hours \<and> sint hours \<le> MAX_HOURS)
      then Inl (Validation (lit ''An invite lasts between 1 and 168 hours''))
      else and_then
        (case ci_email req of
           Some _ \<Rightarrow> Inr (case ci_max_uses req of None \<Rightarrow> 1 | Some n \<Rightarrow> n)
         | None \<Rightarrow> ok_or (ci_max_uses req)
             (Validation (lit ''A link invite must say how many people it is for'')))
        (\<lambda>uses.
          if \<not> (1 \<le> sint uses \<and> sint uses \<le> MAX_LINK_USES)
          then Inl (Validation (lit ''An invite is good for between 1 and 100 uses''))
          else Inr \<lparr>max_uses = uses, expires_in_hours = hours\<rparr>))"

text \<open>
  Every invite is bounded: whatever the request asks for, an accepted invite has between 1
  and 100 uses and lives between 1 and 168 hours, and a link invite (one with no email
  address) that does not say how many people it is for is refused.
\<close>

theorem resolve_invite_bounded:
  "(case resolve_invite req of
      Inr life \<Rightarrow> 1 \<le> sint (max_uses life) \<and> sint (max_uses life) \<le> 100
        \<and> 1 \<le> sint (expires_in_hours life) \<and> sint (expires_in_hours life) \<le> 168
        \<and> (ci_email req \<noteq> None \<or> ci_max_uses req = Some (max_uses life))
    | Inl e \<Rightarrow> \<exists>m. e = Validation m)"
  by (cases "ci_email req"; cases "ci_max_uses req"; cases "ci_expires_in_hours req")
     (simp_all add: resolve_invite_def MAX_HOURS_def MAX_LINK_USES_def Let_def)

theorem resolve_invite_bounded_witness:
  "\<exists>life. resolve_invite \<lparr>ci_email = None, ci_role = None, ci_expires_in_hours = None, ci_max_uses = Some 5\<rparr>
     = Inr life \<and> sint (expires_in_hours life) \<le> 168"
proof -
  let ?req = "\<lparr>ci_email = None, ci_role = None, ci_expires_in_hours = None, ci_max_uses = Some 5\<rparr>"
  obtain life where "resolve_invite ?req = Inr life"
    by (simp add: resolve_invite_def MAX_HOURS_def MAX_LINK_USES_def Let_def)
  then show ?thesis using resolve_invite_bounded [of ?req] by simp
qed

section \<open>Lookups\<close>

text \<open>
  The tables authorisation reads. A user row keeps its status and whether it is a bot, a
  departure row who left a direct conversation and when.
\<close>

datatype UserStatus = Pending | Active | Suspended

record User =
  u_id :: uuid
  display_name :: "rstr option"
  u_is_bot :: bool
  status :: UserStatus

record MemberRow =
  mr_workspace_id :: uuid
  mr_user_id :: uuid
  mr_role :: WorkspaceRole
  mr_joined_at :: timestamp

record DepartureRow =
  d_channel_id :: uuid
  d_user_id :: uuid
  left_at :: timestamp

record tables =
  users :: "User list"
  workspaces :: "Workspace list"
  workspace_members :: "MemberRow list"
  channels :: "Channel list"
  channel_members :: "ChannelMember list"
  conversation_departures :: "DepartureRow list"

definition get_member :: "tables \<Rightarrow> uuid \<Rightarrow> uuid \<Rightarrow> WorkspaceMember option" where
  "get_member T w u =
     (case List.find (\<lambda>r. mr_workspace_id r = w \<and> mr_user_id r = u
                        \<and> (\<exists>x\<in>set (users T). u_id x = mr_user_id r)) (workspace_members T) of
        None \<Rightarrow> None
      | Some r \<Rightarrow> map_option (\<lambda>x.
          \<lparr>wm_workspace_id = mr_workspace_id r, wm_user_id = mr_user_id r, role = mr_role r,
           wm_joined_at = mr_joined_at r, is_bot = u_is_bot x\<rparr>)
          (List.find (\<lambda>x. u_id x = mr_user_id r) (users T)))"

definition find_channel_by_id :: "tables \<Rightarrow> uuid \<Rightarrow> Channel option" where
  "find_channel_by_id T c = List.find (\<lambda>r. ch_id r = c) (channels T)"

definition get_channel_member :: "tables \<Rightarrow> uuid \<Rightarrow> uuid \<Rightarrow> ChannelMember option" where
  "get_channel_member T c u =
     List.find (\<lambda>r. cm_channel_id r = c \<and> cm_user_id r = u) (channel_members T)"

definition find_workspace_by_id :: "tables \<Rightarrow> uuid \<Rightarrow> Workspace option" where
  "find_workspace_by_id T w = List.find (\<lambda>r. ws_id r = w) (workspaces T)"

definition find_user_by_id :: "tables \<Rightarrow> uuid \<Rightarrow> User option" where
  "find_user_by_id T u = List.find (\<lambda>r. u_id r = u) (users T)"

text \<open>\<open>BTRIM\<close> with one argument removes spaces (code 32) only.\<close>

definition btrim :: "rstr \<Rightarrow> rstr" where
  "btrim s = rev (dropWhile (\<lambda>c. c = 32) (rev (dropWhile (\<lambda>c. c = 32) s)))"

definition departed_name :: "tables \<Rightarrow> uuid \<Rightarrow> rstr option" where
  "departed_name T c =
     (let rows = filter (\<lambda>d. d_channel_id d = c
                   \<and> (\<exists>x\<in>set (channels T). ch_id x = d_channel_id d \<and> channel_type x = Dm)
                   \<and> (\<exists>x\<in>set (users T). u_id x = d_user_id d)) (conversation_departures T)
      in case sort_key left_at rows of
           [] \<Rightarrow> None
         | d # _ \<Rightarrow> map_option (\<lambda>x. case display_name x of
               None \<Rightarrow> lit ''Somebody''
             | Some n \<Rightarrow> if btrim n = [] then lit ''Somebody'' else btrim n)
             (List.find (\<lambda>x. u_id x = d_user_id d) (users T)))"

lemma get_member_SomeD:
  "get_member T w u = Some m \<Longrightarrow> wm_workspace_id m = w \<and> wm_user_id m = u
     \<and> (\<exists>r\<in>set (workspace_members T). mr_workspace_id r = w \<and> mr_user_id r = u \<and> role m = mr_role r)"
  by (auto simp: get_member_def dest!: find_Some_iff split: option.splits)

lemma find_channel_SomeD: "find_channel_by_id T c = Some x \<Longrightarrow> ch_id x = c \<and> x \<in> set (channels T)"
  by (auto simp: find_channel_by_id_def dest: find_Some_iff)

lemma get_channel_member_SomeD:
  "get_channel_member T c u = Some x \<Longrightarrow> cm_channel_id x = c \<and> cm_user_id x = u \<and> x \<in> set (channel_members T)"
  by (auto simp: get_channel_member_def dest: find_Some_iff)

end
