(* ===== verification/Authz.thy ===== *)
theory Authz
  imports Workspace
begin

text \<open>
  Authorisation, \<open>src/backend/api/src/authz.rs\<close>: what a member may do in a channel, and the
  guards every route calls. The database is behind the record \<open>queries\<close>, whose fields are the
  repository calls with their answers: an error, no row, or a row. The locale
  \<open>membership_queries\<close> states what the guards rely on, that a row returned is the row asked for, and
  \<open>queries_of\<close> interprets it on the tables of \<open>Workspace\<close>.
\<close>

section \<open>Access to a channel\<close>

datatype HookType = IncomingWebhook | OutgoingWebhook | SlashCommand

datatype Scope = ChatWrite | ChatWritePublic | ChannelsRead | ChannelsHistory | GroupsHistory
  | ImWrite | ReactionsWrite | FilesWrite | UsersRead | Commands

record BotToken =
  app_id :: uuid
  bt_workspace_id :: uuid
  scopes :: "Scope list"

definition bot_allows :: "BotToken \<Rightarrow> Scope \<Rightarrow> bool" where
  "bot_allows b s \<longleftrightarrow> s \<in> set (scopes b)"

record AuthUser =
  user_id :: uuid
  bot :: "BotToken option"

record ChannelAccess =
  channel :: Channel
  member :: WorkspaceMember
  channel_member :: "ChannelMember option"

definition is_guest :: "ChannelAccess \<Rightarrow> bool" where
  "is_guest a \<longleftrightarrow> role (member a) = Guest"

definition requires_explicit_membership :: "ChannelAccess \<Rightarrow> bool" where
  "requires_explicit_membership a \<longleftrightarrow>
     is_guest a \<or> is_bot (member a) \<or> channel_type (channel a) \<noteq> Public"

definition is_channel_admin :: "ChannelAccess \<Rightarrow> bool" where
  "is_channel_admin a \<longleftrightarrow>
     (case channel_member a of None \<Rightarrow> False | Some cm \<Rightarrow> cm_role cm = ChAdmin)"

definition post_policy :: "ChannelAccess \<Rightarrow> PostPolicy" where
  "post_policy a =
     (if Option.bind (json_get (ch_settings (channel a)) (lit ''post_policy'')) as_str
         = Some (lit ''moderators'')
      then Moderators else Everyone)"

definition can_moderate :: "ChannelAccess \<Rightarrow> bool" where
  "can_moderate a \<longleftrightarrow>
     (if has_at_least (role (member a)) Admin then True
      else has_at_least (role (member a)) Member \<and> is_channel_admin a)"

definition can_post :: "ChannelAccess \<Rightarrow> bool" where
  "can_post a \<longleftrightarrow>
     (if is_archived (channel a) then False
      else case post_policy a of Everyone \<Rightarrow> True | Moderators \<Rightarrow> can_moderate a)"

definition allows_broadcast_mentions :: "ChannelAccess \<Rightarrow> bool" where
  "allows_broadcast_mentions a =
     (case Option.bind (json_get (ch_settings (channel a)) (lit ''allow_broadcast_mentions'')) as_bool of
        None \<Rightarrow> True | Some b \<Rightarrow> b)"

definition access_broadcast_refusal :: "ChannelAccess \<Rightarrow> WhoMay \<Rightarrow> rstr option" where
  "access_broadcast_refusal a rule =
     (if \<not> allows_broadcast_mentions a
      then Some (lit ''@channel, @here and @everyone are turned off in this channel'')
      else case rule of
        Members \<Rightarrow> None
      | Admins \<Rightarrow>
          if has_at_least (role (member a)) Admin \<or> is_channel_admin a then None
          else Some (lit ''Only workspace admins and this channel's admins can use @channel, @here and @everyone''))"

definition can_manage_hook :: "ChannelAccess \<Rightarrow> HookType \<Rightarrow> bool" where
  "can_manage_hook a h \<longleftrightarrow>
     (if requires_explicit_membership a \<and> channel_member a = None then False
      else case h of
        IncomingWebhook \<Rightarrow> can_moderate a
      | OutgoingWebhook \<Rightarrow> has_at_least (role (member a)) Admin
      | SlashCommand \<Rightarrow> has_at_least (role (member a)) Admin)"

definition outranks :: "WorkspaceRole \<Rightarrow> WorkspaceRole \<Rightarrow> bool" where
  "outranks actor target \<longleftrightarrow> level target < level actor"

section \<open>Guards\<close>

record queries =
  q_get_member :: "uuid \<Rightarrow> uuid \<Rightarrow> WorkspaceMember option AppResult"
  q_find_channel :: "uuid \<Rightarrow> Channel option AppResult"
  q_get_channel_member :: "uuid \<Rightarrow> uuid \<Rightarrow> ChannelMember option AppResult"
  q_find_workspace :: "uuid \<Rightarrow> Workspace option AppResult"
  q_find_user :: "uuid \<Rightarrow> User option AppResult"
  q_departed_name :: "uuid \<Rightarrow> rstr option AppResult"

definition require_workspace_member :: "queries \<Rightarrow> uuid \<Rightarrow> uuid \<Rightarrow> WorkspaceMember AppResult" where
  "require_workspace_member q w u =
     and_then (q_get_member q w u)
       (\<lambda>m. ok_or m (Forbidden (lit ''Not a member of this workspace'')))"

definition require_workspace_role ::
  "queries \<Rightarrow> uuid \<Rightarrow> uuid \<Rightarrow> WorkspaceRole \<Rightarrow> WorkspaceMember AppResult" where
  "require_workspace_role q w u minimum =
     and_then (require_workspace_member q w u)
       (\<lambda>m. if \<not> has_at_least (role m) minimum
            then Inl (Forbidden (lit ''Requires at least '' @ role_debug minimum @ lit '' role''))
            else Inr m)"

definition find_channel :: "queries \<Rightarrow> uuid \<Rightarrow> Channel AppResult" where
  "find_channel q c =
     and_then (q_find_channel q c) (\<lambda>x. ok_or x (NotFound (lit ''Channel not found'')))"

definition channel_access :: "queries \<Rightarrow> uuid \<Rightarrow> uuid \<Rightarrow> bool \<Rightarrow> ChannelAccess AppResult" where
  "channel_access q c u posts_publicly =
     and_then (find_channel q c) (\<lambda>ch.
     and_then (require_workspace_member q (ch_workspace_id ch) u) (\<lambda>m.
     and_then (q_get_channel_member q c u) (\<lambda>cm.
       let access = \<lparr>channel = ch, member = m, channel_member = cm\<rparr>;
           public_to_this_bot = (posts_publicly \<and> is_bot (member access)
             \<and> channel_type (channel access) = Public)
       in if requires_explicit_membership access \<and> channel_member access = None
             \<and> \<not> public_to_this_bot
          then Inl (Forbidden (lit ''Not a member of this channel''))
          else Inr access)))"

definition require_channel_access :: "queries \<Rightarrow> uuid \<Rightarrow> uuid \<Rightarrow> ChannelAccess AppResult" where
  "require_channel_access q c u = channel_access q c u False"

definition require_not_archived :: "Channel \<Rightarrow> unit AppResult" where
  "require_not_archived ch =
     (if is_archived ch then Inl (Forbidden (lit ''This channel is archived'')) else Inr ())"

definition require_posting :: "queries \<Rightarrow> ChannelAccess \<Rightarrow> ChannelAccess AppResult" where
  "require_posting q access =
     and_then (require_not_archived (channel access)) (\<lambda>_.
       if \<not> can_post access
       then Inl (Forbidden (lit ''Only moderators can post in this channel''))
       else if channel_type (channel access) = Dm
       then and_then (q_departed_name q (ch_id (channel access))) (\<lambda>d.
         case d of
           Some name \<Rightarrow> Inl (Forbidden (name @ lit '' is no longer in this workspace''))
         | None \<Rightarrow> Inr access)
       else Inr access)"

definition require_channel_post :: "queries \<Rightarrow> uuid \<Rightarrow> uuid \<Rightarrow> ChannelAccess AppResult" where
  "require_channel_post q c u = and_then (require_channel_access q c u) (require_posting q)"

definition require_channel_post_as :: "queries \<Rightarrow> uuid \<Rightarrow> AuthUser \<Rightarrow> ChannelAccess AppResult" where
  "require_channel_post_as q c auth =
     (let posts_publicly = (case bot auth of None \<Rightarrow> False | Some b \<Rightarrow> bot_allows b ChatWritePublic)
      in and_then (channel_access q c (user_id auth) posts_publicly) (require_posting q))"

datatype Stopped = Inactive | LeftWorkspace | LostChannel | Demoted

fun stopped_reason :: "Stopped \<Rightarrow> rstr" where
  "stopped_reason Inactive = lit ''Its creator's account is suspended''"
| "stopped_reason LeftWorkspace = lit ''Its creator left the workspace''"
| "stopped_reason LostChannel = lit ''Its creator can no longer read the channel''"
| "stopped_reason Demoted = lit ''Its creator is no longer allowed to make it''"

definition still_acting :: "queries \<Rightarrow> uuid \<Rightarrow> uuid \<Rightarrow> uuid option \<Rightarrow> Stopped option AppResult" where
  "still_acting q w u channel_id =
     and_then (q_find_user q u) (\<lambda>user.
       let active = (case user of None \<Rightarrow> False | Some x \<Rightarrow> status x = Active) in
       if \<not> active then Inr (Some Inactive)
       else and_then (q_get_member q w u) (\<lambda>m.
         if m = None then Inr (Some LeftWorkspace)
         else case channel_id of
           None \<Rightarrow> Inr None
         | Some c \<Rightarrow>
             (case require_channel_access q c u of
                Inr access \<Rightarrow>
                  if ch_workspace_id (channel access) = w then Inr None else Inr (Some LostChannel)
              | Inl (Forbidden _) \<Rightarrow> Inr (Some LostChannel)
              | Inl (NotFound _) \<Rightarrow> Inr (Some LostChannel)
              | Inl e \<Rightarrow> Inl e)))"

definition hook_still_acting ::
  "queries \<Rightarrow> HookType \<Rightarrow> uuid \<Rightarrow> uuid \<Rightarrow> uuid \<Rightarrow> Stopped option AppResult" where
  "hook_still_acting q h w u c =
     and_then (still_acting q w u (Some c)) (\<lambda>stopped.
       case stopped of
         Some s \<Rightarrow> Inr (Some s)
       | None \<Rightarrow> and_then (require_channel_access q c u) (\<lambda>access.
           Inr (if \<not> can_manage_hook access h then Some Demoted else None)))"

definition can_moderate_channel :: "queries \<Rightarrow> Channel \<Rightarrow> uuid \<Rightarrow> bool" where
  "can_moderate_channel q ch u \<longleftrightarrow>
     (case q_get_member q (ch_workspace_id ch) u of
        Inr (Some m) \<Rightarrow>
          (case q_get_channel_member q (ch_id ch) u of
             Inr cm \<Rightarrow> can_moderate \<lparr>channel = ch, member = m, channel_member = cm\<rparr>
           | Inl _ \<Rightarrow> False)
      | _ \<Rightarrow> False)"

definition require_channel_moderator :: "queries \<Rightarrow> Channel \<Rightarrow> uuid \<Rightarrow> unit AppResult" where
  "require_channel_moderator q ch u =
     (if can_moderate_channel q ch u then Inr ()
      else Inl (Forbidden (lit ''Requires channel admin or workspace admin'')))"

definition access_to :: "queries \<Rightarrow> Channel \<Rightarrow> uuid \<Rightarrow> ChannelAccess option AppResult" where
  "access_to q ch u =
     and_then (q_get_member q (ch_workspace_id ch) u) (\<lambda>mo.
       case mo of
         None \<Rightarrow> Inr None
       | Some m \<Rightarrow> and_then (q_get_channel_member q (ch_id ch) u) (\<lambda>cm.
           Inr (Some \<lparr>channel = ch, member = m, channel_member = cm\<rparr>)))"

definition workspace_rule :: "queries \<Rightarrow> uuid \<Rightarrow> rstr \<Rightarrow> WhoMay AppResult" where
  "workspace_rule q w key =
     and_then (q_find_workspace q w) (\<lambda>wo.
     and_then (ok_or wo (NotFound (lit ''Workspace not found''))) (\<lambda>ws.
       Inr (who_may_of (ws_settings ws) key)))"

definition can_manage_channel_hook :: "queries \<Rightarrow> HookType \<Rightarrow> Channel \<Rightarrow> uuid \<Rightarrow> bool AppResult" where
  "can_manage_channel_hook q h ch u =
     and_then (access_to q ch u) (\<lambda>a.
       Inr (case a of None \<Rightarrow> False | Some access \<Rightarrow> can_manage_hook access h))"

definition broadcast_refusal :: "queries \<Rightarrow> Channel \<Rightarrow> uuid \<Rightarrow> rstr option AppResult" where
  "broadcast_refusal q ch u =
     and_then (access_to q ch u) (\<lambda>a.
       case a of
         None \<Rightarrow> Inr (Some (lit ''Not a member of this workspace''))
       | Some access \<Rightarrow> and_then (workspace_rule q (ch_workspace_id ch) BROADCAST_MENTIONS) (\<lambda>rule.
           Inr (access_broadcast_refusal access rule)))"

definition can_broadcast :: "queries \<Rightarrow> Channel \<Rightarrow> uuid \<Rightarrow> bool AppResult" where
  "can_broadcast q ch u = and_then (broadcast_refusal q ch u) (\<lambda>r. Inr (r = None))"

definition require_broadcast :: "queries \<Rightarrow> Channel \<Rightarrow> uuid \<Rightarrow> unit AppResult" where
  "require_broadcast q ch u =
     and_then (broadcast_refusal q ch u) (\<lambda>r.
       case r of Some reason \<Rightarrow> Inl (Forbidden reason) | None \<Rightarrow> Inr ())"

definition require_channel_creator :: "queries \<Rightarrow> uuid \<Rightarrow> uuid \<Rightarrow> ChannelType \<Rightarrow> unit AppResult" where
  "require_channel_creator q w u ct =
     and_then (require_workspace_member q w u) (\<lambda>m.
       let (key, kind) = (case ct of
             Private \<Rightarrow> (PRIVATE_CHANNEL_CREATORS, lit ''private'')
           | _ \<Rightarrow> (PUBLIC_CHANNEL_CREATORS, lit ''public''))
       in and_then (workspace_rule q w key) (\<lambda>rule.
         if who_may_allows rule (role m) then Inr ()
         else Inl (Forbidden (
           if rule = Admins \<and> role m \<noteq> Guest
           then lit ''Only admins can create '' @ kind @ lit '' channels in this workspace''
           else lit ''Requires at least '' @ role_debug Member @ lit '' role''))))"

definition require_channel_hook_manager ::
  "queries \<Rightarrow> HookType \<Rightarrow> Channel \<Rightarrow> uuid \<Rightarrow> unit AppResult" where
  "require_channel_hook_manager q h ch u =
     and_then (can_manage_channel_hook q h ch u) (\<lambda>ok.
       if ok then Inr ()
       else Inl (Forbidden (case h of
         IncomingWebhook \<Rightarrow> lit ''Requires channel admin or workspace admin, in the channel if it is private''
       | _ \<Rightarrow> lit ''Requires workspace admin, in the channel if it is private'')))"

section \<open>The lookups the guards rely on\<close>

lemmas guard_defs = require_workspace_member_def require_workspace_role_def find_channel_def
  channel_access_def require_channel_access_def require_not_archived_def require_posting_def
  require_channel_post_def require_channel_post_as_def access_to_def workspace_rule_def

lemmas right_defs = is_guest_def requires_explicit_membership_def is_channel_admin_def
  can_moderate_def can_post_def can_manage_hook_def has_at_least_iff

lemma channel_access_Inr:
  "channel_access q c u p = Inr a \<longleftrightarrow>
     q_find_channel q c = Inr (Some (channel a))
     \<and> q_get_member q (ch_workspace_id (channel a)) u = Inr (Some (member a))
     \<and> q_get_channel_member q c u = Inr (channel_member a)
     \<and> (requires_explicit_membership a \<and> channel_member a = None \<longrightarrow>
          p \<and> is_bot (member a) \<and> channel_type (channel a) = Public)"
  by (cases a) (auto simp: guard_defs Let_def split: if_splits)

lemma require_posting_Inr:
  "require_posting q a = Inr b \<longleftrightarrow>
     b = a \<and> can_post a
     \<and> (channel_type (channel a) = Dm \<longrightarrow> q_departed_name q (ch_id (channel a)) = Inr None)"
  by (auto simp: require_posting_def require_not_archived_def can_post_def split: if_splits option.splits)

locale membership_queries =
  fixes q :: queries
  assumes member_row:
      "q_get_member q w u = Inr (Some m) \<Longrightarrow> wm_workspace_id m = w \<and> wm_user_id m = u"
    and channel_row: "q_find_channel q c = Inr (Some ch) \<Longrightarrow> ch_id ch = c"
    and channel_member_row:
      "q_get_channel_member q c u = Inr (Some cm) \<Longrightarrow> cm_channel_id cm = c \<and> cm_user_id cm = u"
begin

lemma access_rows:
  assumes "channel_access q c u p = Inr a"
  shows "ch_id (channel a) = c" "wm_user_id (member a) = u"
    "wm_workspace_id (member a) = ch_workspace_id (channel a)"
    "\<And>cm. channel_member a = Some cm \<Longrightarrow> cm_channel_id cm = c \<and> cm_user_id cm = u"
  using assms member_row channel_row channel_member_row by (auto simp: channel_access_Inr)

lemma explicit_row:
  assumes "channel_access q c u p = Inr a" and "channel_type (channel a) \<noteq> Public \<or> role (member a) = Guest"
    and "\<not> (p \<and> is_bot (member a) \<and> channel_type (channel a) = Public)"
  shows "\<exists>cm. channel_member a = Some cm \<and> cm_channel_id cm = c \<and> cm_user_id cm = u"
  using assms access_rows(4) [OF assms(1)]
  by (cases "channel_member a") (auto simp: channel_access_Inr right_defs)

lemma acting_manager:
  assumes "hook_still_acting q h w u c = Inr None"
  shows "\<exists>ch. q_find_channel q c = Inr (Some ch) \<and> ch_workspace_id ch = w
    \<and> can_manage_channel_hook q h ch u = Inr True"
proof -
  obtain a where a: "require_channel_access q c u = Inr a" "can_manage_hook a h"
    "still_acting q w u (Some c) = Inr None"
    using assms by (auto simp: hook_still_acting_def split: option.splits if_splits)
  moreover have "ch_workspace_id (channel a) = w"
    using a(1,3) by (auto simp: still_acting_def Let_def split: if_splits option.splits)
  moreover have "ch_id (channel a) = c"
    using a(1) access_rows(1) by (simp add: require_channel_access_def)
  ultimately show ?thesis
    by (cases a) (auto simp: require_channel_access_def channel_access_Inr can_manage_channel_hook_def
        access_to_def)
qed

end

definition queries_of :: "tables \<Rightarrow> queries" where
  "queries_of T =
     \<lparr>q_get_member = (\<lambda>w u. Inr (get_member T w u)),
      q_find_channel = (\<lambda>c. Inr (find_channel_by_id T c)),
      q_get_channel_member = (\<lambda>c u. Inr (get_channel_member T c u)),
      q_find_workspace = (\<lambda>w. Inr (find_workspace_by_id T w)),
      q_find_user = (\<lambda>u. Inr (find_user_by_id T u)),
      q_departed_name = (\<lambda>c. Inr (departed_name T c))\<rparr>"

lemma queries_of_simps [simp]:
  "q_get_member (queries_of T) w u = Inr (get_member T w u)"
  "q_find_channel (queries_of T) c = Inr (find_channel_by_id T c)"
  "q_get_channel_member (queries_of T) c u = Inr (get_channel_member T c u)"
  "q_find_workspace (queries_of T) w = Inr (find_workspace_by_id T w)"
  "q_find_user (queries_of T) u = Inr (find_user_by_id T u)"
  "q_departed_name (queries_of T) c = Inr (departed_name T c)"
  by (simp_all add: queries_of_def)

interpretation db: membership_queries "queries_of T"
  by unfold_locales (auto dest: get_member_SomeD find_channel_SomeD get_channel_member_SomeD)

section \<open>Properties\<close>

text \<open>
  C9. Nobody speaks in a private channel, a DM or a group DM without a membership row of their
  own for exactly that channel, whatever their role and whatever scopes their token
  carries.
\<close>

theorem post_needs_membership_row:
  assumes "require_channel_post_as (queries_of T) c auth = Inr a"
    and "channel_type (channel a) \<noteq> Public"
  shows "\<exists>cm\<in>set (channel_members T). cm_channel_id cm = c \<and> cm_user_id cm = user_id auth"
proof -
  obtain p where p: "channel_access (queries_of T) c (user_id auth) p = Inr a"
    using assms(1) by (auto simp: require_channel_post_as_def Let_def require_posting_Inr)
  then obtain cm where "channel_member a = Some cm"
    using db.explicit_row [OF p] assms(2) by blast
  then have "get_channel_member T c (user_id auth) = Some cm"
    using p by (simp add: channel_access_Inr)
  then show ?thesis using get_channel_member_SomeD by blast
qed

definition sample_user :: User where
  "sample_user = \<lparr>u_id = 1, display_name = None, u_is_bot = False, status = Active\<rparr>"

definition sample_channel :: Channel where
  "sample_channel = \<lparr>ch_id = 7, ch_workspace_id = 2, ch_name = None, channel_type = Private, ch_topic = None,
     ch_description = None, ch_created_by = None, is_default = False, is_archived = False,
     ch_settings = JObject [], ch_created_at = 0, ch_updated_at = 0\<rparr>"

definition sample_tables :: tables where
  "sample_tables =
     \<lparr>users = [sample_user], workspaces = [],
      workspace_members = [\<lparr>mr_workspace_id = 2, mr_user_id = 1, mr_role = Admin, mr_joined_at = 0\<rparr>],
      channels = [sample_channel],
      channel_members = [\<lparr>cm_channel_id = 7, cm_user_id = 1, cm_role = ChMember, last_read_at = None,
        last_read_msg = None, is_starred = False, cm_joined_at = 0\<rparr>],
      conversation_departures = []\<rparr>"

lemmas sample_defs = sample_user_def sample_channel_def sample_tables_def

lemmas lookup_defs = get_member_def find_channel_by_id_def get_channel_member_def
  find_workspace_by_id_def find_user_by_id_def departed_name_def

theorem post_needs_membership_row_witness:
  "\<exists>cm\<in>set (channel_members sample_tables). cm_channel_id cm = 7 \<and> cm_user_id cm = 1"
proof -
  have ok: "require_channel_post_as (queries_of sample_tables) 7 \<lparr>user_id = 1, bot = None\<rparr>
      = Inr \<lparr>channel = sample_channel, member = the (get_member sample_tables 2 1),
             channel_member = get_channel_member sample_tables 7 1\<rparr>"
    by (simp add: guard_defs right_defs lookup_defs sample_defs Let_def post_policy_def)
  show ?thesis
    using post_needs_membership_row [OF ok] by (simp add: sample_channel_def)
qed



text \<open>
  Promotion never takes a right away: with a higher role and everything else unchanged, a
  member keeps moderation, posting, hook management and broadcasts, and still
  passes every workspace rule; and a guest has none of the first and third even as a channel admin.
\<close>

theorem rights_grow_with_role:
  assumes "role (member a) \<le> r" and "b = a\<lparr>member := (member a)\<lparr>role := r\<rparr>\<rparr>"
  shows "(can_moderate a \<longrightarrow> can_moderate b)
    \<and> (can_post a \<longrightarrow> can_post b)
    \<and> (can_manage_hook a h \<longrightarrow> can_manage_hook b h)
    \<and> (access_broadcast_refusal a rule = None \<longrightarrow> access_broadcast_refusal b rule = None)
    \<and> (who_may_allows rule (role (member a)) \<longrightarrow> who_may_allows rule r)
    \<and> (role (member a) = Guest \<longrightarrow> \<not> can_moderate a \<and> \<not> can_manage_hook a h)"
proof (intro conjI)
  have mono: "x \<le> role (member a) \<Longrightarrow> x \<le> r" for x using assms(1) by (rule order_trans [rotated])
  have guest: "r = Guest \<Longrightarrow> role (member a) = Guest"
    using assms(1) by (cases "role (member a)") (simp_all add: less_eq_WorkspaceRole_def)
  have low: "\<not> Member \<le> Guest" "\<not> Admin \<le> Guest" by (simp_all add: less_eq_WorkspaceRole_def)
  have mod: "can_moderate a \<longrightarrow> can_moderate b"
    using mono assms(2) by (auto simp: can_moderate_def has_at_least_iff is_channel_admin_def)
  then show "can_moderate a \<longrightarrow> can_moderate b" .
  then show "can_post a \<longrightarrow> can_post b"
    using assms(2) by (auto simp: can_post_def post_policy_def split: PostPolicy.splits)
  show "can_manage_hook a h \<longrightarrow> can_manage_hook b h"
    using mod mono guest assms(2)
    by (auto simp: can_manage_hook_def requires_explicit_membership_def is_guest_def has_at_least_iff
        split: HookType.splits if_splits)
  show "access_broadcast_refusal a rule = None \<longrightarrow> access_broadcast_refusal b rule = None"
    using mono assms(2)
    by (auto simp: access_broadcast_refusal_def allows_broadcast_mentions_def has_at_least_iff
        is_channel_admin_def split: WhoMay.splits if_splits)
  show "who_may_allows rule (role (member a)) \<longrightarrow> who_may_allows rule r"
    using mono by (cases rule) (auto simp: has_at_least_iff)
  show "role (member a) = Guest \<longrightarrow> \<not> can_moderate a \<and> \<not> can_manage_hook a h"
    using low by (cases h) (auto simp: can_manage_hook_def can_moderate_def has_at_least_iff)
qed

theorem rights_grow_with_role_witness:
  "let a = \<lparr>channel = sample_channel, member = the (get_member sample_tables 2 1), channel_member = None\<rparr>;
       b = a\<lparr>member := (member a)\<lparr>role := Owner\<rparr>\<rparr>
   in can_moderate a \<and> can_moderate b"
proof -
  let ?a = "\<lparr>channel = sample_channel, member = the (get_member sample_tables 2 1), channel_member = None\<rparr>"
  have "role (member ?a) \<le> Owner" "can_moderate ?a"
    by (simp_all add: lookup_defs sample_defs less_eq_WorkspaceRole_def right_defs)
  then show ?thesis using rights_grow_with_role [of ?a Owner, OF _ refl] by (simp add: Let_def)
qed

text \<open>
  C11. A hook keeps running only while its creator could still make it: when
  \<open>hook_still_acting\<close> finds no reason to stop, the channel is in the hook's workspace and
  \<open>can_manage_channel_hook\<close> holds for the creator at that moment.
\<close>

theorem acting_hook_is_manageable:
  assumes "hook_still_acting (queries_of T) h w u c = Inr None"
  shows "\<exists>ch. find_channel_by_id T c = Some ch \<and> ch_workspace_id ch = w
    \<and> can_manage_channel_hook (queries_of T) h ch u = Inr True"
  using db.acting_manager [OF assms] by auto

theorem acting_hook_is_manageable_witness:
  "\<exists>ch. find_channel_by_id sample_tables 7 = Some ch \<and> ch_workspace_id ch = 2
    \<and> can_manage_channel_hook (queries_of sample_tables) SlashCommand ch 1 = Inr True"
proof -
  have "hook_still_acting (queries_of sample_tables) SlashCommand 2 1 7 = Inr None"
    by (simp add: hook_still_acting_def still_acting_def guard_defs right_defs lookup_defs sample_defs
        Let_def less_eq_WorkspaceRole_def)
  then show ?thesis by (rule acting_hook_is_manageable)
qed

text \<open>
  C12. The guards fail closed: when the membership lookup of a user cannot be answered, no
  guard lets the user through and no automation of theirs counts as still acting.
\<close>

theorem guards_fail_closed:
  assumes "\<forall>w. \<not> is_ok (q_get_member q w u)"
  shows "\<not> is_ok (require_channel_access q c u) \<and> \<not> is_ok (require_channel_post q c u)
    \<and> \<not> is_ok (require_workspace_role q w u minimum)
    \<and> \<not> can_moderate_channel q ch u \<and> \<not> is_ok (require_channel_moderator q ch u)
    \<and> \<not> is_ok (require_broadcast q ch u) \<and> \<not> is_ok (require_channel_creator q w u ct)
    \<and> \<not> is_ok (require_channel_hook_manager q h ch u)
    \<and> still_acting q w u co \<noteq> Inr None"
proof -
  have "q_get_member q w u \<noteq> Inr m" for w m using assms is_ok_iff by blast
  then show ?thesis
    by (auto simp: is_ok_iff guard_defs can_moderate_channel_def require_channel_moderator_def
        require_broadcast_def broadcast_refusal_def require_channel_creator_def
        require_channel_hook_manager_def can_manage_channel_hook_def still_acting_def Let_def
        split: sum.splits option.splits if_splits)
qed

theorem guards_fail_closed_witness:
  "\<not> is_ok (require_channel_access
     ((queries_of sample_tables)\<lparr>q_get_member := (\<lambda>_ _. Inl (Database (lit ''down'')))\<rparr>) 7 1)"
  using guards_fail_closed
    [of "(queries_of sample_tables)\<lparr>q_get_member := (\<lambda>_ _. Inl (Database (lit ''down'')))\<rparr>" 1]
  by simp

end
