(* ===== verification/List_Model.thy ===== *)
theory List_Model
  imports Prelude "HOL-Library.AList"
begin

text \<open>
  The data of lists and the rules for their columns and cells:
  \<open>src/backend/api/src/lists/models.rs\<close>, \<open>cells.rs\<close> and \<open>comments.rs\<close>. The record \<open>ext\<close> holds the
  library functions the code calls and this development does not define: parsing and
  printing of UUIDs (crate \<open>uuid\<close>) and calendar dates (crate \<open>chrono\<close>), the Unicode lower-case mapping, and
  reading and printing of doubles. The locale \<open>ext_laws\<close> names the documented facts the
  results rest on: a printed UUID parses back to itself, and so does a printed date that was parsed.
\<close>

section \<open>Library functions\<close>

type_synonym date = "int \<times> nat \<times> nat"

record ext =
  parse_uuid :: "rstr \<Rightarrow> uuid option"
  uuid_str :: "uuid \<Rightarrow> rstr"
  parse_ymd :: "rstr \<Rightarrow> date option"
  format_ymd :: "date \<Rightarrow> rstr"
  to_lowercase :: "rstr \<Rightarrow> rstr"
  parse_f64 :: "rstr \<Rightarrow> f64 option"
  f64_text :: "f64 \<Rightarrow> rstr"

section \<open>Columns\<close>

definition MAX_COLUMNS :: nat where "MAX_COLUMNS = 30"
definition MAX_ITEMS :: nat where "MAX_ITEMS = 10000"
definition MAX_CHOICES :: nat where "MAX_CHOICES = 50"
definition TITLE_MAX_CHARS :: nat where "TITLE_MAX_CHARS = 200"
definition DESCRIPTION_MAX_CHARS :: nat where "DESCRIPTION_MAX_CHARS = 2000"
definition COLUMN_NAME_MAX_CHARS :: nat where "COLUMN_NAME_MAX_CHARS = 100"
definition CHOICE_LABEL_MAX_CHARS :: nat where "CHOICE_LABEL_MAX_CHARS = 100"
definition TEXT_MAX_CHARS :: nat where "TEXT_MAX_CHARS = 4000"
definition LINK_MAX_CHARS :: nat where "LINK_MAX_CHARS = 2000"
definition MAX_DECIMALS :: "8 word" where "MAX_DECIMALS = 6"
definition COMMENT_MAX_CHARS :: nat where "COMMENT_MAX_CHARS = 4000"

lemmas limit_defs = MAX_COLUMNS_def MAX_ITEMS_def MAX_CHOICES_def TITLE_MAX_CHARS_def
  DESCRIPTION_MAX_CHARS_def COLUMN_NAME_MAX_CHARS_def CHOICE_LABEL_MAX_CHARS_def
  TEXT_MAX_CHARS_def LINK_MAX_CHARS_def MAX_DECIMALS_def COMMENT_MAX_CHARS_def

datatype ColumnKind = Text | Number | Select | MultiSelect | Person | Date | Checkbox | Link

definition has_choices :: "ColumnKind \<Rightarrow> bool" where
  "has_choices k \<longleftrightarrow> k = Select \<or> k = MultiSelect"

datatype ChoiceColor = Gray | Red | Orange | Yellow | Green | Blue | Purple | Pink

record Choice =
  c_id :: uuid
  label :: rstr
  color :: ChoiceColor

datatype NumberStyle = Plain | Percent | Currency

record NumberFormat =
  style :: NumberStyle
  decimals :: "8 word"
  currency :: "rstr option"

record ColumnOptions =
  choices :: "Choice list"
  number :: "NumberFormat option"

definition default_options :: ColumnOptions where
  "default_options = \<lparr>choices = [], number = None\<rparr>"

definition default_format :: NumberFormat where
  "default_format = \<lparr>style = Plain, decimals = 0, currency = None\<rparr>"

definition choice :: "ext \<Rightarrow> ColumnOptions \<Rightarrow> rstr \<Rightarrow> Choice option" where
  "choice X o' i =
     Option.bind (parse_uuid X i) (\<lambda>u. List.find (\<lambda>c. c_id c = u) (choices o'))"

definition choice_labelled :: "ext \<Rightarrow> ColumnOptions \<Rightarrow> rstr \<Rightarrow> Choice option" where
  "choice_labelled X o' l =
     (let l' = to_lowercase X (trim l)
      in List.find (\<lambda>c. to_lowercase X (label c) = l') (choices o'))"

record ChoiceInput =
  ci_id :: "uuid option"
  ci_label :: rstr
  ci_color :: ChoiceColor

record ColumnOptionsInput =
  in_choices :: "ChoiceInput list"
  in_number :: "NumberFormat option"

text \<open>
  \<open>ColumnOptionsInput::resolve\<close>. The loop over the choices carries the folded labels seen so far;
  \<open>fresh\<close> supplies the identifiers \<open>Uuid::new_v4\<close> would draw, one per choice without an
  identifier.
\<close>

fun resolve_choices ::
  "ext \<Rightarrow> uuid list \<Rightarrow> rstr list \<Rightarrow> ChoiceInput list \<Rightarrow> Choice list AppResult" where
  "resolve_choices X fresh seen [] = Inr []"
| "resolve_choices X fresh seen (input # rest) =
     (let l = trim (ci_label input) in
      if l = [] then Inl (Validation (lit ''A choice needs a label''))
      else if length l > CHOICE_LABEL_MAX_CHARS
      then Inl (Validation (lit ''A choice can be at most 100 characters''))
      else let folded = to_lowercase X l in
      if folded \<in> set seen
      then Inl (Validation ([34] @ l @ [34] @ lit '' is offered twice''))
      else
        let (i, fresh') = (case ci_id input of
              Some i \<Rightarrow> (i, fresh)
            | None \<Rightarrow> (case fresh of f # fs \<Rightarrow> (f, fs) | [] \<Rightarrow> (0, [])))
        in and_then (resolve_choices X fresh' (seen @ [folded]) rest) (\<lambda>cs.
             Inr (\<lparr>c_id = i, label = l, color = ci_color input\<rparr> # cs)))"

definition resolve_number :: "NumberFormat option \<Rightarrow> NumberFormat AppResult" where
  "resolve_number n =
     (let format = (case n of None \<Rightarrow> default_format | Some f \<Rightarrow> f) in
      if decimals format > MAX_DECIMALS
      then Inl (Validation (lit ''A number shows at most 6 decimals''))
      else and_then
        (case style format of
           Currency \<Rightarrow>
             let code = trim (case currency format of None \<Rightarrow> [] | Some c \<Rightarrow> c) in
             if str_len code \<noteq> 3 \<or> \<not> list_all is_ascii_alphabetic code
             then Inl (Validation (lit ''A currency is a three-letter code, like EUR''))
             else Inr (Some (to_ascii_uppercase code))
         | _ \<Rightarrow> Inr None)
        (\<lambda>cur. Inr (format\<lparr>currency := cur\<rparr>)))"

definition resolve_options ::
  "ext \<Rightarrow> uuid list \<Rightarrow> ColumnOptionsInput \<Rightarrow> ColumnKind \<Rightarrow> ColumnOptions AppResult" where
  "resolve_options X fresh input kind =
     and_then
       (if has_choices kind
        then if length (in_choices input) > MAX_CHOICES
             then Inl (Validation (lit ''A column can offer at most 50 choices''))
             else resolve_choices X fresh [] (in_choices input)
        else Inr [])
       (\<lambda>cs.
         if kind = Number
         then and_then (resolve_number (in_number input)) (\<lambda>f.
           Inr \<lparr>choices = cs, number = Some f\<rparr>)
         else Inr \<lparr>choices = cs, number = None\<rparr>)"

section \<open>Text fields\<close>

definition clean_title :: "rstr \<Rightarrow> rstr AppResult" where
  "clean_title t =
     (let title = trim t in
      if title = [] then Inl (Validation (lit ''A list needs a title''))
      else if length title > TITLE_MAX_CHARS
      then Inl (Validation (lit ''A title can be at most 200 characters''))
      else Inr title)"

definition clean_description :: "rstr \<Rightarrow> rstr AppResult" where
  "clean_description d =
     (let description = trim d in
      if length description > DESCRIPTION_MAX_CHARS
      then Inl (Validation (lit ''A description can be at most 2000 characters''))
      else Inr description)"

definition clean_column_name :: "rstr \<Rightarrow> rstr AppResult" where
  "clean_column_name n =
     (let name = trim n in
      if name = [] then Inl (Validation (lit ''A column needs a name''))
      else if length name > COLUMN_NAME_MAX_CHARS
      then Inl (Validation (lit ''A column name can be at most 100 characters''))
      else Inr name)"

definition clean_comment :: "rstr \<Rightarrow> rstr AppResult" where
  "clean_comment c =
     (let content = trim c in
      if content = [] then Inl (Validation (lit ''A comment needs some text''))
      else if length content > COMMENT_MAX_CHARS
      then Inl (Validation (lit ''A comment can be at most 4000 characters''))
      else Inr content)"

section \<open>Cells\<close>

datatype Cell = Clear | Set json

text \<open>The loop of a multi-select: every identifier names a choice, repeated ones are kept once.\<close>

fun chosen_ids :: "ext \<Rightarrow> ColumnOptions \<Rightarrow> uuid list \<Rightarrow> json list \<Rightarrow> rstr + uuid list" where
  "chosen_ids X o' chosen [] = Inr chosen"
| "chosen_ids X o' chosen (v # vs) =
     (case Option.bind (as_str v) (choice X o') of
        None \<Rightarrow> Inl (lit ''has no such choice'')
      | Some c \<Rightarrow> chosen_ids X o' (push_new (c_id c) chosen) vs)"

fun normalize_kind :: "ext \<Rightarrow> ColumnKind \<Rightarrow> ColumnOptions \<Rightarrow> json \<Rightarrow> rstr + Cell" where
  "normalize_kind X Text o' value =
     and_then (ok_or (as_str value) (lit ''expects text'')) (\<lambda>text.
       if trim text = [] then Inr Clear
       else if length text > TEXT_MAX_CHARS then Inl (lit ''takes at most 4000 characters'')
       else Inr (Set (JString text)))"
| "normalize_kind X Number o' value =
     (case value of
        JNumber n \<Rightarrow> if as_f64_finite n then Inr (Set value) else Inl (lit ''expects a number'')
      | _ \<Rightarrow> Inl (lit ''expects a number''))"
| "normalize_kind X Select o' value =
     and_then (ok_or (as_str value) (lit ''expects one of its choices'')) (\<lambda>i.
     and_then (ok_or (choice X o' i) (lit ''has no such choice'')) (\<lambda>c.
       Inr (Set (JString (uuid_str X (c_id c))))))"
| "normalize_kind X MultiSelect o' value =
     and_then (ok_or (as_array value) (lit ''expects a list of its choices'')) (\<lambda>ids.
     and_then (chosen_ids X o' [] ids) (\<lambda>chosen.
       if chosen = [] then Inr Clear
       else Inr (Set (JArray (map (\<lambda>c. JString (uuid_str X (c_id c)))
              (filter (\<lambda>c. c_id c \<in> set chosen) (choices o')))))))"
| "normalize_kind X Person o' value =
     and_then (ok_or (Option.bind (as_str value) (parse_uuid X)) (lit ''expects a person'')) (\<lambda>i.
       Inr (Set (JString (uuid_str X i))))"
| "normalize_kind X Date o' value =
     and_then (ok_or (Option.bind (as_str value) (parse_ymd X)) (lit ''expects a date as YYYY-MM-DD'')) (\<lambda>d.
       Inr (Set (JString (format_ymd X d))))"
| "normalize_kind X Checkbox o' value =
     (case value of JBool _ \<Rightarrow> Inr (Set value) | _ \<Rightarrow> Inl (lit ''expects true or false''))"
| "normalize_kind X Link o' value =
     and_then (ok_or (as_str value) (lit ''expects a link'')) (\<lambda>raw.
       let link = trim raw in
       if link = [] then Inr Clear
       else if length link > LINK_MAX_CHARS then Inl (lit ''takes links of at most 2000 characters'')
       else if \<not> (starts_with link (lit ''http://'') \<or> starts_with link (lit ''https://''))
            \<or> list_ex (\<lambda>c. is_control c \<or> is_whitespace c) link
       then Inl (lit ''expects a link starting with http:// or https://'')
       else Inr (Set (JString link)))"

definition normalize :: "ext \<Rightarrow> ColumnKind \<Rightarrow> ColumnOptions \<Rightarrow> json \<Rightarrow> rstr + Cell" where
  "normalize X kind o' value =
     (if value = JNull then Inr Clear else normalize_kind X kind o' value)"

definition person_of :: "ext \<Rightarrow> ColumnKind \<Rightarrow> json \<Rightarrow> uuid option" where
  "person_of X kind value =
     (if kind = Person then Option.bind (as_str value) (parse_uuid X) else None)"

text \<open>
  \<open>number_text\<close>: an integral double of magnitude below \<open>1e15\<close> is printed as an integer. The
  value \<open>m * 2 ^ e\<close> of \<open>Fin m e\<close> is integral when \<open>e\<close> is not negative or the power divides \<open>m\<close>.
\<close>

fun decimal_digits :: "nat \<Rightarrow> rstr" where
  "decimal_digits n = (if n < 10 then [48 + n] else decimal_digits (n div 10) @ [48 + n mod 10])"

declare decimal_digits.simps [simp del]

definition int_text :: "int \<Rightarrow> rstr" where
  "int_text i = (if i < 0 then 45 # decimal_digits (nat (- i)) else decimal_digits (nat i))"

fun integral_value :: "f64 \<Rightarrow> int option" where
  "integral_value (Fin m e) =
     (if e \<ge> 0 then Some (m * 2 ^ nat e)
      else if m mod 2 ^ nat (- e) = 0 then Some (m div 2 ^ nat (- e)) else None)"
| "integral_value _ = None"

definition number_text :: "ext \<Rightarrow> (jnum \<Rightarrow> f64) \<Rightarrow> json \<Rightarrow> rstr option" where
  "number_text X as_f64 value =
     (case value of
        JNumber n \<Rightarrow>
          (case integral_value (as_f64 n) of
             Some i \<Rightarrow> if \<bar>i\<bar> < 1000000000000000 then Some (int_text i) else Some (f64_text X (as_f64 n))
           | None \<Rightarrow> Some (f64_text X (as_f64 n)))
      | _ \<Rightarrow> None)"

text \<open>
  \<open>as_f64\<close> rounds a 64-bit integer to the nearest double (crate \<open>serde_json\<close>); it is an argument.
  \<open>Number::from_f64\<close> refuses infinities and not-a-number.
\<close>

definition carried ::
  "ext \<Rightarrow> (jnum \<Rightarrow> f64) \<Rightarrow> ColumnKind \<times> ColumnOptions \<Rightarrow> ColumnKind \<times> ColumnOptions \<Rightarrow> json \<Rightarrow> json option" where
  "carried X as_f64 from to' value =
     (if fst from = fst to' then Some value
      else case (fst from, fst to') of
        (Number, Text) \<Rightarrow> map_option JString (number_text X as_f64 value)
      | (Text, Number) \<Rightarrow>
          Option.bind (as_str value) (\<lambda>s.
          Option.bind (parse_f64 X (trim s)) (\<lambda>n.
            if is_finite n then Some (JNumber (Float n)) else None))
      | (Select, Text) \<Rightarrow>
          Option.bind (as_str value) (\<lambda>s. map_option (\<lambda>c. JString (label c)) (choice X (snd from) s))
      | (Text, Select) \<Rightarrow>
          Option.bind (as_str value) (\<lambda>s.
            map_option (\<lambda>c. JString (uuid_str X (c_id c))) (choice_labelled X (snd to') s))
      | _ \<Rightarrow> None)"

definition convert ::
  "ext \<Rightarrow> (jnum \<Rightarrow> f64) \<Rightarrow> ColumnKind \<times> ColumnOptions \<Rightarrow> ColumnKind \<times> ColumnOptions \<Rightarrow> json \<Rightarrow> json option" where
  "convert X as_f64 from to' value =
     Option.bind (carried X as_f64 from to' value) (\<lambda>v.
       case normalize X (fst to') (snd to') v of Inr (Set w) \<Rightarrow> Some w | _ \<Rightarrow> None)"

section \<open>Facts about the library functions\<close>

locale ext_laws =
  fixes X :: ext
  assumes parse_print_uuid [simp]: "parse_uuid X (uuid_str X u) = Some u"
    and parse_print_date: "parse_ymd X s = Some d \<Longrightarrow> parse_ymd X (format_ymd X d) = Some d"
begin

lemma uuid_str_inject [simp]: "uuid_str X u = uuid_str X v \<longleftrightarrow> u = v"
  by (metis option.inject parse_print_uuid)

lemma choice_of_id:
  "choice X o' (uuid_str X i) = List.find (\<lambda>c. c_id c = i) (choices o')"
  by (simp add: choice_def)

lemma choice_of_member:
  "c \<in> set (choices o') \<Longrightarrow> \<exists>c'. choice X o' (uuid_str X (c_id c)) = Some c' \<and> c_id c' = c_id c"
  by (cases "List.find (\<lambda>d. c_id d = c_id c) (choices o')")
     (auto simp: choice_of_id find_None_iff dest: find_Some_iff)

lemma chosen_ids_printed:
  assumes "set cs \<subseteq> set (choices o')"
  shows "\<exists>chosen. chosen_ids X o' acc (map (\<lambda>c. JString (uuid_str X (c_id c))) cs) = Inr chosen
    \<and> set chosen = set acc \<union> c_id ` set cs"
  using assms
proof (induction cs arbitrary: acc)
  case Nil
  then show ?case by simp
next
  case (Cons c cs)
  obtain c' where c': "choice X o' (uuid_str X (c_id c)) = Some c'" "c_id c' = c_id c"
    using choice_of_member [of c o'] Cons.prems by auto
  then show ?case using Cons.IH [of "push_new (c_id c) acc"] Cons.prems by auto
qed

end

lemma choice_SomeD: "choice X o' i = Some c \<Longrightarrow> c \<in> set (choices o')"
  by (auto simp: choice_def bind_eq_Some_conv dest: find_Some_iff)

lemma chosen_ids_subset:
  assumes "chosen_ids X o' acc vs = Inr chosen" and "set acc \<subseteq> c_id ` set (choices o')"
  shows "set chosen \<subseteq> c_id ` set (choices o')"
  using assms
proof (induction vs arbitrary: acc)
  case Nil
  then show ?case by simp
next
  case (Cons v vs)
  then obtain c where c: "chosen_ids X o' (push_new (c_id c) acc) vs = Inr chosen" "c \<in> set (choices o')"
    by (auto split: option.splits simp: bind_eq_Some_conv dest!: choice_SomeD)
  show ?case by (rule Cons.IH [OF c(1)]) (use Cons.prems(2) c(2) in simp)
qed

text \<open>A stored cell: a value its column's rules leave unchanged.\<close>

definition cell_ok :: "ext \<Rightarrow> ColumnKind \<Rightarrow> ColumnOptions \<Rightarrow> json \<Rightarrow> bool" where
  "cell_ok X k o' v \<longleftrightarrow> normalize X k o' v = Inr (Set v)"

context ext_laws
begin

lemma normalize_multi_idem:
  assumes "normalize_kind X MultiSelect o' v = Inr (Set w)"
  shows "normalize_kind X MultiSelect o' w = Inr (Set w)"
proof -
  obtain ids chosen where chosen: "chosen_ids X o' [] ids = Inr chosen" "chosen \<noteq> []"
    and w: "w = JArray (map (\<lambda>c. JString (uuid_str X (c_id c)))
      (filter (\<lambda>c. c_id c \<in> set chosen) (choices o')))"
    using assms by (auto split: if_splits)
  let ?cs = "filter (\<lambda>c. c_id c \<in> set chosen) (choices o')"
  obtain chosen' where c': "chosen_ids X o' [] (map (\<lambda>c. JString (uuid_str X (c_id c))) ?cs) = Inr chosen'"
    "set chosen' = c_id ` set ?cs"
    using chosen_ids_printed [of ?cs o' "[]"] by auto
  have sub: "set chosen \<subseteq> c_id ` set (choices o')" using chosen_ids_subset [OF chosen(1)] by simp
  then have "set chosen' = set chosen" using c'(2) by auto
  moreover have "chosen' \<noteq> []" using calculation chosen(2) by auto
  ultimately show ?thesis using c'(1) by (simp add: w)
qed

lemma normalize_idem:
  assumes "normalize X k o' v = Inr (Set w)"
  shows "cell_ok X k o' w"
proof -
  have v: "v \<noteq> JNull" "normalize_kind X k o' v = Inr (Set w)"
    using assms by (auto simp: normalize_def split: if_splits)
  have "normalize_kind X k o' w = Inr (Set w)"
  proof (cases k)
    case MultiSelect
    then show ?thesis using v(2) normalize_multi_idem by simp
  next
    case Select
    with v(2) obtain c i where "choice X o' i = Some c" "w = JString (uuid_str X (c_id c))"
      by (auto simp: bind_eq_Some_conv)
    then show ?thesis using Select choice_of_member [OF choice_SomeD] by fastforce
  next
    case Date
    then show ?thesis using v(2) parse_print_date by (auto simp: bind_eq_Some_conv)
  next
    case Number
    then show ?thesis using v(2) by (cases v) (auto split: if_splits)
  next
    case Checkbox
    then show ?thesis using v(2) by (cases v) auto
  next
    case Link
    with v(2) obtain x where "v = JString x" "w = JString (trim x)"
      by (auto simp: Let_def split: if_splits)
    then show ?thesis using Link v(2) by simp
  qed (use v(2) in \<open>auto simp: Let_def bind_eq_Some_conv split: if_splits\<close>)
  moreover have "w \<noteq> JNull"
    using v by (cases k) (auto simp: Let_def split: if_splits json.splits)
  ultimately show ?thesis by (simp add: cell_ok_def normalize_def)
qed

lemma convert_cell_ok: "convert X as_f64 from to' v = Some w \<Longrightarrow> cell_ok X (fst to') (snd to') w"
  by (cases "carried X as_f64 from to' v")
     (auto simp: convert_def intro: normalize_idem split: sum.splits Cell.splits)

lemma convert_same: "cell_ok X k o' v \<Longrightarrow> convert X as_f64 (k, o1) (k, o') v = Some v"
  by (simp add: convert_def carried_def cell_ok_def)

end

section \<open>A concrete instance of the library functions\<close>

text \<open>
  UUIDs printed as 32 lower-case hexadecimal digits grouped 8-4-4-4-12, dates as
  \<open>YYYY-MM-DD\<close> with a four-digit year, ASCII lower-casing, and decimal integers. These are the forms the libraries document
  for their printers; the instance shows that the laws can hold and lets results be evaluated.
\<close>

definition hex_char :: "nat \<Rightarrow> uchar" where
  "hex_char n = (if n < 10 then 48 + n else 87 + n)"

definition hex_val :: "uchar \<Rightarrow> nat option" where
  "hex_val c = (if 48 \<le> c \<and> c \<le> 57 then Some (c - 48)
     else if 97 \<le> c \<and> c \<le> 102 then Some (c - 87) else None)"

fun nibbles :: "nat \<Rightarrow> nat \<Rightarrow> nat list" where
  "nibbles 0 n = []"
| "nibbles (Suc k) n = nibbles k (n div 16) @ [n mod 16]"

definition print_uuid :: "uuid \<Rightarrow> rstr" where
  "print_uuid u = (let h = map hex_char (nibbles 32 (unat u)) in
     take 8 h @ [45] @ take 4 (drop 8 h) @ [45] @ take 4 (drop 12 h) @ [45]
       @ take 4 (drop 16 h) @ [45] @ drop 20 h)"

fun read_hex :: "nat \<Rightarrow> rstr \<Rightarrow> nat option" where
  "read_hex acc [] = Some acc"
| "read_hex acc (c # cs) = (case hex_val c of None \<Rightarrow> None | Some d \<Rightarrow> read_hex (acc * 16 + d) cs)"

definition read_uuid :: "rstr \<Rightarrow> uuid option" where
  "read_uuid s =
     (if length s = 36 \<and> s ! 8 = 45 \<and> s ! 13 = 45 \<and> s ! 18 = 45 \<and> s ! 23 = 45
      then map_option of_nat (read_hex 0 (take 8 s @ take 4 (drop 9 s) @ take 4 (drop 14 s)
             @ take 4 (drop 19 s) @ drop 24 s))
      else None)"

lemma length_nibbles [simp]: "length (nibbles k n) = k"
  by (induction k arbitrary: n) auto

lemma nibbles_small: "x \<in> set (nibbles k n) \<Longrightarrow> x < 16"
  by (induction k arbitrary: n) auto

lemma hex_val_char: "d < 16 \<Longrightarrow> hex_val (hex_char d) = Some d"
  by (auto simp: hex_val_def hex_char_def)

lemma read_hex_append:
  "read_hex acc (xs @ ys) = Option.bind (read_hex acc xs) (\<lambda>a. read_hex a ys)"
  by (induction acc xs rule: read_hex.induct) (auto split: option.splits)

lemma read_hex_nibbles: "read_hex acc (map hex_char (nibbles k n)) = Some (acc * 16 ^ k + n mod 16 ^ k)"
proof (induction k arbitrary: n)
  case 0
  then show ?case by simp
next
  case (Suc k)
  have "n mod 16 ^ Suc k = 16 * (n div 16 mod 16 ^ k) + n mod 16"
    by (simp add: mod_mult2_eq)
  then show ?case using Suc by (simp add: read_hex_append hex_val_char algebra_simps)
qed

lemma regroup:
  assumes "length h = 32"
  shows "let s = take 8 h @ [45] @ take 4 (drop 8 h) @ [45] @ take 4 (drop 12 h) @ [45]
       @ take 4 (drop 16 h) @ [45] @ drop 20 h
    in length s = 36 \<and> s ! 8 = 45 \<and> s ! 13 = 45 \<and> s ! 18 = 45 \<and> s ! 23 = (45::nat)
       \<and> take 8 s @ take 4 (drop 9 s) @ take 4 (drop 14 s) @ take 4 (drop 19 s) @ drop 24 s = h"
proof -
  have "h = take 8 h @ take 4 (drop 8 h) @ take 4 (drop 12 h) @ take 4 (drop 16 h) @ drop 20 h"
    using append_take_drop_id [of 8 h] append_take_drop_id [of 4 "drop 8 h"]
      append_take_drop_id [of 4 "drop 12 h"] append_take_drop_id [of 4 "drop 16 h"] by simp
  then show ?thesis using assms by (simp add: Let_def nth_append)
qed

lemma read_print_uuid: "read_uuid (print_uuid u) = Some u"
proof -
  let ?h = "map hex_char (nibbles 32 (unat u))"
  have "unat u < 16 ^ 32" using unsigned_less [of u, where 'a = nat] by simp
  then have "read_hex 0 ?h = Some (unat u)" by (simp add: read_hex_nibbles)
  then show ?thesis using regroup [of ?h] by (simp add: read_uuid_def print_uuid_def Let_def)
qed

definition days_in_month :: "int \<Rightarrow> nat \<Rightarrow> nat" where
  "days_in_month y m =
     (if m = 2 then (if y mod 4 = 0 \<and> (y mod 100 \<noteq> 0 \<or> y mod 400 = 0) then 29 else 28)
      else if m \<in> {4, 6, 9, 11} then 30 else 31)"

definition print_ymd :: "date \<Rightarrow> rstr" where
  "print_ymd = (\<lambda>(y, m, d).
     let n = nat y in
     [48 + n div 1000 mod 10, 48 + n div 100 mod 10, 48 + n div 10 mod 10, 48 + n mod 10, 45,
      48 + m div 10 mod 10, 48 + m mod 10, 45, 48 + d div 10 mod 10, 48 + d mod 10])"

fun read_ymd :: "rstr \<Rightarrow> date option" where
  "read_ymd [a, b, c, d, h1, e, f, h2, g, h] =
     (if list_all is_ascii_digit [a, b, c, d, e, f, g, h] \<and> h1 = 45 \<and> h2 = 45
      then let y = int ((a - 48) * 1000 + (b - 48) * 100 + (c - 48) * 10 + (d - 48));
               m = (e - 48) * 10 + (f - 48); day = (g - 48) * 10 + (h - 48)
           in if 1 \<le> m \<and> m \<le> 12 \<and> 1 \<le> day \<and> day \<le> days_in_month y m
              then Some (y, m, day) else None
      else None)"
| "read_ymd _ = None"

lemma digits4:
  fixes n :: nat
  assumes "n < 10000"
  shows "n div 1000 mod 10 * 1000 + n div 100 mod 10 * 100 + n div 10 mod 10 * 10 + n mod 10 = n"
proof -
  have "n div 1000 mod 10 = n div 1000" using assms by simp
  moreover have "n div 10 div 10 = n div 100" "n div 100 div 10 = n div 1000"
    by (simp_all add: div_mult2_eq [symmetric])
  ultimately show ?thesis
    using div_mult_mod_eq [of n 10] div_mult_mod_eq [of "n div 10" 10] div_mult_mod_eq [of "n div 100" 10]
    by linarith
qed

lemma digits2: "(n::nat) < 100 \<Longrightarrow> n div 10 mod 10 * 10 + n mod 10 = n"
  by (simp add: mod_less)

lemma digit_le9: "(n::nat) mod 10 \<le> 9"
  by (simp add: less_Suc_eq_le [symmetric])

lemma read_print_ymd:
  assumes "read_ymd s = Some (y, m, d)"
  shows "read_ymd (print_ymd (y, m, d)) = Some (y, m, d)"
proof -
  have b: "0 \<le> y" "y < 10000" "1 \<le> m" "m \<le> 12" "1 \<le> d" "d \<le> days_in_month y m"
    using assms
    by (auto elim!: read_ymd.elims simp: is_ascii_digit_def Let_def split: if_splits)
  then have "d < 100" by (auto simp: days_in_month_def split: if_splits)
  with b show ?thesis
    using digits4 [of "nat y"] digits2 [of m] digits2 [of d]
    by (simp add: print_ymd_def is_ascii_digit_def Let_def digit_le9 del: mod_less)
qed

fun read_decimal :: "rstr \<Rightarrow> f64 option" where
  "read_decimal s = (if s \<noteq> [] \<and> list_all is_ascii_digit s
     then Some (Fin (foldl (\<lambda>a c. a * 10 + int (c - 48)) 0 s) 0) else None)"

definition std_ext :: ext where
  "std_ext = \<lparr>parse_uuid = read_uuid, uuid_str = print_uuid, parse_ymd = read_ymd, format_ymd = print_ymd,
     to_lowercase = to_ascii_lowercase, parse_f64 = read_decimal,
     f64_text = (\<lambda>x. case integral_value x of Some i \<Rightarrow> int_text i | None \<Rightarrow> lit ''NaN'')\<rparr>"

interpretation std: ext_laws std_ext
proof
  fix u show "parse_uuid std_ext (uuid_str std_ext u) = Some u"
    by (simp add: std_ext_def read_print_uuid)
next
  fix s d show "parse_ymd std_ext s = Some d \<Longrightarrow> parse_ymd std_ext (format_ymd std_ext d) = Some d"
    by (cases d) (simp add: std_ext_def read_print_ymd)
qed

end
