(* ===== verification/List_Views.thy ===== *)
theory List_Views
  imports List_Model
begin

text \<open>
  Saved views of a list, \<open>src/backend/api/src/lists/views.rs\<close>: sort and filter rules, grouping,
  and the two ways a configuration is brought in line with the columns. \<open>check\<close> is strict and
  refuses what does not fit, \<open>pruned\<close> drops it. The results: both yield a configuration
  that fits (\<open>view_ok\<close>), and a configuration that fits passes both unchanged.
\<close>

definition MAX_VIEWS :: nat where "MAX_VIEWS = 20"
definition MAX_SORTS :: nat where "MAX_SORTS = 3"
definition MAX_FILTERS :: nat where "MAX_FILTERS = 10"
definition VIEW_NAME_MAX_CHARS :: nat where "VIEW_NAME_MAX_CHARS = 50"
definition FILTER_TEXT_MAX_CHARS :: nat where "FILTER_TEXT_MAX_CHARS = 200"
definition ME :: rstr where "ME = lit ''me''"

datatype ViewKind = Table | Board

datatype SortDirection = Asc | Desc

record SortRule =
  sr_column_id :: uuid
  direction :: SortDirection

datatype FilterOp = Contains | Is | IsNot | Lt | Gt | ThisWeek | Overdue | Empty | NotEmpty
  | Checked | Unchecked

record FilterRule =
  fr_column_id :: uuid
  fr_op :: FilterOp
  fr_value :: json

record ViewConfig =
  group_by :: "uuid option"
  sort_rules :: "SortRule list"
  filters :: "FilterRule list"

definition default_config :: ViewConfig where
  "default_config = \<lparr>group_by = None, sort_rules = [], filters = []\<rparr>"

record ListColumn =
  lc_id :: uuid
  lc_list_id :: uuid
  lc_position :: int
  lc_name :: rstr
  lc_kind :: ColumnKind
  lc_options :: ColumnOptions
  lc_hidden :: bool
  lc_due :: bool

definition clean_view_name :: "rstr \<Rightarrow> rstr AppResult" where
  "clean_view_name n =
     (let name = trim n in
      if name = [] then Inl (Validation (lit ''A view needs a name''))
      else if length name > VIEW_NAME_MAX_CHARS
      then Inl (Validation (lit ''A view name can be at most 50 characters''))
      else Inr name)"

section \<open>Filter values\<close>

fun ids_loop :: "bool \<Rightarrow> (rstr \<Rightarrow> bool) \<Rightarrow> json list \<Rightarrow> json list \<Rightarrow> rstr + json list" where
  "ids_loop strict known ids [] = Inr ids"
| "ids_loop strict known ids (v # vs) =
     (case as_str v of
        Some i \<Rightarrow>
          if known i then ids_loop strict known (push_new (JString i) ids) vs
          else if strict then Inl (lit ''has no such choice'') else ids_loop strict known ids vs
      | None \<Rightarrow>
          if strict then Inl (lit ''has no such choice'') else ids_loop strict known ids vs)"

definition ids_of :: "json \<Rightarrow> bool \<Rightarrow> (rstr \<Rightarrow> bool) \<Rightarrow> rstr + json" where
  "ids_of value strict known =
     (case as_array value of
        None \<Rightarrow> Inl (lit ''needs at least one value to compare with'')
      | Some given \<Rightarrow>
          if given = [] \<or> length given > MAX_CHOICES
          then Inl (lit ''needs at least one value to compare with'')
          else and_then (ids_loop strict known [] given) (\<lambda>ids.
            if ids = [] then Inl (lit ''needs at least one value to compare with'')
            else Inr (JArray ids)))"

definition filter_value :: "ext \<Rightarrow> FilterRule \<Rightarrow> ListColumn \<Rightarrow> bool \<Rightarrow> rstr + json" where
  "filter_value X rule column strict =
     (let op = fr_op rule; kind = lc_kind column; value = fr_value rule in
      if op = Contains \<and> (kind = Text \<or> kind = Link)
      then (case as_str value of
              None \<Rightarrow> Inl (lit ''needs text to look for'')
            | Some s \<Rightarrow>
                if trim s = [] then Inl (lit ''needs text to look for'')
                else if length (trim s) > FILTER_TEXT_MAX_CHARS
                then Inl (lit ''looks for at most 200 characters'')
                else Inr (JString (trim s)))
      else if (op = Is \<or> op = IsNot) \<and> (kind = Select \<or> kind = MultiSelect)
      then ids_of value strict (\<lambda>i. choice X (lc_options column) i \<noteq> None)
      else if (op = Is \<or> op = IsNot) \<and> kind = Person
      then ids_of value strict (\<lambda>i. i = ME \<or> parse_uuid X i \<noteq> None)
      else if (op = Lt \<or> op = Gt) \<and> kind = Number
      then (case value of
              JNumber n \<Rightarrow> if as_f64_finite n then Inr value else Inl (lit ''needs a number to compare with'')
            | _ \<Rightarrow> Inl (lit ''needs a number to compare with''))
      else if (op = Lt \<or> op = Gt) \<and> kind = Date
      then (case Option.bind (as_str value) (parse_ymd X) of
              Some d \<Rightarrow> Inr (JString (format_ymd X d))
            | None \<Rightarrow> Inl (lit ''needs a date as YYYY-MM-DD''))
      else if ((op = ThisWeek \<or> op = Overdue) \<and> kind = Date)
           \<or> ((op = Checked \<or> op = Unchecked) \<and> kind = Checkbox)
      then Inr JNull
      else if (op = Empty \<or> op = NotEmpty) \<and> kind \<noteq> Checkbox then Inr JNull
      else Inl (lit ''cannot be filtered that way''))"

section \<open>Resolving a configuration\<close>

definition not_in_list :: rstr where
  "not_in_list = lit ''That column is not in this list''"

definition find_column :: "ListColumn list \<Rightarrow> uuid \<Rightarrow> ListColumn option" where
  "find_column columns i = List.find (\<lambda>c. lc_id c = i) columns"

definition resolve_group :: "uuid option \<Rightarrow> ViewKind \<Rightarrow> ListColumn list \<Rightarrow> bool \<Rightarrow> rstr + uuid option" where
  "resolve_group g kind columns strict =
     (case g of
        None \<Rightarrow> Inr None
      | Some i \<Rightarrow>
          if kind = Board \<and> (case find_column columns i of None \<Rightarrow> False | Some c \<Rightarrow> lc_kind c = Select)
          then Inr (Some i)
          else if kind = Table \<and> strict then Inl (lit ''Only a board groups its items'')
          else if strict then Inl (lit ''A board groups by a single-select column'')
          else Inr None)"

fun resolve_sorts ::
  "ListColumn list \<Rightarrow> bool \<Rightarrow> SortRule list \<Rightarrow> SortRule list \<Rightarrow> rstr + SortRule list" where
  "resolve_sorts columns strict done [] = Inr done"
| "resolve_sorts columns strict done (r # rs) =
     (case find_column columns (sr_column_id r) of
        None \<Rightarrow> if strict then Inl not_in_list else resolve_sorts columns strict done rs
      | Some column \<Rightarrow>
          if list_ex (\<lambda>s. sr_column_id s = sr_column_id r) done
          then if strict then Inl (lc_name column @ lit '' is sorted by twice'')
               else resolve_sorts columns strict done rs
          else resolve_sorts columns strict (done @ [r]) rs)"

fun resolve_filters ::
  "ext \<Rightarrow> ListColumn list \<Rightarrow> bool \<Rightarrow> FilterRule list \<Rightarrow> rstr + FilterRule list" where
  "resolve_filters X columns strict [] = Inr []"
| "resolve_filters X columns strict (r # rs) =
     (case find_column columns (fr_column_id r) of
        None \<Rightarrow> if strict then Inl not_in_list else resolve_filters X columns strict rs
      | Some column \<Rightarrow>
          (case filter_value X r column strict of
             Inr v \<Rightarrow> and_then (resolve_filters X columns strict rs) (\<lambda>fs. Inr (r\<lparr>fr_value := v\<rparr> # fs))
           | Inl problem \<Rightarrow>
               if strict then Inl (lc_name column @ lit '' '' @ problem)
               else resolve_filters X columns strict rs))"

definition resolve_config ::
  "ext \<Rightarrow> ViewConfig \<Rightarrow> ViewKind \<Rightarrow> ListColumn list \<Rightarrow> bool \<Rightarrow> rstr + ViewConfig" where
  "resolve_config X self kind columns strict =
     (if strict \<and> length (sort_rules self) > MAX_SORTS
      then Inl (lit ''A view sorts by at most 3 columns'')
      else if strict \<and> length (filters self) > MAX_FILTERS
      then Inl (lit ''A view has at most 10 filters'')
      else and_then (resolve_group (group_by self) kind columns strict) (\<lambda>g.
        and_then (resolve_sorts columns strict [] (take MAX_SORTS (sort_rules self))) (\<lambda>ss.
        and_then (resolve_filters X columns strict (take MAX_FILTERS (filters self))) (\<lambda>fs.
          Inr \<lparr>group_by = g, sort_rules = ss, filters = fs\<rparr>))))"

definition check :: "ext \<Rightarrow> ViewConfig \<Rightarrow> ViewKind \<Rightarrow> ListColumn list \<Rightarrow> ViewConfig AppResult" where
  "check X self kind columns = map_err Validation (resolve_config X self kind columns True)"

definition pruned :: "ext \<Rightarrow> ViewConfig \<Rightarrow> ViewKind \<Rightarrow> ListColumn list \<Rightarrow> ViewConfig" where
  "pruned X self kind columns =
     (case resolve_config X self kind columns False of Inr c \<Rightarrow> c | Inl _ \<Rightarrow> default_config)"

section \<open>Configurations that fit\<close>

definition group_ok :: "uuid option \<Rightarrow> ViewKind \<Rightarrow> ListColumn list \<Rightarrow> bool" where
  "group_ok g kind columns \<longleftrightarrow>
     (case g of None \<Rightarrow> True
      | Some i \<Rightarrow> kind = Board \<and> (\<exists>c. find_column columns i = Some c \<and> lc_kind c = Select))"

definition sort_ok :: "SortRule list \<Rightarrow> ListColumn list \<Rightarrow> bool" where
  "sort_ok ss columns \<longleftrightarrow>
     distinct (map sr_column_id ss) \<and> (\<forall>s\<in>set ss. find_column columns (sr_column_id s) \<noteq> None)"

definition filter_ok :: "ext \<Rightarrow> FilterRule \<Rightarrow> ListColumn list \<Rightarrow> bool" where
  "filter_ok X f columns \<longleftrightarrow>
     (\<exists>c. find_column columns (fr_column_id f) = Some c
        \<and> (\<forall>strict. filter_value X f c strict = Inr (fr_value f)))"

definition view_ok :: "ext \<Rightarrow> ViewConfig \<Rightarrow> ViewKind \<Rightarrow> ListColumn list \<Rightarrow> bool" where
  "view_ok X v kind columns \<longleftrightarrow>
     group_ok (group_by v) kind columns
     \<and> length (sort_rules v) \<le> MAX_SORTS \<and> sort_ok (sort_rules v) columns
     \<and> length (filters v) \<le> MAX_FILTERS \<and> (\<forall>f\<in>set (filters v). filter_ok X f columns)"

subsection \<open>Identifier lists\<close>

lemma ids_loop_known:
  assumes "ids_loop strict known acc vs = Inr ids"
    and "list_all (\<lambda>v. \<exists>i. v = JString i \<and> known i) acc" and "distinct acc"
  shows "list_all (\<lambda>v. \<exists>i. v = JString i \<and> known i) ids \<and> distinct ids
     \<and> length ids \<le> length acc + length vs"
  using assms
proof (induction vs arbitrary: acc)
  case Nil
  then show ?case by simp
next
  case (Cons v vs)
  show ?case
  proof (cases "\<exists>i. v = JString i \<and> known i")
    case True
    then obtain i where i: "v = JString i" "known i" by blast
    have "length (push_new (JString i) acc) \<le> Suc (length acc)" by (simp add: push_new_def)
    then show ?thesis
      using Cons.IH [of "push_new (JString i) acc"] Cons.prems i by (auto simp: list_all_iff)
  next
    case False
    then show ?thesis using Cons.IH [of acc] Cons.prems by (auto split: option.splits if_splits)
  qed
qed

lemma ids_loop_fixed:
  "list_all (\<lambda>v. \<exists>i. v = JString i \<and> known i) vs \<Longrightarrow> distinct (acc @ vs) \<Longrightarrow>
     ids_loop strict known acc vs = Inr (acc @ vs)"
proof (induction vs arbitrary: acc)
  case Nil
  then show ?case by simp
next
  case (Cons v vs)
  then obtain i where "v = JString i" "known i" by auto
  with Cons show ?case by (simp add: push_new_def)
qed

lemma ids_of_idem:
  assumes "ids_of v strict known = Inr w"
  shows "ids_of w strict' known = Inr w"
proof -
  obtain given ids where g: "v = JArray given" "length given \<le> MAX_CHOICES"
    and ids: "ids_loop strict known [] given = Inr ids" "ids \<noteq> []" "w = JArray ids"
    using assms by (auto simp: ids_of_def split: option.splits if_splits)
  have "list_all (\<lambda>v. \<exists>i. v = JString i \<and> known i) ids" "distinct ids" "length ids \<le> length given"
    using ids_loop_known [OF ids(1)] by auto
  then show ?thesis using ids_loop_fixed [of known ids "[]"] g(2) ids(2,3) by (simp add: ids_of_def)
qed

context ext_laws
begin

lemma filter_value_idem:
  assumes "filter_value X r c strict = Inr v"
  shows "filter_value X (r\<lparr>fr_value := v\<rparr>) c strict' = Inr v"
proof -
  consider "fr_op r = Contains" | "fr_op r = Is \<or> fr_op r = IsNot" | "fr_op r = Lt \<or> fr_op r = Gt"
    | "fr_op r \<in> {ThisWeek, Overdue, Empty, NotEmpty, Checked, Unchecked}"
    by (cases "fr_op r") auto
  then show ?thesis
  proof cases
    case 1
    then show ?thesis
      using assms by (auto simp: filter_value_def Let_def split: option.splits if_splits)
  next
    case 2
    then show ?thesis
      using assms ids_of_idem by (cases "lc_kind c") (auto simp: filter_value_def Let_def)
  next
    case 3
    then show ?thesis
      using assms parse_print_date
      by (cases "lc_kind c"; cases "fr_value r")
         (auto simp: filter_value_def Let_def split: if_splits option.splits json.split)
  next
    case 4
    then show ?thesis
      using assms by (cases "lc_kind c") (auto simp: filter_value_def Let_def)
  qed
qed

lemma resolve_filters_ok:
  "resolve_filters X columns strict rs = Inr fs \<Longrightarrow>
     (\<forall>f\<in>set fs. filter_ok X f columns) \<and> length fs \<le> length rs"
proof (induction rs arbitrary: fs)
  case Nil
  then show ?case by simp
next
  case (Cons r rs)
  then show ?case
    by (fastforce simp: filter_ok_def dest: filter_value_idem split: option.splits sum.splits if_splits)
qed

end

lemma sorted_by_iff: "list_ex (\<lambda>s. sr_column_id s = i) ss \<longleftrightarrow> i \<in> sr_column_id ` set ss"
  by (auto simp: list_ex_iff)

lemma resolve_sorts_ok:
  "resolve_sorts columns strict acc rs = Inr ss \<Longrightarrow> sort_ok acc columns \<Longrightarrow>
     sort_ok ss columns \<and> length ss \<le> length acc + length rs"
proof (induction rs arbitrary: acc)
  case Nil
  then show ?case by simp
next
  case (Cons r rs)
  show ?case
  proof (cases "find_column columns (sr_column_id r) \<noteq> None \<and> sr_column_id r \<notin> sr_column_id ` set acc")
    case True
    then have "sort_ok (acc @ [r]) columns" using Cons.prems(2) by (auto simp: sort_ok_def)
    then show ?thesis
      using True Cons.IH [of "acc @ [r]"] Cons.prems by (auto simp: sorted_by_iff)
  next
    case False
    then have "resolve_sorts columns strict acc rs = Inr ss"
      using Cons.prems(1) by (auto simp: sorted_by_iff split: option.splits if_splits)
    then show ?thesis using Cons.IH [of acc] Cons.prems(2) by auto
  qed
qed

lemma resolve_sorts_fixed:
  "sort_ok (acc @ rs) columns \<Longrightarrow> resolve_sorts columns strict acc rs = Inr (acc @ rs)"
proof (induction rs arbitrary: acc)
  case Nil
  then show ?case by simp
next
  case (Cons r rs)
  then show ?case by (auto simp: sort_ok_def sorted_by_iff)
qed

lemma resolve_filters_fixed:
  "\<forall>f\<in>set fs. filter_ok X f columns \<Longrightarrow> resolve_filters X columns strict fs = Inr fs"
  by (induction fs) (auto simp: filter_ok_def)

lemma resolve_group_ok: "resolve_group g kind columns strict = Inr g' \<Longrightarrow> group_ok g' kind columns"
  by (auto simp: resolve_group_def group_ok_def split: option.splits if_splits)

lemma resolve_group_fixed: "group_ok g kind columns \<Longrightarrow> resolve_group g kind columns strict = Inr g"
  by (auto simp: resolve_group_def group_ok_def split: option.splits)

lemma resolve_config_fixed:
  "view_ok X v kind columns \<Longrightarrow> resolve_config X v kind columns strict = Inr v"
  by (cases v) (simp add: resolve_config_def view_ok_def resolve_group_fixed resolve_sorts_fixed
      resolve_filters_fixed)

context ext_laws
begin

lemma resolve_config_ok:
  assumes "resolve_config X v kind columns strict = Inr w"
  shows "view_ok X w kind columns"
proof -
  obtain g ss fs where w: "w = \<lparr>group_by = g, sort_rules = ss, filters = fs\<rparr>"
    and r: "resolve_group (group_by v) kind columns strict = Inr g"
      "resolve_sorts columns strict [] (take MAX_SORTS (sort_rules v)) = Inr ss"
      "resolve_filters X columns strict (take MAX_FILTERS (filters v)) = Inr fs"
    using assms by (auto simp: resolve_config_def split: if_splits)
  show ?thesis
    using resolve_group_ok [OF r(1)] resolve_sorts_ok [OF r(2)] resolve_filters_ok [OF r(3)]
    by (auto simp: w view_ok_def sort_ok_def)
qed

end

text \<open>Pruning never fails, so the default configuration is never substituted.\<close>

lemma resolve_sorts_lenient: "\<exists>ss. resolve_sorts columns False acc rs = Inr ss"
  by (induction rs arbitrary: acc) (auto split: option.splits)

lemma resolve_filters_lenient: "\<exists>fs. resolve_filters X columns False rs = Inr fs"
  by (induction rs) (auto split: option.splits sum.splits)

lemma resolve_config_lenient: "\<exists>w. resolve_config X v kind columns False = Inr w"
  using resolve_sorts_lenient [of columns "[]" "take MAX_SORTS (sort_rules v)"]
    resolve_filters_lenient [of X columns "take MAX_FILTERS (filters v)"]
  by (auto simp: resolve_config_def resolve_group_def split: option.splits)

context ext_laws
begin

lemma pruned_ok: "view_ok X (pruned X v kind columns) kind columns"
  using resolve_config_lenient [of X v kind columns] by (auto simp: pruned_def dest: resolve_config_ok)

lemma check_ok: "check X v kind columns = Inr w \<Longrightarrow> view_ok X w kind columns"
  by (auto simp: check_def dest: resolve_config_ok)

lemma check_pruned:
  "check X (pruned X v kind columns) kind columns = Inr (pruned X v kind columns)"
  using resolve_config_fixed [OF pruned_ok] by (simp add: check_def)

end



end
