(* ===== verification/List_Store.thy ===== *)
theory List_Store
  imports List_Rank List_Views Workspace "HOL-Library.Product_Lexorder"
begin

text \<open>
  The tables behind lists and the statements of \<open>src/backend/api/src/lists/repo.rs\<close>, one function per
  statement, over a record of tables. A row keeps its \<open>deleted_at\<close>. \<open>NOW()\<close> and
  the identifiers that \<open>gen_random_uuid()\<close> draws are arguments; an insert whose identifier is taken
  fails, as the primary key makes it. A statement that must find its row (\<open>fetch_one\<close>)
  fails without it. \<open>JSONB\<close> columns hold the Rust value they were written from.
\<close>

section \<open>Rows\<close>

record ListRow =
  l_id :: uuid
  l_workspace_id :: uuid
  l_channel_id :: "uuid option"
  l_title :: rstr
  l_description :: rstr
  l_created_by :: uuid
  l_created_at :: timestamp
  l_updated_at :: timestamp
  l_deleted_at :: "timestamp option"

text \<open>The values of an item are a JSON object keyed by column identifiers.\<close>

type_synonym fields = "(rstr \<times> json) list"

record ListItem =
  li_id :: uuid
  li_list_id :: uuid
  li_rank :: rstr
  li_values :: fields
  li_comment_count :: int
  li_created_by :: uuid
  li_created_at :: timestamp
  li_updated_at :: timestamp
  li_deleted_at :: "timestamp option"

record ListView =
  lv_id :: uuid
  lv_list_id :: uuid
  lv_position :: int
  lv_name :: rstr
  lv_kind :: ViewKind
  lv_config :: ViewConfig
  lv_created_by :: uuid
  lv_created_at :: timestamp
  lv_updated_at :: timestamp

record ListComment =
  lcm_id :: uuid
  lcm_item_id :: uuid
  lcm_list_id :: uuid
  lcm_user_id :: uuid
  lcm_content :: rstr
  lcm_created_at :: timestamp
  lcm_edited_at :: "timestamp option"

record store =
  s_lists :: "ListRow list"
  s_columns :: "ListColumn list"
  s_views :: "ListView list"
  s_items :: "ListItem list"
  s_comments :: "ListComment list"

definition I32_MAX :: int where
  "I32_MAX = 2147483647"

text \<open>\<open>COALESCE(MAX(position) + 1, 0)\<close>; the sum is checked against the range of \<open>INTEGER\<close>.\<close>

definition next_position :: "int list \<Rightarrow> int AppResult" where
  "next_position ps =
     (if ps = [] then Inr 0
      else if Max (set ps) + 1 > I32_MAX then Inl (db_error ''integer out of range'')
      else Inr (Max (set ps) + 1))"

section \<open>Lists\<close>

definition create_in ::
  "store \<Rightarrow> uuid \<Rightarrow> timestamp \<Rightarrow> uuid \<Rightarrow> uuid option \<Rightarrow> rstr \<Rightarrow> rstr \<Rightarrow> uuid \<Rightarrow> (store \<times> ListRow) AppResult" where
  "create_in S i now w c title description by =
     (if i \<in> l_id ` set (s_lists S) then Inl (db_error ''duplicate key'')
      else let row = \<lparr>l_id = i, l_workspace_id = w, l_channel_id = c, l_title = title,
                 l_description = description, l_created_by = by, l_created_at = now, l_updated_at = now,
                 l_deleted_at = None\<rparr>
           in Inr (S\<lparr>s_lists := s_lists S @ [row]\<rparr>, row))"

definition find_list :: "store \<Rightarrow> uuid \<Rightarrow> ListRow option" where
  "find_list S i = List.find (\<lambda>l. l_id l = i \<and> l_deleted_at l = None) (s_lists S)"

definition lock_in :: "store \<Rightarrow> uuid \<Rightarrow> ListRow option" where
  "lock_in S i = find_list S i"

definition share_lock_in :: "store \<Rightarrow> uuid \<Rightarrow> bool" where
  "share_lock_in S i \<longleftrightarrow> find_list S i \<noteq> None"

record Visibility =
  vis_workspace_id :: uuid
  vis_user_id :: uuid
  vis_is_guest :: bool
  vis_channel_id :: "uuid option"

text \<open>\<open>searchable_channels\<close> is a function of the database schema; its answer is an argument.\<close>

definition visible_lists :: "store \<Rightarrow> (Visibility \<Rightarrow> uuid list) \<Rightarrow> Visibility \<Rightarrow> ListRow list" where
  "visible_lists S searchable scope =
     sort_key (\<lambda>l. - l_created_at l)
       (filter (\<lambda>l. l_workspace_id l = vis_workspace_id scope \<and> l_deleted_at l = None
          \<and> ((l_channel_id l = None \<and> l_created_by l = vis_user_id scope \<and> vis_channel_id scope = None)
             \<or> (case l_channel_id l of None \<Rightarrow> False | Some c \<Rightarrow> c \<in> set (searchable scope))))
        (s_lists S))"

definition update_in :: "store \<Rightarrow> timestamp \<Rightarrow> uuid \<Rightarrow> rstr \<Rightarrow> rstr \<Rightarrow> (store \<times> ListRow) AppResult" where
  "update_in S now i title description =
     (let f = (\<lambda>l. l\<lparr>l_title := title, l_description := description, l_updated_at := now\<rparr>) in
      case List.find (\<lambda>l. l_id l = i) (s_lists S) of
        None \<Rightarrow> Inl (db_error ''no rows returned'')
      | Some l \<Rightarrow> Inr (S\<lparr>s_lists := update_rows (\<lambda>l. l_id l = i) f (s_lists S)\<rparr>, f l))"

definition soft_delete_in :: "store \<Rightarrow> timestamp \<Rightarrow> uuid \<Rightarrow> store" where
  "soft_delete_in S now i =
     S\<lparr>s_lists := update_rows (\<lambda>l. l_id l = i)
        (\<lambda>l. l\<lparr>l_deleted_at := Some now, l_updated_at := now\<rparr>) (s_lists S)\<rparr>"

definition exportable :: "store \<Rightarrow> (uuid \<Rightarrow> Channel option) \<Rightarrow> uuid \<Rightarrow> bool \<Rightarrow> ListRow list" where
  "exportable S channel_row w include_private =
     sort_key l_created_at
       (filter (\<lambda>l. l_workspace_id l = w \<and> l_deleted_at l = None
          \<and> (include_private
             \<or> (case Option.bind (l_channel_id l) channel_row of
                  None \<Rightarrow> False | Some c \<Rightarrow> channel_type c \<noteq> Dm \<and> channel_type c \<noteq> GroupDm)))
        (s_lists S))"

section \<open>Columns\<close>

definition columns_in :: "store \<Rightarrow> uuid \<Rightarrow> ListColumn list" where
  "columns_in S l = sort_key (\<lambda>c. (lc_position c, lc_id c)) (filter (\<lambda>c. lc_list_id c = l) (s_columns S))"

definition column_list :: "store \<Rightarrow> uuid \<Rightarrow> uuid option" where
  "column_list S i =
     Option.bind (List.find (\<lambda>c. lc_id c = i) (s_columns S)) (\<lambda>c.
       map_option l_id (find_list S (lc_list_id c)))"

definition insert_column_in ::
  "store \<Rightarrow> uuid \<Rightarrow> uuid \<Rightarrow> rstr \<Rightarrow> ColumnKind \<Rightarrow> ColumnOptions \<Rightarrow> (store \<times> ListColumn) AppResult" where
  "insert_column_in S i l name kind options =
     (if i \<in> lc_id ` set (s_columns S) then Inl (db_error ''duplicate key'')
      else and_then (next_position (map lc_position (filter (\<lambda>c. lc_list_id c = l) (s_columns S)))) (\<lambda>p.
        let row = \<lparr>lc_id = i, lc_list_id = l, lc_position = p, lc_name = name, lc_kind = kind,
               lc_options = options, lc_hidden = False, lc_due = False\<rparr>
        in Inr (S\<lparr>s_columns := s_columns S @ [row]\<rparr>, row)))"

record ColumnFields =
  cf_name :: rstr
  cf_kind :: ColumnKind
  cf_options :: ColumnOptions
  cf_hidden :: bool
  cf_due :: bool

definition update_column_in :: "store \<Rightarrow> uuid \<Rightarrow> ColumnFields \<Rightarrow> store" where
  "update_column_in S i f =
     (let owner = map_option lc_list_id (List.find (\<lambda>c. lc_id c = i) (s_columns S));
          cs = (if cf_due f
                then update_rows (\<lambda>c. Some (lc_list_id c) = owner \<and> lc_id c \<noteq> i \<and> lc_due c)
                       (\<lambda>c. c\<lparr>lc_due := False\<rparr>) (s_columns S)
                else s_columns S)
      in S\<lparr>s_columns := update_rows (\<lambda>c. lc_id c = i)
           (\<lambda>c. c\<lparr>lc_name := cf_name f, lc_kind := cf_kind f, lc_options := cf_options f,
                  lc_hidden := cf_hidden f, lc_due := cf_due f\<rparr>) cs\<rparr>)"

definition delete_column_in :: "ext \<Rightarrow> store \<Rightarrow> uuid \<Rightarrow> uuid \<Rightarrow> store" where
  "delete_column_in X S l i =
     S\<lparr>s_columns := filter (\<lambda>c. lc_id c \<noteq> i) (s_columns S),
       s_items := update_rows (\<lambda>r. li_list_id r = l \<and> map_of (li_values r) (uuid_str X i) \<noteq> None)
         (\<lambda>r. r\<lparr>li_values := AList.delete (uuid_str X i) (li_values r)\<rparr>) (s_items S)\<rparr>"

text \<open>\<open>unnest ... WITH ORDINALITY\<close> numbers the identifiers from 1; the statement stores that number less 1.\<close>

definition reorder_columns_in :: "store \<Rightarrow> uuid \<Rightarrow> uuid list \<Rightarrow> store" where
  "reorder_columns_in S l ids =
     S\<lparr>s_columns := update_rows (\<lambda>c. lc_list_id c = l \<and> lc_id c \<in> set ids)
        (\<lambda>c. c\<lparr>lc_position := int (the (position (lc_id c) ids))\<rparr>) (s_columns S)\<rparr>"

section \<open>Views\<close>

definition views_in :: "store \<Rightarrow> uuid \<Rightarrow> ListView list" where
  "views_in S l = sort_key (\<lambda>v. (lv_position v, lv_id v)) (filter (\<lambda>v. lv_list_id v = l) (s_views S))"

definition view_list :: "store \<Rightarrow> uuid \<Rightarrow> uuid option" where
  "view_list S i =
     Option.bind (List.find (\<lambda>v. lv_id v = i) (s_views S)) (\<lambda>v.
       map_option l_id (find_list S (lv_list_id v)))"

definition insert_view_in ::
  "store \<Rightarrow> uuid \<Rightarrow> timestamp \<Rightarrow> uuid \<Rightarrow> rstr \<Rightarrow> ViewKind \<Rightarrow> ViewConfig \<Rightarrow> uuid \<Rightarrow> (store \<times> ListView) AppResult" where
  "insert_view_in S i now l name kind config by =
     (if i \<in> lv_id ` set (s_views S) then Inl (db_error ''duplicate key'')
      else and_then (next_position (map lv_position (filter (\<lambda>v. lv_list_id v = l) (s_views S)))) (\<lambda>p.
        let row = \<lparr>lv_id = i, lv_list_id = l, lv_position = p, lv_name = name, lv_kind = kind,
               lv_config = config, lv_created_by = by, lv_created_at = now, lv_updated_at = now\<rparr>
        in Inr (S\<lparr>s_views := s_views S @ [row]\<rparr>, row)))"

definition update_view_in ::
  "store \<Rightarrow> timestamp \<Rightarrow> uuid \<Rightarrow> rstr \<Rightarrow> ViewKind \<Rightarrow> ViewConfig \<Rightarrow> store" where
  "update_view_in S now i name kind config =
     S\<lparr>s_views := update_rows (\<lambda>v. lv_id v = i)
        (\<lambda>v. v\<lparr>lv_name := name, lv_kind := kind, lv_config := config, lv_updated_at := now\<rparr>) (s_views S)\<rparr>"

definition delete_view_in :: "store \<Rightarrow> uuid \<Rightarrow> store" where
  "delete_view_in S i = S\<lparr>s_views := filter (\<lambda>v. lv_id v \<noteq> i) (s_views S)\<rparr>"

definition reorder_views_in :: "store \<Rightarrow> uuid \<Rightarrow> uuid list \<Rightarrow> store" where
  "reorder_views_in S l ids =
     S\<lparr>s_views := update_rows (\<lambda>v. lv_list_id v = l \<and> lv_id v \<in> set ids)
        (\<lambda>v. v\<lparr>lv_position := int (the (position (lv_id v) ids))\<rparr>) (s_views S)\<rparr>"

section \<open>Items\<close>

definition live_items :: "store \<Rightarrow> uuid \<Rightarrow> ListItem list" where
  "live_items S l = filter (\<lambda>r. li_list_id r = l \<and> li_deleted_at r = None) (s_items S)"

definition items_of :: "store \<Rightarrow> uuid \<Rightarrow> ListItem list" where
  "items_of S l = sort_key (\<lambda>r. (li_rank r, li_id r)) (live_items S l)"

definition item_list :: "store \<Rightarrow> uuid \<Rightarrow> uuid option" where
  "item_list S i =
     Option.bind (List.find (\<lambda>r. li_id r = i \<and> li_deleted_at r = None) (s_items S)) (\<lambda>r.
       map_option l_id (find_list S (li_list_id r)))"

definition item_count_in :: "store \<Rightarrow> uuid \<Rightarrow> nat" where
  "item_count_in S l = length (live_items S l)"

definition neighbours_in ::
  "store \<Rightarrow> uuid \<Rightarrow> uuid option \<Rightarrow> uuid option \<Rightarrow> (rstr option \<times> rstr option) option" where
  "neighbours_in S l after moving =
     (let low = (case after of
            None \<Rightarrow> Some None
          | Some a \<Rightarrow> map_option (\<lambda>r. Some (li_rank r))
              (List.find (\<lambda>r. li_id r = a \<and> li_list_id r = l \<and> li_deleted_at r = None) (s_items S)))
      in case low of
        None \<Rightarrow> None
      | Some lo \<Rightarrow>
          let high = map_option li_rank (List.find (\<lambda>_. True)
                (sort_key (\<lambda>r. (li_rank r, li_id r))
                  (filter (\<lambda>r. (case lo of None \<Rightarrow> True | Some k \<Rightarrow> li_rank r > k)
                     \<and> moving \<noteq> Some (li_id r) \<and> after \<noteq> Some (li_id r)) (live_items S l))))
          in Some (lo, high))"

definition last_rank_in :: "store \<Rightarrow> uuid \<Rightarrow> rstr option" where
  "last_rank_in S l =
     map_option li_rank (List.find (\<lambda>_. True) (rev (items_of S l)))"

definition insert_item_in ::
  "store \<Rightarrow> uuid \<Rightarrow> timestamp \<Rightarrow> uuid \<Rightarrow> rstr \<Rightarrow> fields \<Rightarrow> uuid \<Rightarrow> (store \<times> ListItem) AppResult" where
  "insert_item_in S i now l rank' vals by =
     (if i \<in> li_id ` set (s_items S) then Inl (db_error ''duplicate key'')
      else let row = \<lparr>li_id = i, li_list_id = l, li_rank = rank', li_values = vals, li_comment_count = 0,
                 li_created_by = by, li_created_at = now, li_updated_at = now, li_deleted_at = None\<rparr>
           in Inr (S\<lparr>s_items := s_items S @ [row]\<rparr>, row))"

text \<open>\<open>("values" || $2) - $3\<close>: the new fields win, then the cleared keys go.\<close>

definition merge_fields :: "fields \<Rightarrow> fields \<Rightarrow> rstr list \<Rightarrow> fields" where
  "merge_fields old new gone = filter (\<lambda>(k, _). k \<notin> set gone) (AList.merge old new)"

definition live_item :: "uuid \<Rightarrow> ListItem \<Rightarrow> bool" where
  "live_item i r \<longleftrightarrow> li_id r = i \<and> li_deleted_at r = None"

definition merge_item_in ::
  "store \<Rightarrow> timestamp \<Rightarrow> uuid \<Rightarrow> fields \<Rightarrow> rstr list \<Rightarrow> (store \<times> ListItem) option" where
  "merge_item_in S now i new gone =
     (let f = (\<lambda>r. r\<lparr>li_values := merge_fields (li_values r) new gone, li_updated_at := now\<rparr>) in
      map_option (\<lambda>r. (S\<lparr>s_items := update_rows (live_item i) f (s_items S)\<rparr>, f r))
        (List.find (live_item i) (s_items S)))"

definition move_item_in :: "store \<Rightarrow> timestamp \<Rightarrow> uuid \<Rightarrow> rstr \<Rightarrow> (store \<times> ListItem) AppResult" where
  "move_item_in S now i rank' =
     (let f = (\<lambda>r. r\<lparr>li_rank := rank', li_updated_at := now\<rparr>) in
      case List.find (\<lambda>r. li_id r = i) (s_items S) of
        None \<Rightarrow> Inl (db_error ''no rows returned'')
      | Some r \<Rightarrow> Inr (S\<lparr>s_items := update_rows (\<lambda>r. li_id r = i) f (s_items S)\<rparr>, f r))"

definition delete_item_in :: "store \<Rightarrow> timestamp \<Rightarrow> uuid \<Rightarrow> store \<times> bool" where
  "delete_item_in S now i =
     (S\<lparr>s_items := update_rows (live_item i)
          (\<lambda>r. r\<lparr>li_deleted_at := Some now, li_updated_at := now\<rparr>) (s_items S)\<rparr>,
      list_ex (live_item i) (s_items S))"

definition item_values_in :: "store \<Rightarrow> uuid \<Rightarrow> fields option" where
  "item_values_in S i = map_option li_values (List.find (live_item i) (s_items S))"

text \<open>\<open>GREATEST(comment_count + $2, 0)\<close> on \<open>INTEGER\<close>.\<close>

definition count_comments_in :: "store \<Rightarrow> uuid \<Rightarrow> int \<Rightarrow> (store \<times> ListItem) option AppResult" where
  "count_comments_in S i delta =
     (let f = (\<lambda>r. r\<lparr>li_comment_count := max (li_comment_count r + delta) 0\<rparr>) in
      case List.find (live_item i) (s_items S) of
        None \<Rightarrow> Inr None
      | Some r \<Rightarrow>
          if li_comment_count r + delta > I32_MAX then Inl (db_error ''integer out of range'')
          else Inr (Some (S\<lparr>s_items := update_rows (live_item i) f (s_items S)\<rparr>, f r)))"

definition cells_in :: "ext \<Rightarrow> store \<Rightarrow> uuid \<Rightarrow> uuid \<Rightarrow> (uuid \<times> json) list" where
  "cells_in X S l c =
     List.map_filter (\<lambda>r. map_option (\<lambda>v. (li_id r, v)) (map_of (li_values r) (uuid_str X c)))
       (live_items S l)"

definition rewrite_cells_in :: "ext \<Rightarrow> store \<Rightarrow> uuid \<Rightarrow> uuid \<Rightarrow> (uuid \<times> json) list \<Rightarrow> store" where
  "rewrite_cells_in X S l c cells =
     S\<lparr>s_items := update_rows (\<lambda>r. li_list_id r = l \<and> map_of cells (li_id r) \<noteq> None)
        (\<lambda>r. case the (map_of cells (li_id r)) of
               JNull \<Rightarrow> r\<lparr>li_values := AList.delete (uuid_str X c) (li_values r)\<rparr>
             | v \<Rightarrow> r\<lparr>li_values := AList.update (uuid_str X c) v (li_values r)\<rparr>) (s_items S)\<rparr>"

section \<open>Comments\<close>

definition comments_of :: "store \<Rightarrow> uuid \<Rightarrow> ListComment list" where
  "comments_of S i =
     sort_key (\<lambda>c. (lcm_created_at c, lcm_id c)) (filter (\<lambda>c. lcm_item_id c = i) (s_comments S))"

definition list_comments :: "store \<Rightarrow> uuid \<Rightarrow> ListComment list" where
  "list_comments S l =
     sort_key (\<lambda>c. (lcm_created_at c, lcm_id c))
       (filter (\<lambda>c. lcm_list_id c = l \<and> list_ex (live_item (lcm_item_id c)) (s_items S)) (s_comments S))"

definition comment_by_id :: "store \<Rightarrow> uuid \<Rightarrow> ListComment option" where
  "comment_by_id S i = List.find (\<lambda>c. lcm_id c = i) (s_comments S)"

definition insert_comment_in ::
  "store \<Rightarrow> uuid \<Rightarrow> timestamp \<Rightarrow> ListItem \<Rightarrow> uuid \<Rightarrow> rstr \<Rightarrow> (store \<times> ListComment) AppResult" where
  "insert_comment_in S i now item u content =
     (if i \<in> lcm_id ` set (s_comments S) then Inl (db_error ''duplicate key'')
      else let row = \<lparr>lcm_id = i, lcm_item_id = li_id item, lcm_list_id = li_list_id item, lcm_user_id = u,
                 lcm_content = content, lcm_created_at = now, lcm_edited_at = None\<rparr>
           in Inr (S\<lparr>s_comments := s_comments S @ [row]\<rparr>, row))"

definition edit_comment_in :: "store \<Rightarrow> timestamp \<Rightarrow> uuid \<Rightarrow> rstr \<Rightarrow> (store \<times> ListComment) option" where
  "edit_comment_in S now i content =
     (let f = (\<lambda>c. c\<lparr>lcm_content := content, lcm_edited_at := Some now\<rparr>) in
      map_option (\<lambda>c. (S\<lparr>s_comments := update_rows (\<lambda>c. lcm_id c = i) f (s_comments S)\<rparr>, f c))
        (comment_by_id S i))"

definition delete_comment_in :: "store \<Rightarrow> uuid \<Rightarrow> store \<times> bool" where
  "delete_comment_in S i =
     (S\<lparr>s_comments := filter (\<lambda>c. lcm_id c \<noteq> i) (s_comments S)\<rparr>, comment_by_id S i \<noteq> None)"

section \<open>Members\<close>

definition channel_members_among :: "tables \<Rightarrow> uuid \<Rightarrow> uuid list \<Rightarrow> uuid list" where
  "channel_members_among T c ids =
     map cm_user_id (filter (\<lambda>m. cm_channel_id m = c \<and> cm_user_id m \<in> set ids) (channel_members T))"

definition workspace_members_among :: "tables \<Rightarrow> uuid \<Rightarrow> uuid list \<Rightarrow> uuid list" where
  "workspace_members_among T w ids =
     map mr_user_id (filter (\<lambda>m. mr_workspace_id m = w \<and> mr_user_id m \<in> set ids) (workspace_members T))"

section \<open>Lemmas on the tables\<close>

lemma set_items_of [simp]: "set (items_of S l) = set (live_items S l)"
  by (simp add: items_of_def)

lemma set_columns_in: "set (columns_in S l) = {c \<in> set (s_columns S). lc_list_id c = l}"
  by (auto simp: columns_in_def)

lemma set_views_in: "set (views_in S l) = {v \<in> set (s_views S). lv_list_id v = l}"
  by (auto simp: views_in_def)

lemma find_list_Some: "find_list S i = Some l \<Longrightarrow> l_id l = i \<and> l \<in> set (s_lists S) \<and> l_deleted_at l = None"
  by (auto simp: find_list_def dest: find_Some_iff)

end
