(* ===== verification/List_Csv.thy ===== *)
theory List_Csv
  imports List_Store
begin

text \<open>
  The CSV export of a list, \<open>src/backend/api/src/lists/csv.rs\<close>. \<open>json_text\<close> stands for the compact
  printer of \<open>serde_json::Value\<close>, \<open>people\<close> for the names looked up beforehand. The file is checked against
  an independent reader of quoted CSV records.
\<close>

section \<open>UTF-8\<close>

definition utf8_char :: "uchar \<Rightarrow> nat list" where
  "utf8_char c =
     (if c < 128 then [c]
      else if c < 2048 then [192 + c div 64, 128 + c mod 64]
      else if c < 65536 then [224 + c div 4096, 128 + c div 64 mod 64, 128 + c mod 64]
      else [240 + c div 262144, 128 + c div 4096 mod 64, 128 + c div 64 mod 64, 128 + c mod 64])"

definition into_bytes :: "rstr \<Rightarrow> nat list" where
  "into_bytes s = concat (map utf8_char s)"

section \<open>The export\<close>

definition join :: "rstr list \<Rightarrow> rstr \<Rightarrow> rstr" where
  "join xs sep = (case xs of [] \<Rightarrow> [] | x # rest \<Rightarrow> x @ concat (map ((@) sep) rest))"

definition choice_label :: "ext \<Rightarrow> ListColumn \<Rightarrow> json \<Rightarrow> rstr" where
  "choice_label X column v =
     (case Option.bind (as_str v) (choice X (lc_options column)) of None \<Rightarrow> [] | Some c \<Rightarrow> label c)"

definition cell_text ::
  "ext \<Rightarrow> (json \<Rightarrow> rstr) \<Rightarrow> ListColumn \<Rightarrow> json \<Rightarrow> (uuid \<rightharpoonup> rstr) \<Rightarrow> rstr" where
  "cell_text X json_text column value people =
     (case (lc_kind column, value) of
        (_, JNull) \<Rightarrow> []
      | (Select, v) \<Rightarrow> choice_label X column v
      | (MultiSelect, JArray ids) \<Rightarrow> join (map (choice_label X column) ids) (lit ''; '')
      | (Person, JString i) \<Rightarrow>
          (case Option.bind (parse_uuid X i) people of None \<Rightarrow> i | Some n \<Rightarrow> n)
      | (_, JString t) \<Rightarrow> t
      | (_, other) \<Rightarrow> json_text other)"

definition field :: "rstr \<Rightarrow> rstr" where
  "field text = [34] @ concat (map (\<lambda>c. if c = 34 then [34, 34] else [c]) text) @ [34]"

definition people_in :: "ext \<Rightarrow> ListColumn list \<Rightarrow> ListItem list \<Rightarrow> uuid list" where
  "people_in X columns items =
     remdups_adj (sort (concat (map (\<lambda>item.
       List.map_filter (\<lambda>v. Option.bind (as_str v) (parse_uuid X))
         (List.map_filter (\<lambda>column. map_of (li_values item) (uuid_str X (lc_id column)))
           (filter (\<lambda>column. lc_kind column = Person) columns))) items)))"

definition csv_row ::
  "ext \<Rightarrow> (json \<Rightarrow> rstr) \<Rightarrow> ListColumn list \<Rightarrow> (uuid \<rightharpoonup> rstr) \<Rightarrow> ListItem \<Rightarrow> rstr list" where
  "csv_row X json_text columns people item =
     map (\<lambda>column.
       let value = (case map_of (li_values item) (uuid_str X (lc_id column)) of None \<Rightarrow> JNull | Some v \<Rightarrow> v)
       in cell_text X json_text column value people) columns"

definition csv_line :: "rstr list \<Rightarrow> rstr" where
  "csv_line texts = join (map field texts) [44] @ [13, 10]"

definition csv_table ::
  "ext \<Rightarrow> (json \<Rightarrow> rstr) \<Rightarrow> ListColumn list \<Rightarrow> ListItem list \<Rightarrow> (uuid \<rightharpoonup> rstr) \<Rightarrow> nat list" where
  "csv_table X json_text columns items people =
     into_bytes (csv_line (map lc_name columns)
       @ concat (map (\<lambda>item. csv_line (csv_row X json_text columns people item)) items))"

section \<open>A reader of quoted records\<close>

datatype rstate = Begin | Next | Inside | Quote | Cr

fun read_csv :: "rstate \<Rightarrow> nat list \<Rightarrow> nat list list \<Rightarrow> nat list \<Rightarrow> nat list list list option" where
  "read_csv Begin f r [] = Some []"
| "read_csv Begin f r (c # cs) =
     (if c = 34 then read_csv Inside [] [] cs else if c = 13 then read_csv Cr [] [] cs else None)"
| "read_csv Next f r (c # cs) = (if c = 34 then read_csv Inside [] r cs else None)"
| "read_csv Inside f r (c # cs) =
     (if c = 34 then read_csv Quote f r cs else read_csv Inside (f @ [c]) r cs)"
| "read_csv Quote f r (c # cs) =
     (if c = 34 then read_csv Inside (f @ [34]) r cs
      else if c = 44 then read_csv Next [] (r @ [f]) cs
      else if c = 13 then read_csv Cr [] (r @ [f]) cs else None)"
| "read_csv Cr f r (c # cs) =
     (if c = 10 then map_option (Cons r) (read_csv Begin [] [] cs) else None)"
| "read_csv _ f r [] = None"

lemma into_bytes_simps [simp]:
  "into_bytes [] = []"
  "into_bytes (c # s) = utf8_char c @ into_bytes s"
  "into_bytes (s @ t) = into_bytes s @ into_bytes t"
  by (simp_all add: into_bytes_def)

lemma utf8_ascii [simp]: "c < 128 \<Longrightarrow> utf8_char c = [c]"
  by (simp add: utf8_char_def)

lemma utf8_no_quote: "34 \<in> set (utf8_char c) \<longleftrightarrow> c = 34"
  by (auto simp: utf8_char_def)

lemma read_plain: "34 \<notin> set bs \<Longrightarrow> read_csv Inside f r (bs @ rest) = read_csv Inside (f @ bs) r rest"
  by (induction bs arbitrary: f) auto

lemma read_quoted:
  "read_csv Inside f r (into_bytes (concat (map (\<lambda>c. if c = 34 then [34, 34] else [c]) t)) @ rest)
     = read_csv Inside (f @ into_bytes t) r rest"
proof (induction t arbitrary: f)
  case Nil
  then show ?case by simp
next
  case (Cons c t)
  then show ?case using read_plain [of "utf8_char c"] utf8_no_quote [of c] by auto
qed

lemma read_field:
  "read_csv Begin f r (into_bytes (field t) @ rest) = read_csv Quote (into_bytes t) [] rest"
  "read_csv Next f r (into_bytes (field t) @ rest) = read_csv Quote (into_bytes t) r rest"
  by (simp_all add: field_def read_quoted)

lemma read_more:
  "read_csv Quote f r (into_bytes (concat (map ((@) [44]) (map field ts)) @ [13, 10]) @ rest)
     = map_option (Cons (r @ f # map into_bytes ts)) (read_csv Begin [] [] rest)"
proof (induction ts arbitrary: f r)
  case Nil
  then show ?case by simp
next
  case (Cons t ts)
  show ?case
    using Cons.IH [of "into_bytes t" "r @ [f]"] by (simp add: read_field)
qed

lemma read_line:
  "read_csv Begin f r (into_bytes (csv_line ts) @ rest)
     = map_option (Cons (map into_bytes ts)) (read_csv Begin [] [] rest)"
proof (cases ts)
  case Nil
  then show ?thesis by (simp add: csv_line_def join_def)
next
  case (Cons t us)
  then show ?thesis
    using read_more [of "into_bytes t" "[]" us rest] by (simp add: csv_line_def join_def read_field)
qed

lemma read_lines:
  "read_csv Begin f r (into_bytes (concat (map csv_line rows))) = Some (map (map into_bytes) rows)"
proof (induction rows arbitrary: f r)
  case Nil
  then show ?case by simp
next
  case (Cons row rows)
  then show ?case using read_line [of f r row "into_bytes (concat (map csv_line rows))"] by simp
qed

text \<open>
  C14. The exported file reads back: a reader of quoted CSV records recovers from its bytes exactly one record with the column
  names and one record per item with that item's cell texts, whatever quotes,
  commas or line breaks the names and cells contain, and also when the list has no columns.
\<close>

theorem csv_table_reads_back:
  "read_csv Begin [] [] (csv_table X json_text columns items people)
     = Some (map into_bytes (map lc_name columns)
         # map (\<lambda>item. map into_bytes (csv_row X json_text columns people item)) items)"
  using read_lines [of "[]" "[]" "map lc_name columns # map (csv_row X json_text columns people) items"]
  by (simp add: csv_table_def o_def)

end
