(* ===== verification/Mentions.thy ===== *)
theory Mentions
  imports List_Model Authz
begin

text \<open>
  Mentions in message text, the text functions of \<open>src/backend/api/src/messaging/routes.rs\<close>: the targets
  of \<open>@[label](target)\<close>, bare \<open>@channel\<close>, \<open>@everyone\<close> and \<open>@here\<close>, and the
  expansion of all of them to the people a message notifies. \<open>str::find\<close> is modelled by the split
  at the first occurrence. The Unicode class \<open>char::is_alphanumeric\<close> and the answers of the
  repositories are arguments.
\<close>

section \<open>Searching\<close>

fun split_at :: "rstr \<Rightarrow> rstr \<Rightarrow> (rstr \<times> rstr) option" where
  "split_at [] pat = (if pat = [] then Some ([], []) else None)"
| "split_at (c # s) pat =
     (case strip_prefix (c # s) pat of
        Some r \<Rightarrow> Some ([], r)
      | None \<Rightarrow> map_option (\<lambda>(a, b). (c # a, b)) (split_at s pat))"

lemma split_at_Some: "split_at s pat = Some (a, b) \<Longrightarrow> s = a @ pat @ b"
  by (induction s arbitrary: a) (auto split: if_splits option.splits simp: strip_prefix_Some)

lemma split_at_shorter [termination_simp]:
  assumes "split_at s pat = Some (a, b)"
  shows "length b \<le> length s - length pat"
  using split_at_Some [OF assms] by simp

lemma split_at_None: "split_at s pat = None \<longleftrightarrow> (\<nexists>a b. s = a @ pat @ b)"
proof (induction s)
  case Nil
  then show ?case by auto
next
  case (Cons c s)
  have "(\<exists>a b. c # s = a @ pat @ b) \<longleftrightarrow> (\<exists>b. c # s = pat @ b) \<or> (\<exists>a b. s = a @ pat @ b)"
  proof
    assume "\<exists>a b. c # s = a @ pat @ b"
    then obtain a b where "c # s = a @ pat @ b" by blast
    then show "(\<exists>b. c # s = pat @ b) \<or> (\<exists>a b. s = a @ pat @ b)" by (cases a) auto
  next
    assume "(\<exists>b. c # s = pat @ b) \<or> (\<exists>a b. s = a @ pat @ b)"
    then show "\<exists>a b. c # s = a @ pat @ b" by (metis append_Cons append_Nil)
  qed
  then show ?case using Cons strip_prefix_Some [of "c # s" pat]
    by (cases "strip_prefix (c # s) pat") (simp_all, metis+)
qed

lemma split_at_first:
  "pat = p # ps \<Longrightarrow> p \<notin> set a \<Longrightarrow> split_at (a @ pat @ b) pat = Some (a, b)"
  by (induction a) (auto simp: strip_prefix_def starts_with_def split: option.splits)

section \<open>Mention targets\<close>

function mention_targets :: "rstr \<Rightarrow> rstr list" where
  "mention_targets remaining =
     (case split_at remaining (lit ''@['') of
        None \<Rightarrow> []
      | Some (_, r1) \<Rightarrow>
          (case split_at r1 (lit '']('') of
             None \<Rightarrow> []
           | Some (_, r2) \<Rightarrow>
               (case split_at r2 (lit '')'') of
                  None \<Rightarrow> []
                | Some (i, r3) \<Rightarrow> trim i # mention_targets r3)))"
  by auto

termination
proof (relation "measure length")
  fix remaining :: rstr and x1 x2 x3 :: "rstr \<times> rstr" and l r1 m r2 i r3
  assume "split_at remaining (lit ''@['') = Some x1" "(l, r1) = x1" "split_at r1 (lit '']('') = Some x2"
    "(m, r2) = x2" "split_at r2 (lit '')'') = Some x3" "(i, r3) = x3"
  then show "(r3, remaining) \<in> measure length"
    by (auto dest!: split_at_Some)
qed simp

declare mention_targets.simps [simp del]

function extract_mentioned_user_ids :: "ext \<Rightarrow> rstr \<Rightarrow> uuid list" where
  "extract_mentioned_user_ids X remaining =
     (case split_at remaining (lit ''@['') of
        None \<Rightarrow> []
      | Some (_, r1) \<Rightarrow>
          (case split_at r1 (lit '']('') of
             None \<Rightarrow> []
           | Some (_, r2) \<Rightarrow>
               (case split_at r2 (lit '')'') of
                  None \<Rightarrow> []
                | Some (i, r3) \<Rightarrow>
                    (case parse_uuid X (trim i) of
                       Some u \<Rightarrow> u # extract_mentioned_user_ids X r3
                     | None \<Rightarrow> extract_mentioned_user_ids X r3))))"
  by auto
termination
  by (relation "measure (\<lambda>(_, r). length r)") (auto dest!: split_at_Some)

declare extract_mentioned_user_ids.simps [simp del]

definition extract_group_mentions :: "ext \<Rightarrow> rstr \<Rightarrow> uuid list" where
  "extract_group_mentions X content =
     remdups_adj (sort (List.map_filter (\<lambda>target.
       Option.bind (strip_prefix target (lit ''group:'')) (parse_uuid X)) (mention_targets content)))"

section \<open>Broadcast mentions\<close>

record BroadcastMentions =
  bm_channel :: bool
  bm_here :: bool

definition bm_any :: "BroadcastMentions \<Rightarrow> bool" where
  "bm_any b \<longleftrightarrow> bm_channel b \<or> bm_here b"

definition before_ok :: "rstr \<Rightarrow> bool" where
  "before_ok before \<longleftrightarrow> before = [] \<or> last before \<in> {32, 10, 40}"

definition after_ok :: "(uchar \<Rightarrow> bool) \<Rightarrow> rstr \<Rightarrow> bool" where
  "after_ok alnum after \<longleftrightarrow> (case after of [] \<Rightarrow> True | c # _ \<Rightarrow> \<not> (alnum c \<or> c = 95))"

text \<open>The search goes on behind the needle; \<open>before\<close> is the text already passed.\<close>

function bare_from :: "(uchar \<Rightarrow> bool) \<Rightarrow> rstr \<Rightarrow> rstr \<Rightarrow> rstr \<Rightarrow> bool" where
  "bare_from alnum needle before rest =
     (case split_at rest (64 # needle) of
        None \<Rightarrow> False
      | Some (a, b) \<Rightarrow>
          if before_ok (before @ a) \<and> after_ok alnum b then True
          else bare_from alnum needle (before @ a @ 64 # needle) b)"
  by auto
termination
  by (relation "measure (\<lambda>(_, _, _, r). length r)") (auto dest!: split_at_Some)

declare bare_from.simps [simp del]

definition contains_bare_mention :: "(uchar \<Rightarrow> bool) \<Rightarrow> rstr \<Rightarrow> rstr \<Rightarrow> bool" where
  "contains_bare_mention alnum content word = bare_from alnum word [] content"

definition extract_broadcast_mentions :: "(uchar \<Rightarrow> bool) \<Rightarrow> rstr \<Rightarrow> BroadcastMentions" where
  "extract_broadcast_mentions alnum content =
     (let found = foldl (\<lambda>f target.
            if target = lit ''channel'' \<or> target = lit ''everyone'' then f\<lparr>bm_channel := True\<rparr>
            else if target = lit ''here'' then f\<lparr>bm_here := True\<rparr> else f)
            \<lparr>bm_channel = False, bm_here = False\<rparr> (mention_targets content)
      in foldl (\<lambda>f word.
            if \<not> contains_bare_mention alnum content word then f
            else if word = lit ''here'' then f\<lparr>bm_here := True\<rparr> else f\<lparr>bm_channel := True\<rparr>)
            found [lit ''channel'', lit ''everyone'', lit ''here''])"

definition mentions_everyone :: "(uchar \<Rightarrow> bool) \<Rightarrow> rstr \<Rightarrow> bool" where
  "mentions_everyone alnum content = bm_any (extract_broadcast_mentions alnum content)"

section \<open>Forwarded text\<close>

text \<open>\<open>str::lines\<close>: lines end at a line feed, a carriage return before it belongs to the ending,
  and a final empty line is not one.\<close>

definition strip_cr :: "rstr \<Rightarrow> rstr" where
  "strip_cr l = (if l \<noteq> [] \<and> last l = 13 then butlast l else l)"

fun text_lines :: "rstr \<Rightarrow> rstr \<Rightarrow> rstr list" where
  "text_lines acc [] = (if acc = [] then [] else [acc])"
| "text_lines acc (c # cs) = (if c = 10 then strip_cr acc # text_lines [] cs else text_lines (acc @ [c]) cs)"

fun join_lines :: "rstr list \<Rightarrow> rstr" where
  "join_lines [] = []"
| "join_lines [l] = l"
| "join_lines (l # ls) = l @ 10 # join_lines ls"

definition addressed_text :: "rstr \<Rightarrow> bool \<Rightarrow> rstr" where
  "addressed_text content forwarded =
     (if \<not> forwarded then content
      else join_lines (filter (\<lambda>l. \<not> starts_with (trim_start l) [62]) (text_lines [] content)))"

section \<open>Expansion\<close>

record mention_env =
  me_queries :: queries
  list_channel_member_ids :: "uuid \<Rightarrow> uuid list AppResult"
  online_user_ids :: "uuid \<Rightarrow> uuid set"
  member_ids_for_groups :: "uuid \<Rightarrow> uuid list \<Rightarrow> uuid list AppResult"

definition or_default :: "'a list AppResult \<Rightarrow> 'a list" where
  "or_default r = (case r of Inr xs \<Rightarrow> xs | Inl _ \<Rightarrow> [])"

definition expand_mentions ::
  "ext \<Rightarrow> (uchar \<Rightarrow> bool) \<Rightarrow> mention_env \<Rightarrow> uuid \<Rightarrow> uuid \<Rightarrow> rstr \<Rightarrow> uuid list" where
  "expand_mentions X alnum E channel_id author content =
     (let named = extract_mentioned_user_ids X content;
          broadcast = extract_broadcast_mentions alnum content;
          groups = extract_group_mentions X content;
          here_only = (bm_here broadcast \<and> \<not> bm_channel broadcast);
          ch = (if bm_any broadcast \<or> groups \<noteq> []
                then (case q_find_channel (me_queries E) channel_id of Inr c \<Rightarrow> c | Inl _ \<Rightarrow> None)
                else None);
          workspace_id = map_option ch_workspace_id ch;
          may_broadcast = (case ch of
              Some c \<Rightarrow> bm_any broadcast \<and> can_broadcast (me_queries E) c author = Inr True
            | None \<Rightarrow> False);
          everyone = (if may_broadcast
            then filter (\<lambda>m. case (here_only, workspace_id) of
                     (True, Some w) \<Rightarrow> m \<in> online_user_ids E w
                   | (True, None) \<Rightarrow> False
                   | (False, _) \<Rightarrow> True)
                   (or_default (list_channel_member_ids E channel_id))
            else []);
          grouped = (if groups \<noteq> []
            then (case workspace_id of
                    None \<Rightarrow> []
                  | Some w \<Rightarrow>
                      let in_group = or_default (member_ids_for_groups E w groups) in
                      if in_group = [] then []
                      else filter (\<lambda>i. i \<in> set (or_default (list_channel_member_ids E channel_id))) in_group)
            else [])
      in remdups_adj (sort (filter (\<lambda>i. i \<noteq> author) (named @ everyone @ grouped))))"

section \<open>What is found\<close>

lemma extract_targets:
  "extract_mentioned_user_ids X s = List.map_filter (parse_uuid X) (mention_targets s)"
proof (induction s rule: mention_targets.induct)
  case (1 s)
  then show ?case
    by (subst mention_targets.simps, subst extract_mentioned_user_ids.simps)
       (auto split: option.splits simp: List.map_filter_simps)
qed

lemma split_at_least:
  "split_at s pat = Some (a, b) \<Longrightarrow> s = u @ pat @ v \<Longrightarrow> length a \<le> length u"
proof (induction s arbitrary: a u)
  case Nil
  then show ?case by (auto split: if_splits)
next
  case (Cons c s)
  show ?case
  proof (cases u)
    case Nil
    then have "strip_prefix (c # s) pat = Some v"
      using Cons.prems(2) strip_prefix_Some [of "c # s" pat v] by simp
    then show ?thesis using Cons.prems(1) by simp
  next
    case (Cons d u')
    then show ?thesis using Cons.prems Cons.IH [of _ u'] by (auto split: option.splits)
  qed
qed

lemma later_occurrence:
  assumes "a @ (64 # w) @ b = u @ (64 # w) @ v" and "64 \<notin> set w" and "length a < length u"
  shows "\<exists>u'. u = a @ (64 # w) @ u' \<and> b = u' @ (64 # w) @ v"
proof -
  obtain us where u: "u = a @ us" "us \<noteq> []" "64 # w @ b = us @ 64 # w @ v"
    using assms(1,3) by (auto simp: append_eq_append_conv2)
  then obtain ws where us: "us = 64 # ws" "w @ b = ws @ 64 # w @ v" by (cases us) auto
  show ?thesis
  proof (cases "length w \<le> length ws")
    case True
    then show ?thesis using u us by (auto simp: append_eq_append_conv2)
  next
    case False
    then obtain z zs where "w = ws @ z # zs" "z # zs @ b = 64 # w @ v"
      using us(2) by (auto simp: append_eq_append_conv2 neq_Nil_conv)
    then have "64 \<in> set w" by simp
    then show ?thesis using assms(2) by simp
  qed
qed

lemma bare_from_iff:
  assumes "64 \<notin> set w"
  shows "bare_from alnum w before rest \<longleftrightarrow>
    (\<exists>u v. rest = u @ (64 # w) @ v \<and> before_ok (before @ u) \<and> after_ok alnum v)"
  using assms
proof (induction alnum w before rest rule: bare_from.induct)
  case (1 alnum w before rest)
  show ?case
  proof (cases "split_at rest (64 # w)")
    case None
    then show ?thesis using split_at_None [of rest "64 # w"] by (subst bare_from.simps) auto
  next
    case (Some ab)
    obtain a b where ab: "ab = (a, b)" by (cases ab)
    note s = Some [unfolded ab]
    have rest: "rest = a @ (64 # w) @ b" using split_at_Some [OF s] .
    show ?thesis
    proof (cases "before_ok (before @ a) \<and> after_ok alnum b")
      case True
      then show ?thesis using rest s by (subst bare_from.simps) auto
    next
      case False
      have occ: "rest = u @ (64 # w) @ v \<and> before_ok (before @ u) \<and> after_ok alnum v
        \<longleftrightarrow> (\<exists>u'. u = a @ (64 # w) @ u' \<and> b = u' @ (64 # w) @ v
              \<and> before_ok ((before @ a @ 64 # w) @ u') \<and> after_ok alnum v)" for u v
      proof
        assume u: "rest = u @ (64 # w) @ v \<and> before_ok (before @ u) \<and> after_ok alnum v"
        then have "length a \<le> length u" using split_at_least [OF s] by blast
        moreover have "length a \<noteq> length u" using u False rest by auto
        ultimately show "\<exists>u'. u = a @ (64 # w) @ u' \<and> b = u' @ (64 # w) @ v
            \<and> before_ok ((before @ a @ 64 # w) @ u') \<and> after_ok alnum v"
          using later_occurrence [of a w b u v] u rest "1.prems" by auto
      qed (use rest in auto)
      have "bare_from alnum w before rest = bare_from alnum w (before @ a @ 64 # w) b"
        using s False by (subst bare_from.simps) auto
      also have "\<dots> \<longleftrightarrow> (\<exists>u' v. b = u' @ (64 # w) @ v \<and> before_ok ((before @ a @ 64 # w) @ u') \<and> after_ok alnum v)"
        using "1.IH" [OF Some ab [symmetric] False "1.prems"] .
      also have "\<dots> \<longleftrightarrow> (\<exists>u v. rest = u @ (64 # w) @ v \<and> before_ok (before @ u) \<and> after_ok alnum v)"
        unfolding occ by blast
      finally show ?thesis .
    qed
  qed
qed

lemma after_ok_iff: "after_ok alnum v \<longleftrightarrow> v = [] \<or> \<not> alnum (hd v) \<and> hd v \<noteq> 95"
  by (cases v) (auto simp: after_ok_def)

text \<open>
  A bare mention is found exactly when some occurrence of \<open>@word\<close> stands at the start of the text or after a space, a line
  break or an opening parenthesis, and is not followed by a letter, digit or underscore.
  Resuming the search behind each candidate misses none.
\<close>

theorem contains_bare_mention_iff:
  assumes "64 \<notin> set word"
  shows "contains_bare_mention alnum content word \<longleftrightarrow>
    (\<exists>u v. content = u @ 64 # word @ v \<and> (u = [] \<or> last u \<in> {32, 10, 40})
       \<and> (v = [] \<or> \<not> alnum (hd v) \<and> hd v \<noteq> 95))"
  using bare_from_iff [OF assms, of alnum "[]" content]
  by (simp add: contains_bare_mention_def before_ok_def after_ok_iff)

theorem contains_bare_mention_iff_witness:
  "contains_bare_mention is_ascii_alphanumeric (lit ''x@here @here!'') (lit ''here'')"
proof (rule iffD2 [OF contains_bare_mention_iff])
  show "\<exists>u v. lit ''x@here @here!'' = u @ 64 # lit ''here'' @ v \<and> (u = [] \<or> last u \<in> {32, 10, 40})
      \<and> (v = [] \<or> \<not> is_ascii_alphanumeric (hd v) \<and> hd v \<noteq> 95)"
    by (rule exI [of _ "lit ''x@here ''"], rule exI [of _ "lit ''!''"]) (simp add: char_class_defs)
qed simp

section \<open>Rendering and reading mentions\<close>

text \<open>What the printer of UUIDs documents beyond \<open>ext_laws\<close>: hexadecimal digits and hyphens only.\<close>

locale uuid_text = ext_laws +
  assumes uuid_chars: "c \<in> set (uuid_str X u) \<Longrightarrow> c = 45 \<or> is_ascii_hexdigit c"
begin

lemma uuid_no_paren: "41 \<notin> set (uuid_str X u)"
  using uuid_chars [of 41 u] by (auto simp: char_class_defs)

lemma uuid_trimmed: "trim (uuid_str X u) = uuid_str X u"
proof -
  have "\<not> is_whitespace c" if "c \<in> set (uuid_str X u)" for c
    using uuid_chars [OF that] by (auto simp: char_class_defs)
  then show ?thesis
    by (simp add: trim_def trim_start_fixed trim_end_fixed)
qed

end

lemma hex_char_hexdigit: "n < 16 \<Longrightarrow> is_ascii_hexdigit (hex_char n)"
  by (auto simp: hex_char_def char_class_defs)

interpretation std_text: uuid_text std_ext
proof
  fix c u assume c: "c \<in> set (uuid_str std_ext u)"
  let ?h = "map hex_char (nibbles 32 (unat u))"
  have "\<forall>c\<in>set ?h. is_ascii_hexdigit c" using hex_char_hexdigit nibbles_small by auto
  moreover have "set (print_uuid u) \<subseteq> {45} \<union> set ?h"
    by (auto simp: print_uuid_def Let_def dest!: in_set_takeD in_set_dropD)
  ultimately show "c = 45 \<or> is_ascii_hexdigit c" using c by (auto simp: std_ext_def)
qed

datatype piece = Words rstr | Named rstr uuid

fun render :: "ext \<Rightarrow> piece \<Rightarrow> rstr" where
  "render X (Words w) = w"
| "render X (Named l i) = lit ''@['' @ l @ lit '']('' @ uuid_str X i @ lit '')''"

fun piece_ok :: "piece \<Rightarrow> bool" where
  "piece_ok (Words w) \<longleftrightarrow> 64 \<notin> set w"
| "piece_ok (Named l i) \<longleftrightarrow> 93 \<notin> set l"

fun piece_id :: "piece \<Rightarrow> uuid option" where
  "piece_id (Words w) = None"
| "piece_id (Named l i) = Some i"

lemma split_at_skip:
  "p \<notin> set a \<Longrightarrow> split_at (a @ s) (p # ps) = map_option (\<lambda>(x, y). (a @ x, y)) (split_at s (p # ps))"
  by (induction a) (auto simp: strip_prefix_def starts_with_def option.map_comp o_def split_beta
      map_option_case split: option.splits)

lemma targets_skip: "64 \<notin> set w \<Longrightarrow> mention_targets (w @ s) = mention_targets s"
  by (subst (1 2) mention_targets.simps) (auto simp: split_at_skip split: option.splits)

lemma split_at_here: "split_at ((p # ps) @ b) (p # ps) = Some ([], b)"
  using split_at_first [of "p # ps" p ps "[]" b] by simp

context uuid_text
begin

lemma targets_named:
  assumes "93 \<notin> set l"
  shows "mention_targets (render X (Named l i) @ s) = uuid_str X i # mention_targets s"
proof -
  let ?r2 = "uuid_str X i @ lit '')'' @ s" and ?r1 = "l @ lit '']('' @ uuid_str X i @ lit '')'' @ s"
  have "split_at (render X (Named l i) @ s) (lit ''@['') = Some ([], ?r1)"
    using split_at_here [of 64 "lit ''[''" ?r1] by simp
  moreover have "split_at ?r1 (lit '']('') = Some (l, ?r2)"
    using split_at_first [of "lit ''](''" 93 "lit ''(''" l ?r2] assms by simp
  moreover have "split_at ?r2 (lit '')'') = Some (uuid_str X i, s)"
    using split_at_first [of "lit '')''" 41 "[]" "uuid_str X i" s] uuid_no_paren by simp
  ultimately show ?thesis by (subst mention_targets.simps) (simp add: uuid_trimmed)
qed

lemma targets_render:
  "list_all piece_ok ps \<Longrightarrow>
    mention_targets (concat (map (render X) ps)) = map (uuid_str X) (List.map_filter piece_id ps)"
proof (induction ps)
  case Nil
  then show ?case by (subst mention_targets.simps) (simp add: List.map_filter_simps)
next
  case (Cons p ps)
  then show ?case
    by (cases p) (auto simp: targets_skip targets_named List.map_filter_simps simp del: render.simps(2))
qed

lemma extract_render:
  assumes "list_all piece_ok ps"
  shows "extract_mentioned_user_ids X (concat (map (render X) ps)) = List.map_filter piece_id ps"
  by (simp add: extract_targets targets_render [OF assms] map_filter_def o_def)

end

text \<open>
  C15. A message put together from plain words and mentions of people, in any order and number, is read back to exactly the
  people mentioned, in the order of the text, whatever the labels shown for them, as long as labels hold no closing bracket and words no at-sign.
\<close>

theorem mentions_roundtrip:
  assumes "uuid_text X" and "list_all piece_ok ps"
  shows "extract_mentioned_user_ids X (concat (map (render X) ps)) = List.map_filter piece_id ps"
  using uuid_text.extract_render [OF assms] .

theorem mentions_roundtrip_witness:
  "extract_mentioned_user_ids std_ext
     (concat (map (render std_ext) [Words (lit ''hi ''), Named (lit ''Ana'') 5, Named (lit ''(Bo'') 9])) = [5, 9]"
  using mentions_roundtrip [OF std_text.uuid_text_axioms,
      of "[Words (lit ''hi ''), Named (lit ''Ana'') 5, Named (lit ''(Bo'') 9]"]
  by (simp add: List.map_filter_simps)

section \<open>Who is notified\<close>

lemma set_or_default: "x \<in> set (or_default r) \<Longrightarrow> \<exists>xs. r = Inr xs \<and> x \<in> set xs"
  by (auto simp: or_default_def split: sum.splits)

definition reached :: "(uchar \<Rightarrow> bool) \<Rightarrow> ext \<Rightarrow> mention_env \<Rightarrow> uuid \<Rightarrow> uuid \<Rightarrow> rstr \<Rightarrow> uuid set" where
  "reached alnum X E c author content = {u \<in> set (or_default (list_channel_member_ids E c)).
     \<exists>ch. q_find_channel (me_queries E) c = Inr (Some ch) \<and>
       (mentions_everyone alnum content \<and> can_broadcast (me_queries E) ch author = Inr True
        \<or> u \<in> set (or_default (member_ids_for_groups E (ch_workspace_id ch) (extract_group_mentions X content))))}"

lemma in_set_if: "u \<in> set (if b then xs else []) \<longleftrightarrow> b \<and> u \<in> set xs"
  by (cases b) auto

lemma in_set_if2: "u \<in> set (if b then [] else xs) \<longleftrightarrow> \<not> b \<and> u \<in> set xs"
  by (cases b) auto

lemma in_set_opt: "u \<in> set (case o' of None \<Rightarrow> [] | Some i \<Rightarrow> f i) \<longleftrightarrow> (\<exists>i. o' = Some i \<and> u \<in> set (f i))"
  by (cases o') auto

lemma expand_split:
  "\<exists>xs. expand_mentions X alnum E c author content = remdups_adj (sort (filter (\<lambda>i. i \<noteq> author)
      (extract_mentioned_user_ids X content @ xs))) \<and> set xs \<subseteq> reached alnum X E c author content"
proof -
  have sub: "u \<in> set (if (case if A then (case q of Inr c \<Rightarrow> c | Inl _ \<Rightarrow> None) else None of Some c \<Rightarrow> P c | None \<Rightarrow> False)
      then filter Q ms else []) \<Longrightarrow> u \<in> set ms \<and> (\<exists>ch. q = Inr (Some ch) \<and> P ch)"
    for A q P Q and ms :: "uuid list" and u
    by (cases q) (auto split: if_splits option.splits)
  have grp: "u \<in> set (if G then (case map_option w (if A then (case q of Inr c \<Rightarrow> c | Inl _ \<Rightarrow> None) else None) of
      None \<Rightarrow> [] | Some i \<Rightarrow> if f i = [] then [] else filter (\<lambda>x. x \<in> set ms) (f i)) else [])
      \<Longrightarrow> u \<in> set ms \<and> (\<exists>ch. q = Inr (Some ch) \<and> u \<in> set (f (w ch)))"
    for A G q f and w :: "Channel \<Rightarrow> uuid" and ms :: "uuid list" and u
    unfolding in_set_if in_set_if2 in_set_opt by (cases q) (auto split: if_splits)
  show ?thesis
    unfolding expand_mentions_def Let_def
    by (intro exI conjI, rule refl, intro subsetI, unfold set_append, erule UnE)
       (unfold reached_def mem_Collect_eq mentions_everyone_def, drule sub, blast, drule grp, blast)
qed

lemma distinct_remdups_adj_sorted: "sorted xs \<Longrightarrow> distinct (remdups_adj (xs :: uuid list))"
proof (induction xs rule: remdups_adj.induct)
  case (3 x y xs)
  have "x < z" if "x \<noteq> y" "z \<in> set (y # xs)" for z
    using 3(3) that by auto
  then show ?case using 3 by auto
qed auto

text \<open>
  C16. The people a message notifies: the list is sorted without repetition and never names the author; everyone mentioned by
  name is on it; and anyone else on it is a member of the channel who was reached
  through a broadcast its author was allowed to make, or through a group they belong to.
  A group mention never reaches outside the channel.
\<close>

theorem expand_mentions_reaches:
  assumes r: "r = expand_mentions X alnum E c author content"
  shows "sorted r \<and> distinct r \<and> author \<notin> set r
    \<and> set (extract_mentioned_user_ids X content) - {author} \<subseteq> set r
    \<and> set r - set (extract_mentioned_user_ids X content)
        \<subseteq> {u \<in> set (or_default (list_channel_member_ids E c)).
            \<exists>ch. q_find_channel (me_queries E) c = Inr (Some ch) \<and>
              (mentions_everyone alnum content \<and> can_broadcast (me_queries E) ch author = Inr True
               \<or> u \<in> set (or_default (member_ids_for_groups E (ch_workspace_id ch) (extract_group_mentions X content))))}"
proof -
  obtain xs where xs: "r = remdups_adj (sort (filter (\<lambda>i. i \<noteq> author)
      (extract_mentioned_user_ids X content @ xs)))"
    and m: "set xs \<subseteq> reached alnum X E c author content"
    using expand_split [of X alnum E c author content] r by auto
  have "sorted (sort ys)" "set (remdups_adj (sort ys)) = set ys" "distinct (remdups_adj (sort ys))" for ys :: "uuid list"
    by (simp_all add: distinct_remdups_adj_sorted)
  then show ?thesis using m unfolding xs reached_def by (auto simp: sorted_remdups_adj)
qed

theorem expand_mentions_reaches_witness:
  "1 \<notin> set (expand_mentions std_ext is_ascii_alphanumeric
      \<lparr>me_queries = queries_of sample_tables, list_channel_member_ids = (\<lambda>_. Inr [1]),
       online_user_ids = (\<lambda>_. {}), member_ids_for_groups = (\<lambda>_ _. Inr [])\<rparr> 7 1 (lit ''hello @channel''))"
  using expand_mentions_reaches [OF refl, of std_ext is_ascii_alphanumeric
      "\<lparr>me_queries = queries_of sample_tables, list_channel_member_ids = (\<lambda>_. Inr [1]),
       online_user_ids = (\<lambda>_. {}), member_ids_for_groups = (\<lambda>_ _. Inr [])\<rparr>" 7 1 "lit ''hello @channel''"]
  by simp

end
