(* ===== verification/List_Service.thy ===== *)
theory List_Service
  imports List_Store Mentions
begin

text \<open>
  The list service, \<open>src/backend/api/src/lists/service.rs\<close>: every operation a request can make on lists, columns,
  views, items and comments. An operation takes the environment (the answers of the
  authorisation queries, the library functions, the clock), the world (tables, outbox, events handed to
  the publisher, due-date syncs) and the identifiers the database will draw, and returns an error or the new world with its
  result. A transaction that fails leaves no trace: on an error the caller keeps the old world.
  An arithmetic panic in \<open>rank::between\<close> would surface as an internal error.
\<close>

section \<open>Environment, world and events\<close>

record env =
  e_ext :: ext
  e_as_f64 :: "jnum \<Rightarrow> f64"
  e_queries :: queries
  e_tables :: tables
  e_searchable :: "Visibility \<Rightarrow> uuid list"
  e_now :: timestamp

text \<open>
  The payloads of the events. The extra fields of a new comment (author, mentioned people, titles)
  are absent when a comment is edited.
\<close>

record CommentNews =
  cn_author_id :: uuid
  cn_mentioned_user_ids :: "uuid list"
  cn_item_title :: rstr
  cn_list_title :: rstr

datatype ListEvent =
    ListUpserted ListRow
  | ListDeleted
  | ColumnsChanged "ListColumn list" bool
  | ViewsChanged "ListView list"
  | ItemUpserted ListItem
  | ItemDeleted uuid
  | ItemAssigned uuid "uuid list" uuid rstr rstr
  | CommentUpserted uuid ListComment "CommentNews option"
  | CommentDeleted uuid uuid

record Staged =
  st_list_id :: uuid
  st_workspace_id :: uuid
  st_channel_id :: "uuid option"
  st_owner_id :: uuid
  st_event :: ListEvent

record world =
  w_store :: store
  outbox :: "Staged list"
  dispatched :: "Staged list"
  due_synced :: "uuid list"

definition stage :: "world \<Rightarrow> ListRow \<Rightarrow> ListEvent \<Rightarrow> world \<times> Staged" where
  "stage W l ev =
     (let s = \<lparr>st_list_id = l_id l, st_workspace_id = l_workspace_id l, st_channel_id = l_channel_id l,
               st_owner_id = l_created_by l, st_event = ev\<rparr>
      in (W\<lparr>outbox := outbox W @ [s]\<rparr>, s))"

definition dispatch :: "world \<Rightarrow> Staged \<Rightarrow> world" where
  "dispatch W s = W\<lparr>dispatched := dispatched W @ [s]\<rparr>"

definition dispatch_all :: "world \<Rightarrow> Staged list \<Rightarrow> world" where
  "dispatch_all W ss = foldl dispatch W ss"

definition dispatch_opt :: "world \<Rightarrow> Staged option \<Rightarrow> world" where
  "dispatch_opt W s = (case s of None \<Rightarrow> W | Some x \<Rightarrow> dispatch W x)"

definition sync_list_due :: "world \<Rightarrow> uuid \<Rightarrow> world" where
  "sync_list_due W l = W\<lparr>due_synced := due_synced W @ [l]\<rparr>"

definition with_store :: "world \<Rightarrow> store \<Rightarrow> world" where
  "with_store W S = W\<lparr>w_store := S\<rparr>"

section \<open>Authorisation\<close>

definition not_found :: AppError where
  "not_found = NotFound (lit ''List not found'')"

definition authorize :: "env \<Rightarrow> uuid \<Rightarrow> ListRow \<Rightarrow> bool \<Rightarrow> unit AppResult" where
  "authorize E u l write =
     (case l_channel_id l of
        Some c \<Rightarrow>
          if write then and_then (require_channel_post (e_queries E) c u) (\<lambda>_. Inr ())
          else and_then (require_channel_access (e_queries E) c u) (\<lambda>_. Inr ())
      | None \<Rightarrow>
          and_then (require_workspace_member (e_queries E) (l_workspace_id l) u) (\<lambda>_.
            if l_created_by l \<noteq> u then Inl not_found else Inr ()))"

definition find_or_fail :: "world \<Rightarrow> uuid \<Rightarrow> ListRow AppResult" where
  "find_or_fail W i = ok_or (find_list (w_store W) i) not_found"

definition readable :: "env \<Rightarrow> world \<Rightarrow> uuid \<Rightarrow> uuid \<Rightarrow> ListRow AppResult" where
  "readable E W u i =
     and_then (find_or_fail W i) (\<lambda>l. and_then (authorize E u l False) (\<lambda>_. Inr l))"

definition writable :: "env \<Rightarrow> world \<Rightarrow> uuid \<Rightarrow> uuid \<Rightarrow> ListRow AppResult" where
  "writable E W u i =
     and_then (find_or_fail W i) (\<lambda>l. and_then (authorize E u l True) (\<lambda>_. Inr l))"

definition lock :: "world \<Rightarrow> uuid \<Rightarrow> ListRow AppResult" where
  "lock W i = ok_or (lock_in (w_store W) i) not_found"

section \<open>Lists\<close>

definition in_channel :: "env \<Rightarrow> world \<Rightarrow> ChannelAccess \<Rightarrow> ListRow list" where
  "in_channel E W access =
     visible_lists (w_store W) (e_searchable E)
       \<lparr>vis_workspace_id = ch_workspace_id (channel access), vis_user_id = wm_user_id (member access),
        vis_is_guest = is_guest access, vis_channel_id = Some (ch_id (channel access))\<rparr>"

definition visible :: "env \<Rightarrow> world \<Rightarrow> uuid \<Rightarrow> uuid \<Rightarrow> uuid option \<Rightarrow> ListRow list AppResult" where
  "visible E W u w channel_id =
     and_then (require_workspace_member (e_queries E) w u) (\<lambda>m.
       case channel_id of
         Some c \<Rightarrow>
           and_then (require_channel_access (e_queries E) c u) (\<lambda>access.
             if ch_workspace_id (channel access) \<noteq> w then Inl (NotFound (lit ''Channel not found''))
             else Inr (in_channel E W access))
       | None \<Rightarrow>
           Inr (visible_lists (w_store W) (e_searchable E)
             \<lparr>vis_workspace_id = w, vis_user_id = u, vis_is_guest = (role m = Guest),
              vis_channel_id = None\<rparr>))"

record NewColumn =
  nc_name :: rstr
  nc_kind :: ColumnKind
  nc_options :: ColumnOptionsInput

record NewColumnResolved =
  ncr_name :: rstr
  ncr_kind :: ColumnKind
  ncr_options :: ColumnOptions

definition too_many_columns :: AppError where
  "too_many_columns = Validation (lit ''A list can have at most 30 columns'')"

text \<open>\<open>fresh n\<close> are the identifiers drawn for the choices of the n-th column.\<close>

definition resolve_columns ::
  "ext \<Rightarrow> (nat \<Rightarrow> uuid list) \<Rightarrow> NewColumn list \<Rightarrow> NewColumnResolved list AppResult" where
  "resolve_columns X fresh columns =
     (if length columns > MAX_COLUMNS then Inl too_many_columns
      else collect (\<lambda>(n, c).
        and_then (clean_column_name (nc_name c)) (\<lambda>name.
        and_then (resolve_options X (fresh n) (nc_options c) (nc_kind c)) (\<lambda>o'.
          Inr \<lparr>ncr_name = name, ncr_kind = nc_kind c, ncr_options = o'\<rparr>))) (enumerate 0 columns))"

record CreateListRequest =
  cl_title :: rstr
  cl_description :: rstr
  cl_channel_id :: "uuid option"
  cl_columns :: "NewColumn list"

record ListDetail =
  ld_list :: ListRow
  ld_columns :: "ListColumn list"
  ld_views :: "ListView list"

record new_ids =
  id_row :: uuid
  id_view :: uuid
  id_columns :: "nat \<Rightarrow> uuid"
  id_choices :: "nat \<Rightarrow> uuid list"

fun insert_columns ::
  "store \<Rightarrow> uuid \<Rightarrow> (nat \<times> NewColumnResolved) list \<Rightarrow> (nat \<Rightarrow> uuid) \<Rightarrow> store AppResult" where
  "insert_columns S l [] ids = Inr S"
| "insert_columns S l ((n, c) # cs) ids =
     and_then (insert_column_in S (ids n) l (ncr_name c) (ncr_kind c) (ncr_options c)) (\<lambda>(S', _).
       insert_columns S' l cs ids)"

definition create_list ::
  "env \<Rightarrow> world \<Rightarrow> new_ids \<Rightarrow> uuid \<Rightarrow> uuid \<Rightarrow> CreateListRequest \<Rightarrow> (world \<times> ListDetail) AppResult" where
  "create_list E W ids u w req =
     and_then (clean_title (cl_title req)) (\<lambda>title.
     and_then (clean_description (cl_description req)) (\<lambda>description.
     and_then (resolve_columns (e_ext E) (id_choices ids) (cl_columns req)) (\<lambda>columns.
     and_then
       (case cl_channel_id req of
          Some c \<Rightarrow>
            and_then (require_channel_post (e_queries E) c u) (\<lambda>access.
              if ch_workspace_id (channel access) \<noteq> w then Inl (NotFound (lit ''Channel not found''))
              else Inr ())
        | None \<Rightarrow> and_then (require_workspace_member (e_queries E) w u) (\<lambda>_. Inr ())) (\<lambda>_.
     and_then (create_in (w_store W) (id_row ids) (e_now E) w (cl_channel_id req) title description u) (\<lambda>(S1, l).
     and_then (insert_columns S1 (l_id l) (enumerate 0 columns) (id_columns ids)) (\<lambda>S2.
       let cs = columns_in S2 (l_id l) in
     and_then (insert_view_in S2 (id_view ids) (e_now E) (l_id l) (lit ''Table'') Table default_config u) (\<lambda>(S3, view).
       let (W1, staged) = stage (with_store W S3) l (ListUpserted l)
       in Inr (dispatch W1 staged, \<lparr>ld_list = l, ld_columns = cs, ld_views = [view]\<rparr>))))))))"

record UpdateListRequest =
  ul_title :: "rstr option"
  ul_description :: "rstr option"

definition update_list ::
  "env \<Rightarrow> world \<Rightarrow> uuid \<Rightarrow> uuid \<Rightarrow> UpdateListRequest \<Rightarrow> (world \<times> ListRow) AppResult" where
  "update_list E W u i req =
     and_then (writable E W u i) (\<lambda>_.
     and_then (lock W i) (\<lambda>current.
     and_then (case ul_title req of Some t \<Rightarrow> clean_title t | None \<Rightarrow> Inr (l_title current)) (\<lambda>title.
     and_then (case ul_description req of Some d \<Rightarrow> clean_description d
               | None \<Rightarrow> Inr (l_description current)) (\<lambda>description.
     and_then (update_in (w_store W) (e_now E) i title description) (\<lambda>(S, l).
       let (W1, staged) = stage (with_store W S) l (ListUpserted l)
       in Inr (dispatch W1 staged, l))))))"

definition delete_list :: "env \<Rightarrow> world \<Rightarrow> uuid \<Rightarrow> uuid \<Rightarrow> (world \<times> unit) AppResult" where
  "delete_list E W u i =
     and_then (readable E W u i) (\<lambda>l.
     and_then
       (case l_channel_id l of
          Some c \<Rightarrow>
            if l_created_by l = u
            then and_then (require_channel_post (e_queries E) c u) (\<lambda>_. Inr ())
            else and_then (find_channel (e_queries E) c) (\<lambda>ch.
              require_channel_moderator (e_queries E) ch u)
        | None \<Rightarrow> Inr ()) (\<lambda>_.
     and_then (lock W i) (\<lambda>l'.
       let (W1, staged) = stage (with_store W (soft_delete_in (w_store W) (e_now E) i)) l' ListDeleted
       in Inr (dispatch W1 staged, ()))))"

definition detail :: "env \<Rightarrow> world \<Rightarrow> uuid \<Rightarrow> uuid \<Rightarrow> ListDetail AppResult" where
  "detail E W u i =
     and_then (readable E W u i) (\<lambda>l.
       Inr \<lparr>ld_list = l, ld_columns = columns_in (w_store W) (l_id l), ld_views = views_in (w_store W) (l_id l)\<rparr>)"

section \<open>Columns\<close>

definition columns_changed :: "world \<Rightarrow> ListRow \<Rightarrow> bool \<Rightarrow> world \<times> ListColumn list \<times> Staged" where
  "columns_changed W l items_rewritten =
     (let columns = columns_in (w_store W) (l_id l);
          (W1, staged) = stage W l (ColumnsChanged columns items_rewritten)
      in (W1, columns, staged))"

definition views_changed :: "world \<Rightarrow> ListRow \<Rightarrow> world \<times> ListView list \<times> Staged" where
  "views_changed W l =
     (let views = views_in (w_store W) (l_id l);
          (W1, staged) = stage W l (ViewsChanged views)
      in (W1, views, staged))"

fun prune_loop :: "ext \<Rightarrow> timestamp \<Rightarrow> ListColumn list \<Rightarrow> store \<Rightarrow> ListView list \<Rightarrow> store \<times> bool" where
  "prune_loop X now columns S [] = (S, False)"
| "prune_loop X now columns S (v # vs) =
     (let config = pruned X (lv_config v) (lv_kind v) columns in
      if config \<noteq> lv_config v
      then let (S', _) = prune_loop X now columns
                 (update_view_in S now (lv_id v) (lv_name v) (lv_kind v) config) vs
           in (S', True)
      else prune_loop X now columns S vs)"

definition prune_views :: "env \<Rightarrow> world \<Rightarrow> ListRow \<Rightarrow> ListColumn list \<Rightarrow> world \<times> Staged option" where
  "prune_views E W l columns =
     (let (S, pruned) = prune_loop (e_ext E) (e_now E) columns (w_store W) (views_in (w_store W) (l_id l))
      in if \<not> pruned then (with_store W S, None)
         else let (W1, _, staged) = views_changed (with_store W S) l in (W1, Some staged))"

definition names_each_once :: "uuid list \<Rightarrow> uuid list \<Rightarrow> bool" where
  "names_each_once order existing \<longleftrightarrow>
     (let given = remdups_adj (sort order)
      in length given = length order \<and> given = sort existing)"

definition add_column ::
  "env \<Rightarrow> world \<Rightarrow> uuid \<Rightarrow> uuid list \<Rightarrow> uuid \<Rightarrow> uuid \<Rightarrow> NewColumn \<Rightarrow> (world \<times> ListColumn) AppResult" where
  "add_column E W new fresh u i req =
     and_then (writable E W u i) (\<lambda>_.
     and_then (clean_column_name (nc_name req)) (\<lambda>name.
     and_then (resolve_options (e_ext E) fresh (nc_options req) (nc_kind req)) (\<lambda>options.
     and_then (lock W i) (\<lambda>l.
       if length (columns_in (w_store W) i) \<ge> MAX_COLUMNS then Inl too_many_columns
       else and_then (insert_column_in (w_store W) new i name (nc_kind req) options) (\<lambda>(S, column).
         let (W1, _, staged) = columns_changed (with_store W S) l False
         in Inr (dispatch W1 staged, column))))))"

definition column_place :: "world \<Rightarrow> uuid \<Rightarrow> uuid AppResult" where
  "column_place W i = ok_or (column_list (w_store W) i) (NotFound (lit ''Column not found''))"

definition column_of :: "ListColumn list \<Rightarrow> uuid \<Rightarrow> ListColumn AppResult" where
  "column_of columns i =
     ok_or (List.find (\<lambda>c. lc_id c = i) columns) (NotFound (lit ''Column not found''))"

definition options_input :: "ColumnOptions \<Rightarrow> ColumnOptionsInput" where
  "options_input o' =
     \<lparr>in_choices = map (\<lambda>c. \<lparr>ci_id = Some (c_id c), ci_label = label c, ci_color = color c\<rparr>) (choices o'),
      in_number = number o'\<rparr>"

record Conversion =
  cv_cells :: "(uuid \<times> json) list"
  cv_converted :: int
  cv_cleared :: int

fun convert_loop :: "(json \<Rightarrow> json option) \<Rightarrow> Conversion \<Rightarrow> (uuid \<times> json) list \<Rightarrow> Conversion" where
  "convert_loop f cv [] = cv"
| "convert_loop f cv ((i, v) # cells) =
     (case f v of
        Some next \<Rightarrow>
          convert_loop f (cv\<lparr>cv_converted := cv_converted cv + 1,
            cv_cells := (if next \<noteq> v then AList.update i next (cv_cells cv) else cv_cells cv)\<rparr>) cells
      | None \<Rightarrow>
          convert_loop f (cv\<lparr>cv_cleared := cv_cleared cv + 1,
            cv_cells := AList.update i JNull (cv_cells cv)\<rparr>) cells)"

definition convert_cells :: "env \<Rightarrow> world \<Rightarrow> ListColumn \<Rightarrow> ColumnKind \<Rightarrow> ColumnOptions \<Rightarrow> Conversion" where
  "convert_cells E W column kind options =
     (let conversion = \<lparr>cv_cells = [], cv_converted = 0, cv_cleared = 0\<rparr> in
      if kind = lc_kind column \<and> options = lc_options column then conversion
      else convert_loop
        (convert (e_ext E) (e_as_f64 E) (lc_kind column, lc_options column) (kind, options))
        conversion (cells_in (e_ext E) (w_store W) (lc_list_id column) (lc_id column)))"

record ColumnChangePreview =
  cp_kind :: ColumnKind
  cp_options :: ColumnOptionsInput

record ConversionCounts =
  cc_converted :: int
  cc_cleared :: int

definition preview_column ::
  "env \<Rightarrow> world \<Rightarrow> uuid list \<Rightarrow> uuid \<Rightarrow> uuid \<Rightarrow> ColumnChangePreview \<Rightarrow> ConversionCounts AppResult" where
  "preview_column E W fresh u i req =
     and_then (column_place W i) (\<lambda>list_id.
     and_then (writable E W u list_id) (\<lambda>_.
     and_then (resolve_options (e_ext E) fresh (cp_options req) (cp_kind req)) (\<lambda>options.
     and_then (column_of (columns_in (w_store W) list_id) i) (\<lambda>column.
       let cv = convert_cells E W column (cp_kind req) options
       in Inr \<lparr>cc_converted = cv_converted cv, cc_cleared = cv_cleared cv\<rparr>))))"

record UpdateColumnRequest =
  uc_name :: "rstr option"
  uc_kind :: "ColumnKind option"
  uc_options :: "ColumnOptionsInput option"
  uc_hidden :: "bool option"
  uc_due :: "bool option"
  uc_confirm_cleared :: "int option"

definition update_column ::
  "env \<Rightarrow> world \<Rightarrow> uuid list \<Rightarrow> uuid \<Rightarrow> uuid \<Rightarrow> UpdateColumnRequest \<Rightarrow> (world \<times> ListColumn) AppResult" where
  "update_column E W fresh u i req =
     and_then (column_place W i) (\<lambda>list_id.
     and_then (writable E W u list_id) (\<lambda>_.
     and_then (lock W list_id) (\<lambda>l.
     and_then (column_of (columns_in (w_store W) list_id) i) (\<lambda>column.
     and_then (case uc_name req of Some n \<Rightarrow> clean_column_name n | None \<Rightarrow> Inr (lc_name column)) (\<lambda>name.
       let kind = (case uc_kind req of Some k \<Rightarrow> k | None \<Rightarrow> lc_kind column) in
     and_then (resolve_options (e_ext E) fresh
         (case uc_options req of Some input \<Rightarrow> input | None \<Rightarrow> options_input (lc_options column)) kind) (\<lambda>options.
     and_then
       (case uc_due req of
          Some due \<Rightarrow>
            if due \<and> kind \<noteq> Date then Inl (Validation (lit ''Only a date column can be the due date''))
            else Inr due
        | None \<Rightarrow> Inr (lc_due column \<and> kind = Date)) (\<lambda>due.
       let cv = convert_cells E W column kind options in
       if cv_cleared cv > 0 \<and> uc_confirm_cleared req \<noteq> Some (cv_cleared cv)
       then Inl (Conflict (lit ''This change clears '' @ int_text (cv_cleared cv) @ lit '' ''
              @ (if cv_cleared cv = 1 then lit ''cell'' else lit ''cells'')))
       else
         let S1 = update_column_in (w_store W) i \<lparr>cf_name = name, cf_kind = kind, cf_options = options,
                cf_hidden = (case uc_hidden req of Some h \<Rightarrow> h | None \<Rightarrow> lc_hidden column), cf_due = due\<rparr>;
             rewritten = (cv_cells cv \<noteq> []);
             S2 = (if rewritten then rewrite_cells_in (e_ext E) S1 list_id i (cv_cells cv) else S1);
             (W1, columns, staged) = columns_changed (with_store W S2) l rewritten;
             (W2, pruned) = prune_views E W1 l columns;
             W3 = sync_list_due (dispatch_opt (dispatch W2 staged) pruned) list_id
         in and_then (column_of columns i) (\<lambda>c. Inr (W3, c)))))))))"

definition delete_column :: "env \<Rightarrow> world \<Rightarrow> uuid \<Rightarrow> uuid \<Rightarrow> (world \<times> unit) AppResult" where
  "delete_column E W u i =
     and_then (column_place W i) (\<lambda>list_id.
     and_then (writable E W u list_id) (\<lambda>_.
     and_then (lock W list_id) (\<lambda>l.
       let (W1, columns, staged) = columns_changed
             (with_store W (delete_column_in (e_ext E) (w_store W) list_id i)) l True;
           (W2, pruned) = prune_views E W1 l columns
       in Inr (sync_list_due (dispatch_opt (dispatch W2 staged) pruned) list_id, ()))))"

definition reorder_columns ::
  "env \<Rightarrow> world \<Rightarrow> uuid \<Rightarrow> uuid \<Rightarrow> uuid list \<Rightarrow> (world \<times> ListColumn list) AppResult" where
  "reorder_columns E W u i order =
     and_then (writable E W u i) (\<lambda>_.
     and_then (lock W i) (\<lambda>l.
       if \<not> names_each_once order (map lc_id (columns_in (w_store W) i))
       then Inl (Validation (lit ''Name every column of the list exactly once''))
       else let (W1, columns, staged) = columns_changed
                  (with_store W (reorder_columns_in (w_store W) i order)) l False
            in Inr (dispatch W1 staged, columns)))"

section \<open>Views\<close>

record CreateViewRequest =
  cw_name :: rstr
  cw_kind :: ViewKind
  cw_config :: ViewConfig

record UpdateViewRequest =
  uv_name :: "rstr option"
  uv_kind :: "ViewKind option"
  uv_config :: "ViewConfig option"

definition view_place :: "world \<Rightarrow> uuid \<Rightarrow> uuid AppResult" where
  "view_place W i = ok_or (view_list (w_store W) i) (NotFound (lit ''View not found''))"

definition create_view ::
  "env \<Rightarrow> world \<Rightarrow> uuid \<Rightarrow> uuid \<Rightarrow> uuid \<Rightarrow> CreateViewRequest \<Rightarrow> (world \<times> ListView) AppResult" where
  "create_view E W new u i req =
     and_then (writable E W u i) (\<lambda>_.
     and_then (clean_view_name (cw_name req)) (\<lambda>name.
     and_then (lock W i) (\<lambda>l.
       if length (views_in (w_store W) i) \<ge> MAX_VIEWS
       then Inl (Validation (lit ''A list can have at most 20 views''))
       else
     and_then (check (e_ext E) (cw_config req) (cw_kind req) (columns_in (w_store W) i)) (\<lambda>config.
     and_then (insert_view_in (w_store W) new (e_now E) i name (cw_kind req) config u) (\<lambda>(S, view).
       let (W1, _, staged) = views_changed (with_store W S) l
       in Inr (dispatch W1 staged, view))))))"

definition view_of :: "ListView list \<Rightarrow> uuid \<Rightarrow> ListView AppResult" where
  "view_of views i = ok_or (List.find (\<lambda>v. lv_id v = i) views) (NotFound (lit ''View not found''))"

definition update_view ::
  "env \<Rightarrow> world \<Rightarrow> uuid \<Rightarrow> uuid \<Rightarrow> UpdateViewRequest \<Rightarrow> (world \<times> ListView) AppResult" where
  "update_view E W u i req =
     and_then (view_place W i) (\<lambda>list_id.
     and_then (writable E W u list_id) (\<lambda>_.
     and_then (lock W list_id) (\<lambda>l.
     and_then (view_of (views_in (w_store W) list_id) i) (\<lambda>view.
     and_then (case uv_name req of Some n \<Rightarrow> clean_view_name n | None \<Rightarrow> Inr (lv_name view)) (\<lambda>name.
       let kind = (case uv_kind req of Some k \<Rightarrow> k | None \<Rightarrow> lv_kind view);
           columns = columns_in (w_store W) list_id in
     and_then (case uv_config req of
                 Some config \<Rightarrow> check (e_ext E) config kind columns
               | None \<Rightarrow> Inr (pruned (e_ext E) (lv_config view) kind columns)) (\<lambda>config.
       let (W1, views, staged) = views_changed
             (with_store W (update_view_in (w_store W) (e_now E) i name kind config)) l
       in and_then (view_of views i) (\<lambda>v. Inr (dispatch W1 staged, v))))))))"

definition delete_view :: "env \<Rightarrow> world \<Rightarrow> uuid \<Rightarrow> uuid \<Rightarrow> (world \<times> unit) AppResult" where
  "delete_view E W u i =
     and_then (view_place W i) (\<lambda>list_id.
     and_then (writable E W u list_id) (\<lambda>_.
     and_then (lock W list_id) (\<lambda>l.
     and_then (view_of (views_in (w_store W) list_id) i) (\<lambda>_.
       if length (views_in (w_store W) list_id) = 1
       then Inl (Validation (lit ''A list keeps at least one view''))
       else let (W1, _, staged) = views_changed (with_store W (delete_view_in (w_store W) i)) l
            in Inr (dispatch W1 staged, ())))))"

definition reorder_views ::
  "env \<Rightarrow> world \<Rightarrow> uuid \<Rightarrow> uuid \<Rightarrow> uuid list \<Rightarrow> (world \<times> ListView list) AppResult" where
  "reorder_views E W u i order =
     and_then (writable E W u i) (\<lambda>_.
     and_then (lock W i) (\<lambda>l.
       if \<not> names_each_once order (map lv_id (views_in (w_store W) i))
       then Inl (Validation (lit ''Name every view of the list exactly once''))
       else let (W1, views, staged) = views_changed
                  (with_store W (reorder_views_in (w_store W) i order)) l
            in Inr (dispatch W1 staged, views)))"

section \<open>Items\<close>

definition items :: "env \<Rightarrow> world \<Rightarrow> uuid \<Rightarrow> uuid \<Rightarrow> ListItem list AppResult" where
  "items E W u i = and_then (readable E W u i) (\<lambda>_. Inr (items_of (w_store W) i))"

record Edit =
  ed_set :: fields
  ed_clear :: "rstr list"
  ed_people :: "uuid list"

fun validate_loop :: "ext \<Rightarrow> ListColumn list \<Rightarrow> Edit \<Rightarrow> fields \<Rightarrow> Edit AppResult" where
  "validate_loop X columns edit [] = Inr edit"
| "validate_loop X columns edit ((key, value) # rest) =
     and_then (ok_or (Option.bind (parse_uuid X key) (\<lambda>i. List.find (\<lambda>c. lc_id c = i) columns))
         (Validation (lit ''That column is not in this list''))) (\<lambda>column.
       case normalize X (lc_kind column) (lc_options column) value of
         Inr (Set v) \<Rightarrow>
           validate_loop X columns
             (edit\<lparr>ed_people := (case person_of X (lc_kind column) v of
                    Some p \<Rightarrow> ed_people edit @ [p] | None \<Rightarrow> ed_people edit),
                  ed_set := AList.update (uuid_str X (lc_id column)) v (ed_set edit)\<rparr>) rest
       | Inr Clear \<Rightarrow>
           validate_loop X columns
             (edit\<lparr>ed_clear := ed_clear edit @ [uuid_str X (lc_id column)]\<rparr>) rest
       | Inl problem \<Rightarrow> Inl (Validation (lc_name column @ lit '' '' @ problem)))"

definition validate :: "ext \<Rightarrow> ListColumn list \<Rightarrow> fields \<Rightarrow> Edit AppResult" where
  "validate X columns values =
     validate_loop X columns \<lparr>ed_set = [], ed_clear = [], ed_people = []\<rparr> values"

definition item_title :: "ext \<Rightarrow> ListColumn list \<Rightarrow> fields \<Rightarrow> rstr" where
  "item_title X columns values =
     (case Option.bind (List.find (\<lambda>c. lc_kind c = Text) columns) (\<lambda>c.
             Option.bind (map_of values (uuid_str X (lc_id c))) as_str) of
        Some t \<Rightarrow> if trim t \<noteq> [] then trim t else lit ''Untitled''
      | None \<Rightarrow> lit ''Untitled'')"

fun assignees_loop ::
  "ext \<Rightarrow> fields \<Rightarrow> fields \<Rightarrow> uuid \<Rightarrow> uuid list \<Rightarrow> ListColumn list \<Rightarrow> uuid list" where
  "assignees_loop X before set' actor people [] = people"
| "assignees_loop X before set' actor people (c # cs) =
     (let key = uuid_str X (lc_id c) in
      case map_of set' key of
        None \<Rightarrow> assignees_loop X before set' actor people cs
      | Some value \<Rightarrow>
          if map_of before key = Some value then assignees_loop X before set' actor people cs
          else case person_of X (lc_kind c) value of
            Some p \<Rightarrow>
              assignees_loop X before set' actor
                (if p \<noteq> actor \<and> p \<notin> set people then people @ [p] else people) cs
          | None \<Rightarrow> assignees_loop X before set' actor people cs)"

definition assignees :: "ext \<Rightarrow> ListColumn list \<Rightarrow> fields \<Rightarrow> fields \<Rightarrow> uuid \<Rightarrow> uuid list" where
  "assignees X columns before set' actor =
     assignees_loop X before set' actor [] (filter (\<lambda>c. lc_kind c = Person) columns)"

definition stage_assigned ::
  "ext \<Rightarrow> world \<Rightarrow> ListRow \<Rightarrow> ListColumn list \<Rightarrow> ListItem \<Rightarrow> uuid list \<Rightarrow> uuid \<Rightarrow> world \<times> Staged list" where
  "stage_assigned X W l columns item people actor =
     (if people = [] then (W, [])
      else let (W1, s) = stage W l (ItemAssigned (li_id item) people actor
                 (item_title X columns (li_values item)) (l_title l))
           in (W1, [s]))"

definition check_people :: "env \<Rightarrow> ListRow \<Rightarrow> uuid list \<Rightarrow> unit AppResult" where
  "check_people E l people =
     (if people = [] then Inr ()
      else let present = (case l_channel_id l of
                 Some c \<Rightarrow> channel_members_among (e_tables E) c people
               | None \<Rightarrow> workspace_members_among (e_tables E) (l_workspace_id l) people)
           in if list_ex (\<lambda>p. p \<notin> set present) people
              then Inl (Validation (lit ''A person must be a member of the list's conversation''))
              else Inr ())"

record ItemWrite =
  iw_item :: ListItem
  iw_staged :: "Staged list"
  iw_due :: bool

definition announce :: "world \<Rightarrow> ItemWrite \<Rightarrow> world" where
  "announce W w =
     (let W1 = dispatch_all W (iw_staged w)
      in if iw_due w then sync_list_due W1 (li_list_id (iw_item w)) else W1)"

definition rank_panic :: AppError where
  "rank_panic = Internal (lit ''attempt to subtract with overflow'')"

definition not_in_this_list :: AppError where
  "not_in_this_list = Validation (lit ''That item is not in this list'')"

definition create_item_in ::
  "env \<Rightarrow> world \<Rightarrow> uuid \<Rightarrow> uuid \<Rightarrow> uuid \<Rightarrow> fields \<Rightarrow> uuid option \<Rightarrow> (world \<times> ItemWrite) AppResult" where
  "create_item_in E W new u i values after_id =
     and_then (lock W i) (\<lambda>l.
       let S = w_store W; columns = columns_in S i in
     and_then (validate (e_ext E) columns values) (\<lambda>edit.
     and_then (check_people E l (ed_people edit)) (\<lambda>_.
       if item_count_in S i \<ge> MAX_ITEMS
       then Inl (Validation (lit ''A list can hold at most 10000 items''))
       else
     and_then
       (case after_id of
          Some after \<Rightarrow>
            and_then (ok_or (neighbours_in S i (Some after) None) not_in_this_list) (\<lambda>(low, high).
              ok_or (between low high) rank_panic)
        | None \<Rightarrow> ok_or (between (last_rank_in S i) None) rank_panic) (\<lambda>rank'.
       let people = assignees (e_ext E) columns [] (ed_set edit) u in
     and_then (insert_item_in S new (e_now E) i rank' (ed_set edit) u) (\<lambda>(S1, item).
       let (W1, s1) = stage (with_store W S1) l (ItemUpserted item);
           (W2, s2) = stage_assigned (e_ext E) W1 l columns item people u
       in Inr (W2, \<lparr>iw_item = item, iw_staged = s1 # s2, iw_due = list_ex lc_due columns\<rparr>))))))"

definition create_item ::
  "env \<Rightarrow> world \<Rightarrow> uuid \<Rightarrow> uuid \<Rightarrow> uuid \<Rightarrow> fields \<Rightarrow> uuid option \<Rightarrow> (world \<times> ListItem) AppResult" where
  "create_item E W new u i values after_id =
     and_then (writable E W u i) (\<lambda>_.
     and_then (create_item_in E W new u i values after_id) (\<lambda>(W1, w).
       Inr (announce W1 w, iw_item w)))"

definition item_not_found :: AppError where
  "item_not_found = NotFound (lit ''Item not found'')"

definition item_place :: "world \<Rightarrow> uuid \<Rightarrow> uuid AppResult" where
  "item_place W i = ok_or (item_list (w_store W) i) item_not_found"

definition update_item_in ::
  "env \<Rightarrow> world \<Rightarrow> uuid \<Rightarrow> ListRow \<Rightarrow> uuid \<Rightarrow> fields \<Rightarrow> (world \<times> ItemWrite) AppResult" where
  "update_item_in E W u l item_id values =
     (let S = w_store W in
      if \<not> share_lock_in S (l_id l) then Inl not_found
      else let columns = columns_in S (l_id l) in
     and_then (validate (e_ext E) columns values) (\<lambda>edit.
     and_then (check_people E l (ed_people edit)) (\<lambda>_.
     and_then (ok_or (item_values_in S item_id) item_not_found) (\<lambda>before.
       let people = assignees (e_ext E) columns before (ed_set edit) u in
     and_then (ok_or (merge_item_in S (e_now E) item_id (ed_set edit) (ed_clear edit)) item_not_found) (\<lambda>(S1, item).
       let (W1, s1) = stage (with_store W S1) l (ItemUpserted item);
           (W2, s2) = stage_assigned (e_ext E) W1 l columns item people u
       in Inr (W2, \<lparr>iw_item = item, iw_staged = s1 # s2, iw_due = list_ex lc_due columns\<rparr>))))))"

definition update_item ::
  "env \<Rightarrow> world \<Rightarrow> uuid \<Rightarrow> uuid \<Rightarrow> fields \<Rightarrow> (world \<times> ListItem) AppResult" where
  "update_item E W u item_id values =
     and_then (item_place W item_id) (\<lambda>list_id.
     and_then (writable E W u list_id) (\<lambda>l.
     and_then (update_item_in E W u l item_id values) (\<lambda>(W1, w).
       Inr (announce W1 w, iw_item w))))"

definition move_item ::
  "env \<Rightarrow> world \<Rightarrow> uuid \<Rightarrow> uuid \<Rightarrow> uuid option \<Rightarrow> (world \<times> ListItem) AppResult" where
  "move_item E W u item_id after_id =
     (if after_id = Some item_id then Inl (Validation (lit ''An item cannot follow itself''))
      else
     and_then (item_place W item_id) (\<lambda>list_id.
     and_then (writable E W u list_id) (\<lambda>_.
     and_then (lock W list_id) (\<lambda>l.
     and_then (ok_or (neighbours_in (w_store W) list_id after_id (Some item_id)) not_in_this_list) (\<lambda>(low, high).
     and_then (ok_or (between low high) rank_panic) (\<lambda>rank'.
     and_then (move_item_in (w_store W) (e_now E) item_id rank') (\<lambda>(S, item).
       let (W1, staged) = stage (with_store W S) l (ItemUpserted item)
       in Inr (dispatch W1 staged, item))))))))"

definition delete_item :: "env \<Rightarrow> world \<Rightarrow> uuid \<Rightarrow> uuid \<Rightarrow> (world \<times> unit) AppResult" where
  "delete_item E W u item_id =
     and_then (item_place W item_id) (\<lambda>list_id.
     and_then (writable E W u list_id) (\<lambda>l.
       if \<not> share_lock_in (w_store W) list_id then Inl not_found
       else let (S, found) = delete_item_in (w_store W) (e_now E) item_id in
         if \<not> found then Inl item_not_found
         else let (W1, staged) = stage (with_store W S) l (ItemDeleted item_id)
              in Inr (sync_list_due (dispatch W1 staged) list_id, ())))"

definition check_off :: "env \<Rightarrow> world \<Rightarrow> uuid \<Rightarrow> uuid \<Rightarrow> (world \<times> unit) AppResult" where
  "check_off E W u item_id =
     (case item_list (w_store W) item_id of
        None \<Rightarrow> Inr (W, ())
      | Some list_id \<Rightarrow>
          (case writable E W u list_id of
             Inl (Forbidden _) \<Rightarrow> Inr (W, ())
           | Inl (NotFound _) \<Rightarrow> Inr (W, ())
           | Inl e \<Rightarrow> Inl e
           | Inr _ \<Rightarrow>
               (case List.find (\<lambda>c. lc_kind c = Checkbox) (columns_in (w_store W) list_id) of
                  None \<Rightarrow> Inr (W, ())
                | Some done \<Rightarrow>
                    and_then (update_item E W u item_id
                        [(uuid_str (e_ext E) (lc_id done), JBool True)]) (\<lambda>(W1, _).
                      Inr (W1, ())))))"

section \<open>Comments\<close>

definition comments :: "env \<Rightarrow> world \<Rightarrow> uuid \<Rightarrow> uuid \<Rightarrow> ListComment list AppResult" where
  "comments E W u item_id =
     and_then (item_place W item_id) (\<lambda>list_id.
     and_then (readable E W u list_id) (\<lambda>_.
       Inr (comments_of (w_store W) item_id)))"

definition comment_not_found :: AppError where
  "comment_not_found = NotFound (lit ''Comment not found'')"

definition find_comment :: "world \<Rightarrow> uuid \<Rightarrow> ListComment AppResult" where
  "find_comment W i = ok_or (comment_by_id (w_store W) i) comment_not_found"

definition comment_counted ::
  "world \<Rightarrow> ListRow \<Rightarrow> uuid \<Rightarrow> int \<Rightarrow> (world \<times> ListItem \<times> Staged) AppResult" where
  "comment_counted W l item_id delta =
     and_then (count_comments_in (w_store W) item_id delta) (\<lambda>counted.
     and_then (ok_or counted item_not_found) (\<lambda>(S, item).
       let (W1, staged) = stage (with_store W S) l (ItemUpserted item)
       in Inr (W1, item, staged)))"

definition add_comment ::
  "env \<Rightarrow> world \<Rightarrow> uuid \<Rightarrow> uuid \<Rightarrow> uuid \<Rightarrow> rstr \<Rightarrow> (world \<times> ListComment) AppResult" where
  "add_comment E W new u item_id text =
     and_then (clean_comment text) (\<lambda>content.
     and_then (item_place W item_id) (\<lambda>list_id.
     and_then (writable E W u list_id) (\<lambda>l.
       if \<not> share_lock_in (w_store W) list_id then Inl not_found
       else
     and_then (comment_counted W l item_id 1) (\<lambda>(W1, item, counted).
     and_then (insert_comment_in (w_store W1) new (e_now E) item u content) (\<lambda>(S2, comment).
       let columns = columns_in S2 list_id;
           (W2, staged) = stage (with_store W1 S2) l (CommentUpserted item_id comment (Some
             \<lparr>cn_author_id = u, cn_mentioned_user_ids = extract_mentioned_user_ids (e_ext E) content,
              cn_item_title = item_title (e_ext E) columns (li_values item), cn_list_title = l_title l\<rparr>))
       in Inr (dispatch (dispatch W2 staged) counted, comment))))))"

definition edit_comment ::
  "env \<Rightarrow> world \<Rightarrow> uuid \<Rightarrow> uuid \<Rightarrow> rstr \<Rightarrow> (world \<times> ListComment) AppResult" where
  "edit_comment E W u comment_id text =
     and_then (clean_comment text) (\<lambda>content.
     and_then (find_comment W comment_id) (\<lambda>current.
     and_then (writable E W u (lcm_list_id current)) (\<lambda>l.
       if lcm_user_id current \<noteq> u then Inl (Forbidden (lit ''Only the author can edit a comment''))
       else if \<not> share_lock_in (w_store W) (l_id l) then Inl not_found
       else
     and_then (ok_or (edit_comment_in (w_store W) (e_now E) comment_id content) comment_not_found) (\<lambda>(S, comment).
       let (W1, staged) = stage (with_store W S) l (CommentUpserted (lcm_item_id comment) comment None)
       in Inr (dispatch W1 staged, comment)))))"

definition delete_comment :: "env \<Rightarrow> world \<Rightarrow> uuid \<Rightarrow> uuid \<Rightarrow> (world \<times> unit) AppResult" where
  "delete_comment E W u comment_id =
     and_then (find_comment W comment_id) (\<lambda>comment.
     and_then (readable E W u (lcm_list_id comment)) (\<lambda>l.
     and_then
       (case l_channel_id l of
          Some c \<Rightarrow>
            if lcm_user_id comment \<noteq> u
            then and_then (find_channel (e_queries E) c) (\<lambda>ch.
              require_channel_moderator (e_queries E) ch u)
            else and_then (writable E W u (l_id l)) (\<lambda>_. Inr ())
        | None \<Rightarrow> and_then (writable E W u (l_id l)) (\<lambda>_. Inr ())) (\<lambda>_.
       if \<not> share_lock_in (w_store W) (l_id l) then Inl not_found
       else let (S, found) = delete_comment_in (w_store W) comment_id in
         if \<not> found then Inl comment_not_found
         else let (W1, staged) = stage (with_store W S) l (CommentDeleted (lcm_item_id comment) comment_id) in
     and_then (count_comments_in (w_store W1) (lcm_item_id comment) (- 1)) (\<lambda>counted.
       case counted of
         Some (S2, item) \<Rightarrow>
           let (W2, again) = stage (with_store W1 S2) l (ItemUpserted item)
           in Inr (dispatch (dispatch W2 staged) again, ())
       | None \<Rightarrow> Inr (dispatch W1 staged, ())))))"

end
