(* ===== verification/List_Invariant.thy ===== *)
theory List_Invariant
  imports List_Service "HOL-Library.Multiset"
begin

text \<open>
  The invariant of the list tables and its preservation by every operation of the service:
  keys are unique and references resolve; a list has at most thirty columns, one due column
  at most, between one and twenty views and at most ten thousand live items; the live items of a list
  have valid and different ranks; every cell of a live item is a value its column's rules leave unchanged;
  every saved view fits the columns; and a live item counts its comments.
\<close>

section \<open>The invariant\<close>

definition shape :: "store \<Rightarrow> uuid \<Rightarrow> uuid \<Rightarrow> (ColumnKind \<times> ColumnOptions) option" where
  "shape S l i = map_option (\<lambda>c. (lc_kind c, lc_options c)) (find_column (columns_in S l) i)"

definition refs_ok :: "store \<Rightarrow> bool" where
  "refs_ok S \<longleftrightarrow>
     distinct (map l_id (s_lists S)) \<and> distinct (map lc_id (s_columns S))
     \<and> distinct (map lv_id (s_views S)) \<and> distinct (map li_id (s_items S))
     \<and> distinct (map lcm_id (s_comments S))
     \<and> lc_list_id ` set (s_columns S) \<subseteq> l_id ` set (s_lists S)
     \<and> lv_list_id ` set (s_views S) \<subseteq> l_id ` set (s_lists S)
     \<and> li_list_id ` set (s_items S) \<subseteq> l_id ` set (s_lists S)
     \<and> lcm_item_id ` set (s_comments S) \<subseteq> li_id ` set (s_items S)"

definition columns_ok :: "store \<Rightarrow> bool" where
  "columns_ok S \<longleftrightarrow>
     (\<forall>l. length (columns_in S l) \<le> MAX_COLUMNS)
     \<and> (\<forall>c\<in>set (s_columns S). lc_due c \<longrightarrow> lc_kind c = Date)
     \<and> (\<forall>c\<in>set (s_columns S). \<forall>d\<in>set (s_columns S).
          lc_due c \<and> lc_due d \<and> lc_list_id c = lc_list_id d \<longrightarrow> lc_id c = lc_id d)"

definition views_ok :: "ext \<Rightarrow> store \<Rightarrow> bool" where
  "views_ok X S \<longleftrightarrow>
     (\<forall>l\<in>l_id ` set (s_lists S). views_in S l \<noteq> [])
     \<and> (\<forall>l. length (views_in S l) \<le> MAX_VIEWS)
     \<and> (\<forall>v\<in>set (s_views S). view_ok X (lv_config v) (lv_kind v) (columns_in S (lv_list_id v)))"

definition cells_typed :: "ext \<Rightarrow> (uuid \<Rightarrow> (ColumnKind \<times> ColumnOptions) option) \<Rightarrow> fields \<Rightarrow> bool" where
  "cells_typed X sh vals \<longleftrightarrow>
     distinct (map fst vals)
     \<and> (\<forall>k v. map_of vals k = Some v \<longrightarrow>
          (\<exists>i kd o'. k = uuid_str X i \<and> sh i = Some (kd, o') \<and> cell_ok X kd o' v))"

definition items_ok :: "ext \<Rightarrow> store \<Rightarrow> bool" where
  "items_ok X S \<longleftrightarrow>
     (\<forall>l. item_count_in S l \<le> MAX_ITEMS \<and> inj_on li_rank (set (live_items S l)))
     \<and> (\<forall>r\<in>set (s_items S). li_deleted_at r = None \<longrightarrow>
          valid_rank (li_rank r) \<and> cells_typed X (shape S (li_list_id r)) (li_values r))"

definition comments_ok :: "store \<Rightarrow> bool" where
  "comments_ok S \<longleftrightarrow>
     (\<forall>r\<in>set (s_items S). li_deleted_at r = None \<longrightarrow>
        li_comment_count r = int (length (filter (\<lambda>c. lcm_item_id c = li_id r) (s_comments S))))"

definition lists_ok :: "ext \<Rightarrow> store \<Rightarrow> bool" where
  "lists_ok X S \<longleftrightarrow> refs_ok S \<and> columns_ok S \<and> views_ok X S \<and> items_ok X S \<and> comments_ok S"

text \<open>The conjuncts, as rules.\<close>

lemma columns_okD:
  assumes "columns_ok S"
  shows "length (columns_in S l) \<le> MAX_COLUMNS"
    and "c \<in> set (s_columns S) \<Longrightarrow> lc_due c \<Longrightarrow> lc_kind c = Date"
    and "c \<in> set (s_columns S) \<Longrightarrow> d \<in> set (s_columns S) \<Longrightarrow> lc_due c \<Longrightarrow> lc_due d \<Longrightarrow>
      lc_list_id c = lc_list_id d \<Longrightarrow> lc_id c = lc_id d"
  using assms unfolding columns_ok_def by blast+

lemma columns_okI:
  assumes "\<And>l. length (columns_in S l) \<le> MAX_COLUMNS"
    and "\<And>c. c \<in> set (s_columns S) \<Longrightarrow> lc_due c \<Longrightarrow> lc_kind c = Date"
    and "\<And>c d. c \<in> set (s_columns S) \<Longrightarrow> d \<in> set (s_columns S) \<Longrightarrow> lc_due c \<Longrightarrow> lc_due d \<Longrightarrow>
      lc_list_id c = lc_list_id d \<Longrightarrow> lc_id c = lc_id d"
  shows "columns_ok S"
  using assms unfolding columns_ok_def by blast

lemma views_okD:
  assumes "views_ok X S"
  shows "l \<in> l_id ` set (s_lists S) \<Longrightarrow> views_in S l \<noteq> []"
    and "length (views_in S l) \<le> MAX_VIEWS"
    and "v \<in> set (s_views S) \<Longrightarrow> view_ok X (lv_config v) (lv_kind v) (columns_in S (lv_list_id v))"
  using assms unfolding views_ok_def by blast+

lemma views_okI:
  assumes "\<And>l. l \<in> l_id ` set (s_lists S) \<Longrightarrow> views_in S l \<noteq> []"
    and "\<And>l. length (views_in S l) \<le> MAX_VIEWS"
    and "\<And>v. v \<in> set (s_views S) \<Longrightarrow> view_ok X (lv_config v) (lv_kind v) (columns_in S (lv_list_id v))"
  shows "views_ok X S"
  using assms unfolding views_ok_def by blast

lemma items_okD:
  assumes "items_ok X S"
  shows "item_count_in S l \<le> MAX_ITEMS" and "inj_on li_rank (set (live_items S l))"
    and "r \<in> set (s_items S) \<Longrightarrow> li_deleted_at r = None \<Longrightarrow> valid_rank (li_rank r)"
    and "r \<in> set (s_items S) \<Longrightarrow> li_deleted_at r = None \<Longrightarrow> cells_typed X (shape S (li_list_id r)) (li_values r)"
  using assms unfolding items_ok_def by blast+

lemma items_okI:
  assumes "\<And>l. item_count_in S l \<le> MAX_ITEMS" and "\<And>l. inj_on li_rank (set (live_items S l))"
    and "\<And>r. r \<in> set (s_items S) \<Longrightarrow> li_deleted_at r = None \<Longrightarrow> valid_rank (li_rank r)"
    and "\<And>r. r \<in> set (s_items S) \<Longrightarrow> li_deleted_at r = None \<Longrightarrow> cells_typed X (shape S (li_list_id r)) (li_values r)"
  shows "items_ok X S"
  using assms unfolding items_ok_def by blast

lemma comments_okD:
  "comments_ok S \<Longrightarrow> r \<in> set (s_items S) \<Longrightarrow> li_deleted_at r = None \<Longrightarrow>
     li_comment_count r = int (length (filter (\<lambda>c. lcm_item_id c = li_id r) (s_comments S)))"
  unfolding comments_ok_def by blast

lemma lists_okD:
  assumes "lists_ok X S"
  shows "refs_ok S" "columns_ok S" "views_ok X S" "items_ok X S" "comments_ok S"
  using assms unfolding lists_ok_def by blast+

lemma lists_okI:
  "refs_ok S \<Longrightarrow> columns_ok S \<Longrightarrow> views_ok X S \<Longrightarrow> items_ok X S \<Longrightarrow> comments_ok S \<Longrightarrow> lists_ok X S"
  unfolding lists_ok_def by blast

section \<open>Frames\<close>

text \<open>What a query reads: only its own table.\<close>

lemma columns_in_frame [simp]:
  "columns_in (S\<lparr>s_lists := a\<rparr>) l = columns_in S l"
  "columns_in (S\<lparr>s_views := b\<rparr>) l = columns_in S l"
  "columns_in (S\<lparr>s_items := c\<rparr>) l = columns_in S l"
  "columns_in (S\<lparr>s_comments := d\<rparr>) l = columns_in S l"
  by (simp_all add: columns_in_def)

lemma views_in_frame [simp]:
  "views_in (S\<lparr>s_lists := a\<rparr>) l = views_in S l"
  "views_in (S\<lparr>s_columns := b\<rparr>) l = views_in S l"
  "views_in (S\<lparr>s_items := c\<rparr>) l = views_in S l"
  "views_in (S\<lparr>s_comments := d\<rparr>) l = views_in S l"
  by (simp_all add: views_in_def)

lemma live_items_frame [simp]:
  "live_items (S\<lparr>s_lists := a\<rparr>) l = live_items S l"
  "live_items (S\<lparr>s_columns := b\<rparr>) l = live_items S l"
  "live_items (S\<lparr>s_views := c\<rparr>) l = live_items S l"
  "live_items (S\<lparr>s_comments := d\<rparr>) l = live_items S l"
  by (simp_all add: live_items_def)

lemma shape_frame [simp]:
  "shape (S\<lparr>s_lists := a\<rparr>) = shape S"
  "shape (S\<lparr>s_views := b\<rparr>) = shape S"
  "shape (S\<lparr>s_items := c\<rparr>) = shape S"
  "shape (S\<lparr>s_comments := d\<rparr>) = shape S"
  by (simp_all add: shape_def fun_eq_iff)

section \<open>Columns by identifier\<close>

lemma distinct_map_sort_key: "distinct (map f (sort_key g xs)) = distinct (map f xs)"
  by (metis mset_map mset_sort mset_eq_imp_distinct_iff)

lemma find_key:
  "distinct (map f xs) \<Longrightarrow> List.find (\<lambda>x. f x = i) xs = Some x \<longleftrightarrow> x \<in> set xs \<and> f x = i"
  by (induction xs) auto

lemma find_columns_in:
  assumes "distinct (map lc_id (s_columns S))"
  shows "find_column (columns_in S l) i = Some c
    \<longleftrightarrow> c \<in> set (s_columns S) \<and> lc_list_id c = l \<and> lc_id c = i"
proof -
  have "distinct (map lc_id (columns_in S l))"
    unfolding columns_in_def distinct_map_sort_key by (rule distinct_map_filter [OF assms])
  then show ?thesis by (auto simp: find_column_def find_key set_columns_in)
qed

lemma shape_Some:
  assumes "distinct (map lc_id (s_columns S))"
  shows "shape S l i = Some (k, o') \<longleftrightarrow>
    (\<exists>c\<in>set (s_columns S). lc_list_id c = l \<and> lc_id c = i \<and> lc_kind c = k \<and> lc_options c = o')"
  using find_columns_in [OF assms, of l i] by (auto simp: shape_def)

lemma shape_pair: "shape S l i \<noteq> None \<Longrightarrow> \<exists>k o'. shape S l i = Some (k, o')"
  by (cases "shape S l i") auto

lemma length_columns_in: "length (columns_in S l) = length (filter (\<lambda>c. lc_list_id c = l) (s_columns S))"
  by (simp add: columns_in_def)

lemma length_views_in: "length (views_in S l) = length (filter (\<lambda>v. lv_list_id v = l) (s_views S))"
  by (simp add: views_in_def)

lemma filter_value_cong:
  "lc_kind c' = lc_kind c \<Longrightarrow> lc_options c' = lc_options c \<Longrightarrow>
     filter_value X f c' strict = filter_value X f c strict"
  by (simp only: filter_value_def Let_def)

lemma view_ok_mono:
  assumes sub: "\<And>i c. find_column C i = Some c \<Longrightarrow>
      \<exists>c'. find_column C' i = Some c' \<and> lc_kind c' = lc_kind c \<and> lc_options c' = lc_options c"
    and ok: "view_ok X v k C"
  shows "view_ok X v k C'"
proof -
  have "group_ok (group_by v) k C'"
    using ok sub by (fastforce simp: view_ok_def group_ok_def split: option.splits)
  moreover have "sort_ok (sort_rules v) C'"
    using ok sub by (fastforce simp: view_ok_def sort_ok_def)
  moreover have "filter_ok X f C'" if "f \<in> set (filters v)" for f
  proof -
    have f: "filter_ok X f C" using ok that by (simp add: view_ok_def)
    obtain c where c: "find_column C (fr_column_id f) = Some c"
      "\<forall>strict. filter_value X f c strict = Inr (fr_value f)"
      using f unfolding filter_ok_def by blast
    obtain c' where "find_column C' (fr_column_id f) = Some c'" "lc_kind c' = lc_kind c" "lc_options c' = lc_options c"
      using sub [OF c(1)] by blast
    then show ?thesis using c(2) filter_value_cong [of c' c X f] by (auto simp: filter_ok_def)
  qed
  ultimately show ?thesis using ok by (simp add: view_ok_def)
qed

lemma shape_SomeE:
  assumes "find_column (columns_in S l) i = Some c" and "\<And>i. shape S l i \<noteq> None \<Longrightarrow> shape S' l i = shape S l i"
  shows "\<exists>c'. find_column (columns_in S' l) i = Some c' \<and> lc_kind c' = lc_kind c \<and> lc_options c' = lc_options c"
  using assms(1) assms(2) [of i] by (auto simp: shape_def)

lemma cells_typed_mono:
  "cells_typed X sh vals \<Longrightarrow> (\<And>i. sh i \<noteq> None \<Longrightarrow> sh' i = sh i) \<Longrightarrow> cells_typed X sh' vals"
  by (fastforce simp: cells_typed_def)

text \<open>Growing the columns of a store keeps its items and views in order.\<close>

lemma views_ok_grow:
  assumes "views_ok X S" and "s_lists S' = s_lists S" and "s_views S' = s_views S"
    and "\<And>l i. shape S l i \<noteq> None \<Longrightarrow> shape S' l i = shape S l i"
  shows "views_ok X S'"
proof -
  have v: "views_in S' = views_in S" using assms(3) by (simp add: views_in_def fun_eq_iff)
  have "view_ok X (lv_config v) (lv_kind v) (columns_in S' (lv_list_id v))" if "v \<in> set (s_views S)" for v
    by (rule view_ok_mono [of "columns_in S (lv_list_id v)"])
       (use assms(1,4) that shape_SomeE in \<open>auto simp: views_ok_def\<close>)
  then show ?thesis using assms(1-3) v by (simp add: views_ok_def)
qed

lemma items_ok_grow:
  assumes "items_ok X S" and "s_items S' = s_items S"
    and "\<And>l i. shape S l i \<noteq> None \<Longrightarrow> shape S' l i = shape S l i"
  shows "items_ok X S'"
proof -
  have "live_items S' = live_items S" using assms(2) by (simp add: live_items_def fun_eq_iff)
  then show ?thesis
    using items_okD [OF assms(1)] cells_typed_mono [OF _ assms(3)]
    by (intro items_okI) (simp_all add: item_count_in_def assms(2))
qed

section \<open>Changes of one table\<close>

lemma queries_cong:
  "s_columns S' = s_columns S \<Longrightarrow> columns_in S' = columns_in S"
  "s_columns S' = s_columns S \<Longrightarrow> shape S' = shape S"
  "s_views S' = s_views S \<Longrightarrow> views_in S' = views_in S"
  "s_items S' = s_items S \<Longrightarrow> live_items S' = live_items S"
  unfolding columns_in_def shape_def views_in_def live_items_def by (rule ext, simp only:)+

lemma columns_ok_frame:
  assumes "columns_ok S" and "s_columns S' = s_columns S"
  shows "columns_ok S'"
  unfolding columns_ok_def queries_cong(1) [OF assms(2)] assms(2)
  using assms(1) unfolding columns_ok_def .

lemma views_ok_frame:
  assumes "views_ok X S" and "l_id ` set (s_lists S') = l_id ` set (s_lists S)"
    and "s_views S' = s_views S" and "s_columns S' = s_columns S"
  shows "views_ok X S'"
  unfolding views_ok_def queries_cong(1) [OF assms(4)] queries_cong(3) [OF assms(3)] assms(2,3)
  using assms(1) unfolding views_ok_def .

lemma items_ok_frame:
  assumes "items_ok X S" and "s_items S' = s_items S" and "s_columns S' = s_columns S"
  shows "items_ok X S'"
  unfolding items_ok_def item_count_in_def queries_cong(2) [OF assms(3)] queries_cong(4) [OF assms(2)] assms(2)
  using assms(1) unfolding items_ok_def item_count_in_def .

lemma comments_ok_frame:
  "comments_ok S \<Longrightarrow> s_items S' = s_items S \<Longrightarrow> s_comments S' = s_comments S \<Longrightarrow> comments_ok S'"
  by (simp add: comments_ok_def)

lemmas ok_frames = columns_ok_frame views_ok_frame items_ok_frame comments_ok_frame

lemma lists_ok_relist:
  assumes ok: "lists_ok X S" and m: "map l_id ls = map l_id (s_lists S)"
  shows "lists_ok X (S\<lparr>s_lists := ls\<rparr>)"
proof (rule lists_okI)
  have i: "l_id ` set ls = l_id ` set (s_lists S)" using m by (metis list.set_map)
  show "refs_ok (S\<lparr>s_lists := ls\<rparr>)" using lists_okD(1) [OF ok] i m by (simp add: refs_ok_def)
  show "views_ok X (S\<lparr>s_lists := ls\<rparr>)" by (rule views_ok_frame [OF lists_okD(3) [OF ok]]) (simp_all add: i)
qed (rule ok_frames, rule lists_okD, rule ok, simp_all)+

lemma shape_snoc:
  assumes "distinct (map lc_id (s_columns S @ [row]))" and "shape S l i \<noteq> None"
  shows "shape (S\<lparr>s_columns := s_columns S @ [row]\<rparr>) l i = shape S l i"
proof -
  obtain k o' where k: "shape S l i = Some (k, o')" using shape_pair [OF assms(2)] by blast
  then have "shape (S\<lparr>s_columns := s_columns S @ [row]\<rparr>) l i = Some (k, o')"
    using assms(1) by (subst shape_Some) (auto simp: shape_Some)
  with k show ?thesis by simp
qed

lemma columns_room:
  assumes "columns_ok S" and "length (columns_in S (lc_list_id row)) < MAX_COLUMNS"
  shows "length (filter (\<lambda>c. lc_list_id c = l) (s_columns S @ [row])) \<le> MAX_COLUMNS"
proof -
  have "length (filter (\<lambda>c. lc_list_id c = l) (s_columns S)) \<le> MAX_COLUMNS"
    using columns_okD(1) [OF assms(1), of l] by (simp only: length_columns_in)
  then show ?thesis using assms(2) length_columns_in [of S l] by auto
qed

lemma lists_ok_insert_column:
  assumes ok: "lists_ok X S" and new: "lc_id row \<notin> lc_id ` set (s_columns S)"
    and l: "lc_list_id row \<in> l_id ` set (s_lists S)" and due: "\<not> lc_due row"
    and room: "length (columns_in S (lc_list_id row)) < MAX_COLUMNS"
  shows "lists_ok X (S\<lparr>s_columns := s_columns S @ [row]\<rparr>)" (is "lists_ok X ?S")
proof (rule lists_okI)
  note D = lists_okD [OF ok]
  show r: "refs_ok ?S" using D(1) new l by (simp add: refs_ok_def)
  have sh: "shape S l i \<noteq> None \<Longrightarrow> shape ?S l i = shape S l i" for l i
    by (rule shape_snoc) (use r in \<open>simp_all add: refs_ok_def\<close>)
  have "length (columns_in ?S i) \<le> MAX_COLUMNS" for i
    using columns_room [OF D(2) room, of i] by (simp add: length_columns_in)
  then show "columns_ok ?S"
    by (rule columns_okI) (use due columns_okD(2,3) [OF D(2)] in auto)
  show "views_ok X ?S" by (rule views_ok_grow [OF D(3)]) (simp_all add: sh)
  show "items_ok X ?S" by (rule items_ok_grow [OF D(4)]) (simp_all add: sh)
  show "comments_ok ?S" by (rule comments_ok_frame [OF D(5)]) simp_all
qed

lemma lists_ok_map_columns:
  assumes ok: "lists_ok X S"
    and g: "\<And>c. lc_id (g c) = lc_id c" "\<And>c. lc_list_id (g c) = lc_list_id c" "\<And>c. lc_kind (g c) = lc_kind c"
      "\<And>c. lc_options (g c) = lc_options c" "\<And>c. lc_due (g c) = lc_due c"
  shows "lists_ok X (S\<lparr>s_columns := map g (s_columns S)\<rparr>)" (is "lists_ok X ?S")
proof (rule lists_okI)
  note D = lists_okD [OF ok]
  show r: "refs_ok ?S" using D(1) by (simp add: refs_ok_def o_def g image_image)
  have sh: "shape ?S l i = shape S l i" if ne: "shape S l i \<noteq> None" for l i
  proof -
    obtain k o' where k: "shape S l i = Some (k, o')" using shape_pair [OF ne] by blast
    have "shape ?S l i = Some (k, o')"
      using r D(1) k by (subst shape_Some) (auto simp: shape_Some refs_ok_def g)
    with k show ?thesis by simp
  qed
  show "columns_ok ?S"
  proof (rule columns_okI)
    show "length (columns_in ?S l) \<le> MAX_COLUMNS" for l
      using columns_okD(1) [OF D(2), of l] by (simp add: length_columns_in filter_map o_def g)
    show "lc_kind c = Date" if "c \<in> set (s_columns ?S)" "lc_due c" for c
      using that columns_okD(2) [OF D(2)] by (auto simp: g)
    fix c d assume cd: "c \<in> set (s_columns ?S)" "d \<in> set (s_columns ?S)" "lc_due c" "lc_due d"
      "lc_list_id c = lc_list_id d"
    then obtain c0 d0 where "c = g c0" "d = g d0" "c0 \<in> set (s_columns S)" "d0 \<in> set (s_columns S)" by auto
    then show "lc_id c = lc_id d" using cd(3-5) columns_okD(3) [OF D(2), of c0 d0] by (simp add: g)
  qed
  show "views_ok X ?S" by (rule views_ok_grow [OF D(3)]) (simp_all add: sh)
  show "items_ok X ?S" by (rule items_ok_grow [OF D(4)]) (simp_all add: sh)
  show "comments_ok ?S" by (rule comments_ok_frame [OF D(5)]) simp_all
qed

lemma views_in_Nil: "views_in S l = [] \<longleftrightarrow> (\<forall>v\<in>set (s_views S). lv_list_id v \<noteq> l)"
  by (metis (mono_tags, lifting) length_0_conv length_views_in filter_empty_conv)

lemma lists_ok_views:
  assumes ok: "lists_ok X S" and d: "distinct (map lv_id vs)"
    and l: "lv_list_id ` set vs = l_id ` set (s_lists S)"
    and m: "\<And>l. length (filter (\<lambda>v. lv_list_id v = l) vs) \<le> MAX_VIEWS"
    and v: "\<And>v. v \<in> set vs \<Longrightarrow> view_ok X (lv_config v) (lv_kind v) (columns_in S (lv_list_id v))"
  shows "lists_ok X (S\<lparr>s_views := vs\<rparr>)" (is "lists_ok X ?S")
proof (rule lists_okI)
  note D = lists_okD [OF ok]
  show "refs_ok ?S" using D(1) d l by (simp add: refs_ok_def)
  have "views_in ?S i \<noteq> []" if "i \<in> l_id ` set (s_lists S)" for i
    using that unfolding l [symmetric] by (auto simp: views_in_Nil)
  then show "views_ok X ?S" by (rule views_okI) (use m v in \<open>simp_all add: length_views_in\<close>)
  show "columns_ok ?S" by (rule columns_ok_frame [OF D(2)]) simp
  show "items_ok X ?S" by (rule items_ok_frame [OF D(4)]) simp_all
  show "comments_ok ?S" by (rule comments_ok_frame [OF D(5)]) simp_all
qed

lemma views_owners: "lists_ok X S \<Longrightarrow> lv_list_id ` set (s_views S) = l_id ` set (s_lists S)"
proof
  assume ok: "lists_ok X S"
  show "lv_list_id ` set (s_views S) \<subseteq> l_id ` set (s_lists S)"
    using lists_okD(1) [OF ok] by (simp add: refs_ok_def)
  show "l_id ` set (s_lists S) \<subseteq> lv_list_id ` set (s_views S)"
  proof
    fix l assume "l \<in> l_id ` set (s_lists S)"
    then have "views_in S l \<noteq> []" by (rule views_okD(1) [OF lists_okD(3) [OF ok]])
    then show "l \<in> lv_list_id ` set (s_views S)" by (auto simp: views_in_Nil)
  qed
qed

lemma lists_ok_insert_view:
  assumes ok: "lists_ok X S" and new: "lv_id row \<notin> lv_id ` set (s_views S)"
    and l: "lv_list_id row \<in> l_id ` set (s_lists S)"
    and room: "length (views_in S (lv_list_id row)) < MAX_VIEWS"
    and v: "view_ok X (lv_config row) (lv_kind row) (columns_in S (lv_list_id row))"
  shows "lists_ok X (S\<lparr>s_views := s_views S @ [row]\<rparr>)"
proof (rule lists_ok_views [OF ok])
  note D = lists_okD [OF ok]
  show "distinct (map lv_id (s_views S @ [row]))" using D(1) new by (simp add: refs_ok_def)
  show "lv_list_id ` set (s_views S @ [row]) = l_id ` set (s_lists S)"
    using views_owners [OF ok] l by auto
  show "length (filter (\<lambda>v. lv_list_id v = i) (s_views S @ [row])) \<le> MAX_VIEWS" for i
  proof -
    have "length (views_in S i) \<le> MAX_VIEWS" by (rule views_okD(2) [OF D(3)])
    then show ?thesis using room length_views_in [of S i] by auto
  qed
  show "w \<in> set (s_views S @ [row]) \<Longrightarrow> view_ok X (lv_config w) (lv_kind w) (columns_in S (lv_list_id w))" for w
    using views_okD(3) [OF D(3)] v by auto
qed

lemma lists_ok_map_views:
  assumes ok: "lists_ok X S"
    and g: "\<And>v. lv_id (g v) = lv_id v" "\<And>v. lv_list_id (g v) = lv_list_id v"
    and v: "\<And>v. v \<in> set (s_views S) \<Longrightarrow> view_ok X (lv_config (g v)) (lv_kind (g v)) (columns_in S (lv_list_id v))"
  shows "lists_ok X (S\<lparr>s_views := map g (s_views S)\<rparr>)"
proof (rule lists_ok_views [OF ok])
  note D = lists_okD [OF ok]
  show "distinct (map lv_id (map g (s_views S)))" using D(1) by (simp add: refs_ok_def o_def g)
  show "lv_list_id ` set (map g (s_views S)) = l_id ` set (s_lists S)"
    using views_owners [OF ok] by (simp add: image_image g)
  show "length (filter (\<lambda>v. lv_list_id v = i) (map g (s_views S))) \<le> MAX_VIEWS" for i
    using views_okD(2) [OF D(3), of i] by (simp add: length_views_in filter_map o_def g)
  show "w \<in> set (map g (s_views S)) \<Longrightarrow> view_ok X (lv_config w) (lv_kind w) (columns_in S (lv_list_id w))" for w
    using v by (auto simp: g)
qed

lemma another_of_list:
  assumes "distinct (map lv_id vs)" and "v \<in> set vs" and "length (filter (\<lambda>w. lv_list_id w = lv_list_id v) vs) \<noteq> 1"
  shows "\<exists>w\<in>set vs. lv_list_id w = lv_list_id v \<and> lv_id w \<noteq> lv_id v"
proof (rule ccontr)
  let ?ws = "filter (\<lambda>w. lv_list_id w = lv_list_id v) vs"
  assume "\<not> ?thesis"
  then have "\<forall>w\<in>set ?ws. lv_id w = lv_id v" by auto
  moreover have "v \<in> set ?ws" using assms(2) by simp
  ultimately have "lv_id ` set ?ws = {lv_id v}" by blast
  moreover have "distinct (map lv_id ?ws)" using assms(1) by (rule distinct_map_filter)
  ultimately have "length (map lv_id ?ws) = 1" using distinct_card [of "map lv_id ?ws"] by simp
  then show False using assms(3) by simp
qed

lemma lists_ok_delete_view:
  assumes ok: "lists_ok X S" and v: "v \<in> set (s_views S)" "lv_id v = i"
    and many: "length (views_in S (lv_list_id v)) \<noteq> 1"
  shows "lists_ok X (S\<lparr>s_views := filter (\<lambda>v. lv_id v \<noteq> i) (s_views S)\<rparr>)"
proof (rule lists_ok_views [OF ok])
  note D = lists_okD [OF ok]
  have d: "distinct (map lv_id (s_views S))" using D(1) by (simp add: refs_ok_def)
  then show "distinct (map lv_id (filter (\<lambda>v. lv_id v \<noteq> i) (s_views S)))" by (rule distinct_map_filter)
  obtain w where w: "w \<in> set (s_views S)" "lv_list_id w = lv_list_id v" "lv_id w \<noteq> i"
    using another_of_list [OF d v(1)] many v(2) by (auto simp: length_views_in)
  have "u = v" if "u \<in> set (s_views S)" "lv_id u = i" for u
    using d v that by (auto simp: distinct_map inj_on_def)
  then have "lv_list_id ` set (filter (\<lambda>v. lv_id v \<noteq> i) (s_views S)) = lv_list_id ` set (s_views S)"
    using w by (auto simp: image_iff) metis
  then show "lv_list_id ` set (filter (\<lambda>v. lv_id v \<noteq> i) (s_views S)) = l_id ` set (s_lists S)"
    using views_owners [OF ok] by simp
  show "length (filter (\<lambda>v. lv_list_id v = l) (filter (\<lambda>v. lv_id v \<noteq> i) (s_views S))) \<le> MAX_VIEWS" for l
  proof -
    have "length (filter P (filter Q vs)) \<le> length (filter P vs)" for P Q and vs :: "ListView list"
      by (metis (no_types, lifting) filter_filter conj_commute filter_cong length_filter_le)
    moreover have "length (filter (\<lambda>v. lv_list_id v = l) (s_views S)) \<le> MAX_VIEWS"
      using views_okD(2) [OF D(3), of l] by (simp only: length_views_in)
    ultimately show ?thesis by (rule order_trans)
  qed
  show "w \<in> set (filter (\<lambda>v. lv_id v \<noteq> i) (s_views S)) \<Longrightarrow>
      view_ok X (lv_config w) (lv_kind w) (columns_in S (lv_list_id w))" for w
    using views_okD(3) [OF D(3)] by auto
qed

subsection \<open>Items and comments\<close>

lemma set_live_items: "set (live_items S l) = {r \<in> set (s_items S). li_list_id r = l \<and> li_deleted_at r = None}"
  by (auto simp: live_items_def)

lemma length_filter_map_le:
  assumes "\<And>r. Q (g r) \<Longrightarrow> P r"
  shows "length (filter Q (map g xs)) \<le> length (filter P xs)"
proof (induction xs)
  case (Cons x xs)
  then show ?case using assms [of x] by auto
qed simp

lemma item_count_map:
  assumes "s_items S' = map g (s_items S)" and "\<And>r. li_list_id (g r) = li_list_id r"
    and "\<And>r. li_deleted_at (g r) = None \<Longrightarrow> li_deleted_at r = None"
  shows "item_count_in S' l \<le> item_count_in S l"
  unfolding item_count_in_def live_items_def assms(1)
  by (rule length_filter_map_le) (use assms(2,3) in simp)

lemma live_items_map:
  assumes "a \<in> set (live_items S' l)" and "s_items S' = map g (s_items S)" and "\<And>r. li_list_id (g r) = li_list_id r"
    and "\<And>r. li_deleted_at (g r) = None \<Longrightarrow> li_deleted_at r = None"
  shows "\<exists>a0\<in>set (live_items S l). a = g a0"
  using assms by (auto simp: set_live_items)

text \<open>Items rewritten in place under columns that may have changed; the ranks stay.\<close>

lemma items_ok_map:
  assumes ok: "items_ok X S" and its: "s_items S' = map g (s_items S)"
    and g: "\<And>r. li_list_id (g r) = li_list_id r" "\<And>r. li_rank (g r) = li_rank r"
      "\<And>r. li_deleted_at (g r) = None \<Longrightarrow> li_deleted_at r = None"
    and typed: "\<And>r. r \<in> set (s_items S) \<Longrightarrow> li_deleted_at (g r) = None \<Longrightarrow>
      cells_typed X (shape S' (li_list_id r)) (li_values (g r))"
  shows "items_ok X S'"
proof (rule items_okI)
  show "item_count_in S' l \<le> MAX_ITEMS" for l
    using item_count_map [OF its g(1,3), of l] items_okD(1) [OF ok, of l] by linarith
  show "inj_on li_rank (set (live_items S' l))" for l
  proof (rule inj_onI)
    fix a b assume ab: "a \<in> set (live_items S' l)" "b \<in> set (live_items S' l)" "li_rank a = li_rank b"
    then obtain a0 b0 where "a = g a0" "b = g b0" "a0 \<in> set (live_items S l)" "b0 \<in> set (live_items S l)"
      using live_items_map [OF _ its g(1,3)] by blast
    then show "a = b" using ab(3) items_okD(2) [OF ok, of l] by (auto simp: g(2) dest: inj_onD)
  qed
  fix r assume r: "r \<in> set (s_items S')" "li_deleted_at r = None"
  then obtain r0 where r0: "r = g r0" "r0 \<in> set (s_items S)" unfolding its by auto
  show "valid_rank (li_rank r)" using items_okD(3) [OF ok r0(2)] g(3) r(2) by (simp add: r0(1) g(2))
  show "cells_typed X (shape S' (li_list_id r)) (li_values r)" using typed [OF r0(2)] r(2) by (simp add: r0(1) g(1))
qed

lemma comments_ok_map:
  assumes "comments_ok S" and "s_items S' = map g (s_items S)" and "s_comments S' = s_comments S"
    and "\<And>r. li_id (g r) = li_id r" "\<And>r. li_comment_count (g r) = li_comment_count r"
      "\<And>r. li_deleted_at (g r) = None \<Longrightarrow> li_deleted_at r = None"
  shows "comments_ok S'"
  unfolding comments_ok_def using assms comments_okD [OF assms(1)] by auto

lemma refs_comment: "refs_ok S \<Longrightarrow> c \<in> set (s_comments S) \<Longrightarrow> lcm_item_id c \<in> li_id ` set (s_items S)"
  unfolding refs_ok_def by blast

lemma refs_ok_map_items:
  assumes "refs_ok S" and "\<And>r. li_id (g r) = li_id r" "\<And>r. li_list_id (g r) = li_list_id r"
  shows "refs_ok (S\<lparr>s_items := map g (s_items S)\<rparr>)"
  using assms(1) by (simp add: refs_ok_def o_def image_image assms(2,3))

lemma lists_ok_map_items:
  assumes ok: "lists_ok X S"
    and g: "\<And>r. li_id (g r) = li_id r" "\<And>r. li_list_id (g r) = li_list_id r" "\<And>r. li_rank (g r) = li_rank r"
      "\<And>r. li_comment_count (g r) = li_comment_count r"
      "\<And>r. li_deleted_at (g r) = None \<Longrightarrow> li_deleted_at r = None"
    and typed: "\<And>r. r \<in> set (s_items S) \<Longrightarrow> li_deleted_at (g r) = None \<Longrightarrow>
      cells_typed X (shape S (li_list_id r)) (li_values (g r))"
  shows "lists_ok X (S\<lparr>s_items := map g (s_items S)\<rparr>)" (is "lists_ok X ?S")
proof (rule lists_okI)
  note D = lists_okD [OF ok]
  show "refs_ok ?S" by (rule refs_ok_map_items [OF D(1) g(1,2)])
  show "columns_ok ?S" by (rule columns_ok_frame [OF D(2)]) simp
  show "views_ok X ?S" by (rule views_ok_frame [OF D(3)]) simp_all
  show "items_ok X ?S" by (rule items_ok_map [OF D(4) _ g(2,3,5)]) (use typed in simp_all)
  show "comments_ok ?S" by (rule comments_ok_map [OF D(5) _ _ g(1,4,5)]) simp_all
qed

lemma lists_ok_move_item:
  assumes ok: "lists_ok X S" and v: "valid_rank k"
    and fresh: "\<And>r s. r \<in> set (s_items S) \<Longrightarrow> li_id r = i \<Longrightarrow> li_deleted_at r = None \<Longrightarrow>
        s \<in> set (live_items S (li_list_id r)) \<Longrightarrow> li_id s \<noteq> i \<Longrightarrow> li_rank s \<noteq> k"
  shows "lists_ok X (S\<lparr>s_items := update_rows (\<lambda>r. li_id r = i)
           (\<lambda>r. r\<lparr>li_rank := k, li_updated_at := now\<rparr>) (s_items S)\<rparr>)" (is "lists_ok X ?S")
proof (rule lists_okI)
  note D = lists_okD [OF ok]
  let ?g = "\<lambda>r. if li_id r = i then r\<lparr>li_rank := k, li_updated_at := now\<rparr> else r"
  have its: "s_items ?S = map ?g (s_items S)" by (simp add: update_rows_def)
  have d: "distinct (map li_id (s_items S))" using D(1) by (simp add: refs_ok_def)
  show "refs_ok ?S" unfolding update_rows_def by (rule refs_ok_map_items [OF D(1)]) simp_all
  show "columns_ok ?S" by (rule columns_ok_frame [OF D(2)]) simp
  show "views_ok X ?S" by (rule views_ok_frame [OF D(3)]) simp_all
  show "comments_ok ?S" by (rule comments_ok_map [OF D(5) its]) (simp_all split: if_splits)
  show "items_ok X ?S"
  proof (rule items_okI)
    show "item_count_in ?S l \<le> MAX_ITEMS" for l
      using item_count_map [OF its, of l] items_okD(1) [OF D(4), of l] by (force split: if_splits)
    show "inj_on li_rank (set (live_items ?S l))" for l
    proof (rule inj_onI)
      fix a b assume ab: "a \<in> set (live_items ?S l)" "b \<in> set (live_items ?S l)" "li_rank a = li_rank b"
      have "\<exists>c0\<in>set (live_items S l). c = ?g c0" if "c \<in> set (live_items ?S l)" for c
        by (rule live_items_map [OF that its]) (simp_all split: if_splits)
      then obtain a0 b0 where o: "a = ?g a0" "b = ?g b0" "a0 \<in> set (live_items S l)" "b0 \<in> set (live_items S l)"
        using ab(1,2) by blast
      have "a0 = b0"
      proof (cases "li_id a0 = i"; cases "li_id b0 = i")
        assume "li_id a0 = i" "li_id b0 = i"
        then show ?thesis using o(3,4) d by (auto simp: set_live_items distinct_map dest: inj_onD)
      next
        assume "li_id a0 = i" "li_id b0 \<noteq> i"
        then show ?thesis using ab(3) o fresh [of a0 b0] by (auto simp: set_live_items)
      next
        assume "li_id a0 \<noteq> i" "li_id b0 = i"
        then show ?thesis using ab(3) o fresh [of b0 a0] by (auto simp: set_live_items)
      next
        assume "li_id a0 \<noteq> i" "li_id b0 \<noteq> i"
        then show ?thesis using ab(3) o items_okD(2) [OF D(4), of l] by (auto dest: inj_onD)
      qed
      then show "a = b" using o by simp
    qed
    fix r assume r: "r \<in> set (s_items ?S)" "li_deleted_at r = None"
    from r(1) obtain r0 where r0: "r = ?g r0" "r0 \<in> set (s_items S)" unfolding its set_map by blast
    have "li_deleted_at r0 = None" using r(2) r0(1) by (simp split: if_splits)
    then show "valid_rank (li_rank r)" "cells_typed X (shape ?S (li_list_id r)) (li_values r)"
      using items_okD(3,4) [OF D(4) r0(2)] v r0(1) by simp_all
  qed
qed

lemma lists_ok_insert_item:
  assumes ok: "lists_ok X S" and new: "li_id row \<notin> li_id ` set (s_items S)"
    and l: "li_list_id row \<in> l_id ` set (s_lists S)" and live: "li_deleted_at row = None"
    and room: "item_count_in S (li_list_id row) < MAX_ITEMS" and v: "valid_rank (li_rank row)"
    and fresh: "li_rank row \<notin> li_rank ` set (live_items S (li_list_id row))"
    and typed: "cells_typed X (shape S (li_list_id row)) (li_values row)" and c: "li_comment_count row = 0"
  shows "lists_ok X (S\<lparr>s_items := s_items S @ [row]\<rparr>)" (is "lists_ok X ?S")
proof (rule lists_okI)
  note D = lists_okD [OF ok]
  show "refs_ok ?S" using D(1) new l by (auto simp: refs_ok_def)
  show "columns_ok ?S" by (rule columns_ok_frame [OF D(2)]) simp
  show "views_ok X ?S" by (rule views_ok_frame [OF D(3)]) simp_all
  have live': "live_items ?S i = live_items S i @ (if li_list_id row = i then [row] else [])" for i
    using live by (simp add: live_items_def)
  show "items_ok X ?S"
  proof (rule items_okI)
    show "item_count_in ?S i \<le> MAX_ITEMS" for i
      using items_okD(1) [OF D(4), of i] room by (auto simp: item_count_in_def live')
    show "inj_on li_rank (set (live_items ?S i))" for i
      using items_okD(2) [OF D(4), of i] fresh by (cases "li_list_id row = i") (auto simp: live')
  qed (use items_okD(3,4) [OF D(4)] v typed in auto)
  have "filter (\<lambda>c. lcm_item_id c = li_id row) (s_comments S) = []"
    using refs_comment [OF D(1)] new by (auto simp: filter_empty_conv) (metis)
  then show "comments_ok ?S" using comments_okD [OF D(5)] c by (auto simp: comments_ok_def)
qed

text \<open>One more or one less comment on an item, with its count adjusted.\<close>

lemma lists_ok_comments:
  assumes ok: "lists_ok X S" and d: "distinct (map lcm_id cs)"
    and items: "lcm_item_id ` set cs \<subseteq> li_id ` set (s_items S)"
    and g: "\<And>r. li_id (g r) = li_id r" "\<And>r. li_list_id (g r) = li_list_id r" "\<And>r. li_rank (g r) = li_rank r"
      "\<And>r. li_deleted_at (g r) = li_deleted_at r" "\<And>r. li_values (g r) = li_values r"
    and n: "\<And>r. r \<in> set (s_items S) \<Longrightarrow> li_deleted_at r = None \<Longrightarrow>
      li_comment_count (g r) = int (length (filter (\<lambda>c. lcm_item_id c = li_id r) cs))"
  shows "lists_ok X (S\<lparr>s_items := map g (s_items S), s_comments := cs\<rparr>)" (is "lists_ok X ?S")
proof (rule lists_okI)
  note D = lists_okD [OF ok]
  show "refs_ok ?S" using D(1) d items by (simp add: refs_ok_def o_def image_image g)
  show "columns_ok ?S" by (rule columns_ok_frame [OF D(2)]) simp
  show "views_ok X ?S" by (rule views_ok_frame [OF D(3)]) simp_all
  show "items_ok X ?S"
    by (rule items_ok_map [OF D(4), of _ g]) (use items_okD(4) [OF D(4)] in \<open>simp_all add: g\<close>)
  show "comments_ok ?S" using n by (auto simp: comments_ok_def g)
qed

subsection \<open>Pruning views\<close>

definition prune_row :: "ext \<Rightarrow> timestamp \<Rightarrow> ListColumn list \<Rightarrow> uuid set \<Rightarrow> ListView \<Rightarrow> ListView" where
  "prune_row X now C ids v =
     (let config = pruned X (lv_config v) (lv_kind v) C in
      if lv_id v \<in> ids \<and> config \<noteq> lv_config v then v\<lparr>lv_config := config, lv_updated_at := now\<rparr> else v)"

lemma prune_row_simps [simp]:
  "lv_id (prune_row X now C ids v) = lv_id v" "lv_list_id (prune_row X now C ids v) = lv_list_id v"
  "lv_kind (prune_row X now C ids v) = lv_kind v" "lv_name (prune_row X now C ids v) = lv_name v"
  "lv_config (prune_row X now C ids v) = (if lv_id v \<in> ids then pruned X (lv_config v) (lv_kind v) C else lv_config v)"
  by (simp_all add: prune_row_def Let_def)

lemma update_view_prune:
  assumes "distinct (map lv_id (s_views S))" and "v \<in> set (s_views S)"
    and "pruned X (lv_config v) (lv_kind v) C \<noteq> lv_config v"
  shows "update_view_in S now (lv_id v) (lv_name v) (lv_kind v) (pruned X (lv_config v) (lv_kind v) C)
    = S\<lparr>s_views := map (prune_row X now C {lv_id v}) (s_views S)\<rparr>"
proof -
  have uniq: "w = v" if "w \<in> set (s_views S)" "lv_id w = lv_id v" for w
    using assms(1,2) that by (auto simp: distinct_map dest: inj_onD)
  have same: "v\<lparr>lv_name := lv_name v, lv_kind := lv_kind v, lv_config := c, lv_updated_at := now\<rparr>
      = v\<lparr>lv_config := c, lv_updated_at := now\<rparr>" for c
    by (cases v) simp
  have "(if lv_id w = lv_id v then w\<lparr>lv_name := lv_name v, lv_kind := lv_kind v,
        lv_config := pruned X (lv_config v) (lv_kind v) C, lv_updated_at := now\<rparr> else w)
      = prune_row X now C {lv_id v} w" if "w \<in> set (s_views S)" for w
    using assms(3) uniq [OF that] same by (cases "lv_id w = lv_id v") (simp_all add: prune_row_def Let_def)
  then have "update_rows (\<lambda>w. lv_id w = lv_id v) (\<lambda>w. w\<lparr>lv_name := lv_name v, lv_kind := lv_kind v,
        lv_config := pruned X (lv_config v) (lv_kind v) C, lv_updated_at := now\<rparr>) (s_views S)
      = map (prune_row X now C {lv_id v}) (s_views S)"
    by (simp add: update_rows_def)
  then show ?thesis by (simp add: update_view_in_def)
qed

lemma prune_loop_store:
  assumes "distinct (map lv_id (s_views S))" and "set vs \<subseteq> set (s_views S)" and "distinct (map lv_id vs)"
  shows "fst (prune_loop X now C S vs) = S\<lparr>s_views := map (prune_row X now C (lv_id ` set vs)) (s_views S)\<rparr>"
  using assms
proof (induction vs arbitrary: S)
  case Nil
  then show ?case by (auto simp: prune_row_def Let_def intro!: store.equality map_idI [symmetric])
next
  case (Cons v vs)
  show ?case
  proof (cases "pruned X (lv_config v) (lv_kind v) C = lv_config v")
    case True
    then have "prune_row X now C (lv_id ` set (v # vs)) w = prune_row X now C (lv_id ` set vs) w"
      if "w \<in> set (s_views S)" for w
      using that Cons.prems(1,2) by (auto simp: prune_row_def Let_def distinct_map dest: inj_onD)
    then have "map (prune_row X now C (lv_id ` set (v # vs))) (s_views S) = map (prune_row X now C (lv_id ` set vs)) (s_views S)"
      by simp
    then show ?thesis using True Cons.IH [of S] Cons.prems by simp
  next
    case False
    let ?S = "S\<lparr>s_views := map (prune_row X now C {lv_id v}) (s_views S)\<rparr>"
    have keep: "prune_row X now C {lv_id v} w = w" if "w \<in> set vs" for w
    proof -
      have "lv_id w \<noteq> lv_id v" using that Cons.prems(3) by auto (metis image_eqI)
      then show ?thesis by (simp add: prune_row_def Let_def)
    qed
    have sub: "set vs \<subseteq> set (s_views ?S)"
    proof
      fix w assume w: "w \<in> set vs"
      then show "w \<in> set (s_views ?S)" using keep [OF w] Cons.prems(2) by (auto simp: image_iff) (metis subsetD)
    qed
    have "prune_row X now C (lv_id ` set vs) (prune_row X now C {lv_id v} w)
        = prune_row X now C (lv_id ` set (v # vs)) w" for w
      using Cons.prems(3) by (auto simp: prune_row_def Let_def)
    then show ?thesis
      using False Cons.IH [of ?S] sub Cons.prems
      by (simp add: update_view_prune [of S v X C now] o_def split_beta Let_def)
  qed
qed

end
