(* ===== verification/List_Columns.thy ===== *)
theory List_Columns
  imports List_Invariant
begin

text \<open>
  Changing the type of a column and removing a column. Either changes three tables at once: the column, the cells of the
  items and the saved views. The lemmas show that the conversion of the cells and the pruning of the views
  restore the invariant.
\<close>

section \<open>Changing or removing a column\<close>

lemma option_ext: "(\<And>e. x = Some e \<longleftrightarrow> y = Some e) \<Longrightarrow> x = y"
  by (metis not_None_eq)

lemma shape_map_columns:
  assumes "distinct (map lc_id (s_columns S))" and "s_columns S' = map g (s_columns S)"
    and g: "\<And>c. lc_id (g c) = lc_id c" "\<And>c. lc_list_id (g c) = lc_list_id c"
  shows "shape S' l i = map_option (\<lambda>c. (lc_kind (g c), lc_options (g c))) (find_column (columns_in S l) i)"
proof -
  have d: "distinct (map lc_id (s_columns S'))" using assms(1,2) by (simp add: o_def g)
  show ?thesis
  proof (cases "find_column (columns_in S l) i")
    case None
    then have "\<not> (\<exists>c\<in>set (s_columns S). lc_list_id c = l \<and> lc_id c = i)"
      using find_columns_in [OF assms(1), of l i] by (metis not_None_eq)
    then have no: "shape S' l i \<noteq> Some (k, o')" for k o'
      unfolding shape_Some [OF d] assms(2) by (auto simp: g)
    have "shape S' l i = None"
    proof (rule ccontr)
      assume "shape S' l i \<noteq> None"
      from shape_pair [OF this] no show False by blast
    qed
    then show ?thesis using None by simp
  next
    case (Some c)
    then have c: "c \<in> set (s_columns S)" "lc_list_id c = l" "lc_id c = i"
      using find_columns_in [OF assms(1), of l i c] by auto
    then have "shape S' l i = Some (lc_kind (g c), lc_options (g c))"
      unfolding shape_Some [OF d] assms(2) by (auto simp: g)
    then show ?thesis using Some by simp
  qed
qed

lemma shape_update_column:
  assumes d: "distinct (map lc_id (s_columns S))" and c: "c \<in> set (s_columns S)" "lc_id c = i" "lc_list_id c = l"
    and S': "s_columns S' = map g (s_columns S)"
    and g: "\<And>c. lc_id (g c) = lc_id c" "\<And>c. lc_list_id (g c) = lc_list_id c"
      "\<And>c. lc_id c \<noteq> i \<Longrightarrow> lc_kind (g c) = lc_kind c" "\<And>c. lc_id c \<noteq> i \<Longrightarrow> lc_options (g c) = lc_options c"
    and gi: "\<And>c. lc_id c = i \<Longrightarrow> lc_kind (g c) = k" "\<And>c. lc_id c = i \<Longrightarrow> lc_options (g c) = o'"
  shows "shape S' l i = Some (k, o')" and "i' \<noteq> i \<Longrightarrow> shape S' l' i' = shape S l' i'"
proof -
  have f: "find_column (columns_in S l) i = Some c" using find_columns_in [OF d, of l i c] c by blast
  show "shape S' l i = Some (k, o')" using f c by (simp add: shape_map_columns [OF d S' g(1,2)] gi)
  assume "i' \<noteq> i"
  then have "lc_kind (g e) = lc_kind e \<and> lc_options (g e) = lc_options e"
    if "find_column (columns_in S l') i' = Some e" for e
    using that g(3,4) [of e] find_columns_in [OF d, of l' i' e] by blast
  then show "shape S' l' i' = shape S l' i'"
    unfolding shape_map_columns [OF d S' g(1,2)] unfolding shape_def
    by (cases "find_column (columns_in S l') i'") auto
qed

lemma column_elsewhere:
  assumes "distinct (map lc_id (s_columns S))" and "c \<in> set (s_columns S)" "lc_id c = i" "lc_list_id c = l"
    and "l' \<noteq> l"
  shows "find_column (columns_in S l') i = None"
proof (rule ccontr)
  assume "find_column (columns_in S l') i \<noteq> None"
  then obtain e where "find_column (columns_in S l') i = Some e" by blast
  then have e: "e \<in> set (s_columns S)" "lc_list_id e = l'" "lc_id e = i"
    using find_columns_in [OF assms(1), of l' i e] by auto
  then have "e = c" using assms(1-3) by (auto simp: distinct_map dest: inj_onD)
  then show False using e(2) assms(4,5) by simp
qed

lemma convert_loop_cells:
  assumes "distinct (map fst cells)" and "\<And>j. j \<in> fst ` set cells \<Longrightarrow> map_of (cv_cells cv) j = None"
  shows "map_of (cv_cells (convert_loop f cv cells)) j =
    (case map_of cells j of
       None \<Rightarrow> map_of (cv_cells cv) j
     | Some v \<Rightarrow> (case f v of None \<Rightarrow> Some JNull | Some n \<Rightarrow> if n \<noteq> v then Some n else None))"
  using assms
proof (induction cells arbitrary: cv)
  case Nil
  then show ?case by simp
next
  case (Cons jv cells)
  obtain i v where jv: "jv = (i, v)" by (cases jv)
  have i: "i \<notin> fst ` set cells" "map_of (cv_cells cv) i = None" using Cons.prems jv by auto
  then have none: "map_of cells i = None" by (simp add: map_of_eq_None_iff)
  have j: "\<And>j. j \<in> fst ` set cells \<Longrightarrow> map_of (cv_cells cv) j = None \<and> j \<noteq> i"
    using Cons.prems(2) i jv by auto
  have d: "distinct (map fst cells)" using Cons.prems(1) by simp
  show ?case
  proof (cases "f v")
    case None
    let ?cv = "cv\<lparr>cv_cleared := cv_cleared cv + 1, cv_cells := AList.update i JNull (cv_cells cv)\<rparr>"
    have "\<And>j. j \<in> fst ` set cells \<Longrightarrow> map_of (cv_cells ?cv) j = None" using j by (auto simp: update_conv')
    from Cons.IH [OF d this] show ?thesis
      using none None by (auto simp: jv update_conv' split: option.splits)
  next
    case (Some n)
    let ?cv = "cv\<lparr>cv_converted := cv_converted cv + 1,
            cv_cells := (if n \<noteq> v then AList.update i n (cv_cells cv) else cv_cells cv)\<rparr>"
    have "\<And>j. j \<in> fst ` set cells \<Longrightarrow> map_of (cv_cells ?cv) j = None" using j by (auto simp: update_conv')
    from Cons.IH [OF d this] show ?thesis
      using none Some i(2) by (auto simp: jv update_conv' split: option.splits)
  qed
qed

lemma set_cells_in:
  "(j, v) \<in> set (cells_in X S l i) \<longleftrightarrow>
     (\<exists>r\<in>set (live_items S l). li_id r = j \<and> map_of (li_values r) (uuid_str X i) = Some v)"
  by (auto simp: cells_in_def map_filter_def image_iff)

lemma distinct_cells_in:
  assumes "distinct (map li_id (s_items S))"
  shows "distinct (map fst (cells_in X S l i))"
proof -
  have "map fst (cells_in X S l i) =
      map li_id (filter (\<lambda>r. map_of (li_values r) (uuid_str X i) \<noteq> None) (live_items S l))"
    by (auto simp: cells_in_def map_filter_def o_def)
  then show ?thesis using assms by (simp add: distinct_map_filter live_items_def)
qed

lemma map_of_cells_in:
  assumes d: "distinct (map li_id (s_items S))" and r: "r \<in> set (live_items S l)"
  shows "map_of (cells_in X S l i) (li_id r) = map_of (li_values r) (uuid_str X i)"
proof -
  have uniq: "s = r" if "s \<in> set (live_items S l)" "li_id s = li_id r" for s
    using d r that by (auto simp: set_live_items distinct_map dest: inj_onD)
  show ?thesis
  proof (cases "map_of (li_values r) (uuid_str X i)")
    case None
    then have "li_id r \<notin> fst ` set (cells_in X S l i)" using uniq set_cells_in [of "li_id r" _ X S l i] by fastforce
    then have "map_of (cells_in X S l i) (li_id r) = None" by (simp add: map_of_eq_None_iff)
    then show ?thesis using None by (simp only:)
  next
    case (Some v)
    then have "(li_id r, v) \<in> set (cells_in X S l i)" using r set_cells_in [of "li_id r" v X S l i] by blast
    then show ?thesis using Some distinct_cells_in [OF d] by (simp add: map_of_is_SomeI)
  qed
qed

definition recell :: "ext \<Rightarrow> uuid \<Rightarrow> uuid \<Rightarrow> (uuid \<times> json) list \<Rightarrow> ListItem \<Rightarrow> ListItem" where
  "recell X l i cells r =
     (if li_list_id r = l \<and> map_of cells (li_id r) \<noteq> None
      then (case the (map_of cells (li_id r)) of
              JNull \<Rightarrow> r\<lparr>li_values := AList.delete (uuid_str X i) (li_values r)\<rparr>
            | v \<Rightarrow> r\<lparr>li_values := AList.update (uuid_str X i) v (li_values r)\<rparr>)
      else r)"

lemma rewrite_cells_recell: "rewrite_cells_in X S l i cells = S\<lparr>s_items := map (recell X l i cells) (s_items S)\<rparr>"
  unfolding rewrite_cells_in_def update_rows_def recell_def ..

lemma recell_none: "map_of cells (li_id r) = None \<or> li_list_id r \<noteq> l \<Longrightarrow> recell X l i cells r = r"
  by (auto simp: recell_def)

lemma recell_keeps [simp]:
  "li_id (recell X l i cells r) = li_id r" "li_list_id (recell X l i cells r) = li_list_id r"
  "li_rank (recell X l i cells r) = li_rank r" "li_comment_count (recell X l i cells r) = li_comment_count r"
  "li_deleted_at (recell X l i cells r) = li_deleted_at r"
  by (auto simp: recell_def split: json.splits)

lemma recell_values:
  "li_list_id r = l \<Longrightarrow> map_of cells (li_id r) = Some v \<Longrightarrow>
     li_values (recell X l i cells r) = (if v = JNull then AList.delete (uuid_str X i) (li_values r)
       else AList.update (uuid_str X i) v (li_values r))"
  by (auto simp: recell_def split: json.splits)

lemma cell_ok_not_null: "cell_ok X k o' v \<Longrightarrow> v \<noteq> JNull"
  by (auto simp: cell_ok_def normalize_def)

lemma map_of_delete: "map_of (AList.delete k xs) k' = (if k' = k then None else map_of xs k')"
  by (simp add: delete_conv')

context ext_laws
begin

lemma cells_typed_delete:
  assumes "cells_typed X sh vals" and "\<And>i'. i' \<noteq> i \<Longrightarrow> sh' i' = sh i'"
  shows "cells_typed X sh' (AList.delete (uuid_str X i) vals)"
  using assms unfolding cells_typed_def
  by (auto simp: map_of_delete distinct_delete split: if_splits) (metis)

lemma cells_typed_update:
  assumes "cells_typed X sh vals" and "\<And>i'. i' \<noteq> i \<Longrightarrow> sh' i' = sh i'"
    and "sh' i = Some (k, o')" and "cell_ok X k o' v"
  shows "cells_typed X sh' (AList.update (uuid_str X i) v vals)"
proof -
  have "\<exists>i' kd p. key = uuid_str X i' \<and> sh' i' = Some (kd, p) \<and> cell_ok X kd p w"
    if w: "map_of (AList.update (uuid_str X i) v vals) key = Some w" for key w
  proof (cases "key = uuid_str X i")
    case True
    then have "w = v" using w by (simp add: update_conv')
    then show ?thesis using True assms(3,4) by blast
  next
    case False
    then have "map_of vals key = Some w" using w by (simp add: update_conv')
    then obtain i' kd p where "key = uuid_str X i'" "sh i' = Some (kd, p)" "cell_ok X kd p w"
      using assms(1) unfolding cells_typed_def by blast
    then show ?thesis using False assms(2) [of i'] by auto
  qed
  then show ?thesis using assms(1) unfolding cells_typed_def by (simp add: distinct_update)
qed

lemma cells_typed_keep:
  assumes "cells_typed X sh vals" and "\<And>i'. i' \<noteq> i \<Longrightarrow> sh' i' = sh i'"
    and "\<And>v. map_of vals (uuid_str X i) = Some v \<Longrightarrow> \<exists>k o'. sh' i = Some (k, o') \<and> cell_ok X k o' v"
  shows "cells_typed X sh' vals"
  unfolding cells_typed_def
proof (intro conjI allI impI)
  show "distinct (map fst vals)" using assms(1) by (simp add: cells_typed_def)
  fix key v assume v: "map_of vals key = Some v"
  then obtain i' kd p where i': "key = uuid_str X i'" "sh i' = Some (kd, p)" "cell_ok X kd p v"
    using assms(1) unfolding cells_typed_def by blast
  then show "\<exists>i' kd p. key = uuid_str X i' \<and> sh' i' = Some (kd, p) \<and> cell_ok X kd p v"
    using assms(2) [of i'] assms(3) [of v] v by (cases "i' = i") auto
qed

text \<open>The cells of a live item after its column was converted.\<close>

lemma recell_typed:
  assumes d: "distinct (map li_id (s_items S))" and r: "r \<in> set (live_items S l)"
    and typed: "cells_typed X (shape S l) (li_values r)"
    and sh: "\<And>i'. i' \<noteq> i \<Longrightarrow> sh i' = shape S l i'" "sh i = Some (k, o')"
    and cells: "cells = cv_cells (convert_loop (convert X a (k0, o0) (k, o'))
        \<lparr>cv_cells = [], cv_converted = 0, cv_cleared = 0\<rparr> (cells_in X S l i))"
  shows "cells_typed X sh (li_values (recell X l i cells r))"
proof -
  let ?f = "convert X a (k0, o0) (k, o')"
  have l: "li_list_id r = l" using r by (simp add: set_live_items)
  have m: "map_of cells (li_id r) = (case map_of (li_values r) (uuid_str X i) of
      None \<Rightarrow> None | Some v \<Rightarrow> (case ?f v of None \<Rightarrow> Some JNull | Some n \<Rightarrow> if n \<noteq> v then Some n else None))"
    unfolding cells by (subst convert_loop_cells [OF distinct_cells_in [OF d]]) (simp_all add: map_of_cells_in [OF d r] split: option.split)
  have ok: "cell_ok X k o' n" if "?f v = Some n" for v n using convert_cell_ok [OF that] by simp
  show ?thesis
  proof (cases "map_of (li_values r) (uuid_str X i)")
    case None
    then have "map_of cells (li_id r) = None" using m by simp
    then have "recell X l i cells r = r" by (simp add: recell_none)
    then show ?thesis using cells_typed_keep [of "shape S l" "li_values r" i sh, OF typed sh(1)] None by simp
  next
    case (Some v)
    show ?thesis
    proof (cases "?f v")
      case None
      then have "map_of cells (li_id r) = Some JNull" using m Some by simp
      then show ?thesis using recell_values [OF l, of cells JNull X i] cells_typed_delete [OF typed sh(1)] by simp
    next
      case n: (Some n)
      show ?thesis
      proof (cases "n = v")
        case True
        then have "map_of cells (li_id r) = None" using m Some n by simp
        then have "recell X l i cells r = r" by (simp add: recell_none)
        then show ?thesis using cells_typed_keep [of "shape S l" "li_values r" i sh, OF typed sh(1)] Some ok [OF n] True sh(2) by simp
      next
        case False
        then have "map_of cells (li_id r) = Some n" using m Some n by simp
        then show ?thesis
          using recell_values [OF l, of cells n X i] cell_ok_not_null [OF ok [OF n]]
            cells_typed_update [OF typed sh(1,2) ok [OF n]] by simp
      qed
    qed
  qed
qed

lemma lists_ok_pruned:
  assumes ok: "lists_ok X S" and S2: "refs_ok S2" "columns_ok S2" "items_ok X S2" "comments_ok S2"
    and same: "s_lists S2 = s_lists S" "s_views S2 = s_views S"
    and sh: "\<And>l' i'. l' \<noteq> l \<Longrightarrow> shape S2 l' i' = shape S l' i'"
  shows "lists_ok X (fst (prune_loop X now (columns_in S2 l) S2 (views_in S2 l)))"
proof -
  let ?C = "columns_in S2 l" and ?ids = "lv_id ` set (views_in S2 l)"
  let ?S = "S2\<lparr>s_views := map (prune_row X now ?C ?ids) (s_views S2)\<rparr>"
  have d: "distinct (map lv_id (s_views S2))" using S2(1) by (simp add: refs_ok_def)
  have "distinct (map lv_id (views_in S2 l))"
    unfolding views_in_def distinct_map_sort_key by (rule distinct_map_filter [OF d])
  then have eq: "fst (prune_loop X now ?C S2 (views_in S2 l)) = ?S"
    by (intro prune_loop_store [OF d]) (auto simp: set_views_in)
  have ids: "lv_id v \<in> ?ids \<longleftrightarrow> lv_list_id v = l" if "v \<in> set (s_views S2)" for v
    using d that by (auto simp: set_views_in distinct_map dest: inj_onD)
  have len: "length (views_in ?S k) = length (views_in S k)" for k
    by (simp add: length_views_in filter_map o_def same(2))
  show ?thesis unfolding eq
  proof (rule lists_okI)
    show "refs_ok ?S" using S2(1) by (simp add: refs_ok_def o_def image_image)
    show "columns_ok ?S" by (rule columns_ok_frame [OF S2(2)]) simp
    show "items_ok X ?S" by (rule items_ok_frame [OF S2(3)]) simp_all
    show "comments_ok ?S" by (rule comments_ok_frame [OF S2(4)]) simp_all
    note V = views_okD [OF lists_okD(3) [OF ok]]
    show "views_ok X ?S"
    proof (rule views_okI)
      show "views_in ?S k \<noteq> []" if "k \<in> l_id ` set (s_lists ?S)" for k
        using V(1) [of k] that len [of k] by (simp add: same(1)) (metis length_0_conv)
      show "length (views_in ?S k) \<le> MAX_VIEWS" for k using V(2) [of k] len [of k] by simp
      fix w assume "w \<in> set (s_views ?S)"
      then obtain v where v: "v \<in> set (s_views S2)" "w = prune_row X now ?C ?ids v" by auto
      show "view_ok X (lv_config w) (lv_kind w) (columns_in ?S (lv_list_id w))"
      proof (cases "lv_list_id v = l")
        case True
        then show ?thesis using ids [OF v(1)] pruned_ok v(2) by simp
      next
        case False
        then have c: "lv_config w = lv_config v" using ids [OF v(1)] v(2) by simp
        have "view_ok X (lv_config v) (lv_kind v) (columns_in S2 (lv_list_id v))"
          by (rule view_ok_mono [OF shape_SomeE V(3)]) (use v(1) same(2) sh [OF False] in simp_all)
        then show ?thesis using v(2) c by simp
      qed
    qed
  qed
qed

end

definition recolumn :: "uuid \<Rightarrow> uuid \<Rightarrow> ColumnFields \<Rightarrow> ListColumn \<Rightarrow> ListColumn" where
  "recolumn l i f e =
     (if lc_id e = i
      then e\<lparr>lc_name := cf_name f, lc_kind := cf_kind f, lc_options := cf_options f,
             lc_hidden := cf_hidden f, lc_due := cf_due f\<rparr>
      else if cf_due f \<and> lc_list_id e = l \<and> lc_due e then e\<lparr>lc_due := False\<rparr> else e)"

lemma recolumn_simps [simp]:
  "lc_id (recolumn l i f e) = lc_id e" "lc_list_id (recolumn l i f e) = lc_list_id e"
  "lc_kind (recolumn l i f e) = (if lc_id e = i then cf_kind f else lc_kind e)"
  "lc_options (recolumn l i f e) = (if lc_id e = i then cf_options f else lc_options e)"
  "lc_due (recolumn l i f e) = (if lc_id e = i then cf_due f else lc_due e \<and> \<not> (cf_due f \<and> lc_list_id e = l))"
  by (auto simp: recolumn_def)

lemma update_column_recolumn:
  assumes "distinct (map lc_id (s_columns S))" and "c \<in> set (s_columns S)" and "lc_id c = i"
  shows "update_column_in S i f = S\<lparr>s_columns := map (recolumn (lc_list_id c) i f) (s_columns S)\<rparr>"
proof -
  have "List.find (\<lambda>e. lc_id e = i) (s_columns S) = Some c" using assms by (simp add: find_key)
  then show ?thesis
    by (auto simp: update_column_in_def update_rows_def recolumn_def Let_def o_def)
qed

lemma columns_ok_recolumn:
  assumes ok: "columns_ok S" and c: "c \<in> set (s_columns S)" "lc_id c = i" "lc_list_id c = l"
    and d: "distinct (map lc_id (s_columns S))" and due: "cf_due f \<Longrightarrow> cf_kind f = Date"
  shows "columns_ok (S\<lparr>s_columns := map (recolumn l i f) (s_columns S)\<rparr>)" (is "columns_ok ?S")
proof (rule columns_okI)
  show "length (columns_in ?S k) \<le> MAX_COLUMNS" for k
    using columns_okD(1) [OF ok, of k] by (simp add: length_columns_in filter_map o_def)
  show "lc_kind e = Date" if "e \<in> set (s_columns ?S)" "lc_due e" for e
    using that columns_okD(2) [OF ok] due by (auto split: if_splits)
  fix a b assume ab: "a \<in> set (s_columns ?S)" "b \<in> set (s_columns ?S)" "lc_due a" "lc_due b"
    "lc_list_id a = lc_list_id b"
  then obtain a0 b0 where o: "a = recolumn l i f a0" "b = recolumn l i f b0"
    "a0 \<in> set (s_columns S)" "b0 \<in> set (s_columns S)" by auto
  have one: "x = c" if "x \<in> set (s_columns S)" "lc_id x = i" for x
    using that c d by (auto simp: distinct_map dest: inj_onD)
  show "lc_id a = lc_id b"
  proof (cases "lc_id a0 = i \<or> lc_id b0 = i")
    case True
    then show ?thesis using ab(3-5) o one c(3) by (auto split: if_splits)
  next
    case False
    then show ?thesis using ab(3-5) o columns_okD(3) [OF ok o(3,4)] by simp
  qed
qed

context ext_laws
begin

lemma lists_ok_update_column:
  assumes ok: "lists_ok X S" and c: "c \<in> set (s_columns S)" "lc_id c = i" "lc_list_id c = l"
    and due: "cf_due f \<Longrightarrow> cf_kind f = Date"
    and S1: "S1 = update_column_in S i f"
    and cv: "cv = (if cf_kind f = lc_kind c \<and> cf_options f = lc_options c
        then \<lparr>cv_cells = [], cv_converted = 0, cv_cleared = 0\<rparr>
        else convert_loop (convert X a (lc_kind c, lc_options c) (cf_kind f, cf_options f))
          \<lparr>cv_cells = [], cv_converted = 0, cv_cleared = 0\<rparr> (cells_in X S l i))"
    and S2: "S2 = (if cv_cells cv \<noteq> [] then rewrite_cells_in X S1 l i (cv_cells cv) else S1)"
  shows "lists_ok X (fst (prune_loop X now (columns_in S2 l) S2 (views_in S2 l)))"
proof -
  note D = lists_okD [OF ok]
  have d: "distinct (map lc_id (s_columns S))" "distinct (map li_id (s_items S))"
    using D(1) by (simp_all add: refs_ok_def)
  let ?g = "recell X l i (cv_cells cv)" and ?h = "recolumn l i f"
  have id: "?g r = r" if "cv_cells cv = []" for r using that by (simp add: recell_none)
  have S1': "S1 = S\<lparr>s_columns := map ?h (s_columns S)\<rparr>"
    using update_column_recolumn [OF d(1) c(1,2), of f] S1 c(3) by simp
  have S2': "S2 = S\<lparr>s_columns := map ?h (s_columns S), s_items := map ?g (s_items S)\<rparr>"
    using id by (auto simp: S2 S1' rewrite_cells_recell intro!: store.equality map_idI [symmetric])
  have cols: "s_columns S2 = map ?h (s_columns S)" by (simp add: S2')
  note sh = shape_update_column [OF d(1) c cols, of "cf_kind f" "cf_options f", simplified]
  have typed: "cells_typed X (shape S2 (li_list_id r)) (li_values (?g r))"
    if r: "r \<in> set (s_items S)" "li_deleted_at r = None" for r
  proof (cases "li_list_id r = l")
    case False
    have none: "shape S (li_list_id r) i = None"
      using column_elsewhere [OF d(1) c, of "li_list_id r"] False by (simp add: shape_def)
    then have "shape S2 (li_list_id r) k = shape S (li_list_id r) k" if "shape S (li_list_id r) k \<noteq> None" for k
      using sh(2) [of k] that by (cases "k = i") auto
    then have "cells_typed X (shape S2 (li_list_id r)) (li_values r)"
      by (rule cells_typed_mono [OF items_okD(4) [OF D(4) r]])
    then show ?thesis using False by (simp add: recell_none)
  next
    case True
    then have live: "r \<in> set (live_items S l)" using r by (simp add: set_live_items)
    have ty: "cells_typed X (shape S l) (li_values r)" using items_okD(4) [OF D(4) r] True by simp
    show ?thesis
    proof (cases "cf_kind f = lc_kind c \<and> cf_options f = lc_options c")
      case same: True
      have "shape S l i = Some (lc_kind c, lc_options c)" unfolding shape_Some [OF d(1)] using c by blast
      then have "shape S2 l = shape S l" using sh(1) sh(2) same by (metis ext)
      then show ?thesis using True ty id same cv by simp
    next
      case False
      have "cells_typed X (shape S2 l) (li_values (?g r))"
        by (rule recell_typed [OF d(2) live ty, of i "shape S2 l" "cf_kind f" "cf_options f" _ a
              "lc_kind c" "lc_options c"]) (use sh cv False in auto)
      then show ?thesis using True by simp
    qed
  qed
  show ?thesis
  proof (rule lists_ok_pruned [OF ok])
    show "refs_ok S2" using D(1) by (simp add: S2' refs_ok_def o_def image_image)
    show "columns_ok S2"
      by (rule columns_ok_frame [OF columns_ok_recolumn [OF D(2) c d(1) due]]) (simp_all add: S2')
    show "items_ok X S2" by (rule items_ok_map [OF D(4), of _ ?g]) (use typed in \<open>simp_all add: S2'\<close>)
    show "comments_ok S2" by (rule comments_ok_map [OF D(5), of _ ?g]) (simp_all add: S2')
    show "shape S2 l' i' = shape S l' i'" if l': "l' \<noteq> l" for l' i'
    proof (cases "i' = i")
      case True
      have "find_column (columns_in S l') i = None" using column_elsewhere [OF d(1) c] l' by blast
      then show ?thesis unfolding True shape_map_columns [OF d(1) cols recolumn_simps(1,2)] by (simp add: shape_def)
    qed (use sh(2) in simp)
  qed (simp_all add: S2')
qed

lemma lists_ok_delete_column:
  assumes ok: "lists_ok X S" and c: "c \<in> set (s_columns S)" "lc_id c = i" "lc_list_id c = l"
    and S2: "S2 = delete_column_in X S l i"
  shows "lists_ok X (fst (prune_loop X now (columns_in S2 l) S2 (views_in S2 l)))"
proof -
  note D = lists_okD [OF ok]
  have d: "distinct (map lc_id (s_columns S))" using D(1) by (simp add: refs_ok_def)
  let ?g = "\<lambda>r. if li_list_id r = l \<and> map_of (li_values r) (uuid_str X i) \<noteq> None
        then r\<lparr>li_values := AList.delete (uuid_str X i) (li_values r)\<rparr> else r"
  have S2': "S2 = S\<lparr>s_columns := filter (\<lambda>c. lc_id c \<noteq> i) (s_columns S), s_items := map ?g (s_items S)\<rparr>"
    by (simp add: S2 delete_column_in_def update_rows_def)
  have d2: "distinct (map lc_id (s_columns S2))" using d by (simp add: S2' distinct_map_filter)
  have sh: "shape S2 l' i' = (if i' = i then None else shape S l' i')" for l' i'
  proof -
    have "find_column (columns_in S2 l') i' = Some e \<longleftrightarrow> i' \<noteq> i \<and> find_column (columns_in S l') i' = Some e" for e
      using find_columns_in [OF d2, of l' i' e] find_columns_in [OF d, of l' i' e] by (auto simp: S2')
    then have "find_column (columns_in S2 l') i' = (if i' = i then None else find_column (columns_in S l') i')"
      by (intro option_ext) simp
    then show ?thesis by (simp add: shape_def)
  qed
  have elsewhere: "shape S l' i = None" if "l' \<noteq> l" for l'
    using column_elsewhere [OF d c that] by (simp add: shape_def)
  have typed: "cells_typed X (shape S2 (li_list_id r)) (li_values (?g r))"
    if r: "r \<in> set (s_items S)" "li_deleted_at r = None" for r
  proof (cases "li_list_id r = l \<and> map_of (li_values r) (uuid_str X i) \<noteq> None")
    case True
    then show ?thesis using cells_typed_delete [OF items_okD(4) [OF D(4) r]] sh by simp
  next
    case False
    have "cells_typed X (shape S2 (li_list_id r)) (li_values r)"
    proof (rule cells_typed_keep [OF items_okD(4) [OF D(4) r], of i])
      show "shape S2 (li_list_id r) i' = shape S (li_list_id r) i'" if "i' \<noteq> i" for i' using sh that by simp
      fix v assume v: "map_of (li_values r) (uuid_str X i) = Some v"
      then obtain k p where "shape S (li_list_id r) i = Some (k, p)"
        using items_okD(4) [OF D(4) r] unfolding cells_typed_def by (metis uuid_str_inject)
      then have "li_list_id r = l" using elsewhere by fastforce
      then show "\<exists>k o'. shape S2 (li_list_id r) i = Some (k, o') \<and> cell_ok X k o' v" using False v by simp
    qed
    then show ?thesis unfolding if_not_P [OF False] .
  qed
  show ?thesis
  proof (rule lists_ok_pruned [OF ok])
    have "refs_ok (S\<lparr>s_columns := filter (\<lambda>c. lc_id c \<noteq> i) (s_columns S)\<rparr>)"
      using D(1) by (auto simp: refs_ok_def distinct_map_filter)
    from refs_ok_map_items [OF this, of ?g] show "refs_ok S2" by (simp add: S2')
    show "columns_ok S2"
    proof (rule columns_okI)
      have "length (filter P (filter Q cs)) \<le> length (filter P cs)" for P Q and cs :: "ListColumn list"
        by (metis (no_types, lifting) filter_filter conj_commute filter_cong length_filter_le)
      then have "length (columns_in S2 k) \<le> length (columns_in S k)" for k
        unfolding length_columns_in by (simp add: S2' del: filter_filter)
      then show "length (columns_in S2 k) \<le> MAX_COLUMNS" for k
        using columns_okD(1) [OF D(2), of k] le_trans by blast
    qed (use columns_okD(2,3) [OF D(2)] in \<open>auto simp: S2'\<close>)
    show "items_ok X S2"
    proof (rule items_ok_map [OF D(4), of _ ?g])
      show "cells_typed X (shape S2 (li_list_id r)) (li_values (?g r))"
        if "r \<in> set (s_items S)" "li_deleted_at (?g r) = None" for r
        by (rule typed [OF that(1)]) (use that(2) in \<open>simp split: if_splits\<close>)
    qed (simp_all add: S2' split: if_splits)
    show "comments_ok S2" by (rule comments_ok_map [OF D(5), of _ ?g]) (simp_all add: S2' split: if_splits)
    show "shape S2 l' i' = shape S l' i'" if "l' \<noteq> l" for l' i' using sh elsewhere [OF that] by simp
  qed (simp_all add: S2')
qed

end

end
