(* ===== verification/List_Ordering.thy ===== *)
theory List_Ordering
  imports List_Invariant
begin

text \<open>
  Where items stand: the rank computed from the neighbours of a place is free and lies between them, so an item is
  created or moved directly behind the item named, without touching the others. The proofs rest on the
  contract of \<open>rank::between\<close>.
\<close>

section \<open>Neighbours\<close>

lemma find_True: "List.find (\<lambda>_. True) xs = (case xs of [] \<Rightarrow> None | x # _ \<Rightarrow> Some x)"
  by (cases xs) auto

lemma in_set_nonempty: "x \<in> set xs \<Longrightarrow> xs \<noteq> []"
  by auto

lemma sort_key_hd:
  assumes "sort_key f xs = y # ys"
  shows "y \<in> set xs" and "z \<in> set xs \<Longrightarrow> f y \<le> f z"
proof -
  have s: "set xs = insert y (set ys)" using assms by (metis list.set(2) set_sort)
  then show "y \<in> set xs" by simp
  have "sorted (map f (y # ys))" using assms sorted_sort_key [of f xs] by simp
  then show "z \<in> set xs \<Longrightarrow> f y \<le> f z" using s by auto
qed

lemma find_sort_key:
  assumes "map_option li_rank (List.find (\<lambda>_. True) (sort_key (\<lambda>r. (li_rank r, li_id r)) xs)) = hi"
  shows "hi = None \<longleftrightarrow> xs = []" and "hi = Some h \<Longrightarrow> h \<in> li_rank ` set xs"
    and "hi = Some h \<Longrightarrow> z \<in> set xs \<Longrightarrow> h \<le> li_rank z"
proof -
  let ?k = "\<lambda>r. (li_rank r, li_id r)"
  show "hi = None \<longleftrightarrow> xs = []"
    using assms by (cases "sort_key ?k xs") (auto simp: find_True dest: arg_cong [of _ _ set])
  {
    assume h: "hi = Some h"
    then obtain y ys where y: "sort_key ?k xs = y # ys" "h = li_rank y"
      using assms by (auto simp: find_True split: list.splits)
    show "h \<in> li_rank ` set xs" using sort_key_hd(1) [OF y(1)] y(2) by simp
    show "z \<in> set xs \<Longrightarrow> h \<le> li_rank z" using sort_key_hd(2) [OF y(1), of z] y(2) by (auto simp: less_eq_prod_def)
  }
qed

text \<open>The place named by \<open>after\<close>: everything else is at most the lower neighbour or at least the upper one.\<close>

lemma neighbours_gap:
  assumes ok: "items_ok X S" and d: "distinct (map li_id (s_items S))"
    and n: "neighbours_in S l after moving = Some (lo, hi)"
  shows "pred_option valid_rank lo" "pred_option valid_rank hi"
    "\<And>a b. lo = Some a \<Longrightarrow> hi = Some b \<Longrightarrow> a < b"
    "\<And>s. s \<in> set (live_items S l) \<Longrightarrow> moving \<noteq> Some (li_id s) \<Longrightarrow>
       (\<exists>a. lo = Some a \<and> li_rank s \<le> a) \<or> (\<exists>b. hi = Some b \<and> b \<le> li_rank s)"
    "after = None \<longleftrightarrow> lo = None"
    "\<And>a. after = Some a \<Longrightarrow> \<exists>r\<in>set (live_items S l). li_id r = a \<and> lo = Some (li_rank r)"
proof -
  let ?P = "\<lambda>r. (case lo of None \<Rightarrow> True | Some k \<Rightarrow> li_rank r > k) \<and> moving \<noteq> Some (li_id r) \<and> after \<noteq> Some (li_id r)"
  let ?xs = "filter ?P (live_items S l)"
  have hi: "map_option li_rank (List.find (\<lambda>_. True) (sort_key (\<lambda>r. (li_rank r, li_id r)) ?xs)) = hi"
    using n by (auto simp: neighbours_in_def Let_def split: option.splits)
  note F = find_sort_key [OF hi]
  show none: "after = None \<longleftrightarrow> lo = None"
    using n by (auto simp: neighbours_in_def Let_def split: option.splits)
  show some: "\<exists>r\<in>set (live_items S l). li_id r = a \<and> lo = Some (li_rank r)" if "after = Some a" for a
    using n that by (auto simp: neighbours_in_def Let_def set_live_items split: option.splits dest!: find_Some_iff)
  have valid: "valid_rank (li_rank r)" if "r \<in> set (live_items S l)" for r
    using that items_okD(3) [OF ok] by (simp add: set_live_items)
  show "pred_option valid_rank lo" using some none valid by (cases after) auto
  show "pred_option valid_rank hi" using F(2) valid by (cases hi) auto
  show "a < b" if "lo = Some a" "hi = Some b" for a b using F(2) [OF that(2)] that(1) by auto
  show "(\<exists>a. lo = Some a \<and> li_rank s \<le> a) \<or> (\<exists>b. hi = Some b \<and> b \<le> li_rank s)"
    if s: "s \<in> set (live_items S l)" "moving \<noteq> Some (li_id s)" for s
  proof (cases "?P s")
    case True
    then have "s \<in> set ?xs" using s(1) by simp
    then have "?xs \<noteq> []" by (rule in_set_nonempty)
    then have "hi \<noteq> None" unfolding F(1) .
    then show ?thesis using F(3) \<open>s \<in> set ?xs\<close> by blast
  next
    case False
    show ?thesis
    proof (cases "after = Some (li_id s)")
      case True
      then obtain r where "r \<in> set (live_items S l)" "li_id r = li_id s" "lo = Some (li_rank r)" using some by blast
      moreover from this have "r = s" using d s(1) by (auto simp: set_live_items distinct_map dest: inj_onD)
      ultimately show ?thesis by simp
    next
      case after: False
      then show ?thesis using False s(2) by (cases lo) auto
    qed
  qed
qed

lemma neighbours_rank:
  assumes ok: "items_ok X S" and d: "distinct (map li_id (s_items S))"
    and n: "neighbours_in S l after moving = Some (lo, hi)"
  shows "\<exists>m. between lo hi = Some m \<and> valid_rank m \<and> (\<forall>a. lo = Some a \<longrightarrow> a < m) \<and> (\<forall>b. hi = Some b \<longrightarrow> m < b)
    \<and> (\<forall>s\<in>set (live_items S l). moving \<noteq> Some (li_id s) \<longrightarrow>
          li_rank s \<noteq> m \<and> (li_rank s < m \<longleftrightarrow> (\<exists>a. lo = Some a \<and> li_rank s \<le> a)))"
proof -
  note G = neighbours_gap [OF ok d n]
  obtain m where m: "between lo hi = Some m" "valid_rank m" "\<forall>a. lo = Some a \<longrightarrow> a < m" "\<forall>b. hi = Some b \<longrightarrow> m < b"
    using rank.mid_ok [OF G(1,2) G(3)] by blast
  have "li_rank s \<noteq> m \<and> (li_rank s < m \<longleftrightarrow> (\<exists>a. lo = Some a \<and> li_rank s \<le> a))"
    if "s \<in> set (live_items S l)" "moving \<noteq> Some (li_id s)" for s
    using G(4) [OF that] m(3,4) by force
  then show ?thesis using m by blast
qed

lemma last_rank:
  assumes ok: "items_ok X S"
  shows "\<exists>m. between (last_rank_in S l) None = Some m \<and> valid_rank m
    \<and> (\<forall>s\<in>set (live_items S l). li_rank s < m)"
proof (cases "rev (items_of S l)")
  case Nil
  then have "last_rank_in S l = None" "live_items S l = []"
    using set_items_of [of S l] by (simp_all add: last_rank_in_def)
  then show ?thesis using rank.mid_ok [of None None] by simp
next
  case (Cons r rs)
  then have items: "items_of S l = rev rs @ [r]" by simp
  then have r: "r \<in> set (live_items S l)" using set_items_of [of S l] by auto
  have "sorted (map (\<lambda>r. (li_rank r, li_id r)) (items_of S l))" by (simp add: items_of_def)
  then have "\<forall>x\<in>set rs. li_rank x \<le> li_rank r"
    unfolding items by (fastforce simp: sorted_append less_eq_prod_def)
  moreover have "set (live_items S l) = insert r (set rs)" using set_items_of [of S l] unfolding items by simp
  ultimately have le: "li_rank s \<le> li_rank r" if "s \<in> set (live_items S l)" for s using that by auto
  have lr: "last_rank_in S l = Some (li_rank r)" using Cons by (simp add: last_rank_in_def)
  have "valid_rank (li_rank r)" using r items_okD(3) [OF ok] by (simp add: set_live_items)
  then obtain m where m: "between (Some (li_rank r)) None = Some m" "valid_rank m" "li_rank r < m"
    using rank.mid_ok [of "Some (li_rank r)" None] by auto
  then show ?thesis using lr le by (metis order_le_less_trans)
qed

section \<open>Placing a row in the order\<close>

lemma items_of_insert:
  assumes its: "mset (live_items S' l) = add_mset row (mset (xs @ ys))"
    and srt: "sorted_wrt (\<lambda>r s. li_rank r < li_rank s) (xs @ row # ys)"
  shows "items_of S' l = xs @ row # ys"
  unfolding items_of_def
proof (rule sort_key_inj_key_eq)
  show m: "mset (live_items S' l) = mset (xs @ row # ys)" using its by simp
  have s: "sorted_wrt (<) (map (\<lambda>r. (li_rank r, li_id r)) (xs @ row # ys))"
    unfolding sorted_wrt_map by (rule sorted_wrt_mono_rel [OF _ srt]) (simp add: less_prod_def)
  then show "sorted (map (\<lambda>r. (li_rank r, li_id r)) (xs @ row # ys))"
    by (rule strict_sorted_imp_sorted)
  have "distinct (map (\<lambda>r. (li_rank r, li_id r)) (xs @ row # ys))" using s strict_sorted_iff by blast
  then show "inj_on (\<lambda>r. (li_rank r, li_id r)) (set (live_items S' l))"
    using m by (metis distinct_map set_mset_mset)
qed

lemma items_of_strict:
  assumes "items_ok X S" and "distinct (map li_id (s_items S))"
  shows "sorted_wrt (\<lambda>r s. li_rank r < li_rank s) (items_of S l)"
proof -
  let ?xs = "items_of S l"
  have m: "mset ?xs = mset (live_items S l)" by (simp add: items_of_def)
  have "distinct (live_items S l)" using assms(2) by (simp add: live_items_def distinct_map)
  then have "distinct (map li_rank (live_items S l))" using items_okD(2) [OF assms(1), of l] by (simp add: distinct_map)
  then have d: "distinct (map li_rank ?xs)" using m by (metis mset_map mset_eq_imp_distinct_iff)
  have "sorted (map (\<lambda>r. (li_rank r, li_id r)) ?xs)" by (simp add: items_of_def)
  then have "sorted_wrt (\<lambda>r s. li_rank r \<le> li_rank s) ?xs"
    unfolding sorted_map by (rule sorted_wrt_mono_rel [rotated]) (auto simp: less_eq_prod_def)
  then have "sorted (map li_rank ?xs)" by (simp add: sorted_map)
  with d have "sorted_wrt (<) (map li_rank ?xs)" by (simp add: strict_sorted_iff)
  then show ?thesis by (simp add: sorted_wrt_map)
qed

section \<open>Creating and moving an item\<close>

lemma world_simps [simp]:
  "w_store (with_store W S) = S"
  "w_store (dispatch W s) = w_store W"
  "w_store (sync_list_due W l) = w_store W"
  "w_store (fst (stage W l' ev)) = w_store W"
  "w_store (fst (stage_assigned X W l' cs r ps u)) = w_store W"
  by (simp_all add: with_store_def dispatch_def sync_list_due_def stage_def stage_assigned_def Let_def)

lemma world_simps2 [simp]:
  "w_store (dispatch_all W ss) = w_store W"
  "w_store (dispatch_opt W so) = w_store W"
  "w_store (announce W w) = w_store W"
proof -
  show all: "w_store (dispatch_all W ss) = w_store W" for ss
    unfolding dispatch_all_def by (induction ss arbitrary: W) auto
  show "w_store (dispatch_opt W so) = w_store W" by (simp add: dispatch_opt_def split: option.splits)
  show "w_store (announce W w) = w_store W" by (simp add: announce_def all Let_def)
qed

lemma ok_or_Inr: "ok_or x e = Inr y \<longleftrightarrow> x = Some y"
  by (cases x) auto

lemma create_item_in_Inr:
  assumes "create_item_in E W new u i values after = Inr (W', w)"
  shows "\<exists>edit k. find_list (w_store W) i \<noteq> None
    \<and> validate (e_ext E) (columns_in (w_store W) i) values = Inr edit
    \<and> item_count_in (w_store W) i < MAX_ITEMS
    \<and> (case after of
         Some a \<Rightarrow> (\<exists>lo hi. neighbours_in (w_store W) i (Some a) None = Some (lo, hi) \<and> between lo hi = Some k)
       | None \<Rightarrow> between (last_rank_in (w_store W) i) None = Some k)
    \<and> new \<notin> li_id ` set (s_items (w_store W))
    \<and> iw_item w = \<lparr>li_id = new, li_list_id = i, li_rank = k, li_values = ed_set edit, li_comment_count = 0,
        li_created_by = u, li_created_at = e_now E, li_updated_at = e_now E, li_deleted_at = None\<rparr>
    \<and> w_store W' = (w_store W)\<lparr>s_items := s_items (w_store W) @ [iw_item w]\<rparr>"
proof -
  let ?S = "w_store W"
  obtain l edit k S1 item where l: "lock W i = Inr l" and e: "validate (e_ext E) (columns_in ?S i) values = Inr edit"
    and n: "\<not> item_count_in ?S i \<ge> MAX_ITEMS"
    and k: "(case after of
          Some a \<Rightarrow> and_then (ok_or (neighbours_in ?S i (Some a) None) not_in_this_list) (\<lambda>(low, high).
              ok_or (between low high) rank_panic)
        | None \<Rightarrow> ok_or (between (last_rank_in ?S i) None) rank_panic) = Inr k"
    and ins: "insert_item_in ?S new (e_now E) i k (ed_set edit) u = Inr (S1, item)"
    and w: "w_store W' = S1" "iw_item w = item"
    using assms unfolding create_item_in_def Let_def split_beta and_then_eq_Inr by (auto split: if_splits)
  have "find_list ?S i \<noteq> None" using l by (auto simp: lock_def lock_in_def ok_or_Inr)
  moreover have "case after of
         Some a \<Rightarrow> (\<exists>lo hi. neighbours_in ?S i (Some a) None = Some (lo, hi) \<and> between lo hi = Some k)
       | None \<Rightarrow> between (last_rank_in ?S i) None = Some k"
    using k by (cases after) (auto simp: ok_or_Inr)
  moreover have "new \<notin> li_id ` set (s_items ?S)" using ins by (auto simp: insert_item_in_def split: if_splits)
  ultimately show ?thesis
    using e n ins w by (auto simp: insert_item_in_def Let_def not_le split: if_splits)
qed

lemma create_item_placed:
  assumes ok: "lists_ok X (w_store W)" and c: "create_item_in E W new u l values after = Inr (W', w)"
    and split: "items_of (w_store W) l = xs @ ys"
    and at: "case after of None \<Rightarrow> ys = [] | Some a \<Rightarrow> xs \<noteq> [] \<and> li_id (last xs) = a"
  shows "items_of (w_store W') l = xs @ iw_item w # ys"
proof -
  let ?S = "w_store W"
  note D = lists_okD [OF ok]
  have d: "distinct (map li_id (s_items ?S))" using D(1) by (simp add: refs_ok_def)
  obtain edit k where k: "case after of
         Some a \<Rightarrow> (\<exists>lo hi. neighbours_in ?S l (Some a) None = Some (lo, hi) \<and> between lo hi = Some k)
       | None \<Rightarrow> between (last_rank_in ?S l) None = Some k"
    and item: "li_rank (iw_item w) = k" "li_list_id (iw_item w) = l" "li_deleted_at (iw_item w) = None"
    and S': "w_store W' = ?S\<lparr>s_items := s_items ?S @ [iw_item w]\<rparr>"
    using create_item_in_Inr [OF c] by auto
  have srt: "sorted_wrt (\<lambda>r s. li_rank r < li_rank s) (xs @ ys)"
    using items_of_strict [OF D(4) d, of l] by (simp add: split)
  have mem: "set (xs @ ys) = set (live_items ?S l)" using set_items_of [of ?S l] by (simp add: split)
  have "(\<forall>r\<in>set xs. li_rank r < k) \<and> (\<forall>r\<in>set ys. k < li_rank r)"
  proof (cases after)
    case None
    then show ?thesis using at k mem last_rank [OF D(4), of l] by auto
  next
    case (Some a)
    then obtain lo hi where n: "neighbours_in ?S l (Some a) None = Some (lo, hi)" "between lo hi = Some k"
      using k by auto
    have xs: "xs \<noteq> []" "li_id (last xs) = a" using at Some by auto
    obtain r where r: "r \<in> set (live_items ?S l)" "li_id r = a" "lo = Some (li_rank r)"
      using neighbours_gap(6) [OF D(4) d n(1)] by blast
    have "last xs \<in> set (live_items ?S l)" using mem xs(1) by auto
    then have "r = last xs" using r(1,2) xs(2) d by (auto simp: set_live_items distinct_map dest: inj_onD)
    then have lo: "lo = Some (li_rank (last xs))" using r(3) by simp
    have rk: "li_rank s \<noteq> k \<and> (li_rank s < k \<longleftrightarrow> li_rank s \<le> li_rank (last xs))" if "s \<in> set (xs @ ys)" for s
      using neighbours_rank [OF D(4) d n(1)] n(2) that mem lo by auto
    have "li_rank s \<le> li_rank (last xs)" if "s \<in> set xs" for s
      using srt that xs(1) by (cases xs rule: rev_cases) (auto simp: sorted_wrt_append less_imp_le)
    moreover have "\<not> li_rank s \<le> li_rank (last xs)" if "s \<in> set ys" for s
      using srt that xs(1) by (auto simp: sorted_wrt_append not_le)
    ultimately show ?thesis using rk by (metis Un_iff linorder_neqE set_append)
  qed
  then have "sorted_wrt (\<lambda>r s. li_rank r < li_rank s) (xs @ iw_item w # ys)"
    using srt item(1) by (auto simp: sorted_wrt_append)
  moreover have "mset (live_items (w_store W') l) = add_mset (iw_item w) (mset (xs @ ys))"
    using item unfolding split [symmetric] by (simp add: S' live_items_def items_of_def)
  ultimately show ?thesis by (intro items_of_insert)
qed

lemma move_item_Inr:
  assumes "move_item E W u i after = Inr (W', item)"
  shows "\<exists>l lo hi k r. after \<noteq> Some i \<and> item_list (w_store W) i = Some l
    \<and> neighbours_in (w_store W) l after (Some i) = Some (lo, hi) \<and> between lo hi = Some k
    \<and> List.find (\<lambda>r. li_id r = i) (s_items (w_store W)) = Some r
    \<and> item = r\<lparr>li_rank := k, li_updated_at := e_now E\<rparr>
    \<and> w_store W' = (w_store W)\<lparr>s_items := update_rows (\<lambda>r. li_id r = i)
        (\<lambda>r. r\<lparr>li_rank := k, li_updated_at := e_now E\<rparr>) (s_items (w_store W))\<rparr>"
proof -
  let ?S = "w_store W"
  obtain l lo hi k S where a: "after \<noteq> Some i" and p: "item_place W i = Inr l"
    and n: "ok_or (neighbours_in ?S l after (Some i)) not_in_this_list = Inr (lo, hi)"
    and k: "ok_or (between lo hi) rank_panic = Inr k"
    and m: "move_item_in ?S (e_now E) i k = Inr (S, item)" and W': "w_store W' = S"
    using assms unfolding move_item_def Let_def split_beta
    by (auto split: if_splits)
  then show ?thesis
    by (auto simp: ok_or_Inr item_place_def move_item_in_def Let_def split: option.splits)
qed

lemma item_list_live:
  assumes "item_list S i = Some l" and "distinct (map li_id (s_items S))"
  shows "\<exists>r\<in>set (live_items S l). li_id r = i"
  using assms
  by (auto simp: item_list_def bind_eq_Some_conv set_live_items dest!: find_Some_iff find_list_Some)

lemma replace_one:
  assumes "distinct (map li_id xs)" and "r \<in> set xs" and "li_id r = i"
  shows "mset (map (\<lambda>s. if li_id s = i then x else s) xs) = add_mset x (mset (filter (\<lambda>s. li_id s \<noteq> i) xs))"
  using assms
proof (induction xs)
  case (Cons y ys)
  show ?case
  proof (cases "li_id y = i")
    case True
    then have "\<forall>s\<in>set ys. li_id s \<noteq> i" using Cons.prems(1) by (auto simp: image_iff)
    then have "map (\<lambda>s. if li_id s = i then x else s) ys = ys" "filter (\<lambda>s. li_id s \<noteq> i) ys = ys"
      by (auto intro: map_idI)
    then show ?thesis using True by simp
  next
    case False
    then show ?thesis using Cons by auto
  qed
qed simp

lemma move_item_placed:
  assumes ok: "lists_ok X (w_store W)" and m: "move_item E W u i after = Inr (W', item)"
    and l: "item_list (w_store W) i = Some l"
    and split: "filter (\<lambda>r. li_id r \<noteq> i) (items_of (w_store W) l) = xs @ ys"
    and at: "case after of None \<Rightarrow> xs = [] | Some a \<Rightarrow> xs \<noteq> [] \<and> li_id (last xs) = a"
  shows "items_of (w_store W') l = xs @ item # ys"
proof -
  let ?S = "w_store W"
  note D = lists_okD [OF ok]
  have d: "distinct (map li_id (s_items ?S))" using D(1) by (simp add: refs_ok_def)
  obtain lo hi k r where n: "neighbours_in ?S l after (Some i) = Some (lo, hi)" "between lo hi = Some k"
    and r: "List.find (\<lambda>r. li_id r = i) (s_items ?S) = Some r"
    and item: "item = r\<lparr>li_rank := k, li_updated_at := e_now E\<rparr>"
    and S': "w_store W' = ?S\<lparr>s_items := update_rows (\<lambda>r. li_id r = i)
        (\<lambda>r. r\<lparr>li_rank := k, li_updated_at := e_now E\<rparr>) (s_items ?S)\<rparr>"
    using move_item_Inr [OF m] l by auto
  have live: "r \<in> set (live_items ?S l)" "li_id r = i"
    using item_list_live [OF l d] r find_key [OF d, of i r] d by (auto simp: set_live_items distinct_map dest: inj_onD)
  have srt: "sorted_wrt (\<lambda>r s. li_rank r < li_rank s) (xs @ ys)"
    using items_of_strict [OF D(4) d, of l] split sorted_wrt_filter by metis
  have mem: "set (xs @ ys) = {s \<in> set (live_items ?S l). li_id s \<noteq> i}"
    using set_items_of [of ?S l] split by (metis set_filter)
  have rk: "li_rank s \<noteq> k \<and> (li_rank s < k \<longleftrightarrow> (\<exists>a. lo = Some a \<and> li_rank s \<le> a))" if "s \<in> set (xs @ ys)" for s
    using neighbours_rank [OF D(4) d n(1)] n(2) that mem by auto
  have "(\<forall>s\<in>set xs. li_rank s < k) \<and> (\<forall>s\<in>set ys. k < li_rank s)"
  proof (cases after)
    case None
    then have "lo = None" using neighbours_gap(5) [OF D(4) d n(1)] by simp
    then have "k < li_rank s" if "s \<in> set ys" for s using rk [of s] that by (auto intro: linorder_neqE)
    then show ?thesis using at None by simp
  next
    case (Some a)
    have xs: "xs \<noteq> []" "li_id (last xs) = a" using at Some by auto
    obtain q where q: "q \<in> set (live_items ?S l)" "li_id q = a" "lo = Some (li_rank q)"
      using neighbours_gap(6) [OF D(4) d n(1)] Some by blast
    have "last xs \<in> set (live_items ?S l)" using mem xs(1) by (metis (no_types, lifting) Un_iff last_in_set mem_Collect_eq set_append)
    then have "q = last xs" using q(1,2) xs(2) d by (auto simp: set_live_items distinct_map dest: inj_onD)
    then have lo: "lo = Some (li_rank (last xs))" using q(3) by simp
    have "li_rank s \<le> li_rank (last xs)" if "s \<in> set xs" for s
      using srt that xs(1) by (cases xs rule: rev_cases) (auto simp: sorted_wrt_append less_imp_le)
    moreover have "\<not> li_rank s \<le> li_rank (last xs)" if "s \<in> set ys" for s
      using srt that xs(1) by (auto simp: sorted_wrt_append not_le)
    ultimately show ?thesis using rk lo by (metis Un_iff linorder_neqE option.inject set_append)
  qed
  then have "sorted_wrt (\<lambda>r s. li_rank r < li_rank s) (xs @ item # ys)"
    using srt item by (auto simp: sorted_wrt_append)
  moreover have "mset (live_items (w_store W') l) = add_mset item (mset (xs @ ys))"
  proof -
    have one: "s = r" if "s \<in> set (s_items ?S)" "li_id s = i" for s
      using that live d by (auto simp: set_live_items distinct_map dest: inj_onD)
    have "map (\<lambda>s. if li_id s = i then s\<lparr>li_rank := k, li_updated_at := e_now E\<rparr> else s) (live_items ?S l)
        = map (\<lambda>s. if li_id s = i then item else s) (live_items ?S l)"
      using one item by (auto simp: set_live_items)
    then have "live_items (w_store W') l = map (\<lambda>s. if li_id s = i then item else s) (live_items ?S l)"
      by (simp add: S' live_items_def update_rows_def filter_map o_def if_distrib cong: if_cong)
    moreover have "distinct (map li_id (live_items ?S l))" using d by (simp add: live_items_def distinct_map_filter)
    moreover have "mset (filter (\<lambda>s. li_id s \<noteq> i) (live_items ?S l)) = mset (xs @ ys)"
      unfolding split [symmetric] by (simp add: items_of_def mset_filter)
    ultimately show ?thesis using replace_one [OF _ live, of item] by simp
  qed
  ultimately show ?thesis by (intro items_of_insert)
qed

end
