(* ===== verification/List_Requests.thy ===== *)
theory List_Requests
  imports List_Columns List_Ordering
begin

text \<open>
  Requests on lists as a state machine: one step per state-changing operation of the service, the world unchanged when
  the operation fails. Every step keeps the invariant, so every world reached from the empty one has it.
\<close>

section \<open>What a validated edit contains\<close>

lemma map_of_filter_key: "map_of (filter (\<lambda>(k, _). P k) xs) k = (if P k then map_of xs k else None)"
  by (induction xs) auto

section \<open>What the service looks up\<close>

lemma owner_known: "find_list S i = Some l \<Longrightarrow> i \<in> l_id ` set (s_lists S)"
  by (auto dest: find_list_Some)

lemma lock_known: "lock W i = Inr l \<Longrightarrow> l_id l = i \<and> i \<in> l_id ` set (s_lists (w_store W))"
  by (auto simp: lock_def lock_in_def ok_or_Inr dest: find_list_Some)

lemma columns_changed_store [simp]: "w_store (fst (columns_changed W l b)) = w_store W"
  "fst (snd (columns_changed W l b)) = columns_in (w_store W) (l_id l)"
  by (simp_all add: columns_changed_def Let_def split_beta)

lemma views_changed_store [simp]: "w_store (fst (views_changed W l)) = w_store W"
  by (simp add: views_changed_def Let_def split_beta)

lemma prune_views_store:
  "w_store (fst (prune_views E W l columns))
     = fst (prune_loop (e_ext E) (e_now E) columns (w_store W) (views_in (w_store W) (l_id l)))"
  by (simp add: prune_views_def Let_def split_beta)

lemma column_of_Inr:
  assumes "column_of (columns_in S l) i = Inr c"
  shows "c \<in> set (s_columns S)" "lc_id c = i" "lc_list_id c = l"
  using assms by (auto simp: column_of_def ok_or_Inr set_columns_in dest: find_Some_iff)

lemma if_Inl: "(if b then Inl e else y) = Inr z \<longleftrightarrow> \<not> b \<and> y = Inr z"
  by simp

lemma counted_cases:
  "(case counted of Some p \<Rightarrow> f p | None \<Rightarrow> y) = Inr z
     \<longleftrightarrow> (\<exists>p. counted = Some p \<and> f p = Inr z) \<or> counted = None \<and> y = Inr z"
  by (cases counted) auto

context ext_laws
begin

lemma validate_loop_typed:
  assumes "validate_loop X (columns_in S l) edit vals = Inr edit'" and "cells_typed X (shape S l) (ed_set edit)"
  shows "cells_typed X (shape S l) (ed_set edit')"
  using assms
proof (induction vals arbitrary: edit)
  case Nil
  then show ?case by simp
next
  case (Cons kv rest)
  obtain key val where kv: "kv = (key, val)" by (cases kv)
  obtain i c where c: "find_column (columns_in S l) i = Some c"
    and n: "(case normalize X (lc_kind c) (lc_options c) val of
         Inr (Set v) \<Rightarrow> validate_loop X (columns_in S l)
             (edit\<lparr>ed_people := (case person_of X (lc_kind c) v of
                    Some p \<Rightarrow> ed_people edit @ [p] | None \<Rightarrow> ed_people edit),
                  ed_set := AList.update (uuid_str X (lc_id c)) v (ed_set edit)\<rparr>) rest
       | Inr Clear \<Rightarrow> validate_loop X (columns_in S l)
             (edit\<lparr>ed_clear := ed_clear edit @ [uuid_str X (lc_id c)]\<rparr>) rest
       | Inl problem \<Rightarrow> Inl (Validation (lc_name c @ lit '' '' @ problem))) = Inr edit'"
    using Cons.prems(1) unfolding kv validate_loop.simps and_then_eq_Inr ok_or_Inr bind_eq_Some_conv
    by (auto simp: find_column_def)
  have sh: "shape S l (lc_id c) = Some (lc_kind c, lc_options c)"
    using c find_Some_iff [OF c [unfolded find_column_def]] by (simp add: shape_def)
  consider v where "normalize X (lc_kind c) (lc_options c) val = Inr (Set v)"
    | "normalize X (lc_kind c) (lc_options c) val = Inr Clear"
    using n by (cases "normalize X (lc_kind c) (lc_options c) val") (auto split: Cell.splits)
  then show ?case
  proof cases
    case 1
    have "cells_typed X (shape S l) (AList.update (uuid_str X (lc_id c)) v (ed_set edit))"
      by (rule cells_typed_update [where sh = "shape S l", OF Cons.prems(2)]) (use sh normalize_idem [OF 1] in simp_all)
    then show ?thesis using n 1 by (auto intro!: Cons.IH)
  next
    case 2
    then show ?thesis using n by (auto intro!: Cons.IH Cons.prems(2))
  qed
qed

lemma validate_typed:
  "validate X (columns_in S l) vals = Inr edit \<Longrightarrow> cells_typed X (shape S l) (ed_set edit)"
  unfolding validate_def by (erule validate_loop_typed) (simp add: cells_typed_def)

lemma merge_fields_typed:
  assumes old: "cells_typed X sh old" and new: "cells_typed X sh new"
  shows "cells_typed X sh (merge_fields old new gone)"
  unfolding cells_typed_def
proof (intro conjI allI impI)
  have "distinct (map fst (AList.merge old new))" using old by (simp add: cells_typed_def distinct_merge)
  then show "distinct (map fst (merge_fields old new gone))" unfolding merge_fields_def by (rule distinct_map_filter)
  fix k v assume "map_of (merge_fields old new gone) k = Some v"
  then have "map_of (AList.merge old new) k = Some v"
    by (simp add: merge_fields_def map_of_filter_key split: if_splits)
  then have "map_of old k = Some v \<or> map_of new k = Some v" by (auto simp: merge_conv' map_add_Some_iff)
  then show "\<exists>i kd p. k = uuid_str X i \<and> sh i = Some (kd, p) \<and> cell_ok X kd p v"
    using old new unfolding cells_typed_def by blast
qed

section \<open>Items\<close>

lemma create_item_ok:
  assumes ok: "lists_ok X (w_store W)" and E: "e_ext E = X"
    and r: "create_item E W new u i vals after = Inr (W', x)"
  shows "lists_ok X (w_store W')"
proof -
  note D = lists_okD [OF ok]
  have d: "distinct (map li_id (s_items (w_store W)))" using D(1) by (simp add: refs_ok_def)
  obtain W1 w where c: "create_item_in E W new u i vals after = Inr (W1, w)" and W': "W' = announce W1 w"
    using r by (auto simp: create_item_def split_beta)
  obtain edit k where f: "find_list (w_store W) i \<noteq> None"
    and e: "validate X (columns_in (w_store W) i) vals = Inr edit"
    and n: "item_count_in (w_store W) i < MAX_ITEMS"
    and k: "case after of
         Some a \<Rightarrow> (\<exists>lo hi. neighbours_in (w_store W) i (Some a) None = Some (lo, hi) \<and> between lo hi = Some k)
       | None \<Rightarrow> between (last_rank_in (w_store W) i) None = Some k"
    and new: "new \<notin> li_id ` set (s_items (w_store W))"
    and item: "iw_item w = \<lparr>li_id = new, li_list_id = i, li_rank = k, li_values = ed_set edit, li_comment_count = 0,
        li_created_by = u, li_created_at = e_now E, li_updated_at = e_now E, li_deleted_at = None\<rparr>"
    and S: "w_store W1 = (w_store W)\<lparr>s_items := s_items (w_store W) @ [iw_item w]\<rparr>"
    using create_item_in_Inr [OF c] E by blast
  have "valid_rank k \<and> k \<notin> li_rank ` set (live_items (w_store W) i)"
  proof (cases after)
    case None
    then show ?thesis using k last_rank [OF D(4), of i] by auto
  next
    case (Some a)
    then obtain lo hi where lh: "neighbours_in (w_store W) i (Some a) None = Some (lo, hi)" "between lo hi = Some k"
      using k by auto
    then show ?thesis using neighbours_rank [OF D(4) d lh(1)] by auto
  qed
  moreover have "i \<in> l_id ` set (s_lists (w_store W))" using f find_list_Some by (metis imageI not_None_eq)
  ultimately show ?thesis
    unfolding W' world_simps2 S
    by (intro lists_ok_insert_item [OF ok]) (simp_all add: item new n validate_typed [OF e])
qed

lemma update_item_ok:
  assumes ok: "lists_ok X (w_store W)" and E: "e_ext E = X"
    and r: "update_item E W u item_id vals = Inr (W', x)"
  shows "lists_ok X (w_store W')"
proof -
  let ?S = "w_store W"
  note D = lists_okD [OF ok]
  have d: "distinct (map li_id (s_items ?S))" using D(1) by (simp add: refs_ok_def)
  obtain i l W1 w where p: "item_list ?S item_id = Some i" and l: "writable E W u i = Inr l"
    and c: "update_item_in E W u l item_id vals = Inr (W1, w)" and W': "W' = announce W1 w"
    using r by (auto simp: update_item_def item_place_def ok_or_Inr split_beta)
  have li: "l_id l = i"
    using l by (auto simp: writable_def find_or_fail_def ok_or_Inr dest: find_list_Some)
  obtain edit S1 item where e: "validate X (columns_in ?S i) vals = Inr edit"
    and m: "merge_item_in ?S (e_now E) item_id (ed_set edit) (ed_clear edit) = Some (S1, item)"
    and S: "w_store W1 = S1"
    using c E li unfolding update_item_in_def Let_def split_beta by (auto simp: ok_or_Inr split: if_splits)
  let ?g = "\<lambda>r. if live_item item_id r then r\<lparr>li_values := merge_fields (li_values r) (ed_set edit) (ed_clear edit),
      li_updated_at := e_now E\<rparr> else r"
  have S1: "S1 = ?S\<lparr>s_items := map ?g (s_items ?S)\<rparr>"
    using m by (auto simp: merge_item_in_def Let_def update_rows_def)
  obtain r0 where r0: "r0 \<in> set (live_items ?S i)" "li_id r0 = item_id" using item_list_live [OF p d] by blast
  show ?thesis unfolding W' world_simps2 S S1
  proof (rule lists_ok_map_items [OF ok])
    fix r assume r: "r \<in> set (s_items ?S)" "li_deleted_at (?g r) = None"
    then have live: "li_deleted_at r = None" by (simp split: if_splits)
    note ty = items_okD(4) [OF D(4) r(1) live]
    show "cells_typed X (shape ?S (li_list_id r)) (li_values (?g r))"
    proof (cases "live_item item_id r")
      case True
      then have "r = r0" using r0 r(1) d by (auto simp: live_item_def set_live_items distinct_map dest: inj_onD)
      then have "li_list_id r = i" using r0(1) by (simp add: set_live_items)
      then show ?thesis using True merge_fields_typed [OF ty, of "ed_set edit"] validate_typed [OF e] by simp
    qed (use ty in simp)
  qed (simp_all split: if_splits)
qed

lemma move_item_ok:
  assumes ok: "lists_ok X (w_store W)" and r: "move_item E W u i after = Inr (W', x)"
  shows "lists_ok X (w_store W')"
proof -
  let ?S = "w_store W"
  note D = lists_okD [OF ok]
  have d: "distinct (map li_id (s_items ?S))" using D(1) by (simp add: refs_ok_def)
  obtain l lo hi k where p: "item_list ?S i = Some l"
    and n: "neighbours_in ?S l after (Some i) = Some (lo, hi)" "between lo hi = Some k"
    and S: "w_store W' = ?S\<lparr>s_items := update_rows (\<lambda>r. li_id r = i)
        (\<lambda>r. r\<lparr>li_rank := k, li_updated_at := e_now E\<rparr>) (s_items ?S)\<rparr>"
    using move_item_Inr [OF r] by blast
  obtain r0 where r0: "r0 \<in> set (live_items ?S l)" "li_id r0 = i" using item_list_live [OF p d] by blast
  have k: "valid_rank k" "\<forall>s\<in>set (live_items ?S l). Some i \<noteq> Some (li_id s) \<longrightarrow> li_rank s \<noteq> k"
    using neighbours_rank [OF D(4) d n(1)] n(2) by auto
  show ?thesis unfolding S
  proof (rule lists_ok_move_item [OF ok k(1)])
    fix r s assume "r \<in> set (s_items ?S)" "li_id r = i" "s \<in> set (live_items ?S (li_list_id r))" "li_id s \<noteq> i"
    moreover from this have "r = r0" using r0 d by (auto simp: set_live_items distinct_map dest: inj_onD)
    ultimately show "li_rank s \<noteq> k" using k(2) r0(1) by (auto simp: set_live_items)
  qed
qed

lemma delete_item_ok:
  assumes ok: "lists_ok X (w_store W)" and r: "delete_item E W u i = Inr (W', x)"
  shows "lists_ok X (w_store W')"
proof -
  let ?S = "w_store W"
  let ?g = "\<lambda>r. if live_item i r then r\<lparr>li_deleted_at := Some (e_now E), li_updated_at := e_now E\<rparr> else r"
  have S: "w_store W' = ?S\<lparr>s_items := map ?g (s_items ?S)\<rparr>"
    using r unfolding delete_item_def Let_def split_beta
    by (auto simp: delete_item_in_def update_rows_def split: if_splits)
  show ?thesis unfolding S
  proof (rule lists_ok_map_items [OF ok])
    fix r assume "r \<in> set (s_items ?S)" "li_deleted_at (?g r) = None"
    then show "cells_typed X (shape ?S (li_list_id r)) (li_values (?g r))"
      using items_okD(4) [OF lists_okD(4) [OF ok], of r] by (simp split: if_splits)
  qed (simp_all split: if_splits)
qed

lemma check_off_ok:
  assumes ok: "lists_ok X (w_store W)" and E: "e_ext E = X" and r: "check_off E W u i = Inr (W', x)"
  shows "lists_ok X (w_store W')"
proof (cases "W' = W")
  case False
  then obtain vals y where "update_item E W u i vals = Inr (W', y)"
    using r unfolding check_off_def by (auto split: option.splits sum.splits AppError.splits)
  then show ?thesis by (rule update_item_ok [OF ok E])
qed (simp add: ok)

section \<open>Lists\<close>

lemma update_list_ok:
  assumes ok: "lists_ok X (w_store W)" and r: "update_list E W u i req = Inr (W', x)"
  shows "lists_ok X (w_store W')"
proof -
  obtain title description where "w_store W' = (w_store W)\<lparr>s_lists := update_rows (\<lambda>l. l_id l = i)
      (\<lambda>l. l\<lparr>l_title := title, l_description := description, l_updated_at := e_now E\<rparr>) (s_lists (w_store W))\<rparr>"
    using r unfolding update_list_def Let_def split_beta
    by (auto simp: update_in_def Let_def split: option.splits)
  then show ?thesis using lists_ok_relist [OF ok] by (simp add: map_update_rows)
qed

lemma delete_list_ok:
  assumes ok: "lists_ok X (w_store W)" and r: "delete_list E W u i = Inr (W', x)"
  shows "lists_ok X (w_store W')"
proof -
  have "w_store W' = soft_delete_in (w_store W) (e_now E) i"
    using r unfolding delete_list_def Let_def split_beta by auto
  then show ?thesis using lists_ok_relist [OF ok] by (simp add: soft_delete_in_def map_update_rows)
qed

text \<open>
  A new list starts without columns and without views; until its first view is inserted only the
  views clause fails, for that list alone. The lemma covers the whole transaction.
\<close>

lemma view_ok_default: "view_ok X default_config Table C"
  by (simp add: view_ok_def default_config_def group_ok_def sort_ok_def)

lemma refs_owner:
  assumes "refs_ok S"
  shows "c \<in> set (s_columns S) \<Longrightarrow> lc_list_id c \<in> l_id ` set (s_lists S)"
    and "v \<in> set (s_views S) \<Longrightarrow> lv_list_id v \<in> l_id ` set (s_lists S)"
  using assms by (auto simp: refs_ok_def)

lemma lists_ok_new_list:
  assumes ok: "lists_ok X S" and new: "l_id row \<notin> l_id ` set (s_lists S)"
    and v: "lv_id view \<notin> lv_id ` set (s_views S)" "lv_list_id view = l_id row"
      "view_ok X (lv_config view) (lv_kind view) []"
  shows "lists_ok X (S\<lparr>s_lists := s_lists S @ [row], s_views := s_views S @ [view]\<rparr>)" (is "lists_ok X ?S")
proof (rule lists_okI)
  note D = lists_okD [OF ok]
  have none: "lc_list_id c \<noteq> l_id row" if "c \<in> set (s_columns S)" for c
    using refs_owner(1) [OF D(1) that] new by metis
  have cols: "columns_in S (l_id row) = []"
    using none by (simp add: columns_in_def filter_empty_conv)
  have none': "lv_list_id c \<noteq> l_id row" if "c \<in> set (s_views S)" for c
    using refs_owner(2) [OF D(1) that] new by metis
  then have nov: "filter (\<lambda>v. lv_list_id v = l_id row) (s_views S) = []" by (simp add: filter_empty_conv)
  show "refs_ok ?S" using D(1) new v by (auto simp: refs_ok_def)
  show "columns_ok ?S" by (rule columns_ok_frame [OF D(2)]) simp
  show "items_ok X ?S" by (rule items_ok_frame [OF D(4)]) simp_all
  show "comments_ok ?S" by (rule comments_ok_frame [OF D(5)]) simp_all
  show "views_ok X ?S"
  proof (rule views_okI)
    fix l assume "l \<in> l_id ` set (s_lists ?S)"
    then show "views_in ?S l \<noteq> []"
      using views_owners [OF ok] v(2) by (auto simp: views_in_Nil) (metis imageE imageI)
  next
    show "length (views_in ?S l) \<le> MAX_VIEWS" for l
    proof (cases "l = l_id row")
      case True
      then show ?thesis using nov v(2) by (simp add: length_views_in MAX_VIEWS_def)
    next
      case False
      then show ?thesis using views_okD(2) [OF D(3), of l] v(2) by (simp add: length_views_in)
    qed
  next
    fix w assume "w \<in> set (s_views ?S)"
    then show "view_ok X (lv_config w) (lv_kind w) (columns_in ?S (lv_list_id w))"
      using views_okD(3) [OF D(3), of w] v cols by auto
  qed
qed

lemma insert_columns_ok:
  assumes "insert_columns S l cs ids = Inr S'" and "lists_ok X S" and "l \<in> l_id ` set (s_lists S)"
    and "length (columns_in S l) + length cs \<le> MAX_COLUMNS"
  shows "lists_ok X S' \<and> s_lists S' = s_lists S \<and> s_views S' = s_views S \<and> s_items S' = s_items S
    \<and> s_comments S' = s_comments S"
  using assms
proof (induction cs arbitrary: S)
  case Nil
  then show ?case by simp
next
  case (Cons nc cs)
  obtain n c where nc: "nc = (n, c)" by (cases nc)
  obtain S1 row where i: "insert_column_in S (ids n) l (ncr_name c) (ncr_kind c) (ncr_options c) = Inr (S1, row)"
    and rest: "insert_columns S1 l cs ids = Inr S'"
    using Cons.prems(1) nc by auto
  have row: "lc_id row \<notin> lc_id ` set (s_columns S)" "lc_list_id row = l" "\<not> lc_due row"
    and S1: "S1 = S\<lparr>s_columns := s_columns S @ [row]\<rparr>"
    using i by (auto simp: insert_column_in_def Let_def split: if_splits)
  have "lists_ok X S1" unfolding S1
    by (rule lists_ok_insert_column [OF Cons.prems(2)]) (use row Cons.prems(3,4) in auto)
  moreover have "length (columns_in S1 l) = Suc (length (columns_in S l))"
    using row(2) by (simp add: S1 length_columns_in)
  ultimately show ?case using Cons.IH [OF rest] Cons.prems(3,4) by (simp add: S1)
qed

lemma insert_columns_views:
  "insert_columns S l cs ids = Inr S' \<Longrightarrow> insert_columns (S\<lparr>s_views := vs\<rparr>) l cs ids = Inr (S'\<lparr>s_views := vs\<rparr>)"
proof (induction cs arbitrary: S)
  case (Cons nc cs)
  obtain n c where nc: "nc = (n, c)" by (cases nc)
  obtain S1 row where i: "insert_column_in S (ids n) l (ncr_name c) (ncr_kind c) (ncr_options c) = Inr (S1, row)"
    and rest: "insert_columns S1 l cs ids = Inr S'"
    using Cons.prems(1) nc by auto
  have "insert_column_in (S\<lparr>s_views := vs\<rparr>) (ids n) l (ncr_name c) (ncr_kind c) (ncr_options c)
      = Inr (S1\<lparr>s_views := vs\<rparr>, row)"
    using i by (auto simp: insert_column_in_def Let_def split: if_splits)
  then show ?case using Cons.IH [OF rest] nc by simp
qed simp

lemma create_list_ok:
  assumes ok: "lists_ok X (w_store W)" and E: "e_ext E = X" and r: "create_list E W ids u w req = Inr (W', x)"
  shows "lists_ok X (w_store W')"
proof -
  let ?S = "w_store W"
  obtain title description columns S1 l S2 S3 view where cs: "resolve_columns X (id_choices ids) (cl_columns req) = Inr columns"
    and c: "create_in ?S (id_row ids) (e_now E) w (cl_channel_id req) title description u = Inr (S1, l)"
    and i: "insert_columns S1 (l_id l) (enumerate 0 columns) (id_columns ids) = Inr S2"
    and v: "insert_view_in S2 (id_view ids) (e_now E) (l_id l) (lit ''Table'') Table default_config u = Inr (S3, view)"
    and W': "w_store W' = S3"
    using r E unfolding create_list_def Let_def split_beta by auto
  have l: "l_id l \<notin> l_id ` set (s_lists ?S)" and S1: "S1 = ?S\<lparr>s_lists := s_lists ?S @ [l]\<rparr>"
    using c by (auto simp: create_in_def Let_def split: if_splits)
  let ?S1 = "S1\<lparr>s_views := s_views ?S @ [view]\<rparr>"
  have S3: "lv_id view \<notin> lv_id ` set (s_views S2)" "S3 = S2\<lparr>s_views := s_views S2 @ [view]\<rparr>"
    "lv_list_id view = l_id l" "lv_config view = default_config" "lv_kind view = Table"
    using v by (auto simp: insert_view_in_def Let_def split: if_splits)
  have views: "s_views S' = s_views S0" if "insert_columns S0 k cols g = Inr S'" for S0 S' k cols g
    using that
  proof (induction cols arbitrary: S0)
    case (Cons nc cols)
    then show ?case by (cases nc) (auto simp: insert_column_in_def Let_def split: if_splits)
  qed simp
  have "s_views S2 = s_views ?S" using views [OF i] S1 by simp
  then have i': "insert_columns ?S1 (l_id l) (enumerate 0 columns) (id_columns ids) = Inr S3"
    using insert_columns_views [OF i, of "s_views ?S @ [view]"] S3(2) by simp
  have ok1: "lists_ok X ?S1"
    using lists_ok_new_list [OF ok l, of view] S3 \<open>s_views S2 = s_views ?S\<close> view_ok_default [of "[]"] by (simp add: S1)
  have "length columns \<le> MAX_COLUMNS"
    using cs length_collect by (fastforce simp: resolve_columns_def split: if_splits)
  moreover have "columns_in ?S1 (l_id l) = []"
  proof -
    have "lc_list_id c \<noteq> l_id l" if "c \<in> set (s_columns ?S)" for c
      using refs_owner(1) [OF lists_okD(1) [OF ok] that] l by metis
    then have "filter (\<lambda>c. lc_list_id c = l_id l) (s_columns ?S) = []" by (simp add: filter_empty_conv)
    then show ?thesis by (simp add: S1 columns_in_def)
  qed
  ultimately show ?thesis
    using insert_columns_ok [OF i' ok1] by (simp add: W' S1)
qed

section \<open>Columns\<close>

lemma add_column_ok:
  assumes ok: "lists_ok X (w_store W)" and r: "add_column E W new fresh u i req = Inr (W', x)"
  shows "lists_ok X (w_store W')"
proof -
  obtain l options name S c where l: "lock W i = Inr l" and n: "length (columns_in (w_store W) i) < MAX_COLUMNS"
    and c: "insert_column_in (w_store W) new i name (nc_kind req) options = Inr (S, c)" and W': "w_store W' = S"
    using r unfolding add_column_def Let_def split_beta by (auto simp: not_le split: if_splits)
  have S: "S = (w_store W)\<lparr>s_columns := s_columns (w_store W) @ [c]\<rparr>" "lc_id c \<notin> lc_id ` set (s_columns (w_store W))"
    "lc_list_id c = i" "\<not> lc_due c"
    using c by (auto simp: insert_column_in_def Let_def split: if_splits)
  show ?thesis unfolding W' S(1)
    by (rule lists_ok_insert_column [OF ok]) (use S n lock_known [OF l] in auto)
qed

lemma update_column_Inr:
  assumes "update_column E W fresh u i req = Inr (W', x)"
  shows "\<exists>li l c name options due kind S1 S2. lock W li = Inr l
    \<and> column_of (columns_in (w_store W) li) i = Inr c
    \<and> (due \<longrightarrow> kind = Date)
    \<and> \<not> (cv_cleared (convert_cells E W c kind options) > 0
         \<and> uc_confirm_cleared req \<noteq> Some (cv_cleared (convert_cells E W c kind options)))
    \<and> S1 = update_column_in (w_store W) i \<lparr>cf_name = name, cf_kind = kind, cf_options = options,
         cf_hidden = (case uc_hidden req of Some h \<Rightarrow> h | None \<Rightarrow> lc_hidden c), cf_due = due\<rparr>
    \<and> S2 = (if cv_cells (convert_cells E W c kind options) \<noteq> []
         then rewrite_cells_in (e_ext E) S1 li i (cv_cells (convert_cells E W c kind options)) else S1)
    \<and> w_store W' = fst (prune_loop (e_ext E) (e_now E) (columns_in S2 li) S2 (views_in S2 li))"
proof -
  let ?due = "\<lambda>c k. case uc_due req of
          Some due \<Rightarrow>
            if due \<and> k \<noteq> Date then Inl (Validation (lit ''Only a date column can be the due date''))
            else Inr due
        | None \<Rightarrow> Inr (lc_due c \<and> k = Date)"
  let ?kind = "\<lambda>c. case uc_kind req of Some k \<Rightarrow> k | None \<Rightarrow> lc_kind c"
  let ?S1 = "\<lambda>c name options due. update_column_in (w_store W) i \<lparr>cf_name = name, cf_kind = ?kind c,
      cf_options = options, cf_hidden = (case uc_hidden req of Some h \<Rightarrow> h | None \<Rightarrow> lc_hidden c), cf_due = due\<rparr>"
  let ?cv = "\<lambda>c options. convert_cells E W c (?kind c) options"
  let ?S2 = "\<lambda>li c name options due. if cv_cells (?cv c options) \<noteq> []
         then rewrite_cells_in (e_ext E) (?S1 c name options due) li i (cv_cells (?cv c options)) else ?S1 c name options due"
  obtain li l c name options due where l: "lock W li = Inr l"
    and c: "column_of (columns_in (w_store W) li) i = Inr c" and due: "?due c (?kind c) = Inr due"
    and n: "\<not> (cv_cleared (?cv c options) > 0 \<and> uc_confirm_cleared req \<noteq> Some (cv_cleared (?cv c options)))"
    and W': "w_store W' = w_store (fst (prune_views E (fst (columns_changed (with_store W (?S2 li c name options due)) l
        (cv_cells (?cv c options) \<noteq> []))) l
        (fst (snd (columns_changed (with_store W (?S2 li c name options due)) l (cv_cells (?cv c options) \<noteq> []))))))"
    using assms unfolding update_column_def Let_def split_beta and_then_eq_Inr if_Inl sum.inject prod.inject
    by (elim exE conjE) (rule that, assumption+, hypsubst, simp only: world_simps world_simps2)
  have d: "due \<longrightarrow> ?kind c = Date" using due by (auto split: option.splits if_splits)
  have li: "l_id l = li" using lock_known [OF l] by simp
  have W2: "w_store W' = fst (prune_loop (e_ext E) (e_now E) (columns_in (?S2 li c name options due) li)
      (?S2 li c name options due) (views_in (?S2 li c name options due) li))"
    using W' unfolding prune_views_store columns_changed_store world_simps li .
  show ?thesis
    by (intro exI conjI) (rule l, rule c, rule d, rule n, rule refl, rule refl, rule W2)
qed

lemma update_column_ok:
  assumes ok: "lists_ok X (w_store W)" and E: "e_ext E = X" and r: "update_column E W fresh u i req = Inr (W', x)"
  shows "lists_ok X (w_store W')"
proof -
  let ?S = "w_store W"
  obtain li l c name options due kind S1 S2 where c: "column_of (columns_in ?S li) i = Inr c"
    and due: "due \<longrightarrow> kind = Date"
    and S1: "S1 = update_column_in ?S i \<lparr>cf_name = name, cf_kind = kind, cf_options = options,
         cf_hidden = (case uc_hidden req of Some h \<Rightarrow> h | None \<Rightarrow> lc_hidden c), cf_due = due\<rparr>"
    and S2: "S2 = (if cv_cells (convert_cells E W c kind options) \<noteq> []
         then rewrite_cells_in X S1 li i (cv_cells (convert_cells E W c kind options)) else S1)"
    and W': "w_store W' = fst (prune_loop X (e_now E) (columns_in S2 li) S2 (views_in S2 li))"
    using update_column_Inr [OF r] unfolding E by blast
  note C = column_of_Inr [OF c]
  show ?thesis unfolding W'
    by (rule lists_ok_update_column [OF ok C _ S1 _ S2, of "e_as_f64 E"])
       (use due in \<open>simp_all add: convert_cells_def E C Let_def\<close>)
qed

lemma delete_column_ok:
  assumes ok: "lists_ok X (w_store W)" and E: "e_ext E = X" and r: "delete_column E W u i = Inr (W', x)"
  shows "lists_ok X (w_store W')"
proof -
  let ?S = "w_store W"
  obtain li l where p: "column_list ?S i = Some li" and l: "lock W li = Inr l"
    and W': "w_store W' = (let S2 = delete_column_in X ?S li i in
      fst (prune_loop X (e_now E) (columns_in S2 li) S2 (views_in S2 li)))"
    using r E lock_known unfolding delete_column_def Let_def split_beta column_place_def
    by (auto simp: prune_views_store ok_or_Inr)
  obtain c where "c \<in> set (s_columns ?S)" "lc_id c = i" "lc_list_id c = li"
    using p by (auto simp: column_list_def bind_eq_Some_conv dest!: find_Some_iff find_list_Some)
  then show ?thesis unfolding W' Let_def by (rule lists_ok_delete_column [OF ok _ _ _ refl])
qed

lemma reorder_columns_ok:
  assumes ok: "lists_ok X (w_store W)" and r: "reorder_columns E W u i order = Inr (W', x)"
  shows "lists_ok X (w_store W')"
proof -
  have "w_store W' = reorder_columns_in (w_store W) i order"
    using r unfolding reorder_columns_def Let_def split_beta by (auto split: if_splits)
  then show ?thesis
    unfolding reorder_columns_in_def update_rows_def by (simp add: lists_ok_map_columns [OF ok])
qed

section \<open>Views\<close>

lemma create_view_ok:
  assumes ok: "lists_ok X (w_store W)" and E: "e_ext E = X" and r: "create_view E W new u i req = Inr (W', x)"
  shows "lists_ok X (w_store W')"
proof -
  obtain l name config S v where l: "lock W i = Inr l" and n: "length (views_in (w_store W) i) < MAX_VIEWS"
    and c: "check X (cw_config req) (cw_kind req) (columns_in (w_store W) i) = Inr config"
    and v: "insert_view_in (w_store W) new (e_now E) i name (cw_kind req) config u = Inr (S, v)" and W': "w_store W' = S"
    using r E unfolding create_view_def Let_def split_beta by (auto simp: not_le split: if_splits)
  have S: "S = (w_store W)\<lparr>s_views := s_views (w_store W) @ [v]\<rparr>" "lv_id v \<notin> lv_id ` set (s_views (w_store W))"
    "lv_list_id v = i" "lv_kind v = cw_kind req" "lv_config v = config"
    using v by (auto simp: insert_view_in_def Let_def split: if_splits)
  show ?thesis unfolding W' S(1)
    by (rule lists_ok_insert_view [OF ok]) (use S n lock_known [OF l] check_ok [OF c] in auto)
qed

lemma view_of_Inr:
  assumes "view_of (views_in S l) i = Inr v"
  shows "v \<in> set (s_views S)" "lv_id v = i" "lv_list_id v = l"
  using assms by (auto simp: view_of_def ok_or_Inr set_views_in dest: find_Some_iff)

lemma update_view_ok:
  assumes ok: "lists_ok X (w_store W)" and E: "e_ext E = X" and r: "update_view E W u i req = Inr (W', x)"
  shows "lists_ok X (w_store W')"
proof -
  let ?S = "w_store W"
  note D = lists_okD [OF ok]
  obtain li v name kind config where v: "view_of (views_in ?S li) i = Inr v"
    and c: "(case uv_config req of
                 Some config \<Rightarrow> check X config kind (columns_in ?S li)
               | None \<Rightarrow> Inr (pruned X (lv_config v) kind (columns_in ?S li))) = Inr config"
    and W': "w_store W' = update_view_in ?S (e_now E) i name kind config"
    using r E unfolding update_view_def Let_def split_beta by auto
  note V = view_of_Inr [OF v]
  have cfg: "view_ok X config kind (columns_in ?S li)"
    using c check_ok pruned_ok by (auto split: option.splits)
  have one: "w = v" if "w \<in> set (s_views ?S)" "lv_id w = i" for w
    using D(1) V(1,2) that by (auto simp: refs_ok_def distinct_map dest: inj_onD)
  show ?thesis
    unfolding W' update_view_in_def update_rows_def
  proof (rule lists_ok_map_views [OF ok])
    fix w assume w: "w \<in> set (s_views ?S)"
    let ?w = "if lv_id w = i then w\<lparr>lv_name := name, lv_kind := kind, lv_config := config, lv_updated_at := e_now E\<rparr> else w"
    show "view_ok X (lv_config ?w) (lv_kind ?w) (columns_in ?S (lv_list_id w))"
    proof (cases "lv_id w = i")
      case True
      then have "lv_list_id w = li" using one [OF w] V(3) by simp
      then show ?thesis using True cfg by simp
    qed (use views_okD(3) [OF D(3) w] in simp)
  qed simp_all
qed

lemma delete_view_ok:
  assumes ok: "lists_ok X (w_store W)" and r: "delete_view E W u i = Inr (W', x)"
  shows "lists_ok X (w_store W')"
proof -
  obtain li v where v: "view_of (views_in (w_store W) li) i = Inr v" and n: "length (views_in (w_store W) li) \<noteq> 1"
    and W': "w_store W' = delete_view_in (w_store W) i"
    using r unfolding delete_view_def Let_def split_beta by (auto split: if_splits)
  note V = view_of_Inr [OF v]
  show ?thesis unfolding W' delete_view_in_def by (rule lists_ok_delete_view [OF ok V(1,2)]) (use n V(3) in simp)
qed

lemma reorder_views_ok:
  assumes ok: "lists_ok X (w_store W)" and r: "reorder_views E W u i order = Inr (W', x)"
  shows "lists_ok X (w_store W')"
proof -
  have W': "w_store W' = reorder_views_in (w_store W) i order"
    using r unfolding reorder_views_def Let_def split_beta by (auto split: if_splits)
  show ?thesis
    unfolding W' reorder_views_in_def update_rows_def
    by (rule lists_ok_map_views [OF ok]) (use views_okD(3) [OF lists_okD(3) [OF ok]] in auto)
qed

section \<open>Comments\<close>

definition recount :: "uuid \<Rightarrow> int \<Rightarrow> ListItem \<Rightarrow> ListItem" where
  "recount i d r = (if live_item i r then r\<lparr>li_comment_count := max (li_comment_count r + d) 0\<rparr> else r)"

lemma recount_keeps [simp]:
  "li_id (recount i d r) = li_id r" "li_list_id (recount i d r) = li_list_id r" "li_rank (recount i d r) = li_rank r"
  "li_deleted_at (recount i d r) = li_deleted_at r" "li_values (recount i d r) = li_values r"
  by (simp_all add: recount_def)

lemma count_comments_Some:
  assumes "count_comments_in S i d = Inr (Some (S1, item))"
  shows "S1 = S\<lparr>s_items := map (recount i d) (s_items S)\<rparr>" "li_id item = i" "i \<in> li_id ` set (s_items S)"
proof -
  obtain r where r: "List.find (live_item i) (s_items S) = Some r"
    "item = r\<lparr>li_comment_count := max (li_comment_count r + d) 0\<rparr>"
    and S1: "S1 = S\<lparr>s_items := update_rows (live_item i) (\<lambda>r. r\<lparr>li_comment_count := max (li_comment_count r + d) 0\<rparr>) (s_items S)\<rparr>"
    using assms by (auto simp: count_comments_in_def Let_def split: option.splits if_splits)
  show "S1 = S\<lparr>s_items := map (recount i d) (s_items S)\<rparr>" using S1 by (simp add: update_rows_def recount_def [abs_def])
  show "li_id item = i" "i \<in> li_id ` set (s_items S)"
    using find_Some_iff [OF r(1)] r(2) by (auto simp: live_item_def)
qed

lemma add_comment_ok:
  assumes ok: "lists_ok X (w_store W)" and r: "add_comment E W new u i txt = Inr (W', x)"
  shows "lists_ok X (w_store W')"
proof -
  let ?S = "w_store W"
  note D = lists_okD [OF ok]
  obtain S1 item content S2 c where n: "count_comments_in ?S i 1 = Inr (Some (S1, item))"
    and c: "insert_comment_in S1 new (e_now E) item u content = Inr (S2, c)" and W': "w_store W' = S2"
    using r unfolding add_comment_def comment_counted_def Let_def split_beta
    by (auto simp: ok_or_Inr split: if_splits)
  note N = count_comments_Some [OF n]
  have cc: "lcm_id c \<notin> lcm_id ` set (s_comments ?S)" "lcm_item_id c = i"
    and S2: "S2 = ?S\<lparr>s_items := map (recount i 1) (s_items ?S), s_comments := s_comments ?S @ [c]\<rparr>"
    using c N by (auto simp: insert_comment_in_def Let_def split: if_splits)
  show ?thesis unfolding W' S2
  proof (rule lists_ok_comments [OF ok])
    show "distinct (map lcm_id (s_comments ?S @ [c]))" using D(1) cc(1) by (simp add: refs_ok_def)
    show "lcm_item_id ` set (s_comments ?S @ [c]) \<subseteq> li_id ` set (s_items ?S)"
      using refs_comment [OF D(1)] cc(2) N(3) by auto
    fix r assume r: "r \<in> set (s_items ?S)" "li_deleted_at r = None"
    then show "li_comment_count (recount i 1 r) =
        int (length (filter (\<lambda>d. lcm_item_id d = li_id r) (s_comments ?S @ [c])))"
      using comments_okD [OF D(5) r] cc(2) by (auto simp: recount_def live_item_def)
  qed simp_all
qed

lemma edit_comment_ok:
  assumes ok: "lists_ok X (w_store W)" and r: "edit_comment E W u i txt = Inr (W', x)"
  shows "lists_ok X (w_store W')"
proof -
  let ?S = "w_store W"
  note D = lists_okD [OF ok]
  obtain content where W': "w_store W' = ?S\<lparr>s_comments := update_rows (\<lambda>c. lcm_id c = i)
      (\<lambda>c. c\<lparr>lcm_content := content, lcm_edited_at := Some (e_now E)\<rparr>) (s_comments ?S)\<rparr>"
    using r unfolding edit_comment_def Let_def split_beta
    by (auto simp: ok_or_Inr edit_comment_in_def Let_def split: if_splits)
  let ?cs = "update_rows (\<lambda>c. lcm_id c = i)
      (\<lambda>c. c\<lparr>lcm_content := content, lcm_edited_at := Some (e_now E)\<rparr>) (s_comments ?S)"
  have "lists_ok X (?S\<lparr>s_items := map id (s_items ?S), s_comments := ?cs\<rparr>)"
  proof (rule lists_ok_comments [OF ok])
    show "distinct (map lcm_id ?cs)" using D(1) by (simp add: refs_ok_def distinct_map_update_rows)
    have "map lcm_item_id ?cs = map lcm_item_id (s_comments ?S)" by (simp add: map_update_rows)
    then have "lcm_item_id ` set ?cs = lcm_item_id ` set (s_comments ?S)" by (metis list.set_map)
    then show "lcm_item_id ` set ?cs \<subseteq> li_id ` set (s_items ?S)" using D(1) by (simp add: refs_ok_def)
    fix r assume r: "r \<in> set (s_items ?S)" "li_deleted_at r = None"
    have "length (filter (\<lambda>c. lcm_item_id c = li_id r) ?cs) = length (filter (\<lambda>c. lcm_item_id c = li_id r) (s_comments ?S))"
      by (subst filter_update_rows) simp_all
    then show "li_comment_count (id r) = int (length (filter (\<lambda>c. lcm_item_id c = li_id r) ?cs))"
      using comments_okD [OF D(5) r] by simp
  qed simp_all
  then show ?thesis using W' by simp
qed

lemma filter_other: "(\<And>c. c \<in> set cs \<Longrightarrow> P c \<Longrightarrow> Q c) \<Longrightarrow> filter P (filter Q cs) = filter P cs"
  by (induction cs) auto

lemma filter_one_less:
  assumes "distinct (map lcm_id cs)" and "c \<in> set cs" and "P c"
  shows "length (filter P cs) = Suc (length (filter P (filter (\<lambda>d. lcm_id d \<noteq> lcm_id c) cs)))"
  using assms
proof (induction cs)
  case (Cons d cs)
  show ?case
  proof (cases "d = c")
    case True
    then have "\<forall>e\<in>set cs. lcm_id e \<noteq> lcm_id c" using Cons.prems(1) by (auto simp: image_iff)
    then have "filter (\<lambda>d. lcm_id d \<noteq> lcm_id c) cs = cs" by simp
    then show ?thesis using True Cons.prems(3) by simp
  next
    case False
    then have "lcm_id d \<noteq> lcm_id c" using Cons.prems(1,2) by (auto simp: image_iff)
    then show ?thesis using Cons False by auto
  qed
qed simp

lemma delete_comment_ok:
  assumes ok: "lists_ok X (w_store W)" and r: "delete_comment E W u i = Inr (W', x)"
  shows "lists_ok X (w_store W')"
proof -
  let ?S = "w_store W"
  note D = lists_okD [OF ok]
  let ?cs = "filter (\<lambda>c. lcm_id c \<noteq> i) (s_comments ?S)"
  obtain c where c: "find_comment W i = Inr c"
    and W': "(\<exists>S2 item. count_comments_in (?S\<lparr>s_comments := ?cs\<rparr>) (lcm_item_id c) (- 1) = Inr (Some (S2, item)) \<and> w_store W' = S2)
      \<or> (count_comments_in (?S\<lparr>s_comments := ?cs\<rparr>) (lcm_item_id c) (- 1) = Inr None \<and> w_store W' = ?S\<lparr>s_comments := ?cs\<rparr>)"
    using r unfolding delete_comment_def Let_def split_beta and_then_eq_Inr if_Inl counted_cases
    by (auto simp: delete_comment_in_def)
  have c': "c \<in> set (s_comments ?S)" "lcm_id c = i"
    using c by (auto simp: find_comment_def ok_or_Inr comment_by_id_def dest: find_Some_iff)
  have d: "distinct (map lcm_id (s_comments ?S))" using D(1) by (simp add: refs_ok_def)
  have items: "lcm_item_id ` set ?cs \<subseteq> li_id ` set (s_items ?S)" using refs_comment [OF D(1)] by auto
  have other: "filter (\<lambda>d. lcm_item_id d = li_id r) ?cs = filter (\<lambda>d. lcm_item_id d = li_id r) (s_comments ?S)"
    if "li_id r \<noteq> lcm_item_id c" for r
  proof (rule filter_other)
    fix e assume "e \<in> set (s_comments ?S)" "lcm_item_id e = li_id r"
    then have "e \<noteq> c" using that by auto
    then show "lcm_id e \<noteq> i" using c' d \<open>e \<in> set (s_comments ?S)\<close> unfolding distinct_map by (metis inj_onD)
  qed
  from W' show ?thesis
  proof (elim disjE exE conjE)
    fix S2 item assume n: "count_comments_in (?S\<lparr>s_comments := ?cs\<rparr>) (lcm_item_id c) (- 1) = Inr (Some (S2, item))"
      and W': "w_store W' = S2"
    have S2: "S2 = ?S\<lparr>s_items := map (recount (lcm_item_id c) (- 1)) (s_items ?S), s_comments := ?cs\<rparr>"
      using count_comments_Some(1) [OF n] by simp
    show ?thesis unfolding W' S2
    proof (rule lists_ok_comments [OF ok _ items])
      show "distinct (map lcm_id ?cs)" using d by (rule distinct_map_filter)
      fix r assume r: "r \<in> set (s_items ?S)" "li_deleted_at r = None"
      show "li_comment_count (recount (lcm_item_id c) (- 1) r) = int (length (filter (\<lambda>d. lcm_item_id d = li_id r) ?cs))"
      proof (cases "li_id r = lcm_item_id c")
        case True
        then show ?thesis
          using comments_okD [OF D(5) r] filter_one_less [OF d c'(1), of "\<lambda>d. lcm_item_id d = li_id r"] c'(2) r(2)
          by (simp add: recount_def live_item_def del: filter_filter)
      next
        case False
        then show ?thesis using comments_okD [OF D(5) r] other [OF False]
          by (simp add: recount_def live_item_def del: filter_filter)
      qed
    qed simp_all
  next
    assume n: "count_comments_in (?S\<lparr>s_comments := ?cs\<rparr>) (lcm_item_id c) (- 1) = Inr None"
      and W': "w_store W' = ?S\<lparr>s_comments := ?cs\<rparr>"
    have dead: "\<not> live_item (lcm_item_id c) r" if "r \<in> set (s_items ?S)" for r
      using n that by (auto simp: count_comments_in_def Let_def find_None_iff split: option.splits if_splits)
    have "lists_ok X (?S\<lparr>s_items := map id (s_items ?S), s_comments := ?cs\<rparr>)"
    proof (rule lists_ok_comments [OF ok _ items])
      show "distinct (map lcm_id ?cs)" using d by (rule distinct_map_filter)
      fix r assume r: "r \<in> set (s_items ?S)" "li_deleted_at r = None"
      then have "li_id r \<noteq> lcm_item_id c" using dead [OF r(1)] by (simp add: live_item_def)
      from other [OF this] comments_okD [OF D(5) r]
      show "li_comment_count (id r) = int (length (filter (\<lambda>d. lcm_item_id d = li_id r) ?cs))"
        by (simp only: id_apply)
    qed simp_all
    then show ?thesis using W' by simp
  qed
qed

end

section \<open>The machine\<close>

text \<open>
  One request: what it asks, and the environment it runs in (the clock, the answers of the authorisation queries, the
  identifiers drawn). The library functions are the same for all requests.
\<close>

datatype list_request =
    CreateList new_ids uuid uuid CreateListRequest
  | UpdateList uuid uuid UpdateListRequest
  | DeleteList uuid uuid
  | AddColumn uuid "uuid list" uuid uuid NewColumn
  | UpdateColumn "uuid list" uuid uuid UpdateColumnRequest
  | DeleteColumn uuid uuid
  | ReorderColumns uuid uuid "uuid list"
  | CreateView uuid uuid uuid CreateViewRequest
  | UpdateView uuid uuid UpdateViewRequest
  | DeleteView uuid uuid
  | ReorderViews uuid uuid "uuid list"
  | CreateItem uuid uuid uuid fields "uuid option"
  | UpdateItem uuid uuid fields
  | MoveItem uuid uuid "uuid option"
  | DeleteItem uuid uuid
  | CheckOff uuid uuid
  | AddComment uuid uuid uuid rstr
  | EditComment uuid uuid rstr
  | DeleteComment uuid uuid

definition after_request :: "world \<Rightarrow> (world \<times> 'a) AppResult \<Rightarrow> world" where
  "after_request W r = (case r of Inr (W', _) \<Rightarrow> W' | Inl _ \<Rightarrow> W)"

fun perform :: "env \<Rightarrow> world \<Rightarrow> list_request \<Rightarrow> world" where
  "perform E W (CreateList ids u w req) = after_request W (create_list E W ids u w req)"
| "perform E W (UpdateList u i req) = after_request W (update_list E W u i req)"
| "perform E W (DeleteList u i) = after_request W (delete_list E W u i)"
| "perform E W (AddColumn new fresh u i req) = after_request W (add_column E W new fresh u i req)"
| "perform E W (UpdateColumn fresh u i req) = after_request W (update_column E W fresh u i req)"
| "perform E W (DeleteColumn u i) = after_request W (delete_column E W u i)"
| "perform E W (ReorderColumns u i order) = after_request W (reorder_columns E W u i order)"
| "perform E W (CreateView new u i req) = after_request W (create_view E W new u i req)"
| "perform E W (UpdateView u i req) = after_request W (update_view E W u i req)"
| "perform E W (DeleteView u i) = after_request W (delete_view E W u i)"
| "perform E W (ReorderViews u i order) = after_request W (reorder_views E W u i order)"
| "perform E W (CreateItem new u i vals after) = after_request W (create_item E W new u i vals after)"
| "perform E W (UpdateItem u i vals) = after_request W (update_item E W u i vals)"
| "perform E W (MoveItem u i after) = after_request W (move_item E W u i after)"
| "perform E W (DeleteItem u i) = after_request W (delete_item E W u i)"
| "perform E W (CheckOff u i) = after_request W (check_off E W u i)"
| "perform E W (AddComment new u i txt) = after_request W (add_comment E W new u i txt)"
| "perform E W (EditComment u i txt) = after_request W (edit_comment E W u i txt)"
| "perform E W (DeleteComment u i) = after_request W (delete_comment E W u i)"

definition list_step :: "ext \<Rightarrow> world \<Rightarrow> env \<times> list_request \<Rightarrow> world" where
  "list_step X W r = perform ((fst r)\<lparr>e_ext := X\<rparr>) W (snd r)"

definition empty_world :: world where
  "empty_world = \<lparr>w_store = \<lparr>s_lists = [], s_columns = [], s_views = [], s_items = [], s_comments = []\<rparr>,
     outbox = [], dispatched = [], due_synced = []\<rparr>"

lemma after_request_ok:
  assumes "lists_ok X (w_store W)" and "\<And>W' x. r = Inr (W', x) \<Longrightarrow> lists_ok X (w_store W')"
  shows "lists_ok X (w_store (after_request W r))"
  using assms by (auto simp: after_request_def split: sum.splits)

lemma empty_world_ok: "lists_ok X (w_store empty_world)"
  by (simp add: empty_world_def lists_ok_def refs_ok_def columns_ok_def views_ok_def items_ok_def comments_ok_def
      columns_in_def views_in_def live_items_def item_count_in_def)

context ext_laws
begin

lemmas request_ok = update_list_ok delete_list_ok add_column_ok reorder_columns_ok delete_view_ok reorder_views_ok
  move_item_ok delete_item_ok add_comment_ok edit_comment_ok delete_comment_ok

lemmas typed_request_ok = create_list_ok update_column_ok delete_column_ok create_view_ok update_view_ok create_item_ok
  update_item_ok check_off_ok

lemma perform_ok:
  assumes ok: "lists_ok X (w_store W)" and E: "e_ext E = X"
  shows "lists_ok X (w_store (perform E W q))"
  by (cases q)
     (simp_all only: perform.simps, (rule after_request_ok [OF ok], erule request_ok [OF ok] typed_request_ok [OF ok E])+)

lemma list_step_ok: "lists_ok X (w_store W) \<Longrightarrow> lists_ok X (w_store (list_step X W r))"
  by (simp add: list_step_def perform_ok)

end

sublocale ext_laws \<subseteq> lists: stepped empty_world "list_step X" "\<lambda>W. lists_ok X (w_store W)"
  by unfold_locales (rule empty_world_ok, rule list_step_ok)

context ext_laws
begin

lemma reachable_ok: "lists_ok X (w_store (run (list_step X) empty_world requests))"
  by (rule lists.inv_run)

end

interpretation std_lists: stepped empty_world "list_step std_ext" "\<lambda>W. lists_ok std_ext (w_store W)"
  by unfold_locales (rule empty_world_ok, rule std.list_step_ok)

end
