(* ===== verification/List_Theorems.thy ===== *)
theory List_Theorems
  imports List_Requests "HOL-Library.Sublist"
begin

text \<open>
  What the list service guarantees, stated over its operations: the invariant of every reachable
  world, the place of created and moved items, reordering, and the confirmation that clearing cells needs.
\<close>

section \<open>Every reachable world\<close>

text \<open>
  C2. From the empty database, after any sequence of requests on lists, successful or not, made at any time by anyone:
  identifiers are unique and references resolve; every list has at most thirty columns, at most one due
  column, which holds dates, between one and twenty views and at most ten thousand items; its items
  have valid and different ranks; every stored cell is a value that the rules of its column leave
  unchanged, also after the column was retyped; every saved view fits the columns; and the
  comment count of every item is the number of its comments.
\<close>

theorem reachable_lists_ok:
  assumes "ext_laws X"
  shows "lists_ok X (w_store (run (list_step X) empty_world requests))"
  by (rule ext_laws.reachable_ok [OF assms])

text \<open>A database with one personal list of two items, and the requests of its owner.\<close>

definition sample_env :: env where
  "sample_env = \<lparr>e_ext = std_ext, e_as_f64 = (\<lambda>_. Fin 0 0), e_queries = queries_of sample_tables,
     e_tables = sample_tables, e_searchable = (\<lambda>_. []), e_now = 5\<rparr>"

definition sample_item :: "uuid \<Rightarrow> rstr \<Rightarrow> ListItem" where
  "sample_item i k = \<lparr>li_id = i, li_list_id = 10, li_rank = k, li_values = [], li_comment_count = 0,
     li_created_by = 1, li_created_at = 5, li_updated_at = 5, li_deleted_at = None\<rparr>"

definition sample_store :: store where
  "sample_store =
     \<lparr>s_lists = [\<lparr>l_id = 10, l_workspace_id = 2, l_channel_id = None, l_title = lit ''Tasks'', l_description = [],
        l_created_by = 1, l_created_at = 5, l_updated_at = 5, l_deleted_at = None\<rparr>],
      s_columns = [],
      s_views = [\<lparr>lv_id = 11, lv_list_id = 10, lv_position = 0, lv_name = lit ''Table'', lv_kind = Table,
        lv_config = default_config, lv_created_by = 1, lv_created_at = 5, lv_updated_at = 5\<rparr>],
      s_items = [sample_item 20 (lit ''V''), sample_item 21 (lit ''l'')],
      s_comments = []\<rparr>"

definition sample_world :: world where
  "sample_world = \<lparr>w_store = sample_store, outbox = [], dispatched = [], due_synced = []\<rparr>"

lemma sample_live: "live_items sample_store l = (if l = 10 then [sample_item 20 (lit ''V''), sample_item 21 (lit ''l'')] else [])"
  by (simp add: live_items_def sample_store_def sample_item_def)

lemma sample_world_ok: "lists_ok std_ext (w_store sample_world)"
proof -
  have "refs_ok sample_store" by (simp add: refs_ok_def sample_store_def sample_item_def)
  moreover have "columns_ok sample_store" by (simp add: columns_ok_def sample_store_def columns_in_def)
  moreover have "views_ok std_ext sample_store"
    by (rule views_okI) (auto simp: sample_store_def views_in_def MAX_VIEWS_def std.view_ok_default)
  moreover have "items_ok std_ext sample_store"
  proof (rule items_okI)
    show "item_count_in sample_store l \<le> MAX_ITEMS" for l by (simp add: item_count_in_def sample_live MAX_ITEMS_def)
    show "inj_on li_rank (set (live_items sample_store l))" for l
      by (cases "l = 10") (simp_all add: sample_live sample_item_def)
    fix r assume "r \<in> set (s_items sample_store)"
    then show "valid_rank (li_rank r)" "cells_typed std_ext (shape sample_store (li_list_id r)) (li_values r)"
      by (auto simp: sample_store_def sample_item_def cells_typed_def valid_rank_def rank_char_iff)
  qed
  moreover have "comments_ok sample_store" by (simp add: comments_ok_def sample_store_def sample_item_def)
  ultimately show ?thesis by (simp add: lists_ok_def sample_world_def)
qed

theorem reachable_lists_ok_witness:
  "lists_ok std_ext (w_store (run (list_step std_ext) empty_world
     [(sample_env, CreateList \<lparr>id_row = 10, id_view = 11, id_columns = (\<lambda>n. 12), id_choices = (\<lambda>_. [])\<rparr> 1 2
        \<lparr>cl_title = lit ''Tasks'', cl_description = [], cl_channel_id = None, cl_columns = []\<rparr>),
      (sample_env, CreateItem 20 1 10 [] None)]))"
  by (rule reachable_lists_ok [OF std.ext_laws_axioms])

section \<open>Order\<close>

text \<open>
  C17. A new item stands directly behind the item named, or at the end when none is named; every other item keeps its place, and
  no row but the new one is written.
\<close>

theorem create_item_stands_behind:
  assumes "lists_ok X (w_store W)" and "create_item E W new u l vals after = Inr (W', item)"
    and "items_of (w_store W) l = xs @ ys"
    and "case after of None \<Rightarrow> ys = [] | Some a \<Rightarrow> xs \<noteq> [] \<and> li_id (last xs) = a"
  shows "items_of (w_store W') l = xs @ item # ys
    \<and> w_store W' = (w_store W)\<lparr>s_items := s_items (w_store W) @ [item]\<rparr>"
proof -
  obtain W1 w where c: "create_item_in E W new u l vals after = Inr (W1, w)"
    and W': "W' = announce W1 w" "item = iw_item w"
    using assms(2) by (auto simp: create_item_def split_beta)
  have "w_store W1 = (w_store W)\<lparr>s_items := s_items (w_store W) @ [iw_item w]\<rparr>"
    using create_item_in_Inr [OF c] by blast
  then show ?thesis using create_item_placed [OF assms(1) c assms(3,4)] by (simp add: W')
qed

lemma sample_items: "map li_id (items_of (w_store sample_world) 10) = [20, 21]"
  by code_simp

lemma sample_split: "\<exists>a b. items_of (w_store sample_world) 10 = [a, b] \<and> li_id a = 20 \<and> li_id b = 21"
  using sample_items by (auto simp: map_eq_Cons_conv)

lemma sample_create: "\<exists>W' item. create_item sample_env sample_world 22 1 10 [] (Some 20) = Inr (W', item)"
proof -
  have "is_ok (create_item sample_env sample_world 22 1 10 [] (Some 20))" by code_simp
  then show ?thesis by (auto simp: is_ok_iff)
qed

theorem create_item_stands_behind_witness:
  "\<exists>W' item a b. create_item sample_env sample_world 22 1 10 [] (Some 20) = Inr (W', item)
     \<and> items_of (w_store W') 10 = [a, item, b]"
proof -
  obtain a b where ab: "items_of (w_store sample_world) 10 = [a, b]" "li_id a = 20" "li_id b = 21"
    using sample_split by blast
  obtain W' item where c: "create_item sample_env sample_world 22 1 10 [] (Some 20) = Inr (W', item)"
    using sample_create by blast
  from create_item_stands_behind [OF sample_world_ok c, of "[a]" "[b]"] ab c show ?thesis by auto
qed

text \<open>
  C18. A moved item stands directly behind the item named, or first when none is named, and the other items keep their order;
  the move is of that item alone.
\<close>

theorem move_item_stands_behind:
  assumes "lists_ok X (w_store W)" and "move_item E W u i after = Inr (W', item)"
    and "item_list (w_store W) i = Some l"
    and "filter (\<lambda>r. li_id r \<noteq> i) (items_of (w_store W) l) = xs @ ys"
    and "case after of None \<Rightarrow> xs = [] | Some a \<Rightarrow> xs \<noteq> [] \<and> li_id (last xs) = a"
  shows "items_of (w_store W') l = xs @ item # ys \<and> li_id item = i"
proof
  show "items_of (w_store W') l = xs @ item # ys" by (rule move_item_placed [OF assms])
  show "li_id item = i" using move_item_Inr [OF assms(2)] by (auto dest: find_Some_iff)
qed

theorem move_item_stands_behind_witness:
  "\<exists>W' item a. move_item sample_env sample_world 1 20 (Some 21) = Inr (W', item)
     \<and> items_of (w_store W') 10 = [a, item] \<and> li_id item = 20"
proof -
  obtain a b where ab: "items_of (w_store sample_world) 10 = [a, b]" "li_id a = 20" "li_id b = 21"
    using sample_split by blast
  have "is_ok (move_item sample_env sample_world 1 20 (Some 21))" by code_simp
  then obtain W' item where m: "move_item sample_env sample_world 1 20 (Some 21) = Inr (W', item)"
    by (auto simp: is_ok_iff)
  have "item_list (w_store sample_world) 20 = Some 10" by code_simp
  from move_item_stands_behind [OF sample_world_ok m this, of "[b]" "[]"] ab m show ?thesis by auto
qed

lemma names_each_once_iff:
  "names_each_once order existing \<longleftrightarrow> distinct order \<and> mset order = mset existing"
proof
  assume n: "names_each_once order existing"
  then have len: "length (remdups_adj (sort order)) = length order" and eq: "remdups_adj (sort order) = sort existing"
    by (auto simp: names_each_once_def Let_def)
  have "card (set order) = length order"
    using distinct_card [OF distinct_remdups_adj_sorted [OF sorted_sort, of order]] len by simp
  then have d: "distinct order" by (rule card_distinct)
  then have "remdups_adj (sort order) = sort order" by (simp add: remdups_adj_distinct)
  then show "distinct order \<and> mset order = mset existing" using d eq by (metis mset_sort)
next
  assume "distinct order \<and> mset order = mset existing"
  then show "names_each_once order existing"
    by (auto simp: names_each_once_def Let_def remdups_adj_distinct intro: properties_for_sort)
qed

lemma sort_by_position:
  assumes d: "distinct order" and o: "set order = idf ` set rows" and r: "distinct (map idf rows)"
    and pos: "\<And>r. r \<in> set rows \<Longrightarrow> pos r = int (the (position (idf r) order))"
  shows "map idf (sort_key (\<lambda>r. (pos r, idf r :: uuid)) rows) = order"
proof -
  let ?xs = "sort_key (\<lambda>r. (pos r, idf r)) rows" and ?ix = "\<lambda>i. the (position i order)"
  have ix: "?ix i < length order \<and> order ! ?ix i = i" if "i \<in> set order" for i
    using that position_None [of i order] position_Some [of i order] by (cases "position i order") auto
  have ids: "set (map idf ?xs) = set order" by (simp add: o)
  have dx: "distinct (map idf ?xs)" using r by (simp add: distinct_map_sort_key)
  have "sorted (map (\<lambda>r. (pos r, idf r)) ?xs)" by simp
  then have "sorted_wrt (\<lambda>r s. pos r \<le> pos s) ?xs"
    unfolding sorted_map by (rule sorted_wrt_mono_rel [rotated]) (auto simp: less_eq_prod_def)
  then have "sorted_wrt (\<lambda>r s. ?ix (idf r) \<le> ?ix (idf s)) ?xs"
    by (rule sorted_wrt_mono_rel [rotated]) (auto simp: pos)
  then have "sorted (map ?ix (map idf ?xs))" by (simp add: sorted_map)
  moreover have inj: "inj_on ?ix (set order)" by (rule inj_on_inverseI [where g = "nth order"]) (use ix in blast)
  have "distinct (map ?ix (map idf ?xs))" unfolding distinct_map [of ?ix] using dx inj by (simp only: ids simp_thms)
  moreover have "set (map ?ix (map idf ?xs)) = set [0..<length order]"
  proof -
    have "?ix ` set order \<subseteq> {..<length order}" using ix by blast
    moreover have "card (?ix ` set order) = length order" using inj d by (simp add: card_image distinct_card)
    ultimately have "?ix ` set order = {..<length order}" by (intro card_subset_eq) auto
    then have "?ix ` set (map idf ?xs) = {..<length order}" by (simp only: ids)
    then show ?thesis unfolding set_map [of ?ix] by (simp add: atLeast0LessThan)
  qed
  ultimately have "map ?ix (map idf ?xs) = [0..<length order]"
    by (intro sorted_distinct_set_unique) auto
  then have "map (nth order) (map ?ix (map idf ?xs)) = order" by (simp only: map_nth)
  moreover have "map (nth order) (map ?ix (map idf ?xs)) = map idf ?xs"
    using ix ids by (simp add: o)
  ultimately show ?thesis by simp
qed

text \<open>
  Reordering the columns of a list succeeds only when the request names every column exactly once, and the columns then
  stand in exactly the order named, with everything but their positions unchanged.
\<close>

theorem reorder_columns_order:
  assumes ok: "lists_ok X (w_store W)" and r: "reorder_columns E W u i order = Inr (W', cs)"
  shows "distinct order \<and> mset order = mset (map lc_id (columns_in (w_store W) i))
    \<and> map lc_id cs = order \<and> cs = columns_in (w_store W') i
    \<and> (\<forall>c. c \<in> set cs \<longrightarrow> (\<exists>d\<in>set (columns_in (w_store W) i). c = d\<lparr>lc_position := lc_position c\<rparr>))"
proof -
  let ?S = "w_store W"
  have n: "names_each_once order (map lc_id (columns_in ?S i))" and cs: "cs = columns_in (w_store W') i"
    and W': "w_store W' = reorder_columns_in ?S i order"
    using r lock_known unfolding reorder_columns_def Let_def split_beta by (auto split: if_splits)
  have o: "distinct order" "mset order = mset (map lc_id (columns_in ?S i))"
    using n by (simp_all add: names_each_once_iff)
  then have set: "set order = lc_id ` set (columns_in ?S i)" by (metis list.set_map mset_eq_setD)
  let ?g = "\<lambda>c. c\<lparr>lc_position := int (the (position (lc_id c) order))\<rparr>"
  let ?rows = "filter (\<lambda>c. lc_list_id c = i) (s_columns ?S)"
  have "filter (\<lambda>c. lc_list_id c = i) (s_columns (w_store W')) = map ?g ?rows"
  proof -
    have "filter (\<lambda>c. lc_list_id c = i) (update_rows (\<lambda>c. lc_list_id c = i \<and> lc_id c \<in> set order) ?g cs)
      = map ?g (filter (\<lambda>c. lc_list_id c = i) cs)" if "set cs \<subseteq> set (s_columns ?S)" for cs
      using that set by (induction cs) (auto simp: update_rows_def set_columns_in)
    then show ?thesis unfolding W' reorder_columns_in_def by simp
  qed
  then have sorted: "cs = sort_key (\<lambda>c. (lc_position c, lc_id c)) (map ?g ?rows)"
    unfolding cs columns_in_def by simp
  have "map lc_id cs = order"
    unfolding sorted
  proof (rule sort_by_position [OF o(1)])
    show "set order = lc_id ` set (map ?g ?rows)" using set by (auto simp: set_columns_in image_iff)
    have "distinct (map lc_id ?rows)"
      using lists_okD(1) [OF ok] by (simp add: refs_ok_def distinct_map_filter)
    then show "distinct (map lc_id (map ?g ?rows))" by (simp add: o_def)
  qed auto
  moreover have "\<forall>c. c \<in> set cs \<longrightarrow> (\<exists>d\<in>set (columns_in ?S i). c = d\<lparr>lc_position := lc_position c\<rparr>)"
    unfolding sorted by (auto simp: set_columns_in)
  ultimately show ?thesis using o cs by simp
qed

definition sample_column :: "uuid \<Rightarrow> int \<Rightarrow> rstr \<Rightarrow> ListColumn" where
  "sample_column i p n = \<lparr>lc_id = i, lc_list_id = 10, lc_position = p, lc_name = n, lc_kind = Text,
     lc_options = default_options, lc_hidden = False, lc_due = False\<rparr>"

definition columns_world :: world where
  "columns_world = sample_world\<lparr>w_store := sample_store\<lparr>s_columns :=
     [sample_column 30 0 (lit ''Task''), sample_column 31 1 (lit ''Notes'')]\<rparr>\<rparr>"

lemma columns_world_ok: "lists_ok std_ext (w_store columns_world)"
proof -
  let ?c = "sample_column 30 0 (lit ''Task'')" and ?d = "sample_column 31 1 (lit ''Notes'')"
  have ok: "lists_ok std_ext sample_store" using sample_world_ok by (simp add: sample_world_def)
  have "lists_ok std_ext (sample_store\<lparr>s_columns := s_columns sample_store @ [?c]\<rparr>)"
    by (rule lists_ok_insert_column [OF ok])
      (simp_all add: sample_store_def sample_column_def columns_in_def MAX_COLUMNS_def)
  then have ok2: "lists_ok std_ext (sample_store\<lparr>s_columns := [?c]\<rparr>)" by (simp add: sample_store_def)
  have "lists_ok std_ext (sample_store\<lparr>s_columns := [?c]\<rparr>
      \<lparr>s_columns := s_columns (sample_store\<lparr>s_columns := [?c]\<rparr>) @ [?d]\<rparr>)"
    by (rule lists_ok_insert_column [OF ok2])
      (simp_all add: sample_store_def sample_column_def columns_in_def MAX_COLUMNS_def)
  then show ?thesis by (simp add: columns_world_def)
qed

theorem reorder_columns_order_witness:
  "\<exists>W' cs. reorder_columns sample_env columns_world 1 10 [31, 30] = Inr (W', cs) \<and> map lc_id cs = [31, 30]"
proof -
  have "is_ok (reorder_columns sample_env columns_world 1 10 [31, 30])" by code_simp
  then obtain W' cs where r: "reorder_columns sample_env columns_world 1 10 [31, 30] = Inr (W', cs)"
    by (auto simp: is_ok_iff)
  have "map lc_id cs = [31, 30]" using reorder_columns_order [OF columns_world_ok r] by (elim conjE)
  with r show ?thesis by (intro exI conjI)
qed

section \<open>Retyping a column\<close>

lemma prune_loop_items [simp]: "s_items (fst (prune_loop X now C S vs)) = s_items S"
  by (induction vs arbitrary: S) (auto simp: Let_def split_beta update_view_in_def)

lemma cells_in_items: "s_items S' = s_items S \<Longrightarrow> cells_in X S' l i = cells_in X S l i"
  by (simp add: cells_in_def live_items_def)

lemma update_column_in_items [simp]: "s_items (update_column_in S i f) = s_items S"
  by (simp add: update_column_in_def Let_def)

lemma convert_loop_cleared:
  "cv_cleared (convert_loop f cv cells) = cv_cleared cv + int (length (filter (\<lambda>(j, v). f v = None) cells))"
  by (induction f cv cells rule: convert_loop.induct) (auto split: option.splits)

lemma map_filter_map: "List.map_filter f (map g xs) = List.map_filter (\<lambda>x. f (g x)) xs"
  by (simp add: map_filter_def filter_map o_def)

lemma live_items_kept:
  assumes "\<And>r. li_list_id (g r) = li_list_id r \<and> li_deleted_at (g r) = li_deleted_at r"
  shows "live_items (S\<lparr>s_items := map g (s_items S)\<rparr>) l = map g (live_items S l)"
  by (simp add: live_items_def filter_map o_def assms)

lemma map_filter_cong: "(\<And>x. x \<in> set xs \<Longrightarrow> f x = g x) \<Longrightarrow> List.map_filter f xs = List.map_filter g xs"
  by (induction xs) (auto simp: List.map_filter_simps split: option.splits)

lemma map_filter_bind:
  "(\<And>x. x \<in> set xs \<Longrightarrow> h x = Option.bind (f x) g) \<Longrightarrow> List.map_filter h xs = List.map_filter g (List.map_filter f xs)"
  by (induction xs) (auto simp: List.map_filter_simps split: option.splits)

lemma subseq_map_filter_pair:
  "subseq (map fst (List.map_filter (\<lambda>(j, v). map_option (Pair j) (f v)) cells)) (map fst cells)"
  by (induction cells) (auto simp: List.map_filter_simps split: option.splits)

lemma length_map_filter_pair:
  "length (List.map_filter (\<lambda>(j, v). map_option (Pair j) (f v)) cells)
     = length cells - length (filter (\<lambda>(j, v). f v = None) cells)"
proof -
  have "length (List.map_filter (\<lambda>(j, v). map_option (Pair j) (f v)) cells) + length (filter (\<lambda>(j, v). f v = None) cells)
      = length cells"
    by (induction cells) (auto simp: List.map_filter_simps split: option.splits)
  then show ?thesis by simp
qed

lemma column_list_of:
  assumes "distinct (map lc_id (s_columns S))" and "column_of (columns_in S li) i = Inr c" and "column_list S i = Some l"
  shows "li = l"
proof -
  obtain d where d: "List.find (\<lambda>c. lc_id c = i) (s_columns S) = Some d" and l: "map_option l_id (find_list S (lc_list_id d)) = Some l"
    using assms(3) by (auto simp: column_list_def bind_eq_Some_conv)
  have "d \<in> set (s_columns S)" "lc_id d = i" using d by (auto dest: find_Some_iff)
  then have "d = c" using column_of_Inr [OF assms(2)] assms(1) by (auto simp: distinct_map dest: inj_onD)
  then show ?thesis using l column_of_Inr(3) [OF assms(2)] by (auto dest: find_list_Some)
qed

context ext_laws
begin

lemma recell_cell:
  assumes d: "distinct (map li_id (s_items S))" and r: "r \<in> set (live_items S l)"
    and cells: "cells = cv_cells (convert_loop (convert X a from to)
        \<lparr>cv_cells = [], cv_converted = 0, cv_cleared = 0\<rparr> (cells_in X S l i))"
  shows "map_of (li_values (recell X l i cells r)) (uuid_str X k)
    = (if k = i then Option.bind (map_of (li_values r) (uuid_str X i)) (convert X a from to)
       else map_of (li_values r) (uuid_str X k))"
proof -
  let ?f = "convert X a from to" and ?v = "map_of (li_values r) (uuid_str X i)"
  have l: "li_list_id r = l" using r by (simp add: set_live_items)
  have m: "map_of cells (li_id r) = (case ?v of
      None \<Rightarrow> None | Some v \<Rightarrow> (case ?f v of None \<Rightarrow> Some JNull | Some n \<Rightarrow> if n \<noteq> v then Some n else None))"
    unfolding cells by (subst convert_loop_cells [OF distinct_cells_in [OF d]]) (simp_all add: map_of_cells_in [OF d r] split: option.split)
  have ok: "n \<noteq> JNull" if "?f v = Some n" for v n using convert_cell_ok [OF that] by (rule cell_ok_not_null)
  consider "map_of cells (li_id r) = None" "Option.bind ?v ?f = ?v"
    | "map_of cells (li_id r) = Some JNull" "Option.bind ?v ?f = None"
    | n where "map_of cells (li_id r) = Some n" "Option.bind ?v ?f = Some n" "n \<noteq> JNull"
    using m ok by (auto split: option.splits if_splits)
  then show ?thesis
  proof cases
    case 1
    then show ?thesis by (simp add: recell_none)
  next
    case 2
    then show ?thesis by (simp add: recell_values [OF l 2(1)] map_of_delete)
  next
    case 3
    then show ?thesis by (simp add: recell_values [OF l 3(1)] update_conv')
  qed
qed

lemma rewritten_cells:
  assumes d: "distinct (map li_id (s_items S))"
    and cells: "cells = cv_cells (convert_loop (convert X a from to)
        \<lparr>cv_cells = [], cv_converted = 0, cv_cleared = 0\<rparr> (cells_in X S l i))"
    and items: "s_items S' = map (recell X l i cells) (s_items S)"
  shows "cells_in X S' l k = (if k = i
      then List.map_filter (\<lambda>(j, v). map_option (Pair j) (convert X a from to v)) (cells_in X S l i)
      else cells_in X S l k)"
proof -
  have live: "live_items S' l = map (recell X l i cells) (live_items S l)"
    using live_items_kept [of "recell X l i cells" S l] items by (simp add: live_items_def)
  have c: "cells_in X S' l k = List.map_filter (\<lambda>r. map_option (\<lambda>v. (li_id r, v))
      (if k = i then Option.bind (map_of (li_values r) (uuid_str X i)) (convert X a from to)
       else map_of (li_values r) (uuid_str X k))) (live_items S l)"
    unfolding cells_in_def live map_filter_map recell_keeps
    by (rule map_filter_cong) (simp only: recell_cell [OF d _ cells])
  show ?thesis
  proof (cases "k = i")
    case True
    show ?thesis unfolding c if_P [OF True] unfolding cells_in_def
      by (rule map_filter_bind) (simp add: bind_map_option o_def map_option_bind)
  next
    case False
    then show ?thesis using c by (simp add: cells_in_def)
  qed
qed

end

text \<open>
  C19. A column is never silently emptied. When a change of the kind or the options of a column succeeds, the
  number of cells it empties is the number the request confirmed, unless it empties none; the items that
  keep a value are among those that had one, in the same order; and no cell of another column of the list changes.
\<close>

theorem update_column_clears_confirmed:
  assumes X: "ext_laws (e_ext E)" and ok: "lists_ok (e_ext E) (w_store W)"
    and r: "update_column E W fresh u i req = Inr (W', x)" and l: "column_list (w_store W) i = Some l"
  shows "let before = cells_in (e_ext E) (w_store W) l i; after = cells_in (e_ext E) (w_store W') l i;
             cleared = int (length before) - int (length after)
         in (cleared = 0 \<or> uc_confirm_cleared req = Some cleared) \<and> subseq (map fst after) (map fst before)
           \<and> (\<forall>k. k \<noteq> i \<longrightarrow> cells_in (e_ext E) (w_store W') l k = cells_in (e_ext E) (w_store W) l k)"
proof -
  let ?X = "e_ext E" and ?S = "w_store W"
  obtain li la c name options due kind S1 S2 where c: "column_of (columns_in ?S li) i = Inr c"
    and n: "\<not> (cv_cleared (convert_cells E W c kind options) > 0
         \<and> uc_confirm_cleared req \<noteq> Some (cv_cleared (convert_cells E W c kind options)))"
    and S1: "S1 = update_column_in ?S i \<lparr>cf_name = name, cf_kind = kind, cf_options = options,
         cf_hidden = (case uc_hidden req of Some h \<Rightarrow> h | None \<Rightarrow> lc_hidden c), cf_due = due\<rparr>"
    and S2: "S2 = (if cv_cells (convert_cells E W c kind options) \<noteq> []
         then rewrite_cells_in ?X S1 li i (cv_cells (convert_cells E W c kind options)) else S1)"
    and W': "w_store W' = fst (prune_loop ?X (e_now E) (columns_in S2 li) S2 (views_in S2 li))"
    using ext_laws.update_column_Inr [OF X r] by blast
  have d: "distinct (map lc_id (s_columns ?S))" "distinct (map li_id (s_items ?S))"
    using lists_okD(1) [OF ok] by (simp_all add: refs_ok_def)
  have li: "li = l" by (rule column_list_of [OF d(1) c l])
  let ?f = "convert ?X (e_as_f64 E) (lc_kind c, lc_options c) (kind, options)"
  let ?cv = "convert_cells E W c kind options"
  have items: "s_items (w_store W') = map (recell ?X l i (cv_cells ?cv)) (s_items ?S)"
    unfolding W' by (auto simp: S2 S1 li rewrite_cells_recell recell_none intro: map_idI [symmetric])
  show ?thesis
  proof (cases "kind = lc_kind c \<and> options = lc_options c")
    case True
    then have "s_items (w_store W') = s_items ?S" using items
      by (simp add: convert_cells_def recell_none map_idI)
    from cells_in_items [OF this] show ?thesis by (simp add: Let_def)
  next
    case False
    then have cv: "?cv = convert_loop ?f \<lparr>cv_cells = [], cv_converted = 0, cv_cleared = 0\<rparr> (cells_in ?X ?S l i)"
      using column_of_Inr(2,3) [OF c]
      by (auto simp: convert_cells_def li Let_def)
    note rw = ext_laws.rewritten_cells [OF X d(2) arg_cong [OF cv] items]
    have len: "length (filter (\<lambda>(j, v). ?f v = None) cells) \<le> length cells" for cells by simp
    have "cv_cleared ?cv = int (length (cells_in ?X ?S l i)) - int (length (cells_in ?X (w_store W') l i))"
      unfolding cv convert_loop_cleared using len by (simp add: rw length_map_filter_pair of_nat_diff)
    moreover have "cv_cleared ?cv \<ge> 0" unfolding cv convert_loop_cleared by simp
    ultimately show ?thesis using n by (auto simp: Let_def rw subseq_map_filter_pair)
  qed
qed

definition noted :: "ListItem \<Rightarrow> ListItem" where
  "noted r = (if li_id r = 20 then r\<lparr>li_values := [(print_uuid 30, JString (lit ''abc''))]\<rparr> else r)"

definition cells_world :: world where
  "cells_world = columns_world\<lparr>w_store :=
     (w_store columns_world)\<lparr>s_items := map noted (s_items (w_store columns_world))\<rparr>\<rparr>"

definition retype :: UpdateColumnRequest where
  "retype = \<lparr>uc_name = None, uc_kind = Some Checkbox, uc_options = None, uc_hidden = None, uc_due = None,
     uc_confirm_cleared = Some 1\<rparr>"

lemma cells_world_ok: "lists_ok std_ext (w_store cells_world)"
proof -
  let ?S = "w_store columns_world"
  have sh: "shape ?S 10 30 = Some (Text, default_options)" by code_simp
  have cell: "cell_ok std_ext Text default_options (JString (lit ''abc''))" by code_simp
  have "lists_ok std_ext (?S\<lparr>s_items := map noted (s_items ?S)\<rparr>)"
  proof (rule lists_ok_map_items [OF columns_world_ok])
    fix r assume r: "r \<in> set (s_items ?S)"
    then have "li_list_id r = 10 \<and> li_values r = []"
      by (auto simp: columns_world_def sample_store_def sample_item_def)
    then show "cells_typed std_ext (shape ?S (li_list_id r)) (li_values (noted r))"
      using sh cell by (auto simp: noted_def cells_typed_def std_ext_def)
  qed (auto simp: noted_def split: if_splits)
  then show ?thesis by (simp add: cells_world_def)
qed

theorem update_column_clears_confirmed_witness:
  "\<exists>W' c. update_column sample_env cells_world [] 1 30 retype = Inr (W', c)
     \<and> cells_in std_ext (w_store W') 10 31 = cells_in std_ext (w_store cells_world) 10 31"
proof -
  have "is_ok (update_column sample_env cells_world [] 1 30 retype)" by code_simp
  then obtain W' c where r: "update_column sample_env cells_world [] 1 30 retype = Inr (W', c)"
    by (auto simp: is_ok_iff)
  have E: "e_ext sample_env = std_ext" by (simp add: sample_env_def)
  have l: "column_list (w_store cells_world) 30 = Some 10" by code_simp
  from update_column_clears_confirmed [OF _ _ r l] std.ext_laws_axioms cells_world_ok r show ?thesis
    unfolding E Let_def by auto
qed

end
