(* ===== verification/Connections.thy ===== *)
theory Connections
  imports Prelude "HOL-Library.AList"
begin

text \<open>
  The connections of one realtime node (\<open>src/backend/realtime/src/connection_manager.rs\<close>): the table of
  open sockets, the index from users to their sockets, the bounded queue each socket's writer task drains, and
  every operation that changes them. The concurrent maps are association lists with one entry per key and a
  hash set is a list without repetition; their iteration order is not specified, and nothing proved here depends on it.
  A queue is an object of its own, named by a handle, because the socket's task holds it after the
  connection has left the table.
\<close>

section \<open>Queues\<close>

definition WRITER_CHANNEL_CAP :: nat where
  "WRITER_CHANNEL_CAP = 256"

definition BACKPRESSURE_CLOSE_CODE :: nat where
  "BACKPRESSURE_CLOSE_CODE = 4003"

definition SESSION_REVOKED_CLOSE_CODE :: nat where
  "SESSION_REVOKED_CLOSE_CODE = 4001"

datatype ws_message = MText rstr | MPing | MClose nat rstr

text \<open>
  A queue of \<open>tokio::sync::mpsc\<close>: \<open>try_send\<close> answers \<open>Full\<close> at the capacity and
  \<open>Closed\<close> once the receiver is gone. \<open>wr_sent\<close> is what the writer task has put on the wire.
\<close>

record writer =
  wr_queue :: "ws_message list"
  wr_closed :: bool
  wr_sent :: "ws_message list"

definition new_writer :: writer where
  "new_writer = \<lparr>wr_queue = [], wr_closed = False, wr_sent = []\<rparr>"

datatype send_result = Sent | Full | Closed

definition try_send :: "writer \<Rightarrow> ws_message \<Rightarrow> writer \<times> send_result" where
  "try_send q m =
     (if wr_closed q then (q, Closed)
      else if WRITER_CHANNEL_CAP \<le> length (wr_queue q) then (q, Full)
      else (q\<lparr>wr_queue := wr_queue q @ [m]\<rparr>, Sent))"

text \<open>
  One turn of the loop of \<open>spawn_writer\<close> (\<open>ws_handler.rs\<close>): take the next message and put it on the socket. The loop
  ends, and with it the receiver, when the socket refuses or the message was a close frame.
\<close>

definition is_close :: "ws_message \<Rightarrow> bool" where
  "is_close m = (case m of MClose _ _ \<Rightarrow> True | _ \<Rightarrow> False)"

definition writer_turn :: "bool \<Rightarrow> writer \<Rightarrow> writer" where
  "writer_turn socket_ok q =
     (if wr_closed q then q
      else case wr_queue q of
        [] \<Rightarrow> q
      | m # ms \<Rightarrow>
          if \<not> socket_ok then q\<lparr>wr_queue := [], wr_closed := True\<rparr>
          else if is_close m then q\<lparr>wr_queue := [], wr_closed := True, wr_sent := wr_sent q @ [m]\<rparr>
          else q\<lparr>wr_queue := ms, wr_sent := wr_sent q @ [m]\<rparr>)"

section \<open>Connections\<close>

record Connection =
  cn_user_id :: uuid
  cn_token_jti :: "uuid option"
  cn_sender :: uuid
  subscribed_workspaces :: "uuid list"
  subscribed_channels :: "uuid list"
  subscribed_huddles :: "uuid list"

datatype Audience = Everyone | OnlyConnection uuid

fun audience_includes :: "Audience \<Rightarrow> uuid \<Rightarrow> bool" where
  "audience_includes Everyone c = True"
| "audience_includes (OnlyConnection only) c = (only = c)"

record manager =
  connections :: "(uuid \<times> Connection) list"
  user_connections :: "(uuid \<times> uuid list) list"
  writers :: "uuid \<Rightarrow> writer"

definition new_manager :: manager where
  "new_manager = \<lparr>connections = [], user_connections = [], writers = (\<lambda>_. new_writer)\<rparr>"

definition add_connection :: "manager \<Rightarrow> uuid \<Rightarrow> uuid \<Rightarrow> uuid option \<Rightarrow> uuid \<Rightarrow> manager \<times> bool" where
  "add_connection cm conn_id user_id token_jti sender =
     (let entry = (case map_of (user_connections cm) user_id of Some cs \<Rightarrow> cs | None \<Rightarrow> []);
          was_empty = (entry = [])
      in (cm\<lparr>connections := AList.update conn_id
                \<lparr>cn_user_id = user_id, cn_token_jti = token_jti, cn_sender = sender, subscribed_workspaces = [],
                 subscribed_channels = [], subscribed_huddles = []\<rparr> (connections cm),
             user_connections := AList.update user_id (push_new conn_id entry) (user_connections cm)\<rparr>, was_empty))"

definition remove_connection :: "manager \<Rightarrow> uuid \<Rightarrow> manager \<times> (uuid \<times> bool) option" where
  "remove_connection cm conn_id =
     (case map_of (connections cm) conn_id of
        None \<Rightarrow> (cm, None)
      | Some conn \<Rightarrow>
          let cm1 = cm\<lparr>connections := AList.delete conn_id (connections cm)\<rparr> in
          case map_of (user_connections cm1) (cn_user_id conn) of
            None \<Rightarrow> (cm1, Some (cn_user_id conn, False))
          | Some conns \<Rightarrow>
              let conns' = removeAll conn_id conns in
              if conns' = []
              then (cm1\<lparr>user_connections := AList.delete (cn_user_id conn) (user_connections cm1)\<rparr>,
                    Some (cn_user_id conn, True))
              else (cm1\<lparr>user_connections := AList.update (cn_user_id conn) conns' (user_connections cm1)\<rparr>,
                    Some (cn_user_id conn, False)))"

text \<open>\<open>if let Some(mut conn) = self.connections.get_mut(conn_id)\<close>.\<close>

definition with_conn :: "manager \<Rightarrow> uuid \<Rightarrow> (Connection \<Rightarrow> Connection) \<Rightarrow> manager" where
  "with_conn cm conn_id f = cm\<lparr>connections := AList.map_entry conn_id f (connections cm)\<rparr>"

definition subscribe_workspace :: "manager \<Rightarrow> uuid \<Rightarrow> uuid \<Rightarrow> manager" where
  "subscribe_workspace cm conn_id workspace_id =
     with_conn cm conn_id (\<lambda>c. c\<lparr>subscribed_workspaces := push_new workspace_id (subscribed_workspaces c)\<rparr>)"

definition join_channel :: "manager \<Rightarrow> uuid \<Rightarrow> uuid \<Rightarrow> manager" where
  "join_channel cm conn_id channel_id =
     with_conn cm conn_id (\<lambda>c. c\<lparr>subscribed_channels := push_new channel_id (subscribed_channels c)\<rparr>)"

definition is_subscribed_to_channel :: "manager \<Rightarrow> uuid \<Rightarrow> uuid \<Rightarrow> bool" where
  "is_subscribed_to_channel cm conn_id channel_id =
     (case map_of (connections cm) conn_id of
        Some conn \<Rightarrow> channel_id \<in> set (subscribed_channels conn) | None \<Rightarrow> False)"

definition leave_channel :: "manager \<Rightarrow> uuid \<Rightarrow> uuid \<Rightarrow> manager" where
  "leave_channel cm conn_id channel_id =
     with_conn cm conn_id (\<lambda>c. c\<lparr>subscribed_channels := removeAll channel_id (subscribed_channels c)\<rparr>)"

definition join_huddle :: "manager \<Rightarrow> uuid \<Rightarrow> uuid \<Rightarrow> manager" where
  "join_huddle cm conn_id huddle_id =
     with_conn cm conn_id (\<lambda>c. c\<lparr>subscribed_huddles := push_new huddle_id (subscribed_huddles c)\<rparr>)"

definition conns_of_user :: "manager \<Rightarrow> uuid \<Rightarrow> uuid list" where
  "conns_of_user cm user_id =
     (case map_of (user_connections cm) user_id of Some conns \<Rightarrow> conns | None \<Rightarrow> [])"

definition leave_channel_for_user :: "manager \<Rightarrow> uuid \<Rightarrow> uuid \<Rightarrow> manager" where
  "leave_channel_for_user cm user_id channel_id =
     foldl (\<lambda>cm c. leave_channel cm c channel_id) cm (conns_of_user cm user_id)"

definition leave_workspace :: "manager \<Rightarrow> uuid \<Rightarrow> uuid \<Rightarrow> manager" where
  "leave_workspace cm conn_id workspace_id =
     with_conn cm conn_id (\<lambda>c. c\<lparr>subscribed_workspaces := removeAll workspace_id (subscribed_workspaces c)\<rparr>)"

definition leave_workspace_for_user :: "manager \<Rightarrow> uuid \<Rightarrow> uuid \<Rightarrow> manager" where
  "leave_workspace_for_user cm user_id workspace_id =
     foldl (\<lambda>cm c. leave_workspace cm c workspace_id) cm (conns_of_user cm user_id)"

definition leave_huddle :: "manager \<Rightarrow> uuid \<Rightarrow> uuid \<Rightarrow> manager" where
  "leave_huddle cm conn_id huddle_id =
     with_conn cm conn_id (\<lambda>c. c\<lparr>subscribed_huddles := removeAll huddle_id (subscribed_huddles c)\<rparr>)"

definition huddle_ids_for_conn :: "manager \<Rightarrow> uuid \<Rightarrow> uuid list" where
  "huddle_ids_for_conn cm conn_id =
     (case map_of (connections cm) conn_id of Some c \<Rightarrow> subscribed_huddles c | None \<Rightarrow> [])"

definition user_in_huddle_local :: "manager \<Rightarrow> uuid \<Rightarrow> uuid \<Rightarrow> bool" where
  "user_in_huddle_local cm user_id huddle_id =
     list_ex (\<lambda>(_, c). cn_user_id c = user_id \<and> huddle_id \<in> set (subscribed_huddles c)) (connections cm)"

definition has_local_connection :: "manager \<Rightarrow> uuid \<Rightarrow> bool" where
  "has_local_connection cm user_id =
     (case map_of (user_connections cm) user_id of Some conns \<Rightarrow> conns \<noteq> [] | None \<Rightarrow> False)"

definition connection_count :: "manager \<Rightarrow> nat" where
  "connection_count cm = length (connections cm)"

section \<open>Delivery\<close>

definition send_on :: "manager \<Rightarrow> uuid \<Rightarrow> ws_message \<Rightarrow> manager \<times> send_result" where
  "send_on cm h m =
     (let (q, r) = try_send (writers cm h) m in (cm\<lparr>writers := (writers cm)(h := q)\<rparr>, r))"

text \<open>\<open>enqueue\<close> answers the user of a connection that could not take the message.\<close>

definition enqueue :: "manager \<Rightarrow> uuid \<Rightarrow> rstr \<Rightarrow> manager \<times> uuid option" where
  "enqueue cm conn_id message =
     (case map_of (connections cm) conn_id of
        None \<Rightarrow> (cm, None)
      | Some conn \<Rightarrow>
          case send_on cm (cn_sender conn) (MText message) of
            (cm1, Sent) \<Rightarrow> (cm1, None)
          | (cm1, Full) \<Rightarrow>
              (fst (send_on cm1 (cn_sender conn) (MClose BACKPRESSURE_CLOSE_CODE (lit ''too far behind''))),
               Some (cn_user_id conn))
          | (cm1, Closed) \<Rightarrow> (cm1, Some (cn_user_id conn)))"

definition drop_dead_connection :: "manager \<Rightarrow> uuid \<Rightarrow> uuid \<Rightarrow> manager" where
  "drop_dead_connection cm conn_id user_id = fst (remove_connection cm conn_id)"

definition send_to_conn :: "manager \<Rightarrow> uuid \<Rightarrow> rstr \<Rightarrow> manager" where
  "send_to_conn cm conn_id message =
     (case enqueue cm conn_id message of
        (cm1, Some user_id) \<Rightarrow> drop_dead_connection cm1 conn_id user_id
      | (cm1, None) \<Rightarrow> cm1)"

definition fan_out_to :: "manager \<Rightarrow> Audience \<Rightarrow> rstr \<Rightarrow> (Connection \<Rightarrow> bool) \<Rightarrow> manager" where
  "fan_out_to cm audience message predicate =
     (let targets = map fst (filter (\<lambda>(k, c). audience_includes audience k \<and> predicate c) (connections cm))
      in foldl (\<lambda>cm c. send_to_conn cm c message) cm targets)"

definition fan_out :: "manager \<Rightarrow> rstr \<Rightarrow> (Connection \<Rightarrow> bool) \<Rightarrow> manager" where
  "fan_out cm message predicate = fan_out_to cm Everyone message predicate"

definition broadcast_to_channel :: "manager \<Rightarrow> Audience \<Rightarrow> uuid \<Rightarrow> rstr \<Rightarrow> manager" where
  "broadcast_to_channel cm audience channel_id message =
     fan_out_to cm audience message (\<lambda>c. channel_id \<in> set (subscribed_channels c))"

definition broadcast_to_workspace :: "manager \<Rightarrow> Audience \<Rightarrow> uuid \<Rightarrow> rstr \<Rightarrow> manager" where
  "broadcast_to_workspace cm audience workspace_id message =
     fan_out_to cm audience message (\<lambda>c. workspace_id \<in> set (subscribed_workspaces c))"

definition broadcast_to_huddle :: "manager \<Rightarrow> Audience \<Rightarrow> uuid \<Rightarrow> rstr \<Rightarrow> manager" where
  "broadcast_to_huddle cm audience huddle_id message =
     fan_out_to cm audience message (\<lambda>c. huddle_id \<in> set (subscribed_huddles c))"

definition broadcast_to_all :: "manager \<Rightarrow> Audience \<Rightarrow> rstr \<Rightarrow> manager" where
  "broadcast_to_all cm audience message = fan_out_to cm audience message (\<lambda>_. True)"

definition send_to_user :: "manager \<Rightarrow> Audience \<Rightarrow> uuid \<Rightarrow> rstr \<Rightarrow> manager" where
  "send_to_user cm audience user_id message =
     foldl (\<lambda>cm c. send_to_conn cm c message) cm (filter (audience_includes audience) (conns_of_user cm user_id))"

definition send_to_workspace_members :: "manager \<Rightarrow> uuid list \<Rightarrow> rstr \<Rightarrow> manager" where
  "send_to_workspace_members cm workspace_ids message =
     fan_out cm message (\<lambda>c. list_ex (\<lambda>w. w \<in> set workspace_ids) (subscribed_workspaces c))"

definition disconnect_user_except :: "manager \<Rightarrow> uuid \<Rightarrow> uuid option \<Rightarrow> rstr \<Rightarrow> manager" where
  "disconnect_user_except cm user_id except_jti reason =
     foldl (\<lambda>cm conn_id.
         case map_of (connections cm) conn_id of
           None \<Rightarrow> cm
         | Some conn \<Rightarrow>
             if except_jti \<noteq> None \<and> cn_token_jti conn = except_jti then cm
             else fst (send_on cm (cn_sender conn) (MClose SESSION_REVOKED_CLOSE_CODE reason)))
       cm (conns_of_user cm user_id)"

definition disconnect_user :: "manager \<Rightarrow> uuid \<Rightarrow> rstr \<Rightarrow> manager" where
  "disconnect_user cm user_id reason = disconnect_user_except cm user_id None reason"


section \<open>The invariant\<close>

text \<open>
  One entry per key; the index names exactly the connections of each user and no user without one; every connection has the queue
  of its own socket; no queue exceeds its capacity.
\<close>

definition owned :: "manager \<Rightarrow> uuid \<Rightarrow> uuid set" where
  "owned cm u = {c. map_option cn_user_id (map_of (connections cm) c) = Some u}"

definition index_ok :: "manager \<Rightarrow> bool" where
  "index_ok cm \<longleftrightarrow>
     distinct (map fst (connections cm)) \<and> distinct (map fst (user_connections cm))
     \<and> (\<forall>u. map_of (user_connections cm) u \<noteq> Some [])
     \<and> (\<forall>u. distinct (conns_of_user cm u) \<and> set (conns_of_user cm u) = owned cm u)
     \<and> (\<forall>c. map_option cn_sender (map_of (connections cm) c) \<in> {None, Some c})"

definition queues_ok :: "manager \<Rightarrow> bool" where
  "queues_ok cm \<longleftrightarrow> (\<forall>h. length (wr_queue (writers cm h)) \<le> WRITER_CHANNEL_CAP)"

lemma index_okI:
  assumes "distinct (map fst (connections cm))" and "distinct (map fst (user_connections cm))"
    and "\<And>u. map_of (user_connections cm) u \<noteq> Some []" and "\<And>u. distinct (conns_of_user cm u)"
    and "\<And>u. set (conns_of_user cm u) = owned cm u"
    and "\<And>c k. map_of (connections cm) c = Some k \<Longrightarrow> cn_sender k = c"
  shows "index_ok cm"
  unfolding index_ok_def
proof (intro conjI allI)
  fix c
  show "map_option cn_sender (map_of (connections cm) c) \<in> {None, Some c}"
    by (cases "map_of (connections cm) c") (auto dest: assms(6))
qed (rule assms)+

lemma index_okD:
  assumes "index_ok cm"
  shows "distinct (map fst (connections cm))" and "distinct (map fst (user_connections cm))"
    and "map_of (user_connections cm) u \<noteq> Some []" and "distinct (conns_of_user cm u)"
    and "set (conns_of_user cm u) = owned cm u"
  using assms unfolding index_ok_def by blast+

lemma sender_own: "index_ok cm \<Longrightarrow> map_of (connections cm) c = Some k \<Longrightarrow> cn_sender k = c"
  unfolding index_ok_def by (elim conjE) (drule spec [of _ c], simp)

lemma in_owned: "c \<in> owned cm u \<longleftrightarrow> (\<exists>k. map_of (connections cm) c = Some k \<and> cn_user_id k = u)"
  by (simp add: owned_def)

lemma conns_of_user_Nil: "index_ok cm \<Longrightarrow> conns_of_user cm u = [] \<longleftrightarrow> map_of (user_connections cm) u = None"
  using index_okD(3) [of cm u] by (cases "map_of (user_connections cm) u") (auto simp: conns_of_user_def)

lemma map_of_map_entry [simp]:
  "map_of (AList.map_entry c f al) k = (if k = c then map_option f (map_of al c) else map_of al k)"
  by (induction al) auto

lemma keys_map_entry [simp]: "map fst (AList.map_entry c f al) = map fst al"
  by (induction al) auto

lemma map_of_with_conn [simp]:
  "map_of (connections (with_conn cm c f)) k = (if k = c then map_option f (map_of (connections cm) c) else map_of (connections cm) k)"
  by (simp add: with_conn_def)

lemma with_conn_simps [simp]:
  "user_connections (with_conn cm c f) = user_connections cm" "writers (with_conn cm c f) = writers cm"
  "conns_of_user (with_conn cm c f) = conns_of_user cm"
  "map fst (connections (with_conn cm c f)) = map fst (connections cm)"
  by (simp_all add: with_conn_def conns_of_user_def fun_eq_iff)

lemma owned_with_conn: "(\<And>k. cn_user_id (f k) = cn_user_id k) \<Longrightarrow> owned (with_conn cm c f) = owned cm"
  by (auto simp: owned_def fun_eq_iff option.map_comp o_def split: if_splits)

lemma index_ok_with_conn:
  assumes ok: "index_ok cm" and f: "\<And>k. cn_user_id (f k) = cn_user_id k" "\<And>k. cn_sender (f k) = cn_sender k"
  shows "index_ok (with_conn cm c f)"
proof (rule index_okI)
  fix d k assume "map_of (connections (with_conn cm c f)) d = Some k"
  then show "cn_sender k = d" using sender_own [OF ok] f(2) by (auto split: if_splits)
qed (use index_okD [OF ok] in \<open>simp_all add: owned_with_conn f\<close>)

lemma push_new_not_Nil: "push_new x xs \<noteq> []"
  by (auto simp: push_new_def)

lemma conns_of_user_update:
  "conns_of_user (cm\<lparr>connections := xs, user_connections := AList.update u cs ys\<rparr>) v
     = (if v = u then cs else (case map_of ys v of Some c \<Rightarrow> c | None \<Rightarrow> []))"
  by (simp add: conns_of_user_def update_conv')

lemma add_connection_ok:
  assumes ok: "index_ok cm" and new: "map_of (connections cm) c = None"
  shows "index_ok (fst (add_connection cm c u jti c))" (is "index_ok ?cm")
proof (rule index_okI)
  note D = index_okD [OF ok]
  have entry: "(case map_of (user_connections cm) v of Some cs \<Rightarrow> cs | None \<Rightarrow> []) = conns_of_user cm v" for v
    by (simp add: conns_of_user_def)
  have cs: "conns_of_user ?cm v = (if v = u then push_new c (conns_of_user cm u) else conns_of_user cm v)" for v
    by (simp add: add_connection_def Let_def conns_of_user_update entry)
  show "distinct (map fst (connections ?cm))" "distinct (map fst (user_connections ?cm))"
    using D(1,2) by (simp_all add: add_connection_def Let_def distinct_update)
  show "map_of (user_connections ?cm) v \<noteq> Some []" for v
    using D(3) by (simp add: add_connection_def Let_def update_conv' push_new_not_Nil)
  show "distinct (conns_of_user ?cm v)" for v using D(4) by (simp add: cs)
  have "owned ?cm v = (if v = u then insert c (owned cm v) else owned cm v)" for v
    using new by (auto simp: owned_def add_connection_def Let_def update_conv')
  then show "set (conns_of_user ?cm v) = owned ?cm v" for v using D(5) by (simp add: cs)
  show "cn_sender k = d" if "map_of (connections ?cm) d = Some k" for d k
    using that sender_own [OF ok] by (auto simp: add_connection_def Let_def update_conv' split: if_splits)
qed

text \<open>Removing a connection: what the table and the index hold afterwards, and what it answers.\<close>

lemma remove_connection_writers [simp]: "writers (fst (remove_connection cm c)) = writers cm"
  by (simp add: remove_connection_def Let_def split: option.splits)

lemma remove_connection_table [simp]:
  "map_of (connections (fst (remove_connection cm c))) = (map_of (connections cm))(c := None)"
  by (auto simp: remove_connection_def Let_def delete_conv' fun_eq_iff split: option.splits)

lemma remove_connection_known:
  assumes ok: "index_ok cm" and c: "map_of (connections cm) c = Some k"
  shows "remove_connection cm c =
    (cm\<lparr>connections := AList.delete c (connections cm), user_connections :=
        (if removeAll c (conns_of_user cm (cn_user_id k)) = [] then AList.delete (cn_user_id k) (user_connections cm)
         else AList.update (cn_user_id k) (removeAll c (conns_of_user cm (cn_user_id k))) (user_connections cm))\<rparr>,
     Some (cn_user_id k, owned cm (cn_user_id k) = {c}))"
proof -
  have mem: "c \<in> set (conns_of_user cm (cn_user_id k))" using c index_okD(5) [OF ok] by (simp add: in_owned)
  then obtain cs where cs: "map_of (user_connections cm) (cn_user_id k) = Some cs"
    by (cases "map_of (user_connections cm) (cn_user_id k)") (auto simp: conns_of_user_def)
  then have eq: "conns_of_user cm (cn_user_id k) = cs" by (simp add: conns_of_user_def)
  have "removeAll c cs = [] \<longleftrightarrow> set cs - {c} = {}" by (simp only: set_removeAll [symmetric] set_empty)
  then have "removeAll c cs = [] \<longleftrightarrow> owned cm (cn_user_id k) = {c}"
    using index_okD(5) [OF ok, of "cn_user_id k"] mem eq by auto
  then show ?thesis using c cs eq by (simp add: remove_connection_def)
qed

lemma remove_connection_ok:
  assumes ok: "index_ok cm"
  shows "index_ok (fst (remove_connection cm c))" (is "index_ok ?cm")
proof (cases "map_of (connections cm) c")
  case None
  then show ?thesis using ok by (simp add: remove_connection_def)
next
  case (Some k)
  note D = index_okD [OF ok] and R = remove_connection_known [OF ok Some]
  let ?cs = "removeAll c (conns_of_user cm (cn_user_id k))"
  show ?thesis
  proof (rule index_okI)
    show "distinct (map fst (connections ?cm))" "distinct (map fst (user_connections ?cm))"
      using D(1,2) by (simp_all add: R distinct_update distinct_delete)
    show "map_of (user_connections ?cm) v \<noteq> Some []" for v
      using D(3) by (simp add: R update_conv' delete_conv')
    have cs: "conns_of_user ?cm v = removeAll c (conns_of_user cm v)" for v
    proof (cases "v = cn_user_id k")
      case True
      then show ?thesis by (simp add: R conns_of_user_def update_conv' delete_conv')
    next
      case False
      then have "c \<notin> set (conns_of_user cm v)" using D(5) [of v] Some by (simp add: in_owned)
      then show ?thesis using False by (simp add: R conns_of_user_def update_conv' delete_conv')
    qed
    show "distinct (conns_of_user ?cm v)" for v using D(4) [of v] by (simp add: cs distinct_removeAll)
    have "owned ?cm v = owned cm v - {c}" for v by (auto simp: in_owned split: if_splits)
    then show "set (conns_of_user ?cm v) = owned ?cm v" for v by (simp only: cs set_removeAll D(5))
    show "cn_sender k' = d" if "map_of (connections ?cm) d = Some k'" for d k'
      using that sender_own [OF ok] by (auto split: if_splits)
  qed
qed

section \<open>Who receives a message\<close>

text \<open>A connection cannot take a message when its writer has ended or its queue is at capacity.\<close>

definition stuck :: "writer \<Rightarrow> bool" where
  "stuck q \<longleftrightarrow> wr_closed q \<or> WRITER_CHANNEL_CAP \<le> length (wr_queue q)"

definition queued :: "writer \<Rightarrow> ws_message \<Rightarrow> writer" where
  "queued q m = (if stuck q then q else q\<lparr>wr_queue := wr_queue q @ [m]\<rparr>)"

lemma try_send_queued: "fst (try_send q m) = queued q m" "snd (try_send q m) = Sent \<longleftrightarrow> \<not> stuck q"
  by (auto simp: try_send_def queued_def stuck_def)

lemma send_on_simps [simp]:
  "connections (fst (send_on cm h m)) = connections cm"
  "user_connections (fst (send_on cm h m)) = user_connections cm"
  "writers (fst (send_on cm h m)) = (writers cm)(h := queued (writers cm h) m)"
  by (simp_all add: send_on_def split_beta try_send_queued)

text \<open>
  A message to a connection that is stuck changes no queue: the close frame that should tell the client why cannot be queued
  either, since it goes through the same full queue.
\<close>

lemma enqueue_known:
  assumes "map_of (connections cm) c = Some k"
  shows "enqueue cm c m =
    (cm\<lparr>writers := (writers cm)(cn_sender k := queued (writers cm (cn_sender k)) (MText m))\<rparr>,
     if stuck (writers cm (cn_sender k)) then Some (cn_user_id k) else None)"
  using assms by (auto simp: enqueue_def send_on_def try_send_def queued_def stuck_def fun_eq_iff)

lemma index_ok_writers [simp]: "index_ok (cm\<lparr>writers := w\<rparr>) = index_ok cm"
  by (simp add: index_ok_def owned_def conns_of_user_def)

lemma index_ok_same_tables:
  assumes "index_ok cm" and "connections cm' = connections cm" and "user_connections cm' = user_connections cm"
  shows "index_ok cm'"
proof -
  have "cm' = cm\<lparr>writers := writers cm'\<rparr>" by (rule manager.equality) (simp_all add: assms)
  then show ?thesis using assms(1) index_ok_writers [where cm = cm and w = "writers cm'"] by simp
qed

lemma send_to_conn_unknown: "map_of (connections cm) c = None \<Longrightarrow> send_to_conn cm c m = cm"
  by (simp add: send_to_conn_def enqueue_def)

lemma send_to_conn_known:
  assumes "index_ok cm" and "map_of (connections cm) c = Some k"
  shows "send_to_conn cm c m =
    (let cm1 = cm\<lparr>writers := (writers cm)(c := queued (writers cm c) (MText m))\<rparr>
     in if stuck (writers cm c) then fst (remove_connection cm1 c) else cm1)"
  using enqueue_known [OF assms(2), of m] sender_own [OF assms]
  by (simp add: send_to_conn_def drop_dead_connection_def Let_def)

lemma send_to_conn_ok: "index_ok cm \<Longrightarrow> index_ok (send_to_conn cm c m)"
  by (cases "map_of (connections cm) c")
     (simp_all add: send_to_conn_unknown send_to_conn_known Let_def remove_connection_ok)

lemma send_to_conn_table:
  assumes ok: "index_ok cm"
  shows "map_of (connections (send_to_conn cm c m)) d =
    (if d = c \<and> stuck (writers cm c) then None else map_of (connections cm) d)"
  by (cases "map_of (connections cm) c")
     (simp_all add: send_to_conn_unknown send_to_conn_known [OF ok] Let_def)

lemma send_to_conn_queue:
  assumes ok: "index_ok cm"
  shows "writers (send_to_conn cm c m) d =
    (if d = c \<and> map_of (connections cm) c \<noteq> None then queued (writers cm c) (MText m) else writers cm d)"
  by (cases "map_of (connections cm) c")
     (simp_all add: send_to_conn_unknown send_to_conn_known [OF ok] Let_def)

text \<open>A loop that sends to different connections, one after the other.\<close>

lemma send_loop:
  assumes "index_ok cm" and "distinct cs"
  shows "index_ok (foldl (\<lambda>cm c. send_to_conn cm c m) cm cs)"
    and "map_of (connections (foldl (\<lambda>cm c. send_to_conn cm c m) cm cs)) d =
      (if d \<in> set cs \<and> stuck (writers cm d) then None else map_of (connections cm) d)"
    and "writers (foldl (\<lambda>cm c. send_to_conn cm c m) cm cs) d =
      (if d \<in> set cs \<and> map_of (connections cm) d \<noteq> None then queued (writers cm d) (MText m) else writers cm d)"
  using assms
proof (induction cs arbitrary: cm)
  case Nil
  { case 1 then show ?case by simp }
  { case 2 then show ?case by simp }
  { case 3 then show ?case by simp }
next
  case (Cons c cs)
  { case 1
    then show ?case using Cons.IH(1) [OF send_to_conn_ok] by simp }
  { case 2
    then have "c \<notin> set cs" by simp
    then show ?case using 2 Cons.IH(2) [OF send_to_conn_ok, of cm c]
      by (auto simp: send_to_conn_table send_to_conn_queue) }
  { case 3
    then have "c \<notin> set cs" by simp
    then show ?case using 3 Cons.IH(3) [OF send_to_conn_ok, of cm c]
      by (auto simp: send_to_conn_table send_to_conn_queue) }
qed

text \<open>The connections an audience and a predicate select.\<close>

definition selected :: "manager \<Rightarrow> Audience \<Rightarrow> (Connection \<Rightarrow> bool) \<Rightarrow> uuid \<Rightarrow> bool" where
  "selected cm audience P c \<longleftrightarrow>
     audience_includes audience c \<and> (case map_of (connections cm) c of Some k \<Rightarrow> P k | None \<Rightarrow> False)"

lemma selected_known: "selected cm audience P c \<Longrightarrow> map_of (connections cm) c \<noteq> None"
  by (cases "map_of (connections cm) c") (simp_all add: selected_def)

text \<open>
  The delivery of a message to a set of connections: each takes the message when it can and is dropped otherwise; every other
  connection is untouched.
\<close>

definition delivered_to :: "manager \<Rightarrow> (uuid \<Rightarrow> bool) \<Rightarrow> rstr \<Rightarrow> manager \<Rightarrow> bool" where
  "delivered_to cm R m cm' \<longleftrightarrow> index_ok cm'
     \<and> (\<forall>c. map_of (connections cm') c = (if R c \<and> stuck (writers cm c) then None else map_of (connections cm) c))
     \<and> (\<forall>c. writers cm' c = (if R c then queued (writers cm c) (MText m) else writers cm c))"

lemma fan_out_delivers:
  assumes ok: "index_ok cm"
  shows "delivered_to cm (selected cm audience P) m (fan_out_to cm audience m P)"
proof -
  let ?ts = "map fst (filter (\<lambda>(k, c). audience_includes audience k \<and> P c) (connections cm))"
  have d: "distinct ?ts" using index_okD(1) [OF ok] by (rule distinct_map_filter)
  have "(c, k) \<in> set (connections cm) \<longleftrightarrow> map_of (connections cm) c = Some k" for c k
    using index_okD(1) [OF ok] by (auto dest: map_of_SomeD)
  then have t: "c \<in> set ?ts \<longleftrightarrow> selected cm audience P c" for c
    by (auto simp: selected_def image_iff split: option.splits)
  show ?thesis
    using send_loop [OF ok d, of m] selected_known [of cm audience P]
    unfolding delivered_to_def fan_out_to_def Let_def t by auto
qed

lemma send_to_user_delivers:
  assumes ok: "index_ok cm"
  shows "delivered_to cm (selected cm audience (\<lambda>k. cn_user_id k = u)) m (send_to_user cm audience u m)"
proof -
  let ?ts = "filter (audience_includes audience) (conns_of_user cm u)"
  have d: "distinct ?ts" using index_okD(4) [OF ok] by simp
  have t: "c \<in> set ?ts \<longleftrightarrow> selected cm audience (\<lambda>k. cn_user_id k = u) c" for c
    using index_okD(5) [OF ok, of u] by (auto simp: selected_def in_owned split: option.splits)
  show ?thesis
    using send_loop [OF ok d, of m] selected_known [of cm audience "\<lambda>k. cn_user_id k = u"] unfolding delivered_to_def send_to_user_def t by auto
qed

section \<open>A node's run\<close>

text \<open>
  Every call that changes the manager, as the socket tasks and the event consumer of a node make them, in any
  order. \<open>Connect\<close> is the start of \<open>handle_ws\<close>: a new identifier, a new queue, and the
  connection added; \<open>Reply\<close> is the task's own \<open>tx.try_send\<close>; \<open>Turn\<close> is a turn of a writer task and \<open>Abort\<close> its
  end when the socket's task aborts it.
\<close>

datatype manager_op =
    Connect uuid uuid "uuid option"
  | Disconnect uuid
  | SubscribeWorkspace uuid uuid
  | JoinChannel uuid uuid
  | LeaveChannel uuid uuid
  | JoinHuddle uuid uuid
  | LeaveHuddle uuid uuid
  | LeaveChannelForUser uuid uuid
  | LeaveWorkspaceForUser uuid uuid
  | ToChannel Audience uuid rstr
  | ToWorkspace Audience uuid rstr
  | ToHuddle Audience uuid rstr
  | ToAll Audience rstr
  | ToUser Audience uuid rstr
  | ToConn uuid rstr
  | ToWorkspaceMembers "uuid list" rstr
  | DisconnectUser uuid "uuid option" rstr
  | Reply uuid ws_message
  | Turn uuid bool
  | Abort uuid

definition connect :: "manager \<Rightarrow> uuid \<Rightarrow> uuid \<Rightarrow> uuid option \<Rightarrow> manager" where
  "connect cm conn_id user_id jti =
     (if map_of (connections cm) conn_id \<noteq> None then cm
      else fst (add_connection (cm\<lparr>writers := (writers cm)(conn_id := new_writer)\<rparr>) conn_id user_id jti conn_id))"

definition abort_writer :: "manager \<Rightarrow> uuid \<Rightarrow> manager" where
  "abort_writer cm h = cm\<lparr>writers := (writers cm)(h := (writers cm h)\<lparr>wr_queue := [], wr_closed := True\<rparr>)\<rparr>"

fun manager_step :: "manager \<Rightarrow> manager_op \<Rightarrow> manager" where
  "manager_step cm (Connect c u jti) = connect cm c u jti"
| "manager_step cm (Disconnect c) = fst (remove_connection cm c)"
| "manager_step cm (SubscribeWorkspace c w) = subscribe_workspace cm c w"
| "manager_step cm (JoinChannel c ch) = join_channel cm c ch"
| "manager_step cm (LeaveChannel c ch) = leave_channel cm c ch"
| "manager_step cm (JoinHuddle c h) = join_huddle cm c h"
| "manager_step cm (LeaveHuddle c h) = leave_huddle cm c h"
| "manager_step cm (LeaveChannelForUser u ch) = leave_channel_for_user cm u ch"
| "manager_step cm (LeaveWorkspaceForUser u w) = leave_workspace_for_user cm u w"
| "manager_step cm (ToChannel a ch m) = broadcast_to_channel cm a ch m"
| "manager_step cm (ToWorkspace a w m) = broadcast_to_workspace cm a w m"
| "manager_step cm (ToHuddle a h m) = broadcast_to_huddle cm a h m"
| "manager_step cm (ToAll a m) = broadcast_to_all cm a m"
| "manager_step cm (ToUser a u m) = send_to_user cm a u m"
| "manager_step cm (ToConn c m) = send_to_conn cm c m"
| "manager_step cm (ToWorkspaceMembers ws m) = send_to_workspace_members cm ws m"
| "manager_step cm (DisconnectUser u jti reason) = disconnect_user_except cm u jti reason"
| "manager_step cm (Reply h m) = fst (send_on cm h m)"
| "manager_step cm (Turn h socket_ok) = cm\<lparr>writers := (writers cm)(h := writer_turn socket_ok (writers cm h))\<rparr>"
| "manager_step cm (Abort h) = abort_writer cm h"

definition manager_ok :: "manager \<Rightarrow> bool" where
  "manager_ok cm \<longleftrightarrow> index_ok cm \<and> queues_ok cm"

lemma queued_length: "length (wr_queue q) \<le> WRITER_CHANNEL_CAP \<Longrightarrow> length (wr_queue (queued q m)) \<le> WRITER_CHANNEL_CAP"
  by (auto simp: queued_def stuck_def)

lemma writer_turn_length: "length (wr_queue (writer_turn b q)) \<le> length (wr_queue q)"
  by (auto simp: writer_turn_def split: list.splits)

lemma delivered_ok: "delivered_to cm R m cm' \<Longrightarrow> manager_ok cm \<Longrightarrow> manager_ok cm'"
  by (auto simp: delivered_to_def manager_ok_def queues_ok_def queued_length)

lemma with_conn_ok:
  assumes "manager_ok cm" and "\<And>k. cn_user_id (f k) = cn_user_id k" "\<And>k. cn_sender (f k) = cn_sender k"
  shows "manager_ok (with_conn cm c f)"
  using assms by (simp add: manager_ok_def queues_ok_def index_ok_with_conn)

lemmas subscription_defs = subscribe_workspace_def join_channel_def leave_channel_def leave_workspace_def join_huddle_def
  leave_huddle_def

lemma foldl_keeps: "(\<And>s x. P s \<Longrightarrow> P (f s x)) \<Longrightarrow> P s \<Longrightarrow> P (foldl f s xs)"
  by (induction xs arbitrary: s) auto

lemma send_on_ok: "manager_ok cm \<Longrightarrow> manager_ok (fst (send_on cm h m))"
proof -
  assume ok: "manager_ok cm"
  have "fst (send_on cm h m) = cm\<lparr>writers := (writers cm)(h := queued (writers cm h) m)\<rparr>"
    by (rule manager.equality) simp_all
  then show ?thesis using ok unfolding manager_ok_def queues_ok_def by (simp only: index_ok_writers) (simp add: queued_length)
qed

lemma send_to_conn_delivers:
  assumes "index_ok cm"
  shows "delivered_to cm (\<lambda>d. d = c \<and> map_of (connections cm) c \<noteq> None) m (send_to_conn cm c m)"
  using assms send_to_conn_ok [OF assms] send_to_conn_table [OF assms] send_to_conn_queue [OF assms]
  by (auto simp: delivered_to_def)

lemma connect_ok: "manager_ok cm \<Longrightarrow> manager_ok (connect cm c u jti)"
  by (auto simp: connect_def manager_ok_def queues_ok_def add_connection_def new_writer_def Let_def
      intro: add_connection_ok [of "cm\<lparr>writers := w\<rparr>" c for w, unfolded add_connection_def Let_def, simplified])

lemma manager_step_ok:
  assumes ok: "manager_ok cm"
  shows "manager_ok (manager_step cm op')"
proof -
  have i: "index_ok cm" using ok by (simp add: manager_ok_def)
  note D = delivered_ok [OF fan_out_delivers [OF i] ok] delivered_ok [OF send_to_user_delivers [OF i] ok]
    delivered_ok [OF send_to_conn_delivers [OF i] ok]
  show ?thesis
  proof (cases op')
    case (Connect c u jti)
    then show ?thesis using connect_ok [OF ok] by simp
  next
    case (Disconnect c)
    then show ?thesis using ok by (simp add: manager_ok_def queues_ok_def remove_connection_ok)
  next
    case (LeaveChannelForUser u ch)
    then show ?thesis unfolding manager_step.simps LeaveChannelForUser leave_channel_for_user_def
      by (intro foldl_keeps [of manager_ok] ok) (simp add: leave_channel_def with_conn_ok)
  next
    case (LeaveWorkspaceForUser u w)
    then show ?thesis unfolding manager_step.simps LeaveWorkspaceForUser leave_workspace_for_user_def
      by (intro foldl_keeps [of manager_ok] ok) (simp add: leave_workspace_def with_conn_ok)
  next
    case (DisconnectUser u jti reason)
    then show ?thesis unfolding manager_step.simps DisconnectUser disconnect_user_except_def
      by (intro foldl_keeps [of manager_ok] ok) (simp add: send_on_ok split: option.split)
  next
    case (Turn h b)
    then show ?thesis using ok writer_turn_length [of b "writers cm h"]
      by (auto simp: manager_ok_def queues_ok_def intro: le_trans)
  next
    case (Abort h)
    then show ?thesis using ok by (auto simp: manager_ok_def queues_ok_def abort_writer_def)
  qed (use ok D in \<open>simp_all add: subscription_defs with_conn_ok send_on_ok broadcast_to_channel_def broadcast_to_workspace_def
      broadcast_to_huddle_def broadcast_to_all_def send_to_workspace_members_def fan_out_def\<close>)
qed

lemma new_manager_ok: "manager_ok new_manager"
  by (simp add: manager_ok_def queues_ok_def new_manager_def new_writer_def index_ok_def conns_of_user_def owned_def)

interpretation node: stepped new_manager manager_step manager_ok
  by unfold_locales (rule new_manager_ok, rule manager_step_ok)

section \<open>What a node guarantees\<close>

text \<open>The invariant, of every state a node reaches.\<close>

lemma reached_index: "index_ok (run manager_step new_manager ops)"
  using node.inv_run [of ops] by (simp add: manager_ok_def)

text \<open>
  C20. After any sequence of calls the index from users to connections is exact: a user has an entry if and only if one of their
  sockets is open, it lists those sockets and each of them once, and no queue holds more than its capacity of messages.
\<close>

theorem connections_index_exact:
  "let cm = run manager_step new_manager ops in
     (\<forall>u. has_local_connection cm u \<longleftrightarrow> owned cm u \<noteq> {})
     \<and> (\<forall>u. distinct (conns_of_user cm u) \<and> set (conns_of_user cm u) = owned cm u)
     \<and> (\<forall>h. length (wr_queue (writers cm h)) \<le> 256)"
proof -
  let ?cm = "run manager_step new_manager ops"
  note D = index_okD [OF reached_index [of ops]]
  have "has_local_connection ?cm u \<longleftrightarrow> conns_of_user ?cm u \<noteq> []" for u
    by (simp add: has_local_connection_def conns_of_user_def split: option.split)
  moreover have "conns_of_user ?cm u \<noteq> [] \<longleftrightarrow> owned ?cm u \<noteq> {}" for u
    using D(5) [of u] by (metis set_empty)
  moreover have "queues_ok ?cm" using node.inv_run [of ops] by (simp add: manager_ok_def)
  ultimately show ?thesis using D(4,5) by (simp add: Let_def queues_ok_def WRITER_CHANNEL_CAP_def)
qed

text \<open>
  C21. A broadcast reaches exactly the connections of its audience that are subscribed: each gets the message once, at the end of
  its queue, or, when its writer has ended or its queue is full, is dropped from the node and gets nothing; every other connection
  keeps its queue and its place.
\<close>

theorem broadcast_reaches_subscribers:
  "let cm = run manager_step new_manager ops in
     delivered_to cm (selected cm audience (\<lambda>k. x \<in> set (subscribed_channels k))) m (broadcast_to_channel cm audience x m)
     \<and> delivered_to cm (selected cm audience (\<lambda>k. x \<in> set (subscribed_workspaces k))) m (broadcast_to_workspace cm audience x m)
     \<and> delivered_to cm (selected cm audience (\<lambda>k. x \<in> set (subscribed_huddles k))) m (broadcast_to_huddle cm audience x m)"
  unfolding Let_def broadcast_to_channel_def broadcast_to_workspace_def broadcast_to_huddle_def
  by (intro conjI fan_out_delivers reached_index)

text \<open>
  Sending to a user through the index is the same as scanning every connection for that user: the same sockets stay, with
  the same queues, and the same users stay connected.
\<close>

theorem send_to_user_is_scan:
  "let cm = run manager_step new_manager ops; a = send_to_user cm audience u m;
       b = fan_out_to cm audience m (\<lambda>k. cn_user_id k = u) in
     map_of (connections a) = map_of (connections b) \<and> writers a = writers b
     \<and> (\<forall>v. set (conns_of_user a v) = set (conns_of_user b v))"
proof -
  let ?cm = "run manager_step new_manager ops"
  let ?a = "send_to_user ?cm audience u m" and ?b = "fan_out_to ?cm audience m (\<lambda>k. cn_user_id k = u)"
  note A = send_to_user_delivers [OF reached_index, of ops audience u m, unfolded delivered_to_def]
    and B = fan_out_delivers [OF reached_index, of ops audience "\<lambda>k. cn_user_id k = u" m, unfolded delivered_to_def]
  have t: "map_of (connections ?a) = map_of (connections ?b)" "writers ?a = writers ?b"
    using A B by (auto simp: fun_eq_iff)
  then have "owned ?a v = owned ?b v" for v by (simp only: owned_def)
  then have "set (conns_of_user ?a v) = set (conns_of_user ?b v)" for v
    using index_okD(5) A B by metis
  with t show ?thesis by (simp add: Let_def)
qed

section \<open>The abstract node\<close>

text \<open>
  What the node is meant to be: a map from open sockets to sessions, a session being its user and what it is subscribed to. It has no
  index and no queues; the sockets that cannot take a message are an input.
\<close>

record session =
  se_user :: uuid
  se_workspaces :: "uuid set"
  se_channels :: "uuid set"
  se_huddles :: "uuid set"

type_synonym sessions = "uuid \<Rightarrow> session option"

definition drop_stuck :: "sessions \<Rightarrow> (uuid \<Rightarrow> bool) \<Rightarrow> (uuid \<Rightarrow> session \<Rightarrow> bool) \<Rightarrow> sessions" where
  "drop_stuck S st R c = (case S c of Some s \<Rightarrow> if R c s \<and> st c then None else Some s | None \<Rightarrow> None)"

definition alter :: "sessions \<Rightarrow> uuid \<Rightarrow> (session \<Rightarrow> session) \<Rightarrow> sessions" where
  "alter S c f = S(c := map_option f (S c))"

fun node_spec :: "sessions \<Rightarrow> (uuid \<Rightarrow> bool) \<Rightarrow> manager_op \<Rightarrow> sessions" where
  "node_spec S st (Connect c u _) =
     (if S c \<noteq> None then S
      else S(c \<mapsto> \<lparr>se_user = u, se_workspaces = {}, se_channels = {}, se_huddles = {}\<rparr>))"
| "node_spec S st (Disconnect c) = S(c := None)"
| "node_spec S st (SubscribeWorkspace c w) = alter S c (\<lambda>s. s\<lparr>se_workspaces := insert w (se_workspaces s)\<rparr>)"
| "node_spec S st (JoinChannel c ch) = alter S c (\<lambda>s. s\<lparr>se_channels := insert ch (se_channels s)\<rparr>)"
| "node_spec S st (LeaveChannel c ch) = alter S c (\<lambda>s. s\<lparr>se_channels := se_channels s - {ch}\<rparr>)"
| "node_spec S st (JoinHuddle c h) = alter S c (\<lambda>s. s\<lparr>se_huddles := insert h (se_huddles s)\<rparr>)"
| "node_spec S st (LeaveHuddle c h) = alter S c (\<lambda>s. s\<lparr>se_huddles := se_huddles s - {h}\<rparr>)"
| "node_spec S st (LeaveChannelForUser u ch) =
     (\<lambda>c. map_option (\<lambda>s. if se_user s = u then s\<lparr>se_channels := se_channels s - {ch}\<rparr> else s) (S c))"
| "node_spec S st (LeaveWorkspaceForUser u w) =
     (\<lambda>c. map_option (\<lambda>s. if se_user s = u then s\<lparr>se_workspaces := se_workspaces s - {w}\<rparr> else s) (S c))"
| "node_spec S st (ToChannel a ch _) = drop_stuck S st (\<lambda>c s. audience_includes a c \<and> ch \<in> se_channels s)"
| "node_spec S st (ToWorkspace a w _) = drop_stuck S st (\<lambda>c s. audience_includes a c \<and> w \<in> se_workspaces s)"
| "node_spec S st (ToHuddle a h _) = drop_stuck S st (\<lambda>c s. audience_includes a c \<and> h \<in> se_huddles s)"
| "node_spec S st (ToAll a _) = drop_stuck S st (\<lambda>c s. audience_includes a c)"
| "node_spec S st (ToUser a u _) = drop_stuck S st (\<lambda>c s. audience_includes a c \<and> se_user s = u)"
| "node_spec S st (ToConn d _) = drop_stuck S st (\<lambda>c s. c = d)"
| "node_spec S st (ToWorkspaceMembers ws _) = drop_stuck S st (\<lambda>c s. se_workspaces s \<inter> set ws \<noteq> {})"
| "node_spec S st (DisconnectUser _ _ _) = S"
| "node_spec S st (Reply _ _) = S"
| "node_spec S st (Turn _ _) = S"
| "node_spec S st (Abort _) = S"

definition session_of :: "Connection \<Rightarrow> session" where
  "session_of k = \<lparr>se_user = cn_user_id k, se_workspaces = set (subscribed_workspaces k),
     se_channels = set (subscribed_channels k), se_huddles = set (subscribed_huddles k)\<rparr>"

definition abs_node :: "manager \<Rightarrow> sessions" where
  "abs_node cm c = map_option session_of (map_of (connections cm) c)"

lemma session_user [simp]: "se_user (session_of k) = cn_user_id k"
  by (simp add: session_of_def)

lemma abs_with_conn: "(\<And>k. session_of (f k) = g (session_of k)) \<Longrightarrow> abs_node (with_conn cm c f) = alter (abs_node cm) c g"
  by (auto simp: abs_node_def alter_def fun_eq_iff option.map_comp o_def)

lemma abs_delivered:
  assumes "delivered_to cm R m cm'"
    and "\<And>c k. map_of (connections cm) c = Some k \<Longrightarrow> R c \<longleftrightarrow> Q c (session_of k)"
  shows "abs_node cm' = drop_stuck (abs_node cm) (\<lambda>c. stuck (writers cm c)) Q"
proof
  fix c
  show "abs_node cm' c = drop_stuck (abs_node cm) (\<lambda>c. stuck (writers cm c)) Q c"
    using assms(1) assms(2) [of c] by (cases "map_of (connections cm) c") (auto simp: delivered_to_def abs_node_def drop_stuck_def)
qed

lemma abs_fan_out:
  assumes "index_ok cm" and "\<And>c k. map_of (connections cm) c = Some k \<Longrightarrow> audience_includes a c \<and> P k \<longleftrightarrow> Q c (session_of k)"
  shows "abs_node (fan_out_to cm a m P) = drop_stuck (abs_node cm) (\<lambda>c. stuck (writers cm c)) Q"
  by (rule abs_delivered [OF fan_out_delivers [OF assms(1)]]) (use assms(2) in \<open>auto simp: selected_def\<close>)

lemma foldl_with_conn:
  assumes "distinct cs"
  shows "map_of (connections (foldl (\<lambda>cm c. with_conn cm c f) cm cs)) d =
    (if d \<in> set cs then map_option f (map_of (connections cm) d) else map_of (connections cm) d)"
  using assms by (induction cs arbitrary: cm) auto

lemma abs_for_user:
  assumes ok: "index_ok cm" and f: "\<And>k. session_of (f k) = g (session_of k)"
  shows "abs_node (foldl (\<lambda>cm c. with_conn cm c f) cm (conns_of_user cm u))
    = (\<lambda>c. map_option (\<lambda>s. if se_user s = u then g s else s) (abs_node cm c))"
proof
  fix c
  show "abs_node (foldl (\<lambda>cm c. with_conn cm c f) cm (conns_of_user cm u)) c
    = map_option (\<lambda>s. if se_user s = u then g s else s) (abs_node cm c)"
    unfolding abs_node_def foldl_with_conn [OF index_okD(4) [OF ok]] index_okD(5) [OF ok] in_owned
    by (cases "map_of (connections cm) c") (auto simp: f)
qed

lemma disconnect_connections [simp]: "connections (disconnect_user_except cm u jti reason) = connections cm"
  unfolding disconnect_user_except_def
  by (rule foldl_keeps [of "\<lambda>x. connections x = connections cm"]) (auto split: option.splits)

lemma manager_step_refines:
  assumes ok: "index_ok cm"
  shows "abs_node (manager_step cm op') = node_spec (abs_node cm) (\<lambda>c. stuck (writers cm c)) op'"
proof (cases op')
  case (Connect c u jti)
  then show ?thesis
    by (auto simp: connect_def add_connection_def Let_def abs_node_def fun_eq_iff update_conv' session_of_def)
next
  case (Disconnect c)
  then show ?thesis by (simp add: abs_node_def fun_eq_iff)
next
  case (LeaveChannelForUser u ch)
  then show ?thesis using abs_for_user [OF ok]
    by (simp add: leave_channel_for_user_def leave_channel_def session_of_def)
next
  case (LeaveWorkspaceForUser u ch)
  then show ?thesis using abs_for_user [OF ok]
    by (simp add: leave_workspace_for_user_def leave_workspace_def session_of_def)
next
  case (ToUser a u m)
  then show ?thesis
    by (simp add: abs_delivered [OF send_to_user_delivers [OF ok]] selected_def session_of_def)
next
  case (ToConn c m)
  show ?thesis unfolding ToConn manager_step.simps node_spec.simps
    by (rule abs_delivered [OF send_to_conn_delivers [OF ok]]) auto
next
  case (ToWorkspaceMembers ws m)
  show ?thesis
    unfolding ToWorkspaceMembers send_to_workspace_members_def fan_out_def manager_step.simps node_spec.simps
    by (intro abs_fan_out [OF ok]) (auto simp: session_of_def list_ex_iff)
next
  case (SubscribeWorkspace c w)
  show ?thesis unfolding SubscribeWorkspace manager_step.simps node_spec.simps subscription_defs
    by (rule abs_with_conn) (simp add: session_of_def)
next
  case (JoinChannel c w)
  show ?thesis unfolding JoinChannel manager_step.simps node_spec.simps subscription_defs
    by (rule abs_with_conn) (simp add: session_of_def)
next
  case (LeaveChannel c w)
  show ?thesis unfolding LeaveChannel manager_step.simps node_spec.simps subscription_defs
    by (rule abs_with_conn) (simp add: session_of_def)
next
  case (JoinHuddle c w)
  show ?thesis unfolding JoinHuddle manager_step.simps node_spec.simps subscription_defs
    by (rule abs_with_conn) (simp add: session_of_def)
next
  case (LeaveHuddle c w)
  show ?thesis unfolding LeaveHuddle manager_step.simps node_spec.simps subscription_defs
    by (rule abs_with_conn) (simp add: session_of_def)
next
  case (ToChannel a w m)
  show ?thesis unfolding ToChannel manager_step.simps node_spec.simps broadcast_to_channel_def
    by (rule abs_fan_out [OF ok]) (simp add: session_of_def)
next
  case (ToWorkspace a w m)
  show ?thesis unfolding ToWorkspace manager_step.simps node_spec.simps broadcast_to_workspace_def
    by (rule abs_fan_out [OF ok]) (simp add: session_of_def)
next
  case (ToHuddle a w m)
  show ?thesis unfolding ToHuddle manager_step.simps node_spec.simps broadcast_to_huddle_def
    by (rule abs_fan_out [OF ok]) (simp add: session_of_def)
next
  case (ToAll a m)
  show ?thesis unfolding ToAll manager_step.simps node_spec.simps broadcast_to_all_def
    by (rule abs_fan_out [OF ok]) simp
qed (simp_all add: abs_node_def fun_eq_iff abort_writer_def)

text \<open>
  C22. A node refines the map of sessions: after any calls, the next call changes the sessions the way the
  specification says, with the sockets that cannot take a message being those whose queue is full or whose writer has ended.
\<close>

theorem node_refines_sessions:
  "let cm = run manager_step new_manager ops in
     abs_node new_manager = Map.empty
     \<and> abs_node (manager_step cm op') = node_spec (abs_node cm) (\<lambda>c. stuck (writers cm c)) op'"
  by (simp add: Let_def manager_step_refines [OF reached_index]) (simp add: abs_node_def new_manager_def fun_eq_iff)

section \<open>Ending sessions\<close>

definition revoked :: "manager \<Rightarrow> uuid \<Rightarrow> uuid option \<Rightarrow> uuid \<Rightarrow> bool" where
  "revoked cm u except_jti =
     selected cm Everyone (\<lambda>k. cn_user_id k = u \<and> (except_jti = None \<or> cn_token_jti k \<noteq> except_jti))"

lemma disconnect_loop:
  assumes ok: "index_ok cm" and d: "distinct cs"
  shows "writers (foldl (\<lambda>cm conn_id.
         case map_of (connections cm) conn_id of
           None \<Rightarrow> cm
         | Some conn \<Rightarrow>
             if except_jti \<noteq> None \<and> cn_token_jti conn = except_jti then cm
             else fst (send_on cm (cn_sender conn) m)) cm cs) c =
    (if c \<in> set cs \<and> selected cm Everyone (\<lambda>k. except_jti = None \<or> cn_token_jti k \<noteq> except_jti) c
     then queued (writers cm c) m else writers cm c)"
  using assms
proof (induction cs arbitrary: cm)
  case Nil
  then show ?case by simp
next
  case (Cons e cs)
  let ?cm = "case map_of (connections cm) e of None \<Rightarrow> cm | Some conn \<Rightarrow>
     if except_jti \<noteq> None \<and> cn_token_jti conn = except_jti then cm else fst (send_on cm (cn_sender conn) m)"
  have t: "connections ?cm = connections cm" "user_connections ?cm = user_connections cm" by (auto split: option.split)
  have ok': "index_ok ?cm" by (rule index_ok_same_tables [OF Cons.prems(1) t])
  have w: "writers ?cm c = (if c = e \<and> selected cm Everyone (\<lambda>k. except_jti = None \<or> cn_token_jti k \<noteq> except_jti) c
     then queued (writers cm c) m else writers cm c)"
    using sender_own [OF Cons.prems(1), of e] by (auto simp: selected_def split: option.split)
  have s: "selected ?cm Everyone P c = selected cm Everyone P c" for P by (simp add: selected_def t)
  show ?case using Cons.IH [OF ok'] Cons.prems(2) w unfolding foldl.simps s by auto
qed

lemma disconnect_writers:
  assumes ok: "index_ok cm"
  shows "writers (disconnect_user_except cm u jti reason) c =
    (if revoked cm u jti c then queued (writers cm c) (MClose SESSION_REVOKED_CLOSE_CODE reason) else writers cm c)"
proof -
  have "c \<in> set (conns_of_user cm u) \<and> selected cm Everyone (\<lambda>k. jti = None \<or> cn_token_jti k \<noteq> jti) c \<longleftrightarrow> revoked cm u jti c"
    unfolding index_okD(5) [OF ok] in_owned revoked_def selected_def by (cases "map_of (connections cm) c") auto
  then show ?thesis
    unfolding disconnect_user_except_def disconnect_loop [OF ok index_okD(4) [OF ok]] by simp
qed

lemma writer_turn_closed [simp]: "wr_closed q \<Longrightarrow> (writer_turn b ^^ n) q = q"
  by (induction n) (simp_all add: writer_turn_def)

text \<open>A close frame in the queue ends the writer once it has worked through what stands before it.\<close>

lemma close_frame_ends_writer:
  assumes "m \<in> set (wr_queue q)" and "is_close m"
  shows "wr_closed ((writer_turn True ^^ length (wr_queue q)) q)"
  using assms
proof (induction "wr_queue q" arbitrary: q)
  case Nil
  then show ?case by simp
next
  case (Cons x xs)
  note q = Cons.hyps(2) [symmetric]
  show ?case
  proof (cases "wr_closed q \<or> is_close x")
    case True
    then have "wr_closed (writer_turn True q)" using q by (auto simp: writer_turn_def)
    then show ?thesis by (simp add: q funpow_swap1)
  next
    case False
    then have t: "wr_queue (writer_turn True q) = xs" by (simp add: writer_turn_def q)
    have "m \<in> set (wr_queue (writer_turn True q))" using Cons.prems False unfolding t by (auto simp: q)
    from Cons.hyps(1) [OF t [symmetric] this Cons.prems(2)]
    show ?thesis unfolding t by (simp add: q funpow_swap1)
  qed
qed

text \<open>
  C23. Revoking a user's sessions, minus the spared one, queues the close frame on every socket of the user whose queue can take
  it, and such a socket's writer has ended after at most as many turns as it has messages; all other sockets are untouched. A socket
  whose queue is full is not told and not removed: it stays on the node with its subscriptions.
\<close>

theorem revoked_sockets_close:
  "let cm = run manager_step new_manager ops; cm' = disconnect_user_except cm u except_jti reason in
     connections cm' = connections cm
     \<and> (\<forall>c. writers cm' c = (if revoked cm u except_jti c
                              then queued (writers cm c) (MClose SESSION_REVOKED_CLOSE_CODE reason) else writers cm c))
     \<and> (\<forall>q. stuck q \<or> wr_closed ((writer_turn True ^^ Suc (length (wr_queue q)))
                                    (queued q (MClose SESSION_REVOKED_CLOSE_CODE reason))))"
proof -
  have "stuck q \<or> wr_closed ((writer_turn True ^^ Suc (length (wr_queue q))) (queued q (MClose n reason)))" for q n
    using close_frame_ends_writer [of "MClose n reason" "q\<lparr>wr_queue := wr_queue q @ [MClose n reason]\<rparr>"]
    by (simp add: queued_def is_close_def)
  then show ?thesis by (simp add: Let_def disconnect_writers [OF reached_index])
qed

end
