(* ===== verification/Event_Consumer.thy ===== *)
theory Event_Consumer
  imports Connections
begin

text \<open>
  What a realtime node does with an event of the system: the frames it sends (\<open>src/backend/shared/events/src/frames.rs\<close>), the routing
  of every event to the sockets that may see it (\<open>src/backend/realtime/src/event_consumer.rs\<close>) and the replay of
  a workspace's log to a client that reconnects (\<open>src/backend/realtime/src/replay.rs\<close>). Reading and writing of JSON and identifiers
  is the record \<open>wire\<close>, a parameter. Calls that go to Redis are \<open>effect\<close>s.
\<close>

section \<open>Frames\<close>

datatype Presence = Online | Away | Offline

definition presence_str :: "Presence \<Rightarrow> rstr" where
  "presence_str p = (case p of Online \<Rightarrow> lit ''online'' | Away \<Rightarrow> lit ''away'' | Offline \<Rightarrow> lit ''offline'')"

definition presence_parse :: "rstr \<Rightarrow> Presence option" where
  "presence_parse s =
     (if s = lit ''online'' then Some Online else if s = lit ''away'' then Some Away
      else if s = lit ''offline'' then Some Offline else None)"

datatype HuddleTransport = Mesh | Sfu

record PresenceEntry =
  pe_user_id :: uuid
  pe_status :: Presence

datatype (plugins only: code) ServerFrame =
    Hello uuid uuid
  | Pong
  | SyncComplete uuid nat "rstr option"
  | SyncRefetchRequired uuid
  | PresenceBatch "PresenceEntry list"
  | PresenceChanged uuid Presence
  | TypingIndicator uuid uuid bool
  | MessageNew json "uuid list"
  | MessageUpdated json
  | MessageDeleted uuid uuid
  | MessagePinned uuid uuid bool
  | ReactionAdded uuid json
  | ReactionRemoved uuid uuid uuid rstr
  | WorkspaceDeleted uuid rstr
  | WorkspaceRestored uuid
  | WorkspaceEmojiChanged uuid
  | Notification "uuid option" "uuid option" "uuid option" "uuid option" "uuid option" "uuid option" rstr "rstr option" "rstr option"
  | ConversationCreated uuid uuid rstr "uuid option" int int uuid "uuid list"
  | HuddleMemberJoined uuid uuid
  | HuddleMemberLeft uuid uuid
  | HuddleMembers uuid "uuid list" HuddleTransport
  | HuddleTransportFrame uuid HuddleTransport
  | HuddleFull uuid nat
  | HuddleMute uuid uuid bool
  | HuddleCamera uuid uuid bool
  | HuddleScreenshare uuid uuid bool
  | HuddleReaction uuid uuid rstr
  | HuddleHand uuid uuid bool
  | HuddleOffer uuid uuid uuid json
  | HuddleAnswer uuid uuid uuid json
  | HuddleIce uuid uuid uuid json
  | HuddleRing uuid uuid uuid uuid "uuid option"
  | HuddleStarted uuid uuid "uuid option" "uuid option" uuid
  | HuddleEnded uuid uuid "uuid option" "uuid option" "uuid option"
  | ChannelReadState uuid "uuid option" int int "uuid option"
  | CommandResponse uuid rstr rstr rstr
  | LaterUpdated uuid
  | ThreadReadState uuid uuid bool int
  | ChannelUpdated uuid uuid bool
  | ChannelAccessRevoked uuid "uuid option"
  | WorkspaceAccessRevoked uuid
  | WorkspaceJoined uuid
  | WorkspaceMembersChanged uuid
  | ListUpserted uuid "uuid option" json
  | ListDeleted uuid "uuid option"
  | ListColumnsChanged uuid "uuid option" json bool
  | ListViewsChanged uuid "uuid option" json
  | ListItemUpserted uuid "uuid option" json
  | ListItemDeleted uuid "uuid option" uuid
  | ListCommentUpserted uuid "uuid option" uuid json
  | ListCommentDeleted uuid "uuid option" uuid uuid

text \<open>
  \<open>serde_json\<close> and \<open>uuid\<close>: reading an identifier and a JSON text, \<open>to_value\<close> and \<open>to_string\<close> of a frame,
  \<open>to_string\<close> of a value, \<open>from_value\<close> to a frame, and the stored event read back to its type and payload.
\<close>

record wire =
  wi_uuid :: "rstr \<Rightarrow> uuid option"
  wi_uuid_str :: "uuid \<Rightarrow> rstr"
  wi_json :: "rstr \<Rightarrow> json option"
  wi_frame_value :: "ServerFrame \<Rightarrow> json"
  wi_frame_text :: "ServerFrame \<Rightarrow> rstr"
  wi_text :: "json \<Rightarrow> rstr"
  wi_from_value :: "json \<Rightarrow> ServerFrame option"
  wi_event :: "rstr \<Rightarrow> (rstr \<times> json) option"

definition from_event :: "wire \<Rightarrow> rstr \<Rightarrow> json \<Rightarrow> ServerFrame option" where
  "from_event R event_type payload =
     wi_from_value R
       (case payload of JObject obj \<Rightarrow> JObject (AList.update (lit ''type'') (JString event_type) obj) | _ \<Rightarrow> payload)"

section \<open>Routing\<close>

datatype effect =
    PresenceSync uuid
  | PresenceLeaveWorkspace uuid uuid
  | PresenceSetOnline uuid "uuid list"
  | PresenceArrived uuid
  | PresenceSettle uuid Presence
  | PublishPresence uuid Presence
  | PublishTyping uuid uuid bool
  | PublishHuddle rstr json
  | ActivitySet uuid uuid bool
  | HuddleRedisJoin uuid uuid
  | PresenceClear uuid "uuid list"

definition framed :: "wire \<Rightarrow> rstr option \<Rightarrow> ServerFrame \<Rightarrow> rstr" where
  "framed R stream_id frame =
     wi_text R (case (stream_id, wi_frame_value R frame) of
       (Some i, JObject obj) \<Rightarrow> JObject (AList.update (lit ''stream_id'') (JString i) obj)
     | (_, value) \<Rightarrow> value)"

definition ev_field :: "wire \<Rightarrow> json \<Rightarrow> string \<Rightarrow> uuid option" where
  "ev_field R payload name =
     Option.bind (json_get payload (lit name)) (\<lambda>v. Option.bind (as_str v) (wi_uuid R))"

definition ev_text :: "json \<Rightarrow> string \<Rightarrow> rstr option" where
  "ev_text payload name = Option.bind (json_get payload (lit name)) as_str"

definition ev_flag :: "json \<Rightarrow> string \<Rightarrow> bool" where
  "ev_flag payload name = (case Option.bind (json_get payload (lit name)) as_bool of Some b \<Rightarrow> b | None \<Rightarrow> False)"

definition or_empty :: "rstr option \<Rightarrow> rstr" where
  "or_empty s = (case s of Some t \<Rightarrow> t | None \<Rightarrow> [])"

definition ev_ids :: "wire \<Rightarrow> json \<Rightarrow> string \<Rightarrow> uuid list" where
  "ev_ids R payload name =
     (case Option.bind (json_get payload (lit name)) as_array of
        Some ids \<Rightarrow> List.map_filter (wi_uuid R) (List.map_filter as_str ids)
      | None \<Rightarrow> [])"

definition participant_ids :: "wire \<Rightarrow> json \<Rightarrow> uuid list" where
  "participant_ids R payload = ev_ids R payload ''participant_ids''"

definition ev_count :: "json \<Rightarrow> string \<Rightarrow> int" where
  "ev_count payload name =
     (case Option.bind (json_get payload (lit name)) as_i64 of
        Some v \<Rightarrow> if - (2 ^ 31) \<le> v \<and> v < 2 ^ 31 then v else 0
      | None \<Rightarrow> 0)"

text \<open>Events about the messages of a channel: they go to the channel's subscribers.\<close>

definition on_message_created :: "wire \<Rightarrow> Audience \<Rightarrow> rstr option \<Rightarrow> json \<Rightarrow> manager \<Rightarrow> manager" where
  "on_message_created R audience sid payload cm =
     (case ev_field R payload ''channel_id'' of
        Some ch_id \<Rightarrow> broadcast_to_channel cm audience ch_id
          (framed R sid (MessageNew payload (ev_ids R payload ''mentioned_user_ids'')))
      | None \<Rightarrow> cm)"

definition on_message_updated :: "wire \<Rightarrow> Audience \<Rightarrow> rstr option \<Rightarrow> json \<Rightarrow> manager \<Rightarrow> manager" where
  "on_message_updated R audience sid payload cm =
     (case ev_field R payload ''channel_id'' of
        Some ch_id \<Rightarrow> broadcast_to_channel cm audience ch_id (framed R sid (MessageUpdated payload))
      | None \<Rightarrow> cm)"

definition on_message_deleted :: "wire \<Rightarrow> Audience \<Rightarrow> rstr option \<Rightarrow> json \<Rightarrow> manager \<Rightarrow> manager" where
  "on_message_deleted R audience sid payload cm =
     (case (ev_field R payload ''channel_id'', ev_field R payload ''message_id'') of
        (Some channel_id, Some message_id) \<Rightarrow>
          broadcast_to_channel cm audience channel_id (framed R sid (MessageDeleted message_id channel_id))
      | _ \<Rightarrow> cm)"

definition on_message_pinned :: "wire \<Rightarrow> Audience \<Rightarrow> rstr option \<Rightarrow> json \<Rightarrow> manager \<Rightarrow> manager" where
  "on_message_pinned R audience sid payload cm =
     (case (ev_field R payload ''channel_id'', ev_field R payload ''message_id'') of
        (Some channel_id, Some message_id) \<Rightarrow>
          broadcast_to_channel cm audience channel_id
            (framed R sid (MessagePinned message_id channel_id (ev_flag payload ''pinned'')))
      | _ \<Rightarrow> cm)"

definition on_reaction_added :: "wire \<Rightarrow> Audience \<Rightarrow> rstr option \<Rightarrow> json \<Rightarrow> manager \<Rightarrow> manager" where
  "on_reaction_added R audience sid payload cm =
     (case (ev_field R payload ''channel_id'', ev_field R payload ''message_id'') of
        (Some ch_id, Some message_id) \<Rightarrow>
          broadcast_to_channel cm audience ch_id (framed R sid (ReactionAdded message_id payload))
      | _ \<Rightarrow> cm)"

definition on_reaction_removed :: "wire \<Rightarrow> Audience \<Rightarrow> rstr option \<Rightarrow> json \<Rightarrow> manager \<Rightarrow> manager" where
  "on_reaction_removed R audience sid payload cm =
     (case (ev_field R payload ''channel_id'', ev_field R payload ''message_id'', ev_field R payload ''user_id'') of
        (Some channel_id, Some message_id, Some user_id) \<Rightarrow>
          broadcast_to_channel cm audience channel_id
            (framed R sid (ReactionRemoved message_id channel_id user_id (or_empty (ev_text payload ''emoji''))))
      | _ \<Rightarrow> cm)"

definition on_typing :: "wire \<Rightarrow> Audience \<Rightarrow> rstr option \<Rightarrow> json \<Rightarrow> manager \<Rightarrow> manager" where
  "on_typing R audience sid payload cm =
     (case (ev_field R payload ''user_id'', ev_field R payload ''channel_id'') of
        (Some user_id, Some channel_id) \<Rightarrow>
          broadcast_to_channel cm audience channel_id
            (framed R sid (TypingIndicator channel_id user_id (ev_flag payload ''is_typing'')))
      | _ \<Rightarrow> cm)"

definition on_channel_updated :: "wire \<Rightarrow> Audience \<Rightarrow> rstr option \<Rightarrow> json \<Rightarrow> manager \<Rightarrow> manager" where
  "on_channel_updated R audience sid payload cm =
     (case (ev_field R payload ''channel_id'', ev_field R payload ''workspace_id'') of
        (Some channel_id, Some workspace_id) \<Rightarrow>
          broadcast_to_channel cm audience channel_id
            (framed R sid (ChannelUpdated channel_id workspace_id (ev_flag payload ''is_archived'')))
      | _ \<Rightarrow> cm)"

text \<open>Events about a workspace.\<close>

definition on_workspace_deleted :: "wire \<Rightarrow> Audience \<Rightarrow> rstr option \<Rightarrow> json \<Rightarrow> manager \<Rightarrow> manager" where
  "on_workspace_deleted R audience sid payload cm =
     (case ev_field R payload ''workspace_id'' of
        Some workspace_id \<Rightarrow> broadcast_to_workspace cm audience workspace_id
          (framed R sid (WorkspaceDeleted workspace_id (or_empty (ev_text payload ''delete_type''))))
      | None \<Rightarrow> cm)"

definition on_workspace_restored :: "wire \<Rightarrow> Audience \<Rightarrow> rstr option \<Rightarrow> json \<Rightarrow> manager \<Rightarrow> manager" where
  "on_workspace_restored R audience sid payload cm =
     (case ev_field R payload ''workspace_id'' of
        Some workspace_id \<Rightarrow> broadcast_to_all cm audience (framed R sid (WorkspaceRestored workspace_id))
      | None \<Rightarrow> cm)"

definition on_emoji_changed :: "wire \<Rightarrow> Audience \<Rightarrow> rstr option \<Rightarrow> json \<Rightarrow> manager \<Rightarrow> manager" where
  "on_emoji_changed R audience sid payload cm =
     (case ev_field R payload ''workspace_id'' of
        Some workspace_id \<Rightarrow>
          broadcast_to_workspace cm audience workspace_id (framed R sid (WorkspaceEmojiChanged workspace_id))
      | None \<Rightarrow> cm)"

definition on_channel_member_removed :: "wire \<Rightarrow> Audience \<Rightarrow> rstr option \<Rightarrow> json \<Rightarrow> manager \<Rightarrow> manager" where
  "on_channel_member_removed R audience sid payload cm =
     (case (ev_field R payload ''user_id'', ev_field R payload ''channel_id'') of
        (Some uid, Some ch_id) \<Rightarrow>
          send_to_user (leave_channel_for_user cm uid ch_id) audience uid
            (framed R sid (ChannelAccessRevoked ch_id (ev_field R payload ''workspace_id'')))
      | _ \<Rightarrow> cm)"

definition on_workspace_member_removed ::
  "wire \<Rightarrow> Audience \<Rightarrow> rstr option \<Rightarrow> json \<Rightarrow> manager \<Rightarrow> manager \<times> effect list" where
  "on_workspace_member_removed R audience sid payload cm =
     (case (ev_field R payload ''user_id'', ev_field R payload ''workspace_id'') of
        (Some uid, Some ws_id) \<Rightarrow>
          let cm1 = leave_workspace_for_user cm uid ws_id;
              cm2 = send_to_user cm1 audience uid (framed R sid (WorkspaceAccessRevoked ws_id))
          in (broadcast_to_workspace cm2 audience ws_id (framed R sid (WorkspaceMembersChanged ws_id)),
              [PresenceLeaveWorkspace uid ws_id])
      | _ \<Rightarrow> (cm, []))"

definition on_workspace_member_joined :: "wire \<Rightarrow> Audience \<Rightarrow> rstr option \<Rightarrow> json \<Rightarrow> manager \<Rightarrow> manager" where
  "on_workspace_member_joined R audience sid payload cm =
     (case (ev_field R payload ''user_id'', ev_field R payload ''workspace_id'') of
        (Some uid, Some ws_id) \<Rightarrow>
          broadcast_to_workspace (send_to_user cm audience uid (framed R sid (WorkspaceJoined ws_id)))
            audience ws_id (framed R sid (WorkspaceMembersChanged ws_id))
      | _ \<Rightarrow> cm)"

text \<open>Events for one user.\<close>

definition on_notification :: "wire \<Rightarrow> Audience \<Rightarrow> rstr option \<Rightarrow> json \<Rightarrow> manager \<Rightarrow> manager" where
  "on_notification R audience sid payload cm =
     (case ev_field R payload ''user_id'' of
        Some uid \<Rightarrow> send_to_user cm audience uid
          (framed R sid (Notification (ev_field R payload ''workspace_id'') (ev_field R payload ''channel_id'')
             (ev_field R payload ''message_id'') (ev_field R payload ''thread_parent_id'') (ev_field R payload ''list_id'')
             (ev_field R payload ''item_id'') (or_empty (ev_text payload ''title'')) (ev_text payload ''body'')
             (ev_text payload ''kind'')))
      | None \<Rightarrow> cm)"

definition on_read_state :: "wire \<Rightarrow> Audience \<Rightarrow> rstr option \<Rightarrow> json \<Rightarrow> manager \<Rightarrow> manager" where
  "on_read_state R audience sid payload cm =
     (case (ev_field R payload ''user_id'', ev_field R payload ''channel_id'') of
        (Some uid, Some channel_id) \<Rightarrow> send_to_user cm audience uid
          (framed R sid (ChannelReadState channel_id (ev_field R payload ''workspace_id'')
             (ev_count payload ''unread_count'') (ev_count payload ''mention_count'')
             (ev_field R payload ''last_read_message_id'')))
      | _ \<Rightarrow> cm)"

definition on_command_response :: "wire \<Rightarrow> Audience \<Rightarrow> rstr option \<Rightarrow> json \<Rightarrow> manager \<Rightarrow> manager" where
  "on_command_response R audience sid payload cm =
     (case (ev_field R payload ''user_id'', ev_field R payload ''channel_id'') of
        (Some uid, Some channel_id) \<Rightarrow> send_to_user cm audience uid
          (framed R sid (CommandResponse channel_id (or_empty (ev_text payload ''command''))
             (or_empty (ev_text payload ''response_type'')) (or_empty (ev_text payload ''text''))))
      | _ \<Rightarrow> cm)"

definition on_later_updated :: "wire \<Rightarrow> Audience \<Rightarrow> rstr option \<Rightarrow> json \<Rightarrow> manager \<Rightarrow> manager" where
  "on_later_updated R audience sid payload cm =
     (case (ev_field R payload ''user_id'', ev_field R payload ''workspace_id'') of
        (Some uid, Some workspace_id) \<Rightarrow> send_to_user cm audience uid (framed R sid (LaterUpdated workspace_id))
      | _ \<Rightarrow> cm)"

definition on_thread_read_state :: "wire \<Rightarrow> Audience \<Rightarrow> rstr option \<Rightarrow> json \<Rightarrow> manager \<Rightarrow> manager" where
  "on_thread_read_state R audience sid payload cm =
     (case (ev_field R payload ''user_id'', ev_field R payload ''root_message_id'', ev_field R payload ''workspace_id'') of
        (Some uid, Some root_message_id, Some workspace_id) \<Rightarrow> send_to_user cm audience uid
          (framed R sid (ThreadReadState root_message_id workspace_id (ev_flag payload ''following'')
             (ev_count payload ''unread_count'')))
      | _ \<Rightarrow> cm)"

definition on_conversation_created :: "wire \<Rightarrow> Audience \<Rightarrow> rstr option \<Rightarrow> rstr \<Rightarrow> json \<Rightarrow> manager \<Rightarrow> manager" where
  "on_conversation_created R audience sid event_type payload cm =
     (case from_event R event_type payload of
        Some frame \<Rightarrow>
          foldl (\<lambda>cm participant. send_to_user cm audience participant (framed R sid frame)) cm (participant_ids R payload)
      | None \<Rightarrow> cm)"

definition on_user_suspended :: "wire \<Rightarrow> json \<Rightarrow> manager \<Rightarrow> manager" where
  "on_user_suspended R payload cm =
     (case ev_field R payload ''user_id'' of
        Some uid \<Rightarrow> disconnect_user cm uid (lit ''account suspended'')
      | None \<Rightarrow> cm)"

definition on_session_revoked :: "wire \<Rightarrow> json \<Rightarrow> manager \<Rightarrow> manager" where
  "on_session_revoked R payload cm =
     (case ev_field R payload ''user_id'' of
        Some uid \<Rightarrow> disconnect_user_except cm uid (ev_field R payload ''except_jti'')
          (case ev_text payload ''reason'' of Some r \<Rightarrow> r | None \<Rightarrow> lit ''session revoked'')
      | None \<Rightarrow> cm)"

text \<open>Presence, huddles and lists.\<close>

definition on_presence_changed :: "wire \<Rightarrow> rstr option \<Rightarrow> json \<Rightarrow> manager \<Rightarrow> manager" where
  "on_presence_changed R sid payload cm =
     (case (ev_field R payload ''user_id'', Option.bind (ev_text payload ''status'') presence_parse) of
        (Some subject_id, Some status) \<Rightarrow>
          send_to_workspace_members cm (ev_ids R payload ''workspace_ids'') (framed R sid (PresenceChanged subject_id status))
      | _ \<Rightarrow> cm)"

definition on_presence_recompute :: "wire \<Rightarrow> json \<Rightarrow> manager \<Rightarrow> effect list" where
  "on_presence_recompute R payload cm =
     (case ev_field R payload ''user_id'' of
        Some user_id \<Rightarrow> if has_local_connection cm user_id then [PresenceSync user_id] else []
      | None \<Rightarrow> [])"

definition on_huddle_room :: "wire \<Rightarrow> Audience \<Rightarrow> rstr option \<Rightarrow> rstr \<Rightarrow> json \<Rightarrow> manager \<Rightarrow> manager" where
  "on_huddle_room R audience sid event_type payload cm =
     (case (ev_field R payload ''huddle_id'', from_event R event_type payload) of
        (Some hid, Some frame) \<Rightarrow> broadcast_to_huddle cm audience hid (framed R sid frame)
      | _ \<Rightarrow> cm)"

definition on_huddle_signal :: "wire \<Rightarrow> Audience \<Rightarrow> rstr option \<Rightarrow> rstr \<Rightarrow> json \<Rightarrow> manager \<Rightarrow> manager" where
  "on_huddle_signal R audience sid event_type payload cm =
     (case (ev_field R payload ''to_user_id'', from_event R event_type payload) of
        (Some to_id, Some frame) \<Rightarrow> send_to_user cm audience to_id (framed R sid frame)
      | _ \<Rightarrow> cm)"

definition on_huddle_ring :: "wire \<Rightarrow> Audience \<Rightarrow> rstr option \<Rightarrow> rstr \<Rightarrow> json \<Rightarrow> manager \<Rightarrow> manager" where
  "on_huddle_ring R audience sid event_type payload cm =
     (if Option.bind (json_get payload (lit ''quiet'')) as_bool = Some True then cm
      else on_huddle_signal R audience sid event_type payload cm)"

definition on_huddle_lifecycle :: "wire \<Rightarrow> Audience \<Rightarrow> rstr option \<Rightarrow> rstr \<Rightarrow> json \<Rightarrow> manager \<Rightarrow> manager" where
  "on_huddle_lifecycle R audience sid event_type payload cm =
     (case from_event R event_type payload of
        None \<Rightarrow> cm
      | Some frame \<Rightarrow>
          let msg = framed R sid frame in
          case ev_field R payload ''channel_id'' of
            Some ch_id \<Rightarrow> broadcast_to_channel cm audience ch_id msg
          | None \<Rightarrow>
              let cm1 = (case ev_field R payload ''initiator_id'' of
                           Some init \<Rightarrow> send_to_user cm audience init msg | None \<Rightarrow> cm)
              in (case ev_field R payload ''dm_partner_id'' of
                    Some partner \<Rightarrow> send_to_user cm1 audience partner msg | None \<Rightarrow> cm1))"

definition on_list_event :: "wire \<Rightarrow> Audience \<Rightarrow> rstr option \<Rightarrow> rstr \<Rightarrow> json \<Rightarrow> manager \<Rightarrow> manager" where
  "on_list_event R audience sid event_type payload cm =
     (case from_event R event_type payload of
        None \<Rightarrow> cm
      | Some frame \<Rightarrow>
          (case (ev_field R payload ''channel_id'', ev_field R payload ''owner_id'') of
             (Some channel_id, _) \<Rightarrow> broadcast_to_channel cm audience channel_id (framed R sid frame)
           | (None, Some owner_id) \<Rightarrow> send_to_user cm audience owner_id (framed R sid frame)
           | (None, None) \<Rightarrow> cm))"

text \<open>The dispatch on the event's type.\<close>

datatype event_kind =
    OnMessageCreated | OnMessageUpdated | OnMessageDeleted | OnMessagePinned | OnReactionAdded | OnReactionRemoved
  | OnWorkspaceDeleted | OnWorkspaceRestored | OnEmojiChanged | OnNotification | OnPresenceChanged | OnPresenceRecompute
  | OnTyping | OnConversationCreated | OnHuddleRoom | OnHuddleRing | OnHuddleSignal | OnHuddleLifecycle | OnReadState
  | OnCommandResponse | OnLaterUpdated | OnThreadReadState | OnChannelUpdated | OnChannelMemberRemoved
  | OnWorkspaceMemberRemoved | OnWorkspaceMemberJoined | OnListEvent | OnUserSuspended | OnSessionRevoked | OnOther

definition event_kinds :: "(string \<times> event_kind) list" where
  "event_kinds =
     [(''message.created'', OnMessageCreated), (''message.updated'', OnMessageUpdated),
      (''message.deleted'', OnMessageDeleted), (''message.pinned'', OnMessagePinned),
      (''reaction.added'', OnReactionAdded), (''reaction.removed'', OnReactionRemoved),
      (''workspace.deleted'', OnWorkspaceDeleted), (''workspace.restored'', OnWorkspaceRestored),
      (''workspace.emoji_changed'', OnEmojiChanged), (''notification.push'', OnNotification),
      (''presence.changed'', OnPresenceChanged), (''presence.recompute'', OnPresenceRecompute),
      (''typing.indicator'', OnTyping), (''conversation.created'', OnConversationCreated),
      (''huddle.member_joined'', OnHuddleRoom), (''huddle.member_left'', OnHuddleRoom), (''huddle.mute'', OnHuddleRoom),
      (''huddle.camera'', OnHuddleRoom), (''huddle.screenshare'', OnHuddleRoom), (''huddle.reaction'', OnHuddleRoom),
      (''huddle.hand'', OnHuddleRoom), (''huddle.transport'', OnHuddleRoom), (''huddle.ring'', OnHuddleRing),
      (''huddle.offer'', OnHuddleSignal), (''huddle.answer'', OnHuddleSignal), (''huddle.ice'', OnHuddleSignal),
      (''huddle.started'', OnHuddleLifecycle), (''huddle.ended'', OnHuddleLifecycle),
      (''channel.read_state'', OnReadState), (''command.response'', OnCommandResponse),
      (''later.updated'', OnLaterUpdated), (''thread.read_state'', OnThreadReadState),
      (''channel.updated'', OnChannelUpdated), (''channel.member_removed'', OnChannelMemberRemoved),
      (''workspace.member_removed'', OnWorkspaceMemberRemoved), (''workspace.member_joined'', OnWorkspaceMemberJoined),
      (''list.upserted'', OnListEvent), (''list.deleted'', OnListEvent), (''list.columns_changed'', OnListEvent),
      (''list.views_changed'', OnListEvent), (''list.item_upserted'', OnListEvent), (''list.item_deleted'', OnListEvent),
      (''list.comment_upserted'', OnListEvent), (''list.comment_deleted'', OnListEvent),
      (''user.suspended'', OnUserSuspended), (''session.revoked'', OnSessionRevoked)]"

definition event_kind :: "rstr \<Rightarrow> event_kind" where
  "event_kind s = (case List.find (\<lambda>(n, _). lit n = s) event_kinds of Some (_, k) \<Rightarrow> k | None \<Rightarrow> OnOther)"

fun handle_kind ::
  "event_kind \<Rightarrow> wire \<Rightarrow> Audience \<Rightarrow> rstr \<Rightarrow> json \<Rightarrow> rstr option \<Rightarrow> manager \<Rightarrow> manager \<times> effect list" where
  "handle_kind OnMessageCreated R audience event_type payload sid cm = (on_message_created R audience sid payload cm, [])"
| "handle_kind OnMessageUpdated R audience event_type payload sid cm = (on_message_updated R audience sid payload cm, [])"
| "handle_kind OnMessageDeleted R audience event_type payload sid cm = (on_message_deleted R audience sid payload cm, [])"
| "handle_kind OnMessagePinned R audience event_type payload sid cm = (on_message_pinned R audience sid payload cm, [])"
| "handle_kind OnReactionAdded R audience event_type payload sid cm = (on_reaction_added R audience sid payload cm, [])"
| "handle_kind OnReactionRemoved R audience event_type payload sid cm = (on_reaction_removed R audience sid payload cm, [])"
| "handle_kind OnWorkspaceDeleted R audience event_type payload sid cm = (on_workspace_deleted R audience sid payload cm, [])"
| "handle_kind OnWorkspaceRestored R audience event_type payload sid cm = (on_workspace_restored R audience sid payload cm, [])"
| "handle_kind OnEmojiChanged R audience event_type payload sid cm = (on_emoji_changed R audience sid payload cm, [])"
| "handle_kind OnNotification R audience event_type payload sid cm = (on_notification R audience sid payload cm, [])"
| "handle_kind OnPresenceChanged R audience event_type payload sid cm = (on_presence_changed R sid payload cm, [])"
| "handle_kind OnPresenceRecompute R audience event_type payload sid cm = (cm, on_presence_recompute R payload cm)"
| "handle_kind OnTyping R audience event_type payload sid cm = (on_typing R audience sid payload cm, [])"
| "handle_kind OnConversationCreated R audience event_type payload sid cm = (on_conversation_created R audience sid event_type payload cm, [])"
| "handle_kind OnHuddleRoom R audience event_type payload sid cm = (on_huddle_room R audience sid event_type payload cm, [])"
| "handle_kind OnHuddleRing R audience event_type payload sid cm = (on_huddle_ring R audience sid event_type payload cm, [])"
| "handle_kind OnHuddleSignal R audience event_type payload sid cm = (on_huddle_signal R audience sid event_type payload cm, [])"
| "handle_kind OnHuddleLifecycle R audience event_type payload sid cm = (on_huddle_lifecycle R audience sid event_type payload cm, [])"
| "handle_kind OnReadState R audience event_type payload sid cm = (on_read_state R audience sid payload cm, [])"
| "handle_kind OnCommandResponse R audience event_type payload sid cm = (on_command_response R audience sid payload cm, [])"
| "handle_kind OnLaterUpdated R audience event_type payload sid cm = (on_later_updated R audience sid payload cm, [])"
| "handle_kind OnThreadReadState R audience event_type payload sid cm = (on_thread_read_state R audience sid payload cm, [])"
| "handle_kind OnChannelUpdated R audience event_type payload sid cm = (on_channel_updated R audience sid payload cm, [])"
| "handle_kind OnChannelMemberRemoved R audience event_type payload sid cm = (on_channel_member_removed R audience sid payload cm, [])"
| "handle_kind OnWorkspaceMemberRemoved R audience event_type payload sid cm = on_workspace_member_removed R audience sid payload cm"
| "handle_kind OnWorkspaceMemberJoined R audience event_type payload sid cm = (on_workspace_member_joined R audience sid payload cm, [])"
| "handle_kind OnListEvent R audience event_type payload sid cm = (on_list_event R audience sid event_type payload cm, [])"
| "handle_kind OnUserSuspended R audience event_type payload sid cm = (on_user_suspended R payload cm, [])"
| "handle_kind OnSessionRevoked R audience event_type payload sid cm = (on_session_revoked R payload cm, [])"
| "handle_kind OnOther R audience event_type payload sid cm = (cm, [])"

definition handle_event_for ::
  "wire \<Rightarrow> Audience \<Rightarrow> rstr \<Rightarrow> json \<Rightarrow> rstr option \<Rightarrow> manager \<Rightarrow> manager \<times> effect list" where
  "handle_event_for R audience event_type payload sid cm =
     handle_kind (event_kind event_type) R audience event_type payload sid cm"

section \<open>Replay\<close>

definition REPLAY_MAX_EVENTS :: nat where
  "REPLAY_MAX_EVENTS = 1000"

definition replays_to_clients :: "rstr \<Rightarrow> bool" where
  "replays_to_clients event_type \<longleftrightarrow> event_type \<noteq> lit ''huddle.ring''"

datatype Replay = Caught nat "rstr option" | RefetchRequired

text \<open>\<open>str::parse::<u64>\<close>: an optional plus sign and at least one decimal digit, within 64 bits.\<close>

definition parse_u64 :: "rstr \<Rightarrow> int option" where
  "parse_u64 s =
     (let d = (case s of c # cs \<Rightarrow> if c = 43 then cs else s | [] \<Rightarrow> s)
      in if d \<noteq> [] \<and> list_all is_ascii_digit d
         then let n = foldl (\<lambda>n c. 10 * n + (int c - 48)) 0 d in if n < 2 ^ 64 then Some n else None
         else None)"

definition parse_id :: "rstr \<Rightarrow> (int \<times> int) option" where
  "parse_id i =
     Option.bind (split_once i 45) (\<lambda>(ms, sq).
     Option.bind (parse_u64 ms) (\<lambda>m. Option.bind (parse_u64 sq) (\<lambda>s. Some (m, s))))"

definition is_older :: "rstr \<Rightarrow> rstr \<Rightarrow> bool" where
  "is_older a b =
     (case (parse_id a, parse_id b) of
        (Some (m, s), Some (m', s')) \<Rightarrow> m < m' \<or> m = m' \<and> s < s'
      | _ \<Rightarrow> False)"

text \<open>
  The two questions a replay asks Redis, answered or failed: the oldest entry of the stream, and up to \<open>n\<close> entries behind a
  position. An entry is its position and its field \<open>event\<close>, if it has one.
\<close>

record stream_api =
  sa_oldest :: "uuid \<Rightarrow> unit + rstr option"
  sa_after :: "uuid \<Rightarrow> rstr \<Rightarrow> nat \<Rightarrow> unit + (rstr \<times> rstr option) list"
  sa_tail :: "uuid \<Rightarrow> rstr option"

fun replay_loop ::
  "wire \<Rightarrow> uuid \<Rightarrow> (rstr \<times> rstr option) list \<Rightarrow> manager \<times> effect list \<Rightarrow> nat \<Rightarrow> rstr option
     \<Rightarrow> (manager \<times> effect list) \<times> Replay" where
  "replay_loop R conn_id [] st delivered last_id = (st, Caught delivered last_id)"
| "replay_loop R conn_id ((i, body) # entries) st delivered last_id =
     (case Option.bind body (wi_event R) of
        None \<Rightarrow> replay_loop R conn_id entries st delivered last_id
      | Some (event_type, payload) \<Rightarrow>
          if \<not> replays_to_clients event_type then replay_loop R conn_id entries st delivered (Some i)
          else let (cm1, es) = handle_event_for R (OnlyConnection conn_id) event_type payload (Some i) (fst st)
               in replay_loop R conn_id entries (cm1, snd st @ es) (delivered + 1) (Some i))"

definition replay_workspace ::
  "wire \<Rightarrow> stream_api \<Rightarrow> uuid \<Rightarrow> uuid \<Rightarrow> rstr \<Rightarrow> manager \<Rightarrow> (manager \<times> effect list) \<times> Replay" where
  "replay_workspace R Q conn_id workspace_id last_event_id cm =
     (case sa_oldest Q workspace_id of
        Inl _ \<Rightarrow> ((cm, []), RefetchRequired)
      | Inr oldest \<Rightarrow>
          if (case oldest of Some o' \<Rightarrow> is_older last_event_id o' | None \<Rightarrow> False) then ((cm, []), RefetchRequired)
          else case sa_after Q workspace_id last_event_id (REPLAY_MAX_EVENTS + 1) of
            Inl _ \<Rightarrow> ((cm, []), RefetchRequired)
          | Inr entries \<Rightarrow>
              if REPLAY_MAX_EVENTS < length entries then ((cm, []), RefetchRequired)
              else replay_loop R conn_id entries (cm, []) 0 None)"

section \<open>What an event can change\<close>

text \<open>
  Handling an event is a sequence of calls of the manager that deliver messages, close sockets or end subscriptions, and
  never one that opens a socket or adds a subscription.
\<close>

fun grants :: "manager_op \<Rightarrow> bool" where
  "grants (Connect _ _ _) = True"
| "grants (SubscribeWorkspace _ _) = True"
| "grants (JoinChannel _ _) = True"
| "grants (JoinHuddle _ _) = True"
| "grants _ = False"

definition routes :: "manager \<Rightarrow> manager \<Rightarrow> bool" where
  "routes cm cm' \<longleftrightarrow> (\<exists>ops. cm' = run manager_step cm ops \<and> list_all (\<lambda>x. \<not> grants x) ops)"

named_theorems routing \<open>calls that are routed without a grant\<close>

lemma routes_refl [routing]: "routes cm cm"
  unfolding routes_def by (rule exI [of _ "[]"]) simp

lemma routes_trans: "routes cm cm1 \<Longrightarrow> routes cm1 cm2 \<Longrightarrow> routes cm cm2"
  unfolding routes_def by (metis list_all_append run_append)

lemma routes_step:
  assumes "routes cm cm1" and "\<not> grants x"
  shows "routes cm (manager_step cm1 x)"
proof (rule routes_trans [OF assms(1)])
  show "routes cm1 (manager_step cm1 x)"
    unfolding routes_def by (rule exI [of _ "[x]"]) (simp add: assms(2))
qed

lemma routes_calls [routing]:
  assumes "routes cm cm1"
  shows "routes cm (broadcast_to_channel cm1 a x m)" "routes cm (broadcast_to_workspace cm1 a x m)"
    "routes cm (broadcast_to_huddle cm1 a x m)" "routes cm (broadcast_to_all cm1 a m)" "routes cm (send_to_user cm1 a x m)"
    "routes cm (send_to_conn cm1 x m)" "routes cm (send_to_workspace_members cm1 xs m)"
    "routes cm (leave_channel_for_user cm1 x y)" "routes cm (leave_workspace_for_user cm1 x y)"
    "routes cm (disconnect_user_except cm1 x j m)" "routes cm (leave_channel cm1 x y)" "routes cm (leave_huddle cm1 x y)"
  using routes_step [OF assms, of "ToChannel a x m"] routes_step [OF assms, of "ToWorkspace a x m"]
    routes_step [OF assms, of "ToHuddle a x m"] routes_step [OF assms, of "ToAll a m"] routes_step [OF assms, of "ToUser a x m"]
    routes_step [OF assms, of "ToConn x m"] routes_step [OF assms, of "ToWorkspaceMembers xs m"]
    routes_step [OF assms, of "LeaveChannelForUser x y"] routes_step [OF assms, of "LeaveWorkspaceForUser x y"]
    routes_step [OF assms, of "DisconnectUser x j m"] routes_step [OF assms, of "LeaveChannel x y"]
    routes_step [OF assms, of "LeaveHuddle x y"]
  by simp_all

lemma routes_foldl: "(\<And>s x. routes cm s \<Longrightarrow> routes cm (f s x)) \<Longrightarrow> routes cm s \<Longrightarrow> routes cm (foldl f s xs)"
  by (rule foldl_keeps [of "routes cm"])

lemmas on_event_defs = on_message_created_def on_message_updated_def on_message_deleted_def on_message_pinned_def
  on_reaction_added_def on_reaction_removed_def on_typing_def on_channel_updated_def on_workspace_deleted_def
  on_workspace_restored_def on_emoji_changed_def on_channel_member_removed_def on_workspace_member_removed_def
  on_workspace_member_joined_def on_notification_def on_read_state_def on_command_response_def on_later_updated_def
  on_thread_read_state_def on_user_suspended_def on_session_revoked_def on_presence_changed_def
  on_huddle_room_def on_huddle_ring_def on_huddle_signal_def on_huddle_lifecycle_def on_list_event_def

lemma routes_case [routing]:
  "(\<And>x. v = Some x \<Longrightarrow> routes cm (f x)) \<Longrightarrow> routes cm g \<Longrightarrow> routes cm (case v of Some x \<Rightarrow> f x | None \<Rightarrow> g)"
  by (cases v) auto

lemma routes_conversation: "routes cm (on_conversation_created R a sid et p cm)"
  unfolding on_conversation_created_def
  by (auto split: option.split intro!: routing intro: routes_foldl)

lemma routes_kind: "routes cm (fst (handle_kind k R audience et p sid cm))"
  by (cases k; simp only: handle_kind.simps fst_conv on_event_defs disconnect_user_def Let_def prod.case
      split: option.split; auto simp: routing routes_conversation split: option.split)

lemma routes_event: "routes cm (fst (handle_event_for R audience et p sid cm))"
  unfolding handle_event_for_def by (rule routes_kind)

lemma routes_replay_loop:
  "routes cm (fst st) \<Longrightarrow> routes cm (fst (fst (replay_loop R c entries st n l)))"
proof (induction entries arbitrary: st n l)
  case Nil
  then show ?case by simp
next
  case (Cons e entries)
  obtain i body where e: "e = (i, body)" by (cases e)
  have "routes cm (fst (handle_event_for R (OnlyConnection c) et p (Some i) (fst st)))" for et p
    by (rule routes_trans [OF Cons.prems routes_event])
  then show ?case using Cons by (simp add: e split_beta Let_def split: option.split)
qed

lemma routes_replay: "routes cm (fst (fst (replay_workspace R Q c w l cm)))"
  by (auto simp: replay_workspace_def split: sum.split option.split intro!: routes_replay_loop routing)

section \<open>Replay sees what the live path shows\<close>

text \<open>
  Two runs of the same event from states that agree on a connection: one for that connection only, one for everyone. The first must
  leave every other connection alone, and give this one what the second gives it.
\<close>

definition replays_like :: "uuid \<Rightarrow> manager \<Rightarrow> manager \<Rightarrow> manager \<Rightarrow> bool" where
  "replays_like c cm a b \<longleftrightarrow> index_ok a \<and> index_ok b
     \<and> map_of (connections a) c = map_of (connections b) c \<and> writers a c = writers b c
     \<and> (map_of (connections a))(c := None) = (map_of (connections cm))(c := None)
     \<and> (writers a)(c := new_writer) = (writers cm)(c := new_writer)"

named_theorems replaying \<open>calls that keep a replay in step with the live path\<close>

lemma replays_like_start: "index_ok cm \<Longrightarrow> replays_like c cm cm cm"
  by (simp add: replays_like_def)

lemma replays_like_delivered:
  assumes l: "replays_like c cm a b" and a: "delivered_to a S m a'" and b: "delivered_to b T m b'"
    and only: "\<And>d. S d \<Longrightarrow> d = c" and same: "S c \<longleftrightarrow> T c"
  shows "replays_like c cm a' b'"
proof -
  have "map_of (connections a') d = map_of (connections a) d" "writers a' d = writers a d" if "d \<noteq> c" for d
    using a only [of d] that by (auto simp: delivered_to_def)
  then have o: "(map_of (connections a'))(c := None) = (map_of (connections a))(c := None)"
    "(writers a')(c := new_writer) = (writers a)(c := new_writer)" by (auto simp: fun_eq_iff)
  show ?thesis using l a b same o unfolding replays_like_def delivered_to_def by simp
qed

lemma replays_fan_out:
  assumes l: "replays_like c cm a b"
  shows "replays_like c cm (fan_out_to a (OnlyConnection c) m P) (fan_out_to b Everyone m P)"
proof (rule replays_like_delivered [OF l fan_out_delivers fan_out_delivers])
  show "index_ok a" "index_ok b" using l by (simp_all add: replays_like_def)
  show "selected a (OnlyConnection c) P d \<Longrightarrow> d = c" for d by (simp add: selected_def)
  show "selected a (OnlyConnection c) P c = selected b Everyone P c" using l by (simp add: selected_def replays_like_def)
qed

lemma replays_send_to_user [replaying]:
  assumes l: "replays_like c cm a b"
  shows "replays_like c cm (send_to_user a (OnlyConnection c) u m) (send_to_user b Everyone u m)"
proof (rule replays_like_delivered [OF l send_to_user_delivers send_to_user_delivers])
  show "index_ok a" "index_ok b" using l by (simp_all add: replays_like_def)
  show "selected a (OnlyConnection c) P d \<Longrightarrow> d = c" for d P by (simp add: selected_def)
  show "selected a (OnlyConnection c) P c = selected b Everyone P c" for P using l by (simp add: selected_def replays_like_def)
qed

lemma replays_broadcasts [replaying]:
  assumes "replays_like c cm a b"
  shows "replays_like c cm (broadcast_to_channel a (OnlyConnection c) x m) (broadcast_to_channel b Everyone x m)"
    "replays_like c cm (broadcast_to_workspace a (OnlyConnection c) x m) (broadcast_to_workspace b Everyone x m)"
    "replays_like c cm (broadcast_to_huddle a (OnlyConnection c) x m) (broadcast_to_huddle b Everyone x m)"
    "replays_like c cm (broadcast_to_all a (OnlyConnection c) m) (broadcast_to_all b Everyone m)"
  using replays_fan_out [OF assms]
  by (simp_all add: broadcast_to_channel_def broadcast_to_workspace_def broadcast_to_huddle_def broadcast_to_all_def)

lemma replays_foldl:
  assumes "replays_like c cm a b"
  shows "replays_like c cm (foldl (\<lambda>a u. send_to_user a (OnlyConnection c) u m) a us)
    (foldl (\<lambda>b u. send_to_user b Everyone u m) b us)"
  using assms by (induction us arbitrary: a b) (simp_all add: replaying)

text \<open>The events whose handling does not take its audience into account.\<close>

definition unscoped :: "event_kind \<Rightarrow> bool" where
  "unscoped k \<longleftrightarrow> k \<in> {OnChannelMemberRemoved, OnWorkspaceMemberRemoved, OnPresenceChanged, OnUserSuspended, OnSessionRevoked}"

lemma replays_conversation:
  "index_ok cm \<Longrightarrow> replays_like c cm (on_conversation_created R (OnlyConnection c) sid et p cm) (on_conversation_created R Everyone sid et p cm)"
  unfolding on_conversation_created_def
  by (auto split: option.split intro: replays_foldl replays_like_start)

lemma replays_kind:
  assumes "\<not> unscoped k" and ok: "index_ok cm"
  shows "replays_like c cm (fst (handle_kind k R (OnlyConnection c) et p sid cm)) (fst (handle_kind k R Everyone et p sid cm))"
proof -
  note s = replays_like_start [OF ok, of c]
  show ?thesis using assms(1)
    by (cases k; simp only: handle_kind.simps fst_conv on_event_defs Let_def prod.case split: option.split;
        auto simp: unscoped_def replaying s replays_conversation [OF ok] split: option.split)
qed



section \<open>Losing membership\<close>

lemma leave_workspace_for_user_table:
  assumes "index_ok cm"
  shows "map_of (connections (leave_workspace_for_user cm u w)) c = map_option (\<lambda>k. if cn_user_id k = u
    then k\<lparr>subscribed_workspaces := removeAll w (subscribed_workspaces k)\<rparr> else k) (map_of (connections cm) c)"
  unfolding leave_workspace_for_user_def leave_workspace_def foldl_with_conn [OF index_okD(4) [OF assms]]
    index_okD(5) [OF assms] in_owned
  by (cases "map_of (connections cm) c") auto

lemma leave_channel_for_user_table:
  assumes "index_ok cm"
  shows "map_of (connections (leave_channel_for_user cm u ch)) c = map_option (\<lambda>k. if cn_user_id k = u
    then k\<lparr>subscribed_channels := removeAll ch (subscribed_channels k)\<rparr> else k) (map_of (connections cm) c)"
  unfolding leave_channel_for_user_def leave_channel_def foldl_with_conn [OF index_okD(4) [OF assms]]
    index_okD(5) [OF assms] in_owned
  by (cases "map_of (connections cm) c") auto

lemma delivered_selected: "delivered_to cm S m cm' \<Longrightarrow> selected cm' Everyone P d \<Longrightarrow> selected cm Everyone P d"
  by (auto simp: delivered_to_def selected_def split: if_splits)

lemma kind_workspace_removed: "event_kind (lit ''workspace.member_removed'') = OnWorkspaceMemberRemoved"
  and kind_channel_removed: "event_kind (lit ''channel.member_removed'') = OnChannelMemberRemoved"
  by code_simp+

lemma routes_ok: "routes cm cm' \<Longrightarrow> manager_ok cm \<Longrightarrow> manager_ok cm'"
  unfolding routes_def using node.inv_run_from by blast

lemma routes_index: "routes cm cm' \<Longrightarrow> manager_ok cm \<Longrightarrow> index_ok cm'"
  by (drule routes_ok) (simp_all add: manager_ok_def)

lemma workspace_removed_unselected:
  assumes ok: "manager_ok cm" and u: "ev_field R p ''user_id'' = Some u" and w: "ev_field R p ''workspace_id'' = Some w"
  shows "\<not> selected (fst (handle_event_for R a (lit ''workspace.member_removed'') p sid cm)) Everyone
    (\<lambda>k. cn_user_id k = u \<and> w \<in> set (subscribed_workspaces k)) d"
proof -
  let ?P = "\<lambda>k. cn_user_id k = u \<and> w \<in> set (subscribed_workspaces k)"
  let ?a1 = "leave_workspace_for_user cm u w"
  let ?a2 = "send_to_user ?a1 a u (framed R sid (WorkspaceAccessRevoked w))"
  let ?a3 = "broadcast_to_workspace ?a2 a w (framed R sid (WorkspaceMembersChanged w))"
  have ix: "index_ok cm" "index_ok ?a1" "index_ok ?a2" by (rule routes_index [OF _ ok], intro routing)+
  have "\<not> selected ?a1 Everyone ?P d"
    unfolding selected_def leave_workspace_for_user_table [OF ix(1)] by (auto split: option.splits)
  then have "\<not> selected ?a3 Everyone ?P d"
    using delivered_selected [OF fan_out_delivers [OF ix(3)]] delivered_selected [OF send_to_user_delivers [OF ix(2)]]
    unfolding broadcast_to_workspace_def by blast
  then show ?thesis
    unfolding handle_event_for_def kind_workspace_removed handle_kind.simps on_workspace_member_removed_def u w by simp
qed

lemma channel_removed_unselected:
  assumes ok: "manager_ok cm" and u: "ev_field R p ''user_id'' = Some u" and ch: "ev_field R p ''channel_id'' = Some ch"
  shows "\<not> selected (fst (handle_event_for R a (lit ''channel.member_removed'') p sid cm)) Everyone
    (\<lambda>k. cn_user_id k = u \<and> ch \<in> set (subscribed_channels k)) d"
proof -
  let ?P = "\<lambda>k. cn_user_id k = u \<and> ch \<in> set (subscribed_channels k)"
  let ?a1 = "leave_channel_for_user cm u ch"
  have ix: "index_ok cm" "index_ok ?a1" by (rule routes_index [OF _ ok], intro routing)+
  have "\<not> selected ?a1 Everyone ?P d"
    unfolding selected_def leave_channel_for_user_table [OF ix(1)] by (auto split: option.splits)
  then have "\<not> selected (send_to_user ?a1 a u m) Everyone ?P d" for m
    using delivered_selected [OF send_to_user_delivers [OF ix(2)]] by blast
  then show ?thesis
    unfolding handle_event_for_def kind_channel_removed handle_kind.simps on_channel_member_removed_def u ch by simp
qed


definition sample_wire :: wire where
  "sample_wire = \<lparr>wi_uuid = (\<lambda>s. case s of [n] \<Rightarrow> Some (of_nat n) | _ \<Rightarrow> None), wi_uuid_str = (\<lambda>u. [unat u]),
     wi_json = (\<lambda>_. None), wi_frame_value = (\<lambda>_. JNull), wi_frame_text = (\<lambda>_. []), wi_text = (\<lambda>_. []), wi_from_value = (\<lambda>_. None),
     wi_event = (\<lambda>s. Some (s, JNull))\<rparr>"

definition sample_removed :: json where
  "sample_removed = JObject [(lit ''user_id'', JString [9]), (lit ''workspace_id'', JString [5]), (lit ''channel_id'', JString [6])]"


section \<open>A complete replay\<close>

text \<open>The entries of a log that a replay hands over: those that read back as an event that is replayed to clients.\<close>

definition replayable :: "wire \<Rightarrow> (rstr \<times> rstr option) list \<Rightarrow> (rstr \<times> rstr \<times> json) list" where
  "replayable R entries =
     filter (\<lambda>(i, et, p). replays_to_clients et)
       (List.map_filter (\<lambda>(i, body). map_option (Pair i) (Option.bind body (wi_event R))) entries)"

definition hand_over :: "wire \<Rightarrow> uuid \<Rightarrow> manager \<times> effect list \<Rightarrow> rstr \<times> rstr \<times> json \<Rightarrow> manager \<times> effect list" where
  "hand_over R c st e =
     (let (i, et, p) = e; (cm, es) = handle_event_for R (OnlyConnection c) et p (Some i) (fst st) in (cm, snd st @ es))"

lemma replay_loop_hands_over:
  "\<exists>last. replay_loop R c entries st n l = (foldl (hand_over R c) st (replayable R entries), Caught (n + length (replayable R entries)) last)"
proof (induction entries arbitrary: st n l)
  case Nil
  then show ?case by (simp add: replayable_def List.map_filter_simps)
next
  case (Cons e entries)
  obtain i body where e: "e = (i, body)" by (cases e)
  show ?case
  proof (cases "Option.bind body (wi_event R)")
    case None
    then have "replayable R (e # entries) = replayable R entries" by (simp add: replayable_def e List.map_filter_simps)
    then show ?thesis using None Cons by (simp add: e)
  next
    case (Some ep)
    obtain et p where ep: "ep = (et, p)" by (cases ep)
    have r: "replayable R (e # entries) = (if replays_to_clients et then [(i, et, p)] else []) @ replayable R entries"
      using Some by (simp add: replayable_def e ep List.map_filter_simps)
    have step: "replay_loop R c (e # entries) st n l = (if replays_to_clients et
        then replay_loop R c entries (hand_over R c st (i, et, p)) (n + 1) (Some i) else replay_loop R c entries st n (Some i))"
      using Some by (simp add: e ep hand_over_def split_beta Let_def)
    show ?thesis
      unfolding step r using Cons.IH [of st n "Some i"] Cons.IH [of "hand_over R c st (i, et, p)" "n + 1" "Some i"]
      by (cases "replays_to_clients et") simp_all
  qed
qed

text \<open>
  C26. With a log in Redis, whose oldest entry and whose entries behind a position Redis answers, a client whose position is not older
  than the log and that missed at most a thousand entries is handed every event it missed, in the order of the log, once each
  and none but those; undecodable entries and rings are left out. When the position is older, or more was missed, nothing is
  delivered and the client is told to refetch.
\<close>

theorem replay_complete:
  assumes oldest: "sa_oldest Q w = Inr (map_option fst (case log of [] \<Rightarrow> None | e # _ \<Rightarrow> Some e))"
    and after: "sa_after Q w l (REPLAY_MAX_EVENTS + 1) = Inr (take (REPLAY_MAX_EVENTS + 1) (filter (\<lambda>e. is_older l (fst e)) log))"
  shows "let missed = filter (\<lambda>e. is_older l (fst e)) log;
             trimmed = (case log of [] \<Rightarrow> False | e # _ \<Rightarrow> is_older l (fst e))
         in if trimmed \<or> 1000 < length missed then replay_workspace R Q c w l cm = ((cm, []), RefetchRequired)
            else \<exists>last. replay_workspace R Q c w l cm =
                   (foldl (hand_over R c) (cm, []) (replayable R missed), Caught (length (replayable R missed)) last)"
proof -
  let ?missed = "filter (\<lambda>e. is_older l (fst e)) log"
  have len: "REPLAY_MAX_EVENTS < length (take (REPLAY_MAX_EVENTS + 1) ?missed) \<longleftrightarrow> 1000 < length ?missed"
    by (simp add: REPLAY_MAX_EVENTS_def)
  have all: "\<not> 1000 < length ?missed \<Longrightarrow> take (REPLAY_MAX_EVENTS + 1) ?missed = ?missed"
    by (simp add: REPLAY_MAX_EVENTS_def)
  have o: "sa_oldest Q w = Inr x \<Longrightarrow> (case x of Some o' \<Rightarrow> is_older l o' | None \<Rightarrow> False) = (case log of [] \<Rightarrow> False | e # _ \<Rightarrow> is_older l (fst e))"
    for x using oldest by (auto split: list.splits)
  show ?thesis
    using o [OF oldest] replay_loop_hands_over [of R c ?missed "(cm, [])" 0 None]
    unfolding replay_workspace_def oldest after Let_def sum.case len using all by auto
qed

definition sample_log :: "(rstr \<times> rstr option) list" where
  "sample_log = [(lit ''1-0'', Some (lit ''message.created'')), (lit ''2-0'', Some (lit ''huddle.ring'')),
     (lit ''3-0'', Some (lit ''list.deleted''))]"

definition sample_stream :: stream_api where
  "sample_stream = \<lparr>sa_oldest = (\<lambda>_. Inr (Some (lit ''1-0''))),
     sa_after = (\<lambda>_ l n. Inr (take n (filter (\<lambda>e. is_older l (fst e)) sample_log))), sa_tail = (\<lambda>_. None)\<rparr>"

theorem replay_complete_witness:
  "\<exists>st last. replay_workspace sample_wire sample_stream 1 5 (lit ''1-0'') new_manager = (st, Caught 1 last)"
proof -
  let ?missed = "filter (\<lambda>e. is_older (lit ''1-0'') (fst e)) sample_log"
  have t: "(case sample_log of [] \<Rightarrow> False | e # _ \<Rightarrow> is_older (lit ''1-0'') (fst e)) = False" by code_simp
  have m: "length ?missed = 2" by code_simp
  have r: "length (replayable sample_wire ?missed) = 1" by code_simp
  have o: "sa_oldest sample_stream 5 = Inr (map_option fst (case sample_log of [] \<Rightarrow> None | e # _ \<Rightarrow> Some e))"
    by (simp add: sample_stream_def sample_log_def)
  have a: "sa_after sample_stream 5 (lit ''1-0'') (REPLAY_MAX_EVENTS + 1) = Inr (take (REPLAY_MAX_EVENTS + 1) ?missed)"
    by (simp only: sample_stream_def stream_api.simps)
  have "\<not> (False \<or> 1000 < (2::nat))" by simp
  from replay_complete [OF o a, of sample_wire 1 new_manager, unfolded Let_def t m r if_not_P [OF this]]
  show ?thesis by (elim exE) (intro exI)
qed

end
