(* ===== verification/Gateway.thy ===== *)
theory Gateway
  imports Event_Consumer
begin

text \<open>
  The client's side of a realtime node (\<open>src/backend/realtime/src/ws_handler.rs\<close> and the Redis-facing part of
  \<open>connection_manager.rs\<close>): what each frame of a client does, the typing coalescing, the life of a socket from its connection to its cleanup,
  the revocation check before a socket opens, presence, and the admission script of huddles. The answers of PostgreSQL and Redis to the
  questions a handler asks are the record \<open>gw_env\<close>, each a value or a failure.
\<close>

section \<open>Revocation\<close>

record Claims =
  cl_sub :: uuid
  cl_exp :: int
  cl_iat :: int
  cl_jti :: "uuid option"
  cl_token_type :: rstr

record RevocationRecord =
  rr_at :: int
  rr_except_jti :: "uuid option"

definition covers :: "RevocationRecord \<Rightarrow> Claims \<Rightarrow> bool" where
  "covers r claims =
     (if cl_iat claims > rr_at r then False
      else \<not> (case (rr_except_jti r, cl_jti claims) of (Some except, Some jti) \<Rightarrow> except = jti | _ \<Rightarrow> False))"

datatype RevocationState = Valid | Revoked | Unknown

datatype redis_read = Payload rstr | NoKey | ReadFailed rstr | TimedOut

definition REVOCATION_RETRIES :: nat where
  "REVOCATION_RETRIES = 1"

text \<open>One attempt per answer; \<open>parse\<close> is the JSON reading of the record.\<close>

fun revocation_loop :: "(rstr \<Rightarrow> RevocationRecord option) \<Rightarrow> Claims \<Rightarrow> redis_read list \<Rightarrow> RevocationState" where
  "revocation_loop parse claims [] = Unknown"
| "revocation_loop parse claims (Payload p # rest) =
     (case parse p of
        Some record' \<Rightarrow> if covers record' claims then Revoked else Valid
      | None \<Rightarrow> Revoked)"
| "revocation_loop parse claims (NoKey # rest) = Valid"
| "revocation_loop parse claims (ReadFailed _ # rest) = revocation_loop parse claims rest"
| "revocation_loop parse claims (TimedOut # rest) = revocation_loop parse claims rest"

definition revocation_state ::
  "(rstr \<Rightarrow> RevocationRecord option) \<Rightarrow> Claims \<Rightarrow> (nat \<Rightarrow> redis_read) \<Rightarrow> RevocationState" where
  "revocation_state parse claims attempt =
     revocation_loop parse claims (map attempt [0..<Suc REVOCATION_RETRIES])"

section \<open>Huddles\<close>

definition HUDDLE_MAX_PARTICIPANTS :: nat where
  "HUDDLE_MAX_PARTICIPANTS = 8"

record HuddleSfu =
  sfu_threshold :: nat
  sfu_max_participants :: nat

datatype HuddleJoin = HuddleJoinFull nat | Joined HuddleTransport bool

text \<open>
  What Redis keeps of a huddle: the set of its members and whether the key of the transport exists. The script runs
  inside Redis as one step; its arguments are the user, the limit of a mesh, the limit on the SFU and the threshold, which is negative
  without an SFU.
\<close>

record huddle_state =
  hs_members :: "uuid list"
  hs_sfu :: bool

definition try_join_script :: "nat \<Rightarrow> nat \<Rightarrow> int \<Rightarrow> uuid \<Rightarrow> huddle_state \<Rightarrow> int \<times> huddle_state" where
  "try_join_script max_mesh max_sfu threshold user s =
     (let on_sfu = hs_sfu s;
          limit = (if on_sfu then max_sfu else max_mesh)
      in if user \<notin> set (hs_members s) \<and> limit \<le> length (hs_members s) then (- int limit, s)
         else let s1 = s\<lparr>hs_members := push_new user (hs_members s)\<rparr>
              in if on_sfu then (2, s1)
                 else if threshold \<ge> 0 \<and> int (length (hs_members s1)) > threshold then (3, s1\<lparr>hs_sfu := True\<rparr>)
                 else (1, s1))"

definition join_of_code :: "unit + int \<Rightarrow> HuddleJoin" where
  "join_of_code r =
     (case r of
        Inr code \<Rightarrow>
          if code < 0 then HuddleJoinFull (nat (abs code))
          else if code = 2 then Joined Sfu False
          else if code = 3 then Joined Sfu True
          else Joined Mesh False
      | Inl _ \<Rightarrow> Joined Mesh False)"

definition huddle_redis_try_join :: "HuddleSfu option \<Rightarrow> uuid \<Rightarrow> huddle_state \<Rightarrow> HuddleJoin \<times> huddle_state" where
  "huddle_redis_try_join sfu user s =
     (let (threshold, sfu_limit) = (case sfu of
            Some f \<Rightarrow> (int (sfu_threshold f), sfu_max_participants f)
          | None \<Rightarrow> (- 1, HUDDLE_MAX_PARTICIPANTS));
          (code, s') = try_join_script HUDDLE_MAX_PARTICIPANTS sfu_limit threshold user s
      in (join_of_code (Inr code), s'))"

definition huddle_redis_leave :: "uuid \<Rightarrow> huddle_state \<Rightarrow> bool \<times> huddle_state" where
  "huddle_redis_leave user s =
     (user \<in> set (hs_members s), s\<lparr>hs_members := removeAll user (hs_members s)\<rparr>)"

section \<open>Presence\<close>

definition AWAY_AFTER_IDLE_SECS :: int where
  "AWAY_AFTER_IDLE_SECS = 8 * 60"

record gw_env =
  ge_wire :: wire
  ge_stream :: stream_api
  ge_workspace_member :: "uuid \<Rightarrow> uuid \<Rightarrow> unit + bool"
  ge_channel_members :: "uuid list \<Rightarrow> uuid \<Rightarrow> unit + uuid list"
  ge_may_join_huddle :: "uuid \<Rightarrow> uuid \<Rightarrow> unit + bool"
  ge_manual_away :: "uuid list \<Rightarrow> unit + uuid list"
  ge_last_active :: "uuid list \<Rightarrow> unit + int option list"
  ge_previous_status :: "uuid \<Rightarrow> unit + rstr option"
  ge_presence_clear :: "uuid \<Rightarrow> bool"
  ge_online :: "uuid \<Rightarrow> uuid list"
  ge_try_join :: "uuid \<Rightarrow> uuid \<Rightarrow> HuddleJoin"
  ge_huddle_leave :: "uuid \<Rightarrow> uuid \<Rightarrow> bool"
  ge_huddle_is_member :: "uuid \<Rightarrow> uuid \<Rightarrow> bool"
  ge_huddle_members :: "uuid \<Rightarrow> uuid list"
  ge_now_secs :: int
  ge_instant :: nat

definition is_workspace_member :: "gw_env \<Rightarrow> uuid \<Rightarrow> uuid \<Rightarrow> bool" where
  "is_workspace_member E w u = (case ge_workspace_member E w u of Inr m \<Rightarrow> m | Inl _ \<Rightarrow> False)"

definition channel_memberships :: "gw_env \<Rightarrow> uuid list \<Rightarrow> uuid \<Rightarrow> uuid list" where
  "channel_memberships E ids u = (case ge_channel_members E ids u of Inr found \<Rightarrow> found | Inl _ \<Rightarrow> [])"

definition may_join_huddle :: "gw_env \<Rightarrow> uuid \<Rightarrow> uuid \<Rightarrow> bool" where
  "may_join_huddle E h u = (case ge_may_join_huddle E h u of Inr m \<Rightarrow> m | Inl _ \<Rightarrow> False)"

definition presence_of_connected :: "gw_env \<Rightarrow> uuid list \<Rightarrow> (uuid \<times> Presence) list" where
  "presence_of_connected E user_ids =
     (if user_ids = [] then []
      else
        let away_on_purpose = (case ge_manual_away E user_ids of Inr ids \<Rightarrow> ids | Inl _ \<Rightarrow> []);
            last_active = (case ge_last_active E user_ids of Inr vals \<Rightarrow> vals | Inl _ \<Rightarrow> replicate (length user_ids) None);
            idle_before = ge_now_secs E - AWAY_AFTER_IDLE_SECS
        in map (\<lambda>(i, active_at).
             let idle = (case active_at of None \<Rightarrow> True | Some at \<Rightarrow> at \<le> idle_before)
             in (i, if i \<in> set away_on_purpose \<or> idle then Away else Online)) (zip user_ids last_active))"

text \<open>\<open>presence_settle\<close> stores the status and publishes it when it differs from the stored one; it answers whether it did.\<close>

definition presence_settle :: "gw_env \<Rightarrow> uuid \<Rightarrow> Presence \<Rightarrow> bool \<times> effect list" where
  "presence_settle E u p =
     (let changed = (case ge_previous_status E u of
            Inr previous \<Rightarrow> Option.bind previous presence_parse \<noteq> Some p
          | Inl _ \<Rightarrow> True)
      in (changed, PresenceSettle u p # (if changed then [PublishPresence u p] else [])))"

definition presence_sync :: "gw_env \<Rightarrow> uuid \<Rightarrow> effect list" where
  "presence_sync E u =
     (let presence = (case presence_of_connected E [u] of (_, p) # _ \<Rightarrow> p | [] \<Rightarrow> Online)
      in snd (presence_settle E u presence))"

section \<open>A client's frames\<close>

definition TYPING_COALESCE :: nat where
  "TYPING_COALESCE = 3 * 10 ^ 9"

definition MAX_JOINS_PER_FRAME :: nat where
  "MAX_JOINS_PER_FRAME = 1000"

text \<open>Instants are nanoseconds of the monotonic clock.\<close>

record InboundState =
  ib_last_typing :: "(uuid \<times> nat) list"
  ib_active :: bool
  ib_presence_workspaces :: "uuid list"

definition new_inbound :: InboundState where
  "new_inbound = \<lparr>ib_last_typing = [], ib_active = False, ib_presence_workspaces = []\<rparr>"

definition should_publish_typing :: "nat \<Rightarrow> InboundState \<Rightarrow> uuid \<Rightarrow> InboundState \<times> bool" where
  "should_publish_typing now st ch =
     (if (case map_of (ib_last_typing st) ch of Some at \<Rightarrow> now - at < TYPING_COALESCE | None \<Rightarrow> False)
      then (st, False)
      else (st\<lparr>ib_last_typing := AList.update ch now (ib_last_typing st)\<rparr>, True))"

definition forget_typing :: "InboundState \<Rightarrow> uuid \<Rightarrow> InboundState" where
  "forget_typing st ch = st\<lparr>ib_last_typing := AList.delete ch (ib_last_typing st)\<rparr>"

text \<open>A handler's state: the manager, the socket's own state, and the calls made so far.\<close>

type_synonym handling = "manager \<times> InboundState \<times> effect list"

definition frame_subscribe :: "gw_env \<Rightarrow> json \<Rightarrow> uuid \<Rightarrow> uuid \<Rightarrow> InboundState \<Rightarrow> manager \<Rightarrow> handling" where
  "frame_subscribe E msg conn_id user_id inbound cm =
     (case ev_field (ge_wire E) msg ''workspace_id'' of
        None \<Rightarrow> (cm, inbound, [])
      | Some ws_id \<Rightarrow>
          if \<not> is_workspace_member E ws_id user_id then (cm, inbound, [])
          else
            let cm1 = subscribe_workspace cm conn_id ws_id;
                ((cm2, es), sync) = (case ev_text msg ''last_event_id'' of
                   Some last_id \<Rightarrow>
                     if last_id \<noteq> [] then replay_workspace (ge_wire E) (ge_stream E) conn_id ws_id last_id cm1
                     else ((cm1, []), Caught 0 (sa_tail (ge_stream E) ws_id))
                 | None \<Rightarrow> ((cm1, []), Caught 0 (sa_tail (ge_stream E) ws_id)));
                frame = (case sync of
                   RefetchRequired \<Rightarrow> SyncRefetchRequired ws_id
                 | Caught events last_id \<Rightarrow> SyncComplete ws_id events last_id);
                cm3 = send_to_conn cm2 conn_id (wi_frame_text (ge_wire E) frame);
                inbound1 = inbound\<lparr>ib_presence_workspaces := push_new ws_id (ib_presence_workspaces inbound)\<rparr>;
                statuses = presence_of_connected E (ge_online E ws_id);
                own = (case List.find (\<lambda>(i, _). i = user_id) statuses of Some (_, p) \<Rightarrow> p | None \<Rightarrow> Online);
                batch = PresenceBatch (map (\<lambda>(i, p). \<lparr>pe_user_id = i, pe_status = p\<rparr>) statuses);
                cm4 = send_to_user cm3 Everyone user_id (wi_frame_text (ge_wire E) batch);
                (changed, settled) = presence_settle E user_id own
            in (cm4, inbound1,
                es @ [PresenceSetOnline user_id [ws_id], PresenceArrived user_id] @ settled
                  @ (if changed then [] else [PublishPresence user_id own])))"

definition requested_channels :: "gw_env \<Rightarrow> json \<Rightarrow> uuid list" where
  "requested_channels E msg =
     (case Option.bind (json_get msg (lit ''channel_ids'')) as_array of
        Some ids \<Rightarrow>
          take MAX_JOINS_PER_FRAME (List.map_filter (\<lambda>i. Option.bind (as_str i) (wi_uuid (ge_wire E))) ids)
      | None \<Rightarrow> [])"

definition frame_channel_join :: "gw_env \<Rightarrow> json \<Rightarrow> uuid \<Rightarrow> uuid \<Rightarrow> manager \<Rightarrow> manager" where
  "frame_channel_join E msg conn_id user_id cm =
     (let requested = requested_channels E msg in
      if requested = [] then cm
      else foldl (\<lambda>cm ch. join_channel cm conn_id ch) cm (channel_memberships E requested user_id))"

definition frame_channel_leave :: "gw_env \<Rightarrow> json \<Rightarrow> uuid \<Rightarrow> InboundState \<Rightarrow> manager \<Rightarrow> handling" where
  "frame_channel_leave E msg conn_id inbound cm =
     (case ev_field (ge_wire E) msg ''channel_id'' of
        Some ch_id \<Rightarrow> (leave_channel cm conn_id ch_id, forget_typing inbound ch_id, [])
      | None \<Rightarrow> (cm, inbound, []))"

definition frame_typing_start :: "gw_env \<Rightarrow> json \<Rightarrow> uuid \<Rightarrow> uuid \<Rightarrow> InboundState \<Rightarrow> manager \<Rightarrow> handling" where
  "frame_typing_start E msg conn_id user_id inbound cm =
     (case ev_field (ge_wire E) msg ''channel_id'' of
        None \<Rightarrow> (cm, inbound, [])
      | Some ch_id \<Rightarrow>
          let (inbound1, fresh) = should_publish_typing (ge_instant E) inbound ch_id in
          if \<not> fresh then (cm, inbound1, [])
          else if \<not> is_subscribed_to_channel cm conn_id ch_id then (cm, inbound1, [])
          else (cm, inbound1, [PublishTyping ch_id user_id True]))"

definition frame_typing_stop :: "gw_env \<Rightarrow> json \<Rightarrow> uuid \<Rightarrow> uuid \<Rightarrow> InboundState \<Rightarrow> manager \<Rightarrow> handling" where
  "frame_typing_stop E msg conn_id user_id inbound cm =
     (case ev_field (ge_wire E) msg ''channel_id'' of
        None \<Rightarrow> (cm, inbound, [])
      | Some ch_id \<Rightarrow>
          let inbound1 = forget_typing inbound ch_id in
          if \<not> is_subscribed_to_channel cm conn_id ch_id then (cm, inbound1, [])
          else (cm, inbound1, [PublishTyping ch_id user_id False]))"

definition juuid :: "gw_env \<Rightarrow> uuid \<Rightarrow> json" where
  "juuid E u = JString (wi_uuid_str (ge_wire E) u)"

definition member_payload :: "gw_env \<Rightarrow> uuid \<Rightarrow> uuid \<Rightarrow> json" where
  "member_payload E h u = JObject [(lit ''huddle_id'', juuid E h), (lit ''user_id'', juuid E u)]"

definition frame_huddle_join :: "gw_env \<Rightarrow> json \<Rightarrow> uuid \<Rightarrow> uuid \<Rightarrow> manager \<Rightarrow> manager \<times> effect list" where
  "frame_huddle_join E msg conn_id user_id cm =
     (case ev_field (ge_wire E) msg ''huddle_id'' of
        None \<Rightarrow> (cm, [])
      | Some huddle_id \<Rightarrow>
          if \<not> may_join_huddle E huddle_id user_id then (cm, [])
          else case ge_try_join E huddle_id user_id of
            HuddleJoinFull limit \<Rightarrow>
              (send_to_conn cm conn_id (wi_frame_text (ge_wire E) (HuddleFull huddle_id limit)), [])
          | Joined transport promoted \<Rightarrow>
              let cm1 = join_huddle cm conn_id huddle_id;
                  snapshot = HuddleMembers huddle_id (ge_huddle_members E huddle_id) transport
              in (send_to_user cm1 Everyone user_id (wi_frame_text (ge_wire E) snapshot),
                  PublishHuddle (lit ''huddle.member_joined'') (member_payload E huddle_id user_id)
                    # (if promoted
                       then [PublishHuddle (lit ''huddle.transport'')
                               (JObject [(lit ''huddle_id'', juuid E huddle_id), (lit ''transport'', JString (lit ''sfu''))])]
                       else [])))"

definition frame_huddle_leave :: "gw_env \<Rightarrow> json \<Rightarrow> uuid \<Rightarrow> uuid \<Rightarrow> manager \<Rightarrow> manager \<times> effect list" where
  "frame_huddle_leave E msg conn_id user_id cm =
     (case ev_field (ge_wire E) msg ''huddle_id'' of
        None \<Rightarrow> (cm, [])
      | Some huddle_id \<Rightarrow>
          let cm1 = leave_huddle cm conn_id huddle_id in
          (cm1, if \<not> user_in_huddle_local cm1 user_id huddle_id \<and> ge_huddle_leave E huddle_id user_id
                then [PublishHuddle (lit ''huddle.member_left'') (member_payload E huddle_id user_id)] else []))"

definition opt_entry :: "json \<Rightarrow> string \<Rightarrow> (rstr \<times> json) list" where
  "opt_entry msg name = (case json_get msg (lit name) of Some v \<Rightarrow> [(lit name, v)] | None \<Rightarrow> [])"

definition frame_huddle_signal :: "gw_env \<Rightarrow> rstr \<Rightarrow> json \<Rightarrow> uuid \<Rightarrow> effect list" where
  "frame_huddle_signal E msg_type msg user_id =
     (case (ev_field (ge_wire E) msg ''huddle_id'', ev_field (ge_wire E) msg ''to_user_id'') of
        (Some huddle_id, Some to_user_id) \<Rightarrow>
          if \<not> ge_huddle_is_member E huddle_id user_id \<or> \<not> ge_huddle_is_member E huddle_id to_user_id then []
          else [PublishHuddle msg_type (JObject ([(lit ''huddle_id'', juuid E huddle_id),
                  (lit ''from_user_id'', juuid E user_id), (lit ''to_user_id'', juuid E to_user_id)]
                  @ opt_entry msg ''sdp'' @ opt_entry msg ''candidate''))]
      | _ \<Rightarrow> [])"

text \<open>\<open>huddle.mute\<close>, \<open>huddle.camera\<close>, \<open>huddle.screenshare\<close> and \<open>huddle.hand\<close> differ in the name of their flag.\<close>

definition frame_huddle_flag :: "gw_env \<Rightarrow> rstr \<Rightarrow> string \<Rightarrow> json \<Rightarrow> uuid \<Rightarrow> effect list" where
  "frame_huddle_flag E msg_type flag msg user_id =
     (case ev_field (ge_wire E) msg ''huddle_id'' of
        None \<Rightarrow> []
      | Some huddle_id \<Rightarrow>
          if \<not> ge_huddle_is_member E huddle_id user_id then []
          else [PublishHuddle msg_type (JObject [(lit ''huddle_id'', juuid E huddle_id), (lit ''user_id'', juuid E user_id),
                  (lit flag, JBool (ev_flag msg flag))])])"

definition frame_huddle_reaction :: "gw_env \<Rightarrow> json \<Rightarrow> uuid \<Rightarrow> effect list" where
  "frame_huddle_reaction E msg user_id =
     (case (ev_field (ge_wire E) msg ''huddle_id'', ev_text msg ''emoji'') of
        (Some huddle_id, Some emoji) \<Rightarrow>
          if length emoji > 8 \<or> \<not> ge_huddle_is_member E huddle_id user_id then []
          else [PublishHuddle (lit ''huddle.reaction'') (JObject [(lit ''huddle_id'', juuid E huddle_id),
                  (lit ''user_id'', juuid E user_id), (lit ''emoji'', JString emoji)])]
      | _ \<Rightarrow> [])"

definition frame_activity :: "json \<Rightarrow> uuid \<Rightarrow> uuid \<Rightarrow> InboundState \<Rightarrow> InboundState \<times> effect list" where
  "frame_activity msg conn_id user_id inbound =
     (let active = ev_flag msg ''active''
      in (inbound\<lparr>ib_active := active\<rparr>, [ActivitySet user_id conn_id active, PresenceSync user_id]))"

datatype frame_kind =
    FSubscribe | FChannelJoin | FChannelLeave | FTypingStart | FTypingStop | FHuddleJoin | FHuddleLeave | FHuddleSignal
  | FHuddleFlag string | FHuddleReaction | FActivity | FPing | FUnknown

definition frame_kinds :: "(string \<times> frame_kind) list" where
  "frame_kinds =
     [(''subscribe'', FSubscribe), (''channel.join'', FChannelJoin), (''channel.leave'', FChannelLeave),
      (''typing.start'', FTypingStart), (''typing.stop'', FTypingStop), (''huddle.join'', FHuddleJoin),
      (''huddle.leave'', FHuddleLeave), (''huddle.offer'', FHuddleSignal), (''huddle.answer'', FHuddleSignal),
      (''huddle.ice'', FHuddleSignal), (''huddle.mute'', FHuddleFlag ''audio_muted''),
      (''huddle.camera'', FHuddleFlag ''camera_on''), (''huddle.screenshare'', FHuddleFlag ''sharing''),
      (''huddle.reaction'', FHuddleReaction), (''huddle.hand'', FHuddleFlag ''raised''),
      (''activity'', FActivity), (''ping'', FPing)]"

definition frame_kind :: "rstr \<Rightarrow> frame_kind" where
  "frame_kind s = (case List.find (\<lambda>(n, _). lit n = s) frame_kinds of Some (_, k) \<Rightarrow> k | None \<Rightarrow> FUnknown)"

fun handle_frame :: "frame_kind \<Rightarrow> gw_env \<Rightarrow> rstr \<Rightarrow> json \<Rightarrow> uuid \<Rightarrow> uuid \<Rightarrow> InboundState \<Rightarrow> manager \<Rightarrow> handling" where
  "handle_frame FSubscribe E ty msg c u ib cm = frame_subscribe E msg c u ib cm"
| "handle_frame FChannelJoin E ty msg c u ib cm = (frame_channel_join E msg c u cm, ib, [])"
| "handle_frame FChannelLeave E ty msg c u ib cm = frame_channel_leave E msg c ib cm"
| "handle_frame FTypingStart E ty msg c u ib cm = frame_typing_start E msg c u ib cm"
| "handle_frame FTypingStop E ty msg c u ib cm = frame_typing_stop E msg c u ib cm"
| "handle_frame FHuddleJoin E ty msg c u ib cm = (let (cm', es) = frame_huddle_join E msg c u cm in (cm', ib, es))"
| "handle_frame FHuddleLeave E ty msg c u ib cm = (let (cm', es) = frame_huddle_leave E msg c u cm in (cm', ib, es))"
| "handle_frame FHuddleSignal E ty msg c u ib cm = (cm, ib, frame_huddle_signal E ty msg u)"
| "handle_frame (FHuddleFlag f) E ty msg c u ib cm = (cm, ib, frame_huddle_flag E ty f msg u)"
| "handle_frame FHuddleReaction E ty msg c u ib cm = (cm, ib, frame_huddle_reaction E msg u)"
| "handle_frame FActivity E ty msg c u ib cm = (let (ib', es) = frame_activity msg c u ib in (cm, ib', es))"
| "handle_frame FPing E ty msg c u ib cm = (send_to_user cm Everyone u (wi_frame_text (ge_wire E) Pong), ib, [])"
| "handle_frame FUnknown E ty msg c u ib cm = (cm, ib, [])"

definition handle_client_message :: "gw_env \<Rightarrow> rstr \<Rightarrow> uuid \<Rightarrow> uuid \<Rightarrow> InboundState \<Rightarrow> manager \<Rightarrow> handling" where
  "handle_client_message E text conn_id user_id inbound cm =
     (case wi_json (ge_wire E) text of
        None \<Rightarrow> (cm, inbound, [])
      | Some msg \<Rightarrow>
          let msg_type = or_empty (ev_text msg ''type'')
          in handle_frame (frame_kind msg_type) E msg_type msg conn_id user_id inbound cm)"

section \<open>The end of a socket\<close>

fun cleanup_huddles :: "gw_env \<Rightarrow> uuid \<Rightarrow> manager \<Rightarrow> uuid list \<Rightarrow> effect list" where
  "cleanup_huddles E u cm [] = []"
| "cleanup_huddles E u cm (h # hs) =
     (if \<not> user_in_huddle_local cm u h \<and> ge_huddle_leave E h u
      then [PublishHuddle (lit ''huddle.member_left'') (member_payload E h u)] else [])
     @ cleanup_huddles E u cm hs"

definition cleanup :: "gw_env \<Rightarrow> uuid \<Rightarrow> uuid \<Rightarrow> uuid list \<Rightarrow> manager \<Rightarrow> manager \<times> effect list" where
  "cleanup E conn_id user_id presence_workspaces cm =
     (let huddles = huddle_ids_for_conn cm conn_id;
          (cm1, removed) = remove_connection cm conn_id;
          offline = (case removed of
            Some (uid, True) \<Rightarrow>
              PresenceClear uid presence_workspaces
                # (if presence_workspaces = [] \<or> ge_presence_clear E uid then snd (presence_settle E uid Offline) else [])
          | _ \<Rightarrow> [])
      in (cm1, ActivitySet user_id conn_id False # cleanup_huddles E user_id cm1 huddles @ offline))"

end
