(* ===== verification/Realtime_Node.thy ===== *)
theory Realtime_Node
  imports Gateway
begin

text \<open>
  A realtime node as a whole: the checks before a socket is opened (\<open>src/backend/realtime/src/main.rs\<close>), the task that serves a socket
  (\<open>handle_ws\<close> of \<open>ws_handler.rs\<close>), and the machine that interleaves the sockets' frames, the system's events and the writers'
  turns. The theorems are about its runs: who may be subscribed, when a socket opens, how many join a huddle, and how often typing is published.
\<close>

section \<open>Opening a socket\<close>

fun split_on :: "uchar \<Rightarrow> rstr \<Rightarrow> rstr list" where
  "split_on c [] = [[]]"
| "split_on c (x # xs) =
     (if x = c then [] # split_on c xs
      else case split_on c xs of [] \<Rightarrow> [[x]] | y # ys \<Rightarrow> (x # y) # ys)"

record ws_headers =
  wh_protocol :: "rstr option"
  wh_cookie :: "rstr option"
  wh_origin :: "rstr option"

fun after_bearer :: "rstr list \<Rightarrow> rstr option" where
  "after_bearer [] = None"
| "after_bearer (p # ps) = (if p = lit ''bearer'' then (case ps of [] \<Rightarrow> None | t # _ \<Rightarrow> Some t) else after_bearer ps)"

definition protocol_token :: "ws_headers \<Rightarrow> rstr option" where
  "protocol_token h = Option.bind (wh_protocol h) (\<lambda>raw. after_bearer (map trim (split_on 44 raw)))"

fun find_map :: "('a \<Rightarrow> 'b option) \<Rightarrow> 'a list \<Rightarrow> 'b option" where
  "find_map f [] = None"
| "find_map f (x # xs) = (case f x of Some y \<Rightarrow> Some y | None \<Rightarrow> find_map f xs)"

definition cookie_token :: "ws_headers \<Rightarrow> rstr option" where
  "cookie_token h =
     Option.bind (wh_cookie h) (\<lambda>s. find_map (\<lambda>part. strip_prefix (trim part) (lit ''access_token='')) (split_on 59 s))"

definition origin_allowed :: "ws_headers \<Rightarrow> rstr \<Rightarrow> bool" where
  "origin_allowed h allowed =
     (case wh_origin h of
        None \<Rightarrow> False
      | Some origin \<Rightarrow> list_ex (\<lambda>a. a = lit ''*'' \<or> a = origin) (map trim (split_on 44 allowed)))"

text \<open>\<open>decode\<close> checks the signature and the expiry of a token (\<open>jsonwebtoken\<close>).\<close>

definition authenticate_ws :: "(rstr \<Rightarrow> Claims option) \<Rightarrow> ws_headers \<Rightarrow> Claims AppResult" where
  "authenticate_ws decode h =
     and_then (ok_or (case protocol_token h of Some t \<Rightarrow> Some t | None \<Rightarrow> cookie_token h)
         (Unauthorized (lit ''Missing access token''))) (\<lambda>token.
     and_then (ok_or (decode token) (Unauthorized (lit ''Invalid or expired token''))) (\<lambda>claims.
       if cl_token_type claims \<noteq> lit ''access'' then Inl (Unauthorized (lit ''Invalid token type'')) else Inr claims))"

definition ws_upgrade ::
  "(rstr \<Rightarrow> Claims option) \<Rightarrow> (rstr \<Rightarrow> RevocationRecord option) \<Rightarrow> (nat \<Rightarrow> redis_read) \<Rightarrow> rstr \<Rightarrow> ws_headers \<Rightarrow> Claims AppResult" where
  "ws_upgrade decode parse attempt allowed h =
     (if \<not> origin_allowed h allowed then Inl (Unauthorized (lit ''Origin not allowed''))
      else and_then (authenticate_ws decode h) (\<lambda>claims.
        case revocation_state parse claims attempt of
          Valid \<Rightarrow> Inr claims
        | Revoked \<Rightarrow> Inl (Unauthorized (lit ''Session revoked''))
        | Unknown \<Rightarrow> Inl (ServiceUnavailable (lit ''Cannot verify the session right now. Please retry.''))))"

lemma revocation_loop_Valid:
  "revocation_loop parse claims rs = Valid \<Longrightarrow>
     \<exists>xs y ys. rs = xs @ y # ys \<and> list_all (\<lambda>r. r = TimedOut \<or> (\<exists>e. r = ReadFailed e)) xs
       \<and> (y = NoKey \<or> (\<exists>p r. y = Payload p \<and> parse p = Some r \<and> \<not> covers r claims))"
proof (induction parse claims rs rule: revocation_loop.induct)
  case (2 parse claims p rest)
  then show ?case by (intro exI [of _ "[]"]) (auto split: option.splits if_splits)
next
  case (3 parse claims rest)
  then show ?case by (intro exI [of _ "[]"]) auto
next
  case (4 parse claims e rest)
  then obtain xs y ys where "rest = xs @ y # ys" "list_all (\<lambda>r. r = TimedOut \<or> (\<exists>e. r = ReadFailed e)) xs"
    "y = NoKey \<or> (\<exists>p r. y = Payload p \<and> parse p = Some r \<and> \<not> covers r claims)" by auto
  then show ?case by (intro exI [of _ "ReadFailed e # xs"] exI [of _ y] exI [of _ ys]) auto
next
  case (5 parse claims rest)
  then obtain xs y ys where "rest = xs @ y # ys" "list_all (\<lambda>r. r = TimedOut \<or> (\<exists>e. r = ReadFailed e)) xs"
    "y = NoKey \<or> (\<exists>p r. y = Payload p \<and> parse p = Some r \<and> \<not> covers r claims)" by auto
  then show ?case by (intro exI [of _ "TimedOut # xs"] exI [of _ y] exI [of _ ys]) auto
qed simp

text \<open>
  C27. A socket opens only for an allowed origin and an access token whose session the revocation store has just answered for:
  some attempt, all before it having failed, found no revocation or one that does not cover the token. A store that cannot be
  reached never opens a socket.
\<close>

theorem socket_needs_live_session:
  assumes up: "ws_upgrade decode parse attempt allowed h = Inr claims"
  shows "origin_allowed h allowed \<and> cl_token_type claims = lit ''access''
    \<and> (\<exists>token. decode token = Some claims \<and> (protocol_token h = Some token \<or> cookie_token h = Some token))
    \<and> (\<exists>i<2. (\<forall>j<i. attempt j = TimedOut \<or> (\<exists>e. attempt j = ReadFailed e))
          \<and> (attempt i = NoKey \<or> (\<exists>p r. attempt i = Payload p \<and> parse p = Some r \<and> \<not> covers r claims)))"
proof -
  have o: "origin_allowed h allowed" and auth: "authenticate_ws decode h = Inr claims"
    and v: "revocation_state parse claims attempt = Valid"
    using up by (cases "authenticate_ws decode h"; cases "revocation_state parse (projr (authenticate_ws decode h)) attempt";
        simp add: ws_upgrade_def del: lit_simps split: if_splits)+
  have t: "cl_token_type claims = lit ''access''"
    "\<exists>token. decode token = Some claims \<and> (protocol_token h = Some token \<or> cookie_token h = Some token)"
    using auth by (auto simp: authenticate_ws_def ok_or_def simp del: lit_simps split: if_splits option.splits)
  obtain xs y ys where rs: "map attempt [0..<2] = xs @ y # ys"
    and f: "list_all (\<lambda>r. r = TimedOut \<or> (\<exists>e. r = ReadFailed e)) xs"
    and y: "y = NoKey \<or> (\<exists>p r. y = Payload p \<and> parse p = Some r \<and> \<not> covers r claims)"
    using revocation_loop_Valid v unfolding revocation_state_def REVOCATION_RETRIES_def One_nat_def numeral_2_eq_2 by blast
  have len: "length xs < 2" using arg_cong [OF rs, of length] by simp
  have at: "attempt j = (xs @ y # ys) ! j" if "j < 2" for j using that by (simp only: rs [symmetric]) simp
  have "attempt (length xs) = y" using at [OF len] by simp
  moreover have "attempt j = TimedOut \<or> (\<exists>e. attempt j = ReadFailed e)" if "j < length xs" for j
    using at [of j] that len f by (simp add: nth_append list_all_length)
  ultimately show ?thesis using o t len y by blast
qed

definition sample_headers :: ws_headers where
  "sample_headers = \<lparr>wh_protocol = Some (lit ''bearer, abc''), wh_cookie = None, wh_origin = Some (lit ''https://chat.example'')\<rparr>"

definition sample_claims :: Claims where
  "sample_claims = \<lparr>cl_sub = 7, cl_exp = 200, cl_iat = 100, cl_jti = None, cl_token_type = lit ''access''\<rparr>"

theorem socket_needs_live_session_witness:
  "ws_upgrade (\<lambda>t. if t = lit ''abc'' then Some sample_claims else None) (\<lambda>_. None) (\<lambda>_. NoKey) (lit ''*'') sample_headers
     = Inr sample_claims \<and> origin_allowed sample_headers (lit ''*'')"
proof -
  have "ws_upgrade (\<lambda>t. if t = lit ''abc'' then Some sample_claims else None) (\<lambda>_. None) (\<lambda>_. NoKey) (lit ''*'') sample_headers
     = Inr sample_claims"
    by (simp add: ws_upgrade_def authenticate_ws_def sample_headers_def sample_claims_def origin_allowed_def protocol_token_def
        trim_def trim_start_def trim_end_def is_whitespace_def revocation_state_def REVOCATION_RETRIES_def)
  with socket_needs_live_session [OF this] show ?thesis by blast
qed

section \<open>Huddle admission\<close>

text \<open>
  C28. The admission script never lets a newcomer past the limit of the huddle's transport: a huddle grows by at most the one
  who joins and only while it is below the limit; a member may always join again; a refusal changes nothing and
  names the limit; and a mesh moves to the SFU at the join that takes it over the threshold, never back.
\<close>

theorem huddle_admission:
  assumes d: "distinct (hs_members s)" and pos: "0 < max_mesh" "0 < max_sfu"
  shows "let limit = (if hs_sfu s then max_sfu else max_mesh);
             (code, s') = try_join_script max_mesh max_sfu threshold u s
         in case join_of_code (Inr code) of
              HuddleJoinFull n \<Rightarrow> n = limit \<and> s' = s \<and> u \<notin> set (hs_members s) \<and> limit \<le> length (hs_members s)
            | Joined transport promoted \<Rightarrow>
                distinct (hs_members s') \<and> set (hs_members s') = insert u (set (hs_members s))
                \<and> length (hs_members s') \<le> max (length (hs_members s)) limit
                \<and> (transport = Sfu \<longleftrightarrow> hs_sfu s')
                \<and> (promoted \<longleftrightarrow> \<not> hs_sfu s \<and> hs_sfu s')
                \<and> (hs_sfu s' \<longleftrightarrow> hs_sfu s \<or> 0 \<le> threshold \<and> threshold < int (length (hs_members s')))"
  using assms by (auto simp: try_join_script_def join_of_code_def Let_def push_new_def split: if_splits)

theorem huddle_admission_witness:
  "let s = \<lparr>hs_members = [1, 2], hs_sfu = False\<rparr>; (code, s') = try_join_script 8 100 2 3 s
   in join_of_code (Inr code) = Joined Sfu True \<and> hs_members s' = [1, 2, 3] \<and> hs_sfu s'"
  using huddle_admission [of "\<lparr>hs_members = [1, 2], hs_sfu = False\<rparr>" 8 100 2 3]
  by (simp add: try_join_script_def join_of_code_def push_new_def Let_def)

section \<open>The task of a socket\<close>

definition HEARTBEAT_INTERVAL :: nat where
  "HEARTBEAT_INTERVAL = 30 * 10 ^ 9"

definition PONG_TIMEOUT :: nat where
  "PONG_TIMEOUT = 90 * 10 ^ 9"

definition INBOUND_FLOOD_CLOSE_CODE :: nat where
  "INBOUND_FLOOD_CLOSE_CODE = 4002"

record task =
  tk_user :: uuid
  tk_inbound :: InboundState
  tk_last_pong :: nat
  tk_deadline :: nat

record node =
  nd_cm :: manager
  nd_tasks :: "(uuid \<times> task) list"
  nd_calls :: "effect list"

definition new_node :: node where
  "new_node = \<lparr>nd_cm = new_manager, nd_tasks = [], nd_calls = []\<rparr>"

definition exp_to_deadline :: "int \<Rightarrow> int \<Rightarrow> nat \<Rightarrow> nat" where
  "exp_to_deadline exp now_secs now =
     (let remaining = exp - now_secs in if remaining \<le> 0 then now else now + nat remaining * 10 ^ 9)"

text \<open>\<open>handle_ws\<close> up to its loop, under a new connection identifier.\<close>

definition open_socket :: "gw_env \<Rightarrow> uuid \<Rightarrow> Claims \<Rightarrow> uuid list \<Rightarrow> node \<Rightarrow> node" where
  "open_socket E conn_id claims workspace_ids n =
     (if map_of (nd_tasks n) conn_id \<noteq> None \<or> map_of (connections (nd_cm n)) conn_id \<noteq> None then n
      else
        let user_id = cl_sub claims;
            cm1 = connect (nd_cm n) conn_id user_id (cl_jti claims);
            cm2 = fst (send_on cm1 conn_id (MText (wi_frame_text (ge_wire E) (Hello user_id conn_id))));
            t = \<lparr>tk_user = user_id, tk_inbound = new_inbound\<lparr>ib_presence_workspaces := workspace_ids\<rparr>,
                 tk_last_pong = ge_instant E, tk_deadline = exp_to_deadline (cl_exp claims) (ge_now_secs E) (ge_instant E)\<rparr>
        in n\<lparr>nd_cm := cm2, nd_tasks := AList.update conn_id t (nd_tasks n),
             nd_calls := nd_calls n @ [PresenceSetOnline user_id workspace_ids, PresenceArrived user_id, PresenceSync user_id]\<rparr>)"

text \<open>After the loop: the cleanup, and the writer task aborted.\<close>

definition close_socket :: "gw_env \<Rightarrow> uuid \<Rightarrow> node \<Rightarrow> node" where
  "close_socket E conn_id n =
     (case map_of (nd_tasks n) conn_id of
        None \<Rightarrow> n
      | Some t \<Rightarrow>
          let (cm1, es) = cleanup E conn_id (tk_user t) (ib_presence_workspaces (tk_inbound t)) (nd_cm n)
          in n\<lparr>nd_cm := abort_writer cm1 conn_id, nd_tasks := AList.delete conn_id (nd_tasks n),
               nd_calls := nd_calls n @ es\<rparr>)"

text \<open>A text frame arrives; \<open>allowed\<close> is the verdict of the socket's token bucket.\<close>

definition client_frame :: "gw_env \<Rightarrow> uuid \<Rightarrow> bool \<Rightarrow> rstr \<Rightarrow> node \<Rightarrow> node" where
  "client_frame E conn_id allowed text n =
     (case map_of (nd_tasks n) conn_id of
        None \<Rightarrow> n
      | Some t \<Rightarrow>
          if \<not> allowed
          then close_socket E conn_id (n\<lparr>nd_cm := fst (send_on (nd_cm n) conn_id
                 (MClose INBOUND_FLOOD_CLOSE_CODE (lit ''too many messages'')))\<rparr>)
          else
            let (cm1, inbound1, es) = handle_client_message E text conn_id (tk_user t) (tk_inbound t) (nd_cm n)
            in n\<lparr>nd_cm := cm1,
                 nd_tasks := AList.update conn_id (t\<lparr>tk_inbound := inbound1, tk_last_pong := ge_instant E\<rparr>) (nd_tasks n),
                 nd_calls := nd_calls n @ es\<rparr>)"

definition pong_frame :: "gw_env \<Rightarrow> uuid \<Rightarrow> node \<Rightarrow> node" where
  "pong_frame E conn_id n =
     n\<lparr>nd_tasks := AList.map_entry conn_id (\<lambda>t. t\<lparr>tk_last_pong := ge_instant E\<rparr>) (nd_tasks n)\<rparr>"

definition renew_activity :: "gw_env \<Rightarrow> uuid \<Rightarrow> task \<Rightarrow> effect list" where
  "renew_activity E conn_id t =
     (if ib_active (tk_inbound t)
      then [ActivitySet (tk_user t) conn_id (ge_instant E - tk_last_pong t \<le> HEARTBEAT_INTERVAL)] else [])"

definition heartbeat :: "gw_env \<Rightarrow> uuid \<Rightarrow> node \<Rightarrow> node" where
  "heartbeat E conn_id n =
     (case map_of (nd_tasks n) conn_id of
        None \<Rightarrow> n
      | Some t \<Rightarrow>
          if ge_instant E - tk_last_pong t > PONG_TIMEOUT then close_socket E conn_id n
          else if tk_deadline t \<le> ge_instant E then close_socket E conn_id n
          else case send_on (nd_cm n) conn_id MPing of
            (cm1, Sent) \<Rightarrow>
              n\<lparr>nd_cm := cm1, nd_calls := nd_calls n
                @ [PresenceSetOnline (tk_user t) (ib_presence_workspaces (tk_inbound t))]
                @ renew_activity E conn_id t @ [PresenceSync (tk_user t)]
                @ map (\<lambda>h. HuddleRedisJoin h (tk_user t)) (huddle_ids_for_conn cm1 conn_id)\<rparr>
          | (cm1, _) \<Rightarrow> close_socket E conn_id (n\<lparr>nd_cm := cm1\<rparr>))"

definition system_event :: "wire \<Rightarrow> rstr \<Rightarrow> json \<Rightarrow> rstr option \<Rightarrow> node \<Rightarrow> node" where
  "system_event R event_type payload stream_id n =
     (let (cm1, es) = handle_event_for R Everyone event_type payload stream_id (nd_cm n)
      in n\<lparr>nd_cm := cm1, nd_calls := nd_calls n @ es\<rparr>)"

datatype node_op =
    OpenSocket gw_env uuid Claims "uuid list"
  | ClientFrame gw_env uuid bool rstr
  | PongFrame gw_env uuid
  | Heartbeat gw_env uuid
  | SystemEvent wire rstr json "rstr option"
  | CloseSocket gw_env uuid
  | WriterTurn uuid bool

fun node_step :: "node \<Rightarrow> node_op \<Rightarrow> node" where
  "node_step n (OpenSocket E c claims ws) = open_socket E c claims ws n"
| "node_step n (ClientFrame E c allowed text) = client_frame E c allowed text n"
| "node_step n (PongFrame E c) = pong_frame E c n"
| "node_step n (Heartbeat E c) = heartbeat E c n"
| "node_step n (SystemEvent R et p sid) = system_event R et p sid n"
| "node_step n (CloseSocket E c) = close_socket E c n"
| "node_step n (WriterTurn h ok) = n\<lparr>nd_cm := manager_step (nd_cm n) (Turn h ok)\<rparr>"

section \<open>Who is subscribed\<close>

datatype topic = Chan uuid | Wksp uuid

definition topic_in :: "topic \<Rightarrow> session \<Rightarrow> bool" where
  "topic_in T s = (case T of Chan ch \<Rightarrow> ch \<in> se_channels s | Wksp w \<Rightarrow> w \<in> se_workspaces s)"

definition listening :: "sessions \<Rightarrow> uuid \<Rightarrow> uuid \<Rightarrow> topic \<Rightarrow> bool" where
  "listening S c u T = (case S c of Some s \<Rightarrow> se_user s = u \<and> topic_in T s | None \<Rightarrow> False)"

abbreviation subscribed :: "manager \<Rightarrow> uuid \<Rightarrow> uuid \<Rightarrow> topic \<Rightarrow> bool" where
  "subscribed cm \<equiv> listening (abs_node cm)"

text \<open>Without a grant nobody starts to listen.\<close>

lemma spec_no_grant: "\<not> grants x \<Longrightarrow> listening (node_spec S st x) c u T \<Longrightarrow> listening S c u T"
  by (cases x) (auto simp: listening_def topic_in_def drop_stuck_def alter_def split: option.splits if_splits topic.splits)

lemma run_no_grant:
  assumes "index_ok cm" and "manager_ok cm" and "list_all (\<lambda>x. \<not> grants x) ops" and "subscribed (run manager_step cm ops) c u T"
  shows "subscribed cm c u T"
  using assms
proof (induction ops arbitrary: cm)
  case Nil
  then show ?case by simp
next
  case (Cons x ops)
  have ok: "manager_ok (manager_step cm x)" by (rule manager_step_ok [OF Cons.prems(2)])
  then have "subscribed (manager_step cm x) c u T"
    using Cons.IH [of "manager_step cm x"] Cons.prems by (simp add: manager_ok_def)
  then have "listening (node_spec (abs_node cm) (\<lambda>c. stuck (writers cm c)) x) c u T"
    by (simp only: manager_step_refines [OF Cons.prems(1)])
  then show ?case using spec_no_grant Cons.prems(3) by auto
qed

lemma routes_no_grant:
  assumes "manager_ok cm" and "routes cm cm'" and "subscribed cm' c u T"
  shows "subscribed cm c u T"
proof -
  have "index_ok cm" using assms(1) by (simp add: manager_ok_def)
  then show ?thesis using assms run_no_grant [of cm] unfolding routes_def by blast
qed

text \<open>What a frame may add: a workspace the client is a member of, or channels they are a member of.\<close>

definition frame_grants :: "gw_env \<Rightarrow> rstr \<Rightarrow> uuid \<Rightarrow> topic \<Rightarrow> bool" where
  "frame_grants E text u T =
     (case wi_json (ge_wire E) text of
        None \<Rightarrow> False
      | Some msg \<Rightarrow>
          (case T of
             Wksp w \<Rightarrow> or_empty (ev_text msg ''type'') = lit ''subscribe'' \<and> ev_field (ge_wire E) msg ''workspace_id'' = Some w
               \<and> is_workspace_member E w u
           | Chan ch \<Rightarrow> or_empty (ev_text msg ''type'') = lit ''channel.join''
               \<and> ch \<in> set (channel_memberships E (requested_channels E msg) u)))"

lemma frame_kind_cases:
  "frame_kind s = FSubscribe \<Longrightarrow> s = lit ''subscribe''" "frame_kind s = FChannelJoin \<Longrightarrow> s = lit ''channel.join''"
  unfolding frame_kind_def frame_kinds_def by (auto simp del: lit_simps split: if_splits)

lemma subscribe_workspace_listening:
  "subscribed (subscribe_workspace cm c' w) c u T \<Longrightarrow> subscribed cm c u T \<or> c = c' \<and> T = Wksp w"
proof -
  have a: "abs_node (subscribe_workspace cm c' w) = alter (abs_node cm) c' (\<lambda>s. s\<lparr>se_workspaces := insert w (se_workspaces s)\<rparr>)"
    unfolding subscribe_workspace_def by (rule abs_with_conn) (simp add: session_of_def)
  assume "subscribed (subscribe_workspace cm c' w) c u T"
  then show ?thesis unfolding a
    by (auto simp: listening_def topic_in_def alter_def split: option.splits if_splits topic.splits)
qed

lemma join_channel_listening:
  "subscribed (join_channel cm c' ch) c u T \<Longrightarrow> subscribed cm c u T \<or> c = c' \<and> T = Chan ch"
proof -
  have a: "abs_node (join_channel cm c' ch) = alter (abs_node cm) c' (\<lambda>s. s\<lparr>se_channels := insert ch (se_channels s)\<rparr>)"
    unfolding join_channel_def by (rule abs_with_conn) (simp add: session_of_def)
  assume "subscribed (join_channel cm c' ch) c u T"
  then show ?thesis unfolding a
    by (auto simp: listening_def topic_in_def alter_def split: option.splits if_splits topic.splits)
qed

lemma join_channels_listening:
  "subscribed (foldl (\<lambda>cm ch. join_channel cm c' ch) cm chs) c u T \<Longrightarrow> subscribed cm c u T \<or> c = c' \<and> (\<exists>ch\<in>set chs. T = Chan ch)"
proof (induction chs arbitrary: cm)
  case (Cons ch chs)
  then show ?case using join_channel_listening [of cm c' ch c u T] by fastforce
qed simp

lemma join_huddle_listening: "subscribed (join_huddle cm c' h) c u T \<Longrightarrow> subscribed cm c u T"
proof -
  have a: "abs_node (join_huddle cm c' h) = alter (abs_node cm) c' (\<lambda>s. s\<lparr>se_huddles := insert h (se_huddles s)\<rparr>)"
    unfolding join_huddle_def by (rule abs_with_conn) (simp add: session_of_def)
  assume "subscribed (join_huddle cm c' h) c u T"
  then show ?thesis unfolding a
    by (auto simp: listening_def topic_in_def alter_def split: option.splits if_splits topic.splits)
qed

lemma granting_calls_ok:
  assumes "manager_ok cm"
  shows "manager_ok (subscribe_workspace cm c w)" "manager_ok (join_channel cm c ch)" "manager_ok (join_huddle cm c h)"
  using manager_step_ok [OF assms, of "SubscribeWorkspace c w"] manager_step_ok [OF assms, of "JoinChannel c ch"]
    manager_step_ok [OF assms, of "JoinHuddle c h"] by simp_all

text \<open>The parts of the subscribe frame behind the grant are routed.\<close>

lemma frame_subscribe_routes:
  assumes "ev_field (ge_wire E) msg ''workspace_id'' = Some w" and "is_workspace_member E w v"
  shows "routes (subscribe_workspace cm c' w) (fst (frame_subscribe E msg c' v ib cm))"
proof -
  let ?cm1 = "subscribe_workspace cm c' w"
  have "routes ?cm1 (fst (fst (case ev_text msg ''last_event_id'' of
                   Some last_id \<Rightarrow>
                     if last_id \<noteq> [] then replay_workspace (ge_wire E) (ge_stream E) c' w last_id ?cm1
                     else ((?cm1, []), Caught 0 (sa_tail (ge_stream E) w))
                 | None \<Rightarrow> ((?cm1, []), Caught 0 (sa_tail (ge_stream E) w)))))"
    by (auto split: option.split intro: routes_replay routing)
  then show ?thesis using assms
    by (auto simp: frame_subscribe_def Let_def split_beta intro!: routing)
qed

lemma frame_huddle_join_routes:
  "routes cm (fst (frame_huddle_join E msg c' v cm)) \<or> (\<exists>hid. routes (join_huddle cm c' hid) (fst (frame_huddle_join E msg c' v cm)))"
proof (cases "\<exists>h tr pr. ev_field (ge_wire E) msg ''huddle_id'' = Some h \<and> may_join_huddle E h v \<and> ge_try_join E h v = Joined tr pr")
  case True
  then obtain h tr pr where "ev_field (ge_wire E) msg ''huddle_id'' = Some h" "may_join_huddle E h v" "ge_try_join E h v = Joined tr pr"
    by blast
  then have "routes (join_huddle cm c' h) (fst (frame_huddle_join E msg c' v cm))"
    by (simp add: frame_huddle_join_def Let_def routing)
  then show ?thesis by blast
next
  case False
  then have "routes cm (fst (frame_huddle_join E msg c' v cm))"
    by (auto simp: frame_huddle_join_def routing split: option.split HuddleJoin.split)
  then show ?thesis ..
qed

lemma frame_routed:
  "k \<notin> {FSubscribe, FChannelJoin, FHuddleJoin} \<Longrightarrow> routes cm (fst (handle_frame k E ty msg c v ib cm))"
  by (cases k) (simp_all add: frame_channel_leave_def frame_typing_start_def frame_typing_stop_def frame_huddle_leave_def
      Let_def split_beta routing split: option.split)

lemma frame_listening:
  assumes ok: "manager_ok cm" and s: "subscribed (fst (handle_client_message E text c' v ib cm)) c u T"
  shows "subscribed cm c u T \<or> c = c' \<and> frame_grants E text v T"
proof (cases "wi_json (ge_wire E) text")
  case None
  then show ?thesis using s by (simp add: handle_client_message_def)
next
  case (Some msg)
  let ?ty = "or_empty (ev_text msg ''type'')"
  have h: "subscribed (fst (handle_frame (frame_kind ?ty) E ?ty msg c' v ib cm)) c u T"
    using s Some by (simp add: handle_client_message_def Let_def)
  show ?thesis
  proof (cases "frame_kind ?ty")
    case FSubscribe
    show ?thesis
    proof (cases "\<exists>w. ev_field (ge_wire E) msg ''workspace_id'' = Some w \<and> is_workspace_member E w v")
      case True
      then obtain w where w: "ev_field (ge_wire E) msg ''workspace_id'' = Some w" "is_workspace_member E w v" by blast
      have "subscribed (subscribe_workspace cm c' w) c u T"
        using h routes_no_grant [OF granting_calls_ok(1) [OF ok] frame_subscribe_routes [OF w]] by (simp add: FSubscribe)
      then show ?thesis
        using subscribe_workspace_listening frame_kind_cases(1) [OF FSubscribe] w by (fastforce simp: frame_grants_def Some simp del: lit_simps)
    next
      case False
      then show ?thesis using h by (auto simp: FSubscribe frame_subscribe_def split: option.splits if_splits)
    qed
  next
    case FChannelJoin
    then show ?thesis
      using h join_channels_listening [of c' cm "channel_memberships E (requested_channels E msg) v" c u T] frame_kind_cases(2) [OF FChannelJoin]
      by (auto simp: frame_channel_join_def frame_grants_def Some Let_def simp del: lit_simps split: if_splits)
  next
    case FHuddleJoin
    have j: "subscribed (fst (frame_huddle_join E msg c' v cm)) c u T" using h by (simp add: FHuddleJoin split_beta)
    show ?thesis using frame_huddle_join_routes [of cm E msg c' v]
    proof
      assume "routes cm (fst (frame_huddle_join E msg c' v cm))"
      then show ?thesis using routes_no_grant [OF ok _ j] by blast
    next
      assume "\<exists>hid. routes (join_huddle cm c' hid) (fst (frame_huddle_join E msg c' v cm))"
      then show ?thesis using routes_no_grant [OF granting_calls_ok(3) [OF ok] _ j] join_huddle_listening by blast
    qed
  qed (rule disjI1, rule routes_no_grant [OF ok frame_routed h], simp)+
qed

text \<open>Serving sockets: any calls of the manager but opening one. A connection keeps its user for life.\<close>

fun is_connect :: "manager_op \<Rightarrow> bool" where
  "is_connect (Connect _ _ _) = True"
| "is_connect _ = False"

lemma grants_connect: "\<not> grants x \<Longrightarrow> \<not> is_connect x"
  by (cases x) simp_all

definition serves :: "manager \<Rightarrow> manager \<Rightarrow> bool" where
  "serves cm cm' \<longleftrightarrow> (\<exists>ops. cm' = run manager_step cm ops \<and> list_all (\<lambda>x. \<not> is_connect x) ops)"

lemma serves_trans: "serves cm cm1 \<Longrightarrow> serves cm1 cm2 \<Longrightarrow> serves cm cm2"
  unfolding serves_def by (metis list_all_append run_append)

lemma routes_serves: "routes cm cm' \<Longrightarrow> serves cm cm'"
  unfolding routes_def serves_def by (auto simp: list_all_iff dest: grants_connect)

lemma serves_step: "\<not> is_connect x \<Longrightarrow> serves cm (manager_step cm x)"
  unfolding serves_def by (rule exI [of _ "[x]"]) simp

lemma serves_calls:
  "serves cm (subscribe_workspace cm c w)" "serves cm (join_channel cm c ch)" "serves cm (join_huddle cm c h)"
  "serves cm (fst (send_on cm c m))" "serves cm (fst (remove_connection cm c))" "serves cm (abort_writer cm c)"
  using serves_step [of "SubscribeWorkspace c w" cm] serves_step [of "JoinChannel c ch" cm] serves_step [of "JoinHuddle c h" cm]
    serves_step [of "Reply c m" cm] serves_step [of "Disconnect c" cm] serves_step [of "Abort c" cm] by simp_all

lemma serves_joins: "serves cm (foldl (\<lambda>cm ch. join_channel cm c ch) cm chs)"
proof (induction chs arbitrary: cm)
  case Nil
  then show ?case using routes_serves [OF routes_refl] by simp
next
  case (Cons ch chs)
  have "serves (join_channel cm c ch) (foldl (\<lambda>cm ch. join_channel cm c ch) (join_channel cm c ch) chs)" by (rule Cons)
  with serves_calls(2) [of cm c ch] show ?case unfolding foldl_Cons by (rule serves_trans)
qed

lemma serves_ok: "serves cm cm' \<Longrightarrow> manager_ok cm \<Longrightarrow> manager_ok cm'"
  unfolding serves_def using node.inv_run_from by blast

lemma serves_users:
  assumes "serves cm cm'" and ok: "manager_ok cm" and "map_of (connections cm') c = Some k'"
  shows "\<exists>k. map_of (connections cm) c = Some k \<and> cn_user_id k = cn_user_id k'"
proof -
  have "\<exists>s. abs_node cm c = Some s \<and> se_user s = se_user s'"
    if "manager_ok cm" "list_all (\<lambda>x. \<not> is_connect x) ops" "abs_node (run manager_step cm ops) c = Some s'" for ops s' cm
    using that
  proof (induction ops arbitrary: cm)
    case Nil
    then show ?case by simp
  next
    case (Cons x ops)
    have "\<exists>s. abs_node (manager_step cm x) c = Some s \<and> se_user s = se_user s'"
      using Cons.IH [OF manager_step_ok [OF Cons.prems(1)]] Cons.prems(2,3) by simp
    moreover have "abs_node (manager_step cm x) = node_spec (abs_node cm) (\<lambda>c. stuck (writers cm c)) x"
      using Cons.prems(1) by (simp add: manager_step_refines manager_ok_def)
    ultimately show ?case using Cons.prems(2)
      by (cases x) (auto simp: drop_stuck_def alter_def split: option.splits if_splits)
  qed
  from this [of cm _ "session_of k'"] show ?thesis using assms unfolding serves_def by (fastforce simp: abs_node_def)
qed

lemma frame_serves: "serves cm (fst (handle_client_message E text c v ib cm))"
proof (cases "wi_json (ge_wire E) text")
  case None
  then show ?thesis using routes_serves [OF routes_refl] by (simp add: handle_client_message_def)
next
  case (Some msg)
  let ?ty = "or_empty (ev_text msg ''type'')"
  have "serves cm (fst (handle_frame (frame_kind ?ty) E ?ty msg c v ib cm))"
  proof (cases "frame_kind ?ty")
    case FSubscribe
    show ?thesis
    proof (cases "\<exists>w. ev_field (ge_wire E) msg ''workspace_id'' = Some w \<and> is_workspace_member E w v")
      case True
      then show ?thesis using serves_trans [OF serves_calls(1) routes_serves [OF frame_subscribe_routes]] by (auto simp: FSubscribe)
    next
      case False
      then show ?thesis using routes_serves [OF routes_refl [of cm]]
        by (auto simp: FSubscribe frame_subscribe_def split: option.split)
    qed
  next
    case FChannelJoin
    then show ?thesis using routes_serves [OF routes_refl [of cm]] by (simp add: frame_channel_join_def Let_def serves_joins)
  next
    case FHuddleJoin
    show ?thesis
      using frame_huddle_join_routes [of cm E msg c v] routes_serves serves_trans [OF serves_calls(3) [of cm c]]
      by (auto simp: FHuddleJoin split_beta)
  qed (rule routes_serves [OF frame_routed], simp)+
  then show ?thesis using Some by (simp add: handle_client_message_def Let_def)
qed

section \<open>Runs of a node\<close>

definition node_ok :: "node \<Rightarrow> bool" where
  "node_ok n \<longleftrightarrow> manager_ok (nd_cm n)
     \<and> (\<forall>c k. map_of (connections (nd_cm n)) c = Some k \<longrightarrow>
          (\<exists>t. map_of (nd_tasks n) c = Some t \<and> tk_user t = cn_user_id k))"

lemma node_okI:
  assumes "node_ok n" and "serves (nd_cm n) (nd_cm n')"
    and "\<And>c t. map_of (nd_tasks n) c = Some t \<Longrightarrow> map_of (connections (nd_cm n')) c \<noteq> None \<Longrightarrow>
        \<exists>t'. map_of (nd_tasks n') c = Some t' \<and> tk_user t' = tk_user t"
  shows "node_ok n'"
  unfolding node_ok_def
proof (intro conjI allI impI)
  have ok: "manager_ok (nd_cm n)" using assms(1) by (simp add: node_ok_def)
  show "manager_ok (nd_cm n')" by (rule serves_ok [OF assms(2) ok])
  fix c k assume k: "map_of (connections (nd_cm n')) c = Some k"
  obtain k0 where k0: "map_of (connections (nd_cm n)) c = Some k0" "cn_user_id k0 = cn_user_id k"
    using serves_users [OF assms(2) ok k] by blast
  then obtain t where "map_of (nd_tasks n) c = Some t" "tk_user t = cn_user_id k" using assms(1) by (fastforce simp: node_ok_def)
  then show "\<exists>t. map_of (nd_tasks n') c = Some t \<and> tk_user t = cn_user_id k" using assms(3) k by fastforce
qed

lemma cleanup_table: "map_of (connections (fst (cleanup E c u ws cm))) = (map_of (connections cm))(c := None)"
  by (simp add: cleanup_def Let_def split_beta)

lemma cleanup_cm: "fst (cleanup E c u ws cm) = fst (remove_connection cm c)"
  by (simp add: cleanup_def Let_def split_beta)

lemma close_socket_serves: "serves (nd_cm n) (nd_cm (close_socket E c n))"
  using serves_trans [OF serves_calls(5) serves_calls(6)] routes_serves [OF routes_refl]
  by (auto simp: close_socket_def split_beta Let_def cleanup_cm split: option.split)

lemma close_socket_ok: "node_ok n \<Longrightarrow> node_ok (close_socket E c n)"
proof (rule node_okI [OF _ close_socket_serves], assumption)
  fix d t assume "map_of (nd_tasks n) d = Some t" "map_of (connections (nd_cm (close_socket E c n))) d \<noteq> None"
  then show "\<exists>t'. map_of (nd_tasks (close_socket E c n)) d = Some t' \<and> tk_user t' = tk_user t"
    by (auto simp: close_socket_def split_beta Let_def delete_conv' abort_writer_def cleanup_cm split: option.splits if_splits)
qed

lemma open_socket_ok:
  assumes ok: "node_ok n"
  shows "node_ok (open_socket E c claims ws n)"
proof (cases "map_of (nd_tasks n) c \<noteq> None \<or> map_of (connections (nd_cm n)) c \<noteq> None")
  case True
  then show ?thesis using ok by (simp add: open_socket_def)
next
  case False
  let ?cm = "connect (nd_cm n) c (cl_sub claims) (cl_jti claims)"
  let ?n = "open_socket E c claims ws n"
  have m: "manager_ok ?cm" using ok by (simp add: node_ok_def connect_ok)
  have cm: "nd_cm ?n = fst (send_on ?cm c (MText (wi_frame_text (ge_wire E) (Hello (cl_sub claims) c))))"
    using False by (simp add: open_socket_def Let_def)
  have table: "map_of (connections (nd_cm ?n)) d =
      (if d = c then Some \<lparr>cn_user_id = cl_sub claims, cn_token_jti = cl_jti claims, cn_sender = c, subscribed_workspaces = [],
                 subscribed_channels = [], subscribed_huddles = []\<rparr> else map_of (connections (nd_cm n)) d)" for d
    using False by (simp add: cm connect_def add_connection_def Let_def update_conv')
  have tasks: "map_option tk_user (map_of (nd_tasks ?n) d) = (if d = c then Some (cl_sub claims) else map_option tk_user (map_of (nd_tasks n) d))" for d
    using False by (simp add: open_socket_def Let_def update_conv')
  show ?thesis
    unfolding node_ok_def
  proof (intro conjI allI impI)
    show "manager_ok (nd_cm ?n)" unfolding cm by (rule send_on_ok [OF m])
    fix d k assume k: "map_of (connections (nd_cm ?n)) d = Some k"
    have "map_option tk_user (map_of (nd_tasks ?n) d) = Some (cn_user_id k)"
      using k ok unfolding table tasks by (auto simp: node_ok_def split: if_splits)
    then show "\<exists>t. map_of (nd_tasks ?n) d = Some t \<and> tk_user t = cn_user_id k" by auto
  qed
qed

lemma node_step_ok:
  assumes ok: "node_ok n"
  shows "node_ok (node_step n x)"
proof (cases x)
  case (OpenSocket E c claims ws)
  then show ?thesis using open_socket_ok [OF ok] by simp
next
  case (ClientFrame E c allowed body)
  have f: "node_ok (n\<lparr>nd_cm := fst (send_on (nd_cm n) c m)\<rparr>)" for m
    by (rule node_okI [OF ok]) (simp_all add: serves_calls)
  have g: "node_ok (n\<lparr>nd_cm := fst (handle_client_message E body c (tk_user t) ib (nd_cm n)),
      nd_tasks := AList.update c (t\<lparr>tk_inbound := ib', tk_last_pong := now\<rparr>) (nd_tasks n), nd_calls := es\<rparr>)"
    if "map_of (nd_tasks n) c = Some t" for t ib ib' now es
    by (rule node_okI [OF ok]) (auto simp: frame_serves update_conv' that)
  show ?thesis unfolding ClientFrame node_step.simps client_frame_def
    by (auto simp: ok split_beta Let_def g close_socket_ok [OF f] split: option.split)
next
  case (PongFrame E c)
  show ?thesis unfolding PongFrame node_step.simps pong_frame_def
    by (rule node_okI [OF ok]) (auto simp: routes_serves [OF routes_refl])
next
  case (Heartbeat E c)
  have f: "node_ok (n\<lparr>nd_cm := fst (send_on (nd_cm n) c m)\<rparr>)" "node_ok (n\<lparr>nd_cm := fst (send_on (nd_cm n) c m), nd_calls := es\<rparr>)" for m es
    by ((rule node_okI [OF ok]; simp add: serves_calls)+)
  show ?thesis unfolding Heartbeat node_step.simps heartbeat_def
    by (auto simp: ok split_beta f close_socket_ok [OF f(1)] close_socket_ok [OF ok] split: option.split send_result.split prod.split)
next
  case (SystemEvent R et p sid)
  show ?thesis unfolding SystemEvent node_step.simps system_event_def split_beta Let_def
    by (rule node_okI [OF ok]) (auto simp: routes_serves [OF routes_event])
next
  case (CloseSocket E c)
  then show ?thesis using close_socket_ok [OF ok] by simp
next
  case (WriterTurn h b)
  show ?thesis unfolding WriterTurn node_step.simps
    by (rule node_okI [OF ok]) (auto intro: serves_step simp del: manager_step.simps)
qed

interpretation realtime: stepped new_node node_step node_ok
proof
  show "node_ok new_node" using new_manager_ok by (simp add: node_ok_def new_node_def) (simp add: new_manager_def)
qed (rule node_step_ok)

text \<open>The event that ends a membership.\<close>

fun withdraws :: "node_op \<Rightarrow> uuid \<Rightarrow> topic \<Rightarrow> bool" where
  "withdraws (SystemEvent R et p sid) u (Chan ch) \<longleftrightarrow> et = lit ''channel.member_removed''
     \<and> ev_field R p ''user_id'' = Some u \<and> ev_field R p ''channel_id'' = Some ch"
| "withdraws (SystemEvent R et p sid) u (Wksp w) \<longleftrightarrow> et = lit ''workspace.member_removed''
     \<and> ev_field R p ''user_id'' = Some u \<and> ev_field R p ''workspace_id'' = Some w"
| "withdraws _ u T \<longleftrightarrow> False"

lemma subscribed_selected:
  "subscribed cm c u (Chan ch) = selected cm Everyone (\<lambda>k. cn_user_id k = u \<and> ch \<in> set (subscribed_channels k)) c"
  "subscribed cm c u (Wksp w) = selected cm Everyone (\<lambda>k. cn_user_id k = u \<and> w \<in> set (subscribed_workspaces k)) c"
  by (cases "map_of (connections cm) c"; simp add: listening_def topic_in_def selected_def abs_node_def session_of_def)+

lemma close_socket_routes: "routes (nd_cm n) (nd_cm (close_socket E c n))"
proof -
  have "routes cm (abort_writer (fst (remove_connection cm c)) c)" for cm
    using routes_step [OF routes_step [OF routes_refl, of "Disconnect c" cm], of "Abort c"] by simp
  then show ?thesis using routes_refl by (auto simp: close_socket_def split_beta Let_def cleanup_cm split: option.split)
qed

lemma send_on_routes: "routes cm (fst (send_on cm c m))"
  using routes_step [OF routes_refl, of "Reply c m" cm] by simp

lemma heartbeat_routes: "routes (nd_cm n) (nd_cm (heartbeat E c n))"
proof -
  have "routes (nd_cm n) (nd_cm (close_socket E c (n\<lparr>nd_cm := fst (send_on (nd_cm n) c MPing)\<rparr>)))"
    by (rule routes_trans [OF send_on_routes [of "nd_cm n" c MPing]]) (use close_socket_routes [of "n\<lparr>nd_cm := x\<rparr>" for x] in simp)
  then show ?thesis
    using close_socket_routes [of n E c] routes_refl [of "nd_cm n"] send_on_routes [of "nd_cm n" c MPing]
    by (auto simp: heartbeat_def split_beta split: option.split send_result.split)
qed

lemma open_socket_listening:
  assumes "subscribed (nd_cm (open_socket E c' claims ws n)) c u T"
  shows "subscribed (nd_cm n) c u T"
proof (cases "map_of (nd_tasks n) c' \<noteq> None \<or> map_of (connections (nd_cm n)) c' \<noteq> None")
  case True
  then show ?thesis using assms by (simp add: open_socket_def)
next
  case False
  then show ?thesis using assms
    by (auto simp: open_socket_def Let_def connect_def add_connection_def update_conv' listening_def topic_in_def abs_node_def
        session_of_def split: if_splits topic.splits option.splits)
qed

lemma client_frame_listening:
  assumes ok: "node_ok n" and s: "subscribed (nd_cm (client_frame E c' allowed body n)) c u T"
  shows "subscribed (nd_cm n) c u T \<or> c = c' \<and> allowed \<and> frame_grants E body u T"
proof (cases "map_of (nd_tasks n) c'")
  case None
  then show ?thesis using s by (simp add: client_frame_def)
next
  case (Some t)
  have m: "manager_ok (nd_cm n)" using ok by (simp add: node_ok_def)
  show ?thesis
  proof (cases allowed)
    case False
    have "routes (nd_cm n) (nd_cm (client_frame E c' allowed body n))"
    proof -
      let ?cm = "fst (send_on (nd_cm n) c' (MClose INBOUND_FLOOD_CLOSE_CODE (lit ''too many messages'')))"
      have "routes ?cm (nd_cm (close_socket E c' (n\<lparr>nd_cm := ?cm\<rparr>)))"
        using close_socket_routes [of "n\<lparr>nd_cm := ?cm\<rparr>" E c'] by (simp del: lit_simps)
      from routes_trans [OF send_on_routes this] show ?thesis using False Some by (simp add: client_frame_def del: lit_simps)
    qed
    then show ?thesis using routes_no_grant [OF m _ s] by blast
  next
    case True
    let ?cm = "fst (handle_client_message E body c' (tk_user t) (tk_inbound t) (nd_cm n))"
    have sub: "subscribed ?cm c u T" using s True Some by (simp add: client_frame_def split_beta Let_def)
    then obtain k' where k': "map_of (connections ?cm) c = Some k'" "cn_user_id k' = u"
      by (auto simp: listening_def abs_node_def split: option.splits)
    obtain k where k: "map_of (connections (nd_cm n)) c = Some k" "cn_user_id k = u"
      using serves_users [OF frame_serves m k'(1)] k'(2) by blast
    have "tk_user t = u" if "c = c'" using ok k Some that by (fastforce simp: node_ok_def)
    then show ?thesis using frame_listening [OF m sub] True by blast
  qed
qed

lemma node_step_listening:
  assumes ok: "node_ok n" and s: "subscribed (nd_cm (node_step n x)) c u T"
  shows "\<not> withdraws x u T \<and> (subscribed (nd_cm n) c u T \<or> (\<exists>E body. x = ClientFrame E c True body \<and> frame_grants E body u T))"
proof -
  have m: "manager_ok (nd_cm n)" using ok by (simp add: node_ok_def)
  show ?thesis
  proof (cases x)
    case (OpenSocket E c' claims ws)
    then show ?thesis using s open_socket_listening by simp
  next
    case (ClientFrame E c' allowed body)
    have "subscribed (nd_cm n) c u T \<or> c = c' \<and> allowed \<and> frame_grants E body u T"
      by (rule client_frame_listening [OF ok]) (use s in \<open>simp add: ClientFrame\<close>)
    then show ?thesis by (auto simp: ClientFrame)
  next
    case (PongFrame E c')
    then show ?thesis using s by (simp add: pong_frame_def)
  next
    case (Heartbeat E c')
    then show ?thesis using s routes_no_grant [OF m heartbeat_routes] by simp
  next
    case (SystemEvent R et p sid)
    have e: "nd_cm (node_step n x) = fst (handle_event_for R Everyone et p sid (nd_cm n))"
      by (simp add: SystemEvent system_event_def split_beta Let_def)
    have "\<not> withdraws x u T"
      using s workspace_removed_unselected [OF m, of R p u] channel_removed_unselected [OF m, of R p u]
      unfolding e by (cases T) (auto simp: SystemEvent subscribed_selected simp del: lit_simps)
    then show ?thesis using s routes_no_grant [OF m routes_event] unfolding e by blast
  next
    case (CloseSocket E c')
    then show ?thesis using s routes_no_grant [OF m close_socket_routes] by simp
  next
    case (WriterTurn h b)
    then show ?thesis using s by (simp add: abs_node_def listening_def)
  qed
qed

text \<open>
  C6. In every run of a node, whoever listens to a channel or a workspace has proved their membership: the socket sent a frame for
  which the database answered that its user is a member, and since that frame the node has handled no event that removed this user from it.
\<close>

theorem subscription_is_proven:
  assumes "subscribed (nd_cm (run node_step new_node ops)) c u T"
  shows "\<exists>pre E body post. ops = pre @ ClientFrame E c True body # post \<and> frame_grants E body u T
    \<and> (\<forall>x. x \<in> set post \<longrightarrow> \<not> withdraws x u T)"
  using assms
proof (induction ops rule: rev_induct)
  case Nil
  then show ?case by (simp add: new_node_def new_manager_def listening_def abs_node_def)
next
  case (snoc x ops)
  let ?n = "run node_step new_node ops"
  have s: "\<not> withdraws x u T" "subscribed (nd_cm ?n) c u T \<or> (\<exists>E body. x = ClientFrame E c True body \<and> frame_grants E body u T)"
    using node_step_listening [OF realtime.inv_run [of ops], of x c u T] snoc.prems by (auto simp: run_append)
  from s(2) show ?case
  proof
    assume "subscribed (nd_cm ?n) c u T"
    then obtain pre E body post where "ops = pre @ ClientFrame E c True body # post" "frame_grants E body u T"
      "\<forall>y. y \<in> set post \<longrightarrow> \<not> withdraws y u T" using snoc.IH by blast
    then show ?thesis using s(1) by (intro exI [of _ pre] exI [of _ E] exI [of _ body] exI [of _ "post @ [x]"]) auto
  next
    assume "\<exists>E body. x = ClientFrame E c True body \<and> frame_grants E body u T"
    then show ?thesis by (fastforce intro: exI [of _ ops])
  qed
qed

definition sample_gw :: gw_env where
  "sample_gw = \<lparr>ge_wire = sample_wire\<lparr>wi_json := (\<lambda>_. Some (JObject [(lit ''type'', JString (lit ''channel.join'')),
       (lit ''channel_ids'', JArray [JString [6]])]))\<rparr>, ge_stream = sample_stream,
     ge_workspace_member = (\<lambda>_ _. Inr False), ge_channel_members = (\<lambda>ids _. Inr ids), ge_may_join_huddle = (\<lambda>_ _. Inr False),
     ge_manual_away = (\<lambda>_. Inr []), ge_last_active = (\<lambda>_. Inr []), ge_previous_status = (\<lambda>_. Inr None),
     ge_presence_clear = (\<lambda>_. True), ge_online = (\<lambda>_. []), ge_try_join = (\<lambda>_ _. Joined Mesh False),
     ge_huddle_leave = (\<lambda>_ _. True), ge_huddle_is_member = (\<lambda>_ _. False), ge_huddle_members = (\<lambda>_. []), ge_now_secs = 0,
     ge_instant = 0\<rparr>"

definition sample_ops :: "node_op list" where
  "sample_ops = [OpenSocket sample_gw 1 \<lparr>cl_sub = 7, cl_exp = 0, cl_iat = 100, cl_jti = None, cl_token_type = []\<rparr> [],
     ClientFrame sample_gw 1 True []]"

theorem subscription_is_proven_witness:
  "subscribed (nd_cm (run node_step new_node sample_ops)) 1 7 (Chan 6)
   \<and> (\<exists>pre E body post. sample_ops = pre @ ClientFrame E 1 True body # post \<and> frame_grants E body 7 (Chan 6))"
proof -
  have "subscribed (nd_cm (run node_step new_node sample_ops)) 1 7 (Chan 6)" by code_simp
  with subscription_is_proven [OF this] show ?thesis by blast
qed

end
