(* ===== verification/Workflow_Model.thy ===== *)
theory Workflow_Model
  imports List_Views Mentions Validation
begin

text \<open>
  Workflow definitions, \<open>src/backend/api/src/workflows/models.rs\<close> and \<open>cells.rs\<close>: triggers, steps, forms, the
  templates with \<open>{{name}}\<close> placeholders, the check a definition passes before it is stored, and the conversion of a
  rendered template to the value of a list cell. \<open>NaiveTime::parse_from_str\<close> with the format \<open>%H:%M\<close>
  is the field \<open>parse_hm\<close> of \<open>wf_ext\<close>; the other library functions are those of \<open>ext\<close>.
\<close>

section \<open>Data\<close>

record wf_ext =
  wx_ext :: ext
  parse_hm :: "rstr \<Rightarrow> (nat \<times> nat) option"

definition NAME_MAX_CHARS :: nat where "NAME_MAX_CHARS = 80"
definition WF_DESCRIPTION_MAX_CHARS :: nat where "WF_DESCRIPTION_MAX_CHARS = 300"
definition WF_TEXT_MAX_CHARS :: nat where "WF_TEXT_MAX_CHARS = 4000"
definition MAX_STEPS :: nat where "MAX_STEPS = 20"
definition MAX_WEBHOOK_VARIABLES :: nat where "MAX_WEBHOOK_VARIABLES = 10"
definition VARIABLE_NAME_MAX_CHARS :: nat where "VARIABLE_NAME_MAX_CHARS = 40"
definition FORM_TITLE_MAX_CHARS :: nat where "FORM_TITLE_MAX_CHARS = 80"
definition MAX_FORM_FIELDS :: nat where "MAX_FORM_FIELDS = 10"
definition FIELD_LABEL_MAX_CHARS :: nat where "FIELD_LABEL_MAX_CHARS = 80"
definition MAX_SELECT_OPTIONS :: nat where "MAX_SELECT_OPTIONS = 20"
definition OPTION_MAX_CHARS :: nat where "OPTION_MAX_CHARS = 80"
definition SHORT_ANSWER_MAX_CHARS :: nat where "SHORT_ANSWER_MAX_CHARS = 200"
definition LONG_ANSWER_MAX_CHARS :: nat where "LONG_ANSWER_MAX_CHARS = 4000"
definition FORM_EXPIRY_DAYS :: nat where "FORM_EXPIRY_DAYS = 7"
definition MAX_CELLS :: nat where "MAX_CELLS = 30"

lemmas wf_limit_defs = NAME_MAX_CHARS_def WF_DESCRIPTION_MAX_CHARS_def WF_TEXT_MAX_CHARS_def MAX_STEPS_def
  MAX_WEBHOOK_VARIABLES_def VARIABLE_NAME_MAX_CHARS_def FORM_TITLE_MAX_CHARS_def MAX_FORM_FIELDS_def
  FIELD_LABEL_MAX_CHARS_def MAX_SELECT_OPTIONS_def OPTION_MAX_CHARS_def SHORT_ANSWER_MAX_CHARS_def
  LONG_ANSWER_MAX_CHARS_def FORM_EXPIRY_DAYS_def MAX_CELLS_def

datatype Weekday = Mon | Tue | Wed | Thu | Fri | Sat | Sun

fun iso :: "Weekday \<Rightarrow> int" where
  "iso Mon = 1"
| "iso Tue = 2"
| "iso Wed = 3"
| "iso Thu = 4"
| "iso Fri = 5"
| "iso Sat = 6"
| "iso Sun = 7"

datatype Trigger =
    Schedule (days: "Weekday list") (time: rstr) (timezone: rstr)
  | Webhook (webhook_variables: "rstr list")
  | ReactionAdded (reaction_channel: uuid) (emoji: rstr)
  | MemberJoined uuid
  | Shortcut uuid

definition REACTION_VARIABLES :: "rstr list" where
  "REACTION_VARIABLES = [lit ''trigger.user'', lit ''trigger.channel'', lit ''trigger.message'',
     lit ''trigger.message_link'']"

definition JOIN_VARIABLES :: "rstr list" where
  "JOIN_VARIABLES = [lit ''trigger.user'', lit ''trigger.channel'']"

fun trigger_kind :: "Trigger \<Rightarrow> rstr" where
  "trigger_kind (Schedule _ _ _) = lit ''schedule''"
| "trigger_kind (Webhook _) = lit ''webhook''"
| "trigger_kind (ReactionAdded _ _) = lit ''reaction_added''"
| "trigger_kind (MemberJoined _) = lit ''member_joined''"
| "trigger_kind (Shortcut _) = lit ''shortcut''"

fun trigger_variables :: "Trigger \<Rightarrow> rstr list" where
  "trigger_variables (Schedule _ _ _) = []"
| "trigger_variables (Webhook vs) = map (\<lambda>name. lit ''webhook.'' @ name) vs"
| "trigger_variables (ReactionAdded _ _) = REACTION_VARIABLES"
| "trigger_variables (MemberJoined _) = JOIN_VARIABLES"
| "trigger_variables (Shortcut _) = JOIN_VARIABLES"

fun trigger_channel :: "Trigger \<Rightarrow> uuid option" where
  "trigger_channel (ReactionAdded c _) = Some c"
| "trigger_channel (MemberJoined c) = Some c"
| "trigger_channel (Shortcut c) = Some c"
| "trigger_channel (Schedule _ _ _) = None"
| "trigger_channel (Webhook _) = None"

definition has_person :: "Trigger \<Rightarrow> bool" where
  "has_person t \<longleftrightarrow> trigger_channel t \<noteq> None"

record ScheduleOf =
  so_days :: "int list"
  so_time :: "nat \<times> nat"
  so_timezone :: rstr

fun schedule_of :: "wf_ext \<Rightarrow> Trigger \<Rightarrow> ScheduleOf option" where
  "schedule_of X (Schedule ds t z) =
     map_option (\<lambda>hm. \<lparr>so_days = map iso ds, so_time = hm, so_timezone = z\<rparr>) (parse_hm X t)"
| "schedule_of X _ = None"

datatype Recipient = ToPerson uuid | TriggerUser

datatype FieldKind = ShortText | LongText | SelectField | PersonField | DateField

record FormField =
  ff_name :: rstr
  ff_label :: rstr
  ff_kind :: FieldKind
  ff_options :: "rstr list"
  ff_required :: bool

record CellValue =
  cell_column_id :: uuid
  cell_value :: rstr

datatype VariableKind = VText | VPerson | VDate | VChoice "rstr list"

datatype Step =
    SendMessage uuid rstr bool
  | SendDm Recipient rstr bool
  | Form Recipient rstr "FormField list"
  | AddListItem uuid "CellValue list"
  | UpdateListItem nat "CellValue list"

fun step_text :: "Step \<Rightarrow> rstr option" where
  "step_text (SendMessage _ t _) = Some t"
| "step_text (SendDm _ t _) = Some t"
| "step_text _ = None"

fun step_cells :: "Step \<Rightarrow> CellValue list" where
  "step_cells (AddListItem _ cs) = cs"
| "step_cells (UpdateListItem _ cs) = cs"
| "step_cells _ = []"

fun step_summary :: "Step \<Rightarrow> bool" where
  "step_summary (SendMessage _ _ s) = s"
| "step_summary (SendDm _ _ s) = s"
| "step_summary _ = False"

fun step_recipient :: "Step \<Rightarrow> Recipient option" where
  "step_recipient (SendDm to _ _) = Some to"
| "step_recipient (Form to _ _) = Some to"
| "step_recipient _ = None"

fun step_label :: "Step \<Rightarrow> rstr" where
  "step_label (SendMessage _ _ _) = lit ''Send a message''"
| "step_label (SendDm _ _ _) = lit ''Send a DM''"
| "step_label (Form _ _ _) = lit ''Collect a form''"
| "step_label (AddListItem _ _) = lit ''Add a list item''"
| "step_label (UpdateListItem _ _) = lit ''Update the list item''"

record Definition =
  trigger :: Trigger
  steps :: "Step list"

section \<open>Templates\<close>

function placeholders :: "rstr \<Rightarrow> rstr list" where
  "placeholders rest =
     (case split_at rest (lit ''{{'') of
        None \<Rightarrow> []
      | Some (_, after) \<Rightarrow>
          (case split_at after (lit ''}}'') of
             None \<Rightarrow> []
           | Some (name, rest') \<Rightarrow> trim name # placeholders rest'))"
  by auto
termination
  by (relation "measure length") (auto dest!: split_at_Some)

function wf_render :: "rstr \<Rightarrow> (rstr \<Rightarrow> rstr) \<Rightarrow> rstr" where
  "wf_render rest value =
     (case split_at rest (lit ''{{'') of
        None \<Rightarrow> rest
      | Some (before, after) \<Rightarrow>
          (case split_at after (lit ''}}'') of
             None \<Rightarrow> rest
           | Some (name, rest') \<Rightarrow> before @ value (trim name) @ wf_render rest' value))"
  by auto
termination
  by (relation "measure (\<lambda>(r, _). length r)") (auto dest!: split_at_Some)

declare placeholders.simps [simp del] wf_render.simps [simp del]

section \<open>Variables\<close>

fun step_fields :: "Step \<Rightarrow> FormField list" where
  "step_fields (Form _ _ fs) = fs"
| "step_fields _ = []"

definition fields_before :: "Definition \<Rightarrow> nat \<Rightarrow> FormField list" where
  "fields_before d position = concat (map step_fields (take (min position (length (steps d))) (steps d)))"

definition variable_kind :: "Definition \<Rightarrow> nat \<Rightarrow> rstr \<Rightarrow> VariableKind" where
  "variable_kind d position name =
     (if name = lit ''trigger.user'' then VPerson
      else case Option.bind (strip_prefix name (lit ''form.''))
             (\<lambda>field. List.find (\<lambda>f. ff_name f = field) (fields_before d position)) of
        None \<Rightarrow> VText
      | Some field \<Rightarrow>
          (case ff_kind field of
             PersonField \<Rightarrow> VPerson
           | DateField \<Rightarrow> VDate
           | SelectField \<Rightarrow> VChoice (ff_options field)
           | ShortText \<Rightarrow> VText
           | LongText \<Rightarrow> VText))"

fun list_of :: "Definition \<Rightarrow> nat \<Rightarrow> uuid option" where
  "list_of d position =
     (if position < length (steps d)
      then (case steps d ! position of
              AddListItem l _ \<Rightarrow> Some l
            | UpdateListItem from_step _ \<Rightarrow>
                if from_step < position then list_of d from_step else None
            | _ \<Rightarrow> None)
      else None)"

declare list_of.simps [simp del]

definition is_variable_name :: "rstr \<Rightarrow> bool" where
  "is_variable_name name \<longleftrightarrow>
     length name \<le> VARIABLE_NAME_MAX_CHARS
     \<and> (case name of
          [] \<Rightarrow> False
        | c # cs \<Rightarrow> is_ascii_lowercase c
            \<and> list_all (\<lambda>c. is_ascii_lowercase c \<or> is_ascii_digit c \<or> c = 95) cs)"

section \<open>The check of a definition\<close>

definition invalid :: "rstr \<Rightarrow> 'a AppResult" where
  "invalid m = Inl (Validation m)"

definition straight :: "rstr \<Rightarrow> rstr" where
  "straight s = 34 # s @ [34]"

definition curly :: "rstr \<Rightarrow> rstr" where
  "curly s = 8220 # s @ [8221]"

definition braced :: "rstr \<Rightarrow> rstr" where
  "braced s = lit ''{{'' @ s @ lit ''}}''"

definition step_at :: "nat \<Rightarrow> rstr" where
  "step_at index = lit ''Step '' @ decimal_digits (index + 1)"

definition check_placeholders :: "rstr \<Rightarrow> rstr \<Rightarrow> rstr list \<Rightarrow> unit AppResult" where
  "check_placeholders at t available =
     (case List.find (\<lambda>name. name \<notin> set available) (placeholders t) of
        Some name \<Rightarrow> invalid (at @ lit '': '' @ braced name @ lit '' isn't available for this trigger'')
      | None \<Rightarrow> Inr ())"

fun check_variables :: "rstr list \<Rightarrow> rstr list \<Rightarrow> unit AppResult" where
  "check_variables seen [] = Inr ()"
| "check_variables seen (name # names) =
     (if \<not> is_variable_name name
      then invalid (straight name @ lit '' can't be a variable name: use lowercase letters, digits and _'')
      else if name \<in> set seen then invalid (straight name @ lit '' is declared twice'')
      else check_variables (name # seen) names)"

fun check_trigger :: "wf_ext \<Rightarrow> Trigger \<Rightarrow> unit AppResult" where
  "check_trigger X (Schedule ds t z) =
     (if ds = [] then invalid (lit ''Pick at least one day for the schedule'')
      else if parse_hm X t = None then invalid (lit ''The time has to look like 09:30'')
      else if trim z = [] then invalid (lit ''Pick a timezone for the schedule'')
      else Inr ())"
| "check_trigger X (Webhook vs) =
     (if length vs > MAX_WEBHOOK_VARIABLES then invalid (lit ''A webhook takes at most 10 variables'')
      else check_variables [] vs)"
| "check_trigger X (ReactionAdded _ e) =
     (if trim e = [] then invalid (lit ''Pick the emoji to listen for'')
      else validate_reaction_emoji e)"
| "check_trigger X (MemberJoined _) = Inr ()"
| "check_trigger X (Shortcut _) = Inr ()"

fun check_cells_from :: "rstr \<Rightarrow> rstr list \<Rightarrow> uuid list \<Rightarrow> CellValue list \<Rightarrow> unit AppResult" where
  "check_cells_from at available seen [] = Inr ()"
| "check_cells_from at available seen (cell # cells) =
     (if cell_column_id cell \<in> set seen then invalid (at @ lit '': a column is filled twice'')
      else if trim (cell_value cell) = [] then invalid (at @ lit '': every column it fills needs a value'')
      else if length (cell_value cell) > WF_TEXT_MAX_CHARS
      then invalid (at @ lit '': a value can be at most 4000 characters'')
      else and_then (check_placeholders at (cell_value cell) available) (\<lambda>_.
        check_cells_from at available (cell_column_id cell # seen) cells))"

definition check_cells :: "rstr \<Rightarrow> CellValue list \<Rightarrow> rstr list \<Rightarrow> unit AppResult" where
  "check_cells at cells available =
     (if cells = [] then invalid (at @ lit '': fill in at least one column'')
      else if length cells > MAX_CELLS then invalid (at @ lit '': it fills at most 30 columns'')
      else check_cells_from at available [] cells)"

fun check_fields :: "rstr \<Rightarrow> rstr list \<Rightarrow> FormField list \<Rightarrow> rstr list AppResult" where
  "check_fields at asked [] = Inr asked"
| "check_fields at asked (field # fs) =
     (let l = trim (ff_label field) in
      if l = [] then invalid (at @ lit '': every question needs a label'')
      else if length l > FIELD_LABEL_MAX_CHARS
      then invalid (at @ lit '': a question can be at most 80 characters'')
      else if \<not> is_variable_name (ff_name field)
      then invalid (at @ lit '': '' @ straight (ff_name field)
             @ lit '' can't be a variable name: use lowercase letters, digits and _'')
      else if ff_name field \<in> set asked
      then invalid (at @ lit '': '' @ straight (ff_name field) @ lit '' is asked twice'')
      else and_then
        (if ff_kind field = SelectField
         then let options = remdups (map trim (ff_options field)) in
           if ff_options field = [] \<or> length (ff_options field) > MAX_SELECT_OPTIONS
           then invalid (at @ lit '': '' @ curly l @ lit '' needs 1 to 20 choices'')
           else if length options \<noteq> length (ff_options field)
             \<or> list_ex (\<lambda>o'. o' = [] \<or> length o' > OPTION_MAX_CHARS) options
           then invalid (at @ lit '': '' @ curly l @ lit '' has a blank, repeated or too long choice'')
           else Inr ()
         else Inr ()) (\<lambda>_. check_fields at (ff_name field # asked) fs))"

definition check_form :: "rstr \<Rightarrow> rstr \<Rightarrow> FormField list \<Rightarrow> rstr list \<Rightarrow> rstr list AppResult" where
  "check_form at title fs asked =
     (if trim title = [] then invalid (at @ lit '': give the form a title'')
      else if length title > FORM_TITLE_MAX_CHARS
      then invalid (at @ lit '': a form title can be at most 80 characters'')
      else if fs = [] \<or> length fs > MAX_FORM_FIELDS
      then invalid (at @ lit '': a form has 1 to 10 questions'')
      else check_fields at asked fs)"

fun writes_item :: "Step \<Rightarrow> bool" where
  "writes_item (AddListItem _ _) = True"
| "writes_item (UpdateListItem _ _) = True"
| "writes_item _ = False"

fun adds_item :: "Step \<Rightarrow> bool" where
  "adds_item (AddListItem _ _) = True"
| "adds_item _ = False"

text \<open>
  One iteration of the loop over the steps: \<open>available\<close> are the variables so far, \<open>asked\<close> the
  names of the questions so far; the iteration returns both for the next step.
\<close>

definition check_step ::
  "Definition \<Rightarrow> nat \<Rightarrow> rstr list \<Rightarrow> rstr list \<Rightarrow> Step \<Rightarrow> (rstr list \<times> rstr list) AppResult" where
  "check_step d index available asked step =
     (let at = step_at index in
      and_then
        (case step_text step of
           None \<Rightarrow> Inr ()
         | Some t \<Rightarrow>
             if trim t = [] then invalid (at @ lit '' needs some text'')
             else if length t > WF_TEXT_MAX_CHARS
             then invalid (at @ lit '': the text can be at most 4000 characters'')
             else check_placeholders at t available) (\<lambda>_.
      and_then
        (case step of
           UpdateListItem from_step _ \<Rightarrow>
             if from_step \<ge> index \<or> \<not> adds_item (steps d ! from_step)
             then invalid (at @ lit '': pick an earlier step that adds a list item'')
             else Inr ()
         | _ \<Rightarrow> Inr ()) (\<lambda>_.
      and_then (if writes_item step then check_cells at (step_cells step) available else Inr ()) (\<lambda>_.
        if step_summary step \<and> asked = [] then invalid (at @ lit '': there is no form before it to sum up'')
        else if step_recipient step = Some TriggerUser \<and> \<not> has_person (trigger d)
        then invalid (at @ lit '': this trigger has no person to send it to'')
        else case step of
          Form _ title fs \<Rightarrow>
            and_then (check_form at title fs asked) (\<lambda>asked'.
              Inr (available @ map (\<lambda>f. lit ''form.'' @ ff_name f) fs, asked'))
        | _ \<Rightarrow> Inr (available, asked)))))"

fun check_steps ::
  "Definition \<Rightarrow> nat \<Rightarrow> rstr list \<Rightarrow> rstr list \<Rightarrow> Step list \<Rightarrow> unit AppResult" where
  "check_steps d index available asked [] = Inr ()"
| "check_steps d index available asked (step # rest) =
     and_then (check_step d index available asked step) (\<lambda>(available', asked').
       check_steps d (Suc index) available' asked' rest)"

definition check :: "wf_ext \<Rightarrow> Definition \<Rightarrow> unit AppResult" where
  "check X d =
     and_then (check_trigger X (trigger d)) (\<lambda>_.
       if steps d = [] then invalid (lit ''Add at least one step'')
       else if length (steps d) > MAX_STEPS then invalid (lit ''A workflow has at most 20 steps'')
       else check_steps d 0 (trigger_variables (trigger d)) [] (steps d))"

record SaveWorkflowRequest =
  sw_name :: rstr
  sw_description :: "rstr option"
  sw_definition :: Definition

record CheckedWorkflow =
  ck_name :: rstr
  ck_description :: "rstr option"
  ck_definition :: Definition

definition checked :: "wf_ext \<Rightarrow> SaveWorkflowRequest \<Rightarrow> CheckedWorkflow AppResult" where
  "checked X req =
     (let name = trim (sw_name req) in
      if name = [] then invalid (lit ''Give the workflow a name'')
      else if length name > NAME_MAX_CHARS then invalid (lit ''A name can be at most 80 characters'')
      else
        let description = Option.bind (map_option trim (sw_description req))
              (\<lambda>d. if d = [] then None else Some d) in
        if (case description of None \<Rightarrow> False | Some d \<Rightarrow> length d > WF_DESCRIPTION_MAX_CHARS)
        then invalid (lit ''A description can be at most 300 characters'')
        else and_then (check X (sw_definition req)) (\<lambda>_.
          Inr \<lparr>ck_name = name, ck_description = description, ck_definition = sw_definition req\<rparr>))"

section \<open>Cells\<close>

text \<open>\<open>split_char\<close> is \<open>str::split\<close> on a character, \<open>rsplit_at\<close> the split at the last occurrence
  that \<open>rfind\<close> gives.\<close>

fun split_char :: "uchar \<Rightarrow> rstr \<Rightarrow> rstr list" where
  "split_char c [] = [[]]"
| "split_char c (x # xs) =
     (if x = c then [] # split_char c xs
      else case split_char c xs of [] \<Rightarrow> [[x]] | p # ps \<Rightarrow> (x # p) # ps)"

definition rsplit_at :: "rstr \<Rightarrow> rstr \<Rightarrow> (rstr \<times> rstr) option" where
  "rsplit_at s pat = map_option (\<lambda>(a, b). (rev b, rev a)) (split_at (rev s) (rev pat))"

definition single_variable :: "rstr \<Rightarrow> rstr option" where
  "single_variable template =
     Option.bind (strip_prefix (trim template) (lit ''{{'')) (\<lambda>r.
     Option.bind (strip_suffix r (lit ''}}'')) (\<lambda>inner.
       if split_at inner (lit ''{{'') = None \<and> split_at inner (lit ''}}'') = None
       then Some (trim inner) else None))"

definition cell_person :: "ext \<Rightarrow> rstr \<Rightarrow> uuid option" where
  "cell_person X s =
     (let t = trim s in
      case parse_uuid X t of
        Some i \<Rightarrow> Some i
      | None \<Rightarrow>
          Option.bind (strip_prefix t (lit ''@['')) (\<lambda>rest.
          Option.bind (rsplit_at rest (lit '']('')) (\<lambda>(_, after).
          Option.bind (strip_suffix after (lit '')'')) (parse_uuid X))))"

definition cell_choice :: "ext \<Rightarrow> ListColumn \<Rightarrow> rstr \<Rightarrow> uuid option" where
  "cell_choice X column t =
     map_option c_id
       (case choice X (lc_options column) (trim t) of
          Some c \<Rightarrow> Some c
        | None \<Rightarrow> choice_labelled X (lc_options column) t)"

definition cell_checked :: "ext \<Rightarrow> rstr \<Rightarrow> bool option" where
  "cell_checked X t =
     (let w = to_lowercase X (trim t) in
      if w \<in> {lit ''true'', lit ''yes'', lit ''1'', lit ''checked'', lit ''done''} then Some True
      else if w \<in> {lit ''false'', lit ''no'', lit ''0'', lit ''unchecked''} then Some False
      else None)"

fun kind_value :: "ext \<Rightarrow> ListColumn \<Rightarrow> ColumnKind \<Rightarrow> rstr \<Rightarrow> rstr + json" where
  "kind_value X column Text t = Inr (JString t)"
| "kind_value X column Link t = Inr (JString t)"
| "kind_value X column Number t =
     (case parse_f64 X (filter (\<lambda>c. c \<noteq> 44) t) of
        None \<Rightarrow> Inl (curly (lc_name column) @ lit '' needs a number, not '' @ curly t)
      | Some n \<Rightarrow>
          if is_finite n then Inr (JNumber (Float n))
          else Inl (curly (lc_name column) @ lit '' needs a number, not '' @ curly t))"
| "kind_value X column Select t =
     and_then (ok_or (cell_choice X column t) (curly (lc_name column) @ lit '' has no choice '' @ curly t)) (\<lambda>i.
       Inr (JString (uuid_str X i)))"
| "kind_value X column MultiSelect t =
     and_then (collect (\<lambda>part.
         and_then (ok_or (cell_choice X column part)
           (curly (lc_name column) @ lit '' has no choice '' @ curly part)) (\<lambda>i. Inr (JString (uuid_str X i))))
       (filter (\<lambda>part. part \<noteq> []) (map trim (split_char 44 t)))) (\<lambda>ids. Inr (JArray ids))"
| "kind_value X column Person t =
     and_then (ok_or (cell_person X t) (curly (lc_name column) @ lit '' needs a person'')) (\<lambda>i.
       Inr (JString (uuid_str X i)))"
| "kind_value X column Date t =
     and_then (ok_or (parse_ymd X t) (curly (lc_name column) @ lit '' needs a date as YYYY-MM-DD'')) (\<lambda>d.
       Inr (JString (format_ymd X d)))"
| "kind_value X column Checkbox t =
     and_then (ok_or (cell_checked X t) (curly (lc_name column) @ lit '' needs yes or no'')) (\<lambda>b. Inr (JBool b))"

definition cell_of :: "ext \<Rightarrow> ListColumn \<Rightarrow> rstr \<Rightarrow> rstr + json option" where
  "cell_of X column rendered =
     (let t = trim rendered in
      if t = [] then Inr None
      else and_then (kind_value X column (lc_kind column) t) (\<lambda>v. Inr (Some v)))"

fun fits :: "ext \<Rightarrow> ListColumn \<Rightarrow> rstr \<Rightarrow> ColumnKind \<Rightarrow> VariableKind \<Rightarrow> rstr + bool" where
  "fits X column variable _ VText = Inr True"
| "fits X column variable Person VPerson = Inr True"
| "fits X column variable Date VDate = Inr True"
| "fits X column variable k (VChoice options) =
     (if has_choices k
      then (case List.find (\<lambda>option. cell_choice X column option = None) options of
              Some missing \<Rightarrow> Inl (curly (lc_name column) @ lit '' has no choice '' @ curly missing
                @ lit '', which '' @ braced variable @ lit '' can answer'')
            | None \<Rightarrow> Inr True)
      else Inr False)"
| "fits X column variable _ _ = Inr False"

definition check_cell :: "ext \<Rightarrow> ListColumn \<Rightarrow> rstr \<Rightarrow> (rstr \<Rightarrow> VariableKind) \<Rightarrow> rstr + unit" where
  "check_cell X column template kind_of =
     (if placeholders template = [] then and_then (cell_of X column template) (\<lambda>_. Inr ())
      else if lc_kind column \<in> {Text, Link} then Inr ()
      else case single_variable template of
        None \<Rightarrow> Inl (curly (lc_name column) @ lit '' takes a single value or variable'')
      | Some variable \<Rightarrow>
          and_then (fits X column variable (lc_kind column) (kind_of variable)) (\<lambda>ok.
            if ok then Inr ()
            else Inl (curly (lc_name column) @ lit '' can't take '' @ braced variable)))"

end
