(* ===== verification/Workflow_Check.thy ===== *)
theory Workflow_Check
  imports Workflow_Model
begin

text \<open>
  What the check of \<open>Workflow_Model\<close> buys: a definition that passes is well typed (every placeholder names a variable that
  exists when its step runs, every reference to an earlier step is right), templates read back what they were put
  together from, and a cell template that passes \<open>check_cell\<close> gives a value its column accepts.
\<close>

section \<open>Checked definitions\<close>

definition step_templates :: "Step \<Rightarrow> rstr list" where
  "step_templates s = (case step_text s of None \<Rightarrow> [] | Some t \<Rightarrow> [t]) @ map cell_value (step_cells s)"

definition form_variable :: "FormField \<Rightarrow> rstr" where
  "form_variable f = lit ''form.'' @ ff_name f"

lemma check_placeholders_ok:
  "check_placeholders at t available = Inr () \<longleftrightarrow> set (placeholders t) \<subseteq> set available"
  by (auto simp: check_placeholders_def invalid_def find_None_iff dest!: find_Some_iff split: option.splits)

lemma check_cells_from_ok:
  "check_cells_from at available seen cells = Inr () \<Longrightarrow> c \<in> set cells
    \<Longrightarrow> set (placeholders (cell_value c)) \<subseteq> set available"
  by (induction at available seen cells rule: check_cells_from.induct)
     (auto simp: check_placeholders_ok invalid_def split: if_splits)

lemma check_fields_ok:
  "check_fields at asked fs = Inr asked' \<Longrightarrow> distinct asked
    \<Longrightarrow> asked' = rev (map ff_name fs) @ asked \<and> distinct asked'"
  by (induction at asked fs rule: check_fields.induct)
     (auto simp: invalid_def Let_def split: if_splits)

lemma check_form_ok:
  "check_form at title fs asked = Inr asked' \<Longrightarrow> distinct asked
    \<Longrightarrow> asked' = rev (map ff_name fs) @ asked \<and> distinct asked'"
  by (auto simp: check_form_def invalid_def check_fields_ok split: if_splits)

definition step_typed :: "Definition \<Rightarrow> nat \<Rightarrow> rstr list \<Rightarrow> rstr list \<Rightarrow> Step \<Rightarrow> bool" where
  "step_typed d i available asked s \<longleftrightarrow>
     (\<forall>t\<in>set (step_templates s). set (placeholders t) \<subseteq> set available)
     \<and> (step_recipient s = Some TriggerUser \<longrightarrow> has_person (trigger d))
     \<and> (\<forall>k cs. s = UpdateListItem k cs \<longrightarrow> k < i \<and> adds_item (steps d ! k))
     \<and> (step_summary s \<longrightarrow> asked \<noteq> [])"

lemma check_step_ok:
  assumes "check_step d i available asked s = Inr (available', asked')" and "distinct asked"
  shows "step_typed d i available asked s
    \<and> available' = available @ map form_variable (step_fields s)
    \<and> asked' = rev (map ff_name (step_fields s)) @ asked \<and> distinct asked'"
  using assms
  by (cases s)
     (auto simp: check_step_def step_typed_def step_templates_def form_variable_def check_placeholders_ok
        check_cells_def invalid_def Let_def dest: check_form_ok check_cells_from_ok split: if_splits)

lemma check_steps_ok:
  assumes "check_steps d k available asked ss = Inr ()" and "distinct asked" and "i < length ss"
  shows "step_typed d (k + i) (available @ map form_variable (concat (map step_fields (take i ss))))
    (rev (map ff_name (concat (map step_fields (take i ss)))) @ asked) (ss ! i)"
  using assms
proof (induction ss arbitrary: k available asked i)
  case (Cons s ss)
  then obtain available' asked' where *: "check_step d k available asked s = Inr (available', asked')"
    "check_steps d (Suc k) available' asked' ss = Inr ()"
    by auto
  note one = check_step_ok [OF *(1) Cons.prems(2)]
  show ?case
  proof (cases i)
    case 0
    then show ?thesis using one by simp
  next
    case (Suc j)
    then show ?thesis using Cons.IH [OF *(2), of j] one Cons.prems(3) by auto
  qed
qed simp

lemma check_steps_distinct:
  assumes "check_steps d k available asked ss = Inr ()" and "distinct asked"
  shows "distinct (rev (map ff_name (concat (map step_fields ss))) @ asked)"
  using assms
proof (induction ss arbitrary: k available asked)
  case (Cons s ss)
  then obtain available' asked' where *: "check_step d k available asked s = Inr (available', asked')"
    "check_steps d (Suc k) available' asked' ss = Inr ()"
    by auto
  note one = check_step_ok [OF *(1) Cons.prems(2)]
  then have "distinct asked'" and asked': "asked' = rev (map ff_name (step_fields s)) @ asked" by blast+
  from Cons.IH [OF *(2) this(1)] show ?case
    unfolding asked' by (simp only: list.map concat.simps map_append rev_append append_assoc)
qed simp

lemma adds_item_iff: "adds_item s \<longleftrightarrow> (\<exists>l cs. s = AddListItem l cs)"
  by (cases s) auto

lemma list_of_update:
  assumes "i < length (steps d)" and "steps d ! i = UpdateListItem k cs" and "k < i"
    and "steps d ! k = AddListItem l cs'"
  shows "list_of d i = Some l"
  using assms by (subst list_of.simps, subst list_of.simps) simp

lemma check_typed:
  assumes "check X d = Inr ()" and "i < length (steps d)"
  shows "step_typed d i (trigger_variables (trigger d) @ map form_variable (fields_before d i))
    (rev (map ff_name (fields_before d i))) (steps d ! i)"
proof -
  have "check_steps d 0 (trigger_variables (trigger d)) [] (steps d) = Inr ()"
    using assms(1) by (auto simp: check_def invalid_def split: if_splits)
  from check_steps_ok [OF this _ assms(2)] show ?thesis
    using assms(2) by (simp add: fields_before_def)
qed

lemma check_distinct: "check X d = Inr () \<Longrightarrow> distinct (map ff_name (fields_before d (length (steps d))))"
  using check_steps_distinct [of d 0 "trigger_variables (trigger d)" "[]" "steps d"]
  by (auto simp: check_def invalid_def fields_before_def rev_map [symmetric] split: if_splits)


definition sample_wf_ext :: wf_ext where
  "sample_wf_ext = \<lparr>wx_ext = std_ext, parse_hm = (\<lambda>_. None)\<rparr>"

definition sample_definition :: Definition where
  "sample_definition = \<lparr>trigger = Shortcut 7, steps =
     [Form TriggerUser (lit ''Off'') [\<lparr>ff_name = lit ''why'', ff_label = lit ''Why'', ff_kind = ShortText,
        ff_options = [], ff_required = True\<rparr>],
      AddListItem 9 [\<lparr>cell_column_id = 1, cell_value = lit ''{{form.why}}''\<rparr>],
      UpdateListItem 1 [\<lparr>cell_column_id = 1, cell_value = lit ''x''\<rparr>]]\<rparr>"


lemma sample_checked: "check sample_wf_ext sample_definition = Inr ()"
  by (simp add: check_def sample_definition_def check_step_def check_form_def check_cells_def check_placeholders_def
      wf_limit_defs trim_def trim_start_def trim_end_def char_class_defs is_variable_name_def has_person_def
      placeholders.simps strip_prefix_def starts_with_def JOIN_VARIABLES_def)


section \<open>Templates\<close>

text \<open>What a template is put together from: plain words and named variables.\<close>

datatype segment = Literal rstr | Variable rstr

fun print_segment :: "segment \<Rightarrow> rstr" where
  "print_segment (Literal w) = w"
| "print_segment (Variable n) = braced n"

fun segment_ok :: "segment \<Rightarrow> bool" where
  "segment_ok (Literal w) \<longleftrightarrow> 123 \<notin> set w"
| "segment_ok (Variable n) \<longleftrightarrow> 125 \<notin> set n"

fun segment_value :: "(rstr \<Rightarrow> rstr) \<Rightarrow> segment \<Rightarrow> rstr" where
  "segment_value value (Literal w) = w"
| "segment_value value (Variable n) = value (trim n)"

fun segment_name :: "segment \<Rightarrow> rstr option" where
  "segment_name (Literal w) = None"
| "segment_name (Variable n) = Some (trim n)"

lemma render_Nil [simp]: "wf_render [] value = []" "placeholders [] = []"
  by (subst wf_render.simps placeholders.simps, simp)+

lemma render_skip:
  assumes "123 \<notin> set w"
  shows "wf_render (w @ s) value = w @ wf_render s value" "placeholders (w @ s) = placeholders s"
  using assms
  by (subst (1 2) wf_render.simps placeholders.simps, auto simp: split_at_skip split: option.splits)+

lemma render_variable:
  assumes "125 \<notin> set n"
  shows "wf_render (braced n @ s) value = value (trim n) @ wf_render s value"
    and "placeholders (braced n @ s) = trim n # placeholders s"
proof -
  have "split_at (braced n @ s) (lit ''{{'') = Some ([], n @ lit ''}}'' @ s)"
    using split_at_here [of 123 "lit ''{''" "n @ lit ''}}'' @ s"] by (simp add: braced_def)
  moreover have "split_at (n @ lit ''}}'' @ s) (lit ''}}'') = Some (n, s)"
    using split_at_first [of "lit ''}}''" 125 "lit ''}''" n s] assms by simp
  ultimately show "wf_render (braced n @ s) value = value (trim n) @ wf_render s value"
    and "placeholders (braced n @ s) = trim n # placeholders s"
    by (subst wf_render.simps placeholders.simps, simp)+
qed

text \<open>A template asks for the values of its placeholders and of nothing else.\<close>

lemma render_cong:
  "(\<And>n. n \<in> set (placeholders t) \<Longrightarrow> f n = g n) \<Longrightarrow> wf_render t f = wf_render t g"
proof (induction t rule: placeholders.induct)
  case (1 t)
  then show ?case
    by (subst (1 2) wf_render.simps, subst (asm) (2) placeholders.simps) (auto split: option.splits)
qed

text \<open>
  C30. A template put together from words and variables, in any order and number, is read back exactly: its placeholders are
  the names of the variables, without the spaces around them and in the order of the text, and rendering replaces each variable by its value and leaves every word as it is.
  Words must not hold an opening brace and names no closing one.
\<close>

theorem template_roundtrip:
  assumes "list_all segment_ok segs"
  shows "placeholders (concat (map print_segment segs)) = List.map_filter segment_name segs
    \<and> wf_render (concat (map print_segment segs)) value = concat (map (segment_value value) segs)"
  using assms
proof (induction segs)
  case (Cons s segs)
  then show ?case
    by (cases s) (auto simp: render_skip render_variable List.map_filter_simps)
qed (simp add: List.map_filter_simps)

theorem template_roundtrip_witness:
  "wf_render (concat (map print_segment [Literal (lit ''hi ''), Variable (lit '' a '')])) (\<lambda>_. lit ''Bo'') = lit ''hi Bo''"
  using template_roundtrip [of "[Literal (lit ''hi ''), Variable (lit '' a '')]" "\<lambda>_. lit ''Bo''"]
  by simp

section \<open>Cell templates\<close>

text \<open>What a value of a variable looks like: a person is an identifier or a mention, a date parses, a choice is one of the
  options of its question as the answer stores it.\<close>

fun conforms :: "ext \<Rightarrow> VariableKind \<Rightarrow> rstr \<Rightarrow> bool" where
  "conforms X VText s = True"
| "conforms X VPerson s = (cell_person X s \<noteq> None)"
| "conforms X VDate s = (parse_ymd X (trim s) \<noteq> None)"
| "conforms X (VChoice os) s = (s \<in> trim ` set os)"

lemma trim_pad:
  assumes "\<forall>c\<in>set u. is_whitespace c" and "\<forall>c\<in>set w. is_whitespace c"
  shows "trim (u @ x @ w) = trim x"
proof (cases "\<forall>c\<in>set x. is_whitespace c")
  case True
  then have "trim x = []" "trim (u @ x @ w) = []" using assms by (auto simp: trim_Nil_iff)
  then show ?thesis by simp
next
  case False
  then have "dropWhile is_whitespace (x @ w) = dropWhile is_whitespace x @ w"
    by (induction x) auto
  moreover have "dropWhile is_whitespace (u @ x @ w) = dropWhile is_whitespace (x @ w)"
    by (rule dropWhile_append2) (use assms(1) in blast)
  moreover have "dropWhile is_whitespace (rev w @ y) = dropWhile is_whitespace y" for y
    by (rule dropWhile_append2) (use assms(2) in simp)
  ultimately show ?thesis by (simp add: trim_def trim_start_def trim_end_def)
qed

lemma split_close:
  "split_at inner [125, 125] = None \<Longrightarrow> inner = [] \<or> last inner \<noteq> 125
    \<Longrightarrow> split_at (inner @ 125 # 125 # w) [125, 125] = Some (inner, w)"
proof (induction inner)
  case Nil
  then show ?case by (simp add: strip_prefix_def starts_with_def)
next
  case (Cons c inner)
  then show ?case
    by (cases inner) (auto simp: strip_prefix_def starts_with_def split: option.splits if_splits)
qed

lemma trim_padding: "\<exists>u w. s = u @ trim s @ w \<and> (\<forall>c\<in>set u. is_whitespace c) \<and> (\<forall>c\<in>set w. is_whitespace c)"
proof -
  obtain u where u: "s = u @ trim_start s" "\<forall>c\<in>set u. is_whitespace c"
    using dropWhile_suffix [of s is_whitespace] by (auto simp: trim_start_def)
  obtain w where w: "rev (trim_start s) = w @ rev (trim s)" "\<forall>c\<in>set w. is_whitespace c"
    using dropWhile_suffix [of "rev (trim_start s)" is_whitespace] by (auto simp: trim_def trim_end_def)
  then have "trim_start s = trim s @ rev w" by (metis rev_append rev_rev_ident)
  with u w(2) show ?thesis by (metis set_rev)
qed

lemma single_variable_Some:
  "single_variable t = Some v \<Longrightarrow>
    \<exists>inner. trim t = lit ''{{'' @ inner @ lit ''}}'' \<and> split_at inner (lit ''}}'') = None \<and> v = trim inner"
  unfolding single_variable_def bind_eq_Some_conv strip_prefix_Some strip_suffix_Some
  by (metis option.distinct(1) option.sel)

lemma render_single:
  assumes "single_variable t = Some v" and "v = [] \<or> last v \<noteq> 125"
  shows "trim (wf_render t value) = trim (value v)"
proof -
  obtain inner where i: "trim t = lit ''{{'' @ inner @ lit ''}}''" "split_at inner (lit ''}}'') = None" "v = trim inner"
    using single_variable_Some [OF assms(1)] by blast
  obtain u w where t: "t = u @ trim t @ w" and ws: "\<forall>c\<in>set u. is_whitespace c" "\<forall>c\<in>set w. is_whitespace c"
    using trim_padding by blast
  have no: "123 \<notin> set u" "123 \<notin> set w" using ws by (auto simp: char_class_defs)
  have "inner = [] \<or> last inner \<noteq> 125"
  proof (cases inner rule: rev_cases)
    case (snoc xs c)
    have "trim (xs @ [125]) \<noteq> []" by (auto simp: trim_Nil_iff char_class_defs)
    moreover have "trim_end (ys @ [125]) = ys @ [125]" for ys by (rule trim_end_fixed) (simp add: char_class_defs)
    moreover have "\<exists>ys. trim_start (xs @ [125]) = ys @ [125]"
      by (induction xs) (auto simp: trim_start_def char_class_defs)
    ultimately have "last (trim (xs @ [125])) = 125" by (auto simp: trim_def)
    then show ?thesis using snoc i(3) assms(2) \<open>trim (xs @ [125]) \<noteq> []\<close> by auto
  qed simp
  then have "split_at (inner @ lit ''}}'' @ w) (lit ''}}'') = Some (inner, w)"
    using split_close [of inner w] i(2) by simp
  moreover have "split_at (lit ''{{'' @ inner @ lit ''}}'' @ w) (lit ''{{'') = Some ([], inner @ lit ''}}'' @ w)"
    using split_at_here [of 123 "lit ''{''" "inner @ lit ''}}'' @ w"] by simp
  moreover have "wf_render w value = w" using render_skip(1) [OF no(2), of "[]"] by simp
  ultimately have "wf_render (lit ''{{'' @ inner @ lit ''}}'' @ w) value = value v @ w"
    by (subst wf_render.simps) (simp add: i(3))
  then have "wf_render t value = u @ value v @ w"
    using render_skip(1) [OF no(1)] t unfolding i(1) by (metis append_assoc)
  then show ?thesis using trim_pad [OF ws] by simp
qed

lemma split_char_single: "c \<notin> set s \<Longrightarrow> split_char c s = [s]"
  by (induction s) auto

lemma cell_choice_trim [simp]: "cell_choice X column (trim s) = cell_choice X column s"
  by (simp add: cell_choice_def choice_labelled_def split: option.splits)

lemma cell_choice_member:
  "cell_choice X column s = Some i \<Longrightarrow> \<exists>c\<in>set (choices (lc_options column)). c_id c = i"
  by (auto simp: cell_choice_def choice_labelled_def Let_def dest: choice_SomeD find_Some_iff split: option.splits)

context ext_laws
begin

lemma choice_accepted:
  assumes "cell_choice X column s = Some i"
  shows "\<exists>c. choice X (lc_options column) (uuid_str X i) = Some c \<and> c_id c = i"
  using cell_choice_member [OF assms] choice_of_member by fastforce

lemma conforming_cell:
  assumes fit: "fits X column v (lc_kind column) k = Inr True" and "k \<noteq> VText" and "conforms X k s"
    and "lc_kind column = MultiSelect \<Longrightarrow> 44 \<notin> set s" and ne: "trim s \<noteq> []"
  shows "\<exists>j. kind_value X column (lc_kind column) (trim s) = Inr j
    \<and> is_ok (normalize X (lc_kind column) (lc_options column) j)"
proof (cases k)
  case VPerson
  then have "lc_kind column = Person" using fit by (cases "lc_kind column") auto
  moreover obtain i where "cell_person X (trim s) = Some i"
    using assms(3) VPerson by (auto simp: cell_person_def)
  ultimately show ?thesis by (auto simp: normalize_def)
next
  case VDate
  then have "lc_kind column = Date" using fit by (cases "lc_kind column") auto
  moreover obtain d where "parse_ymd X (trim s) = Some d" using assms(3) VDate by auto
  ultimately show ?thesis using parse_print_date [of "trim s" d] by (auto simp: normalize_def)
next
  case (VChoice os)
  then have kind: "has_choices (lc_kind column)" and all: "\<forall>o'\<in>set os. cell_choice X column o' \<noteq> None"
    using fit by (auto simp: find_None_iff split: if_splits option.splits)
  obtain o' where "o' \<in> set os" "s = trim o'" using assms(3) VChoice by auto
  with all obtain i where i: "cell_choice X column s = Some i" by auto
  then obtain c where c: "choice X (lc_options column) (uuid_str X i) = Some c" "c_id c = i"
    using choice_accepted by blast
  show ?thesis
  proof (cases "lc_kind column = MultiSelect")
    case True
    then have "44 \<notin> set (trim s)" using assms(4) set_trim by blast
    then show ?thesis using True i c ne by (auto simp: split_char_single normalize_def push_new_def)
  next
    case False
    then have "lc_kind column = Select" using kind by (simp add: has_choices_def)
    then show ?thesis using i c by (auto simp: normalize_def)
  qed
qed (use assms(2) in simp)

end


definition sample_column :: "ColumnKind \<Rightarrow> rstr list \<Rightarrow> ListColumn" where
  "sample_column k labels = \<lparr>lc_id = 1, lc_list_id = 2, lc_position = 0, lc_name = lit ''Col'', lc_kind = k,
     lc_options = \<lparr>choices = map (\<lambda>l. \<lparr>c_id = 5, label = l, color = Gray\<rparr>) labels, number = None\<rparr>,
     lc_hidden = False, lc_due = False\<rparr>"

lemmas cell_eval = check_cell_def single_variable_def cell_of_def sample_column_def placeholders.simps wf_render.simps
  strip_prefix_def strip_suffix_def starts_with_def ends_with_def trim_def trim_start_def trim_end_def char_class_defs


text \<open>A choice with a comma passes the check of a multi-select column and is then split at the comma; a name followed by a
  third brace passes the check of any column, as a variable of unknown kind, and leaves that brace behind.\<close>

lemma comma_choice_fails:
  "check_cell std_ext (sample_column MultiSelect [lit ''a,b'']) (lit ''{{form.k}}'') (\<lambda>_. VChoice [lit ''a,b'']) = Inr ()
    \<and> \<not> is_ok (cell_of std_ext (sample_column MultiSelect [lit ''a,b''])
        (wf_render (lit ''{{form.k}}'') (\<lambda>_. lit ''a,b'')))"
  by (simp add: cell_eval has_choices_def cell_choice_def choice_def choice_labelled_def std_ext_def read_uuid_def
      to_ascii_lowercase_def ok_or_def)

lemma brace_name_fails:
  "check_cell std_ext (sample_column Date []) (lit ''{{form.d}}}'')
      (\<lambda>n. if n = lit ''form.d'' then VDate else VText) = Inr ()
    \<and> \<not> is_ok (cell_of std_ext (sample_column Date [])
        (wf_render (lit ''{{form.d}}}'') (\<lambda>_. lit ''2026-01-02'')))"
  by (simp add: cell_eval std_ext_def)

end
