(* ===== verification/Workflow_Store.thy ===== *)
theory Workflow_Store
  imports Workflow_Model List_Service
begin

text \<open>
  The tables workflows live in and the statements on them: \<open>src/backend/api/src/workflows/repo.rs\<close>, the bot messages of
  \<open>src/backend/api/src/messaging/repo.rs\<close> and the direct conversations of \<open>src/backend/api/src/conversations/\<close>. A table is the
  list of its rows in the order of insertion; a statement is a function on the record of tables. The definition of a
  workflow is stored as JSON: a row holds \<open>None\<close> when that JSON does not deserialize. The primary keys of
  \<open>workflow_run_steps\<close> and \<open>workflow_forms\<close> are the pairs of run and position.
  \<open>workflow_next_run\<close> is a function of the schema and an argument here.
\<close>

section \<open>Rows\<close>

datatype RunStatus = StPending | StRunning | StSucceeded | StFailed | StWaiting | StExpired

record WorkflowRow =
  wf_id :: uuid
  wf_workspace_id :: uuid
  wf_name :: rstr
  wf_description :: "rstr option"
  wf_created_by :: uuid
  wf_definition :: "Definition option"
  wf_version :: int
  wf_enabled :: bool
  wf_webhook_token :: "rstr option"
  wf_next_run_at :: "timestamp option"
  wf_created_at :: timestamp
  wf_updated_at :: timestamp

record RunRow =
  run_id :: uuid
  run_workflow_id :: uuid
  run_version :: int
  run_key :: rstr
  run_status :: RunStatus
  run_context :: json
  run_error :: "rstr option"
  run_claimed_at :: "timestamp option"
  run_started_at :: timestamp
  run_finished_at :: "timestamp option"

record RunStep =
  rs_run_id :: uuid
  rs_position :: int
  rs_succeeded :: bool
  rs_message_id :: "uuid option"
  rs_list_item_id :: "uuid option"
  rs_error :: "rstr option"
  rs_finished_at :: timestamp

record FormRow =
  fm_run_id :: uuid
  fm_position :: int
  fm_recipient_id :: uuid
  fm_message_id :: uuid
  fm_fields :: "FormField list"
  fm_answers :: "json option"
  fm_expires_at :: timestamp
  fm_answered_at :: "timestamp option"

record FormRequest =
  fq_run_id :: uuid
  fq_position :: int
  fq_title :: rstr
  fq_recipient_id :: uuid
  fq_fields :: "FormField list"
  fq_expires_at :: timestamp
  fq_submitted_at :: "timestamp option"
  fq_expired :: bool

record MessageField =
  mf_label :: rstr
  mf_value :: rstr

text \<open>The metadata of a message a workflow posts: the bot it is shown as, the answers it sums up, the form it carries.\<close>

record bot_metadata =
  md_workflow_id :: uuid
  md_name :: rstr
  md_fields :: "MessageField list option"
  md_form :: "FormRequest option"

text \<open>
  \<open>bot_run\<close> and \<open>bot_position\<close> are not columns: they record which step of which run posted the message, so that results can
  speak about it. Nothing reads them.
\<close>

record BotMessage =
  bot_id :: uuid
  bot_channel_id :: uuid
  bot_user_id :: uuid
  bot_content :: rstr
  bot_meta :: bot_metadata
  bot_run :: uuid
  bot_position :: int

record Conversation =
  cv_id :: uuid
  cv_workspace_id :: uuid
  cv_created_by :: uuid
  cv_created_at :: timestamp
  cv_members :: "uuid list"

datatype WfEvent =
    MessageCreated BotMessage uuid "uuid list"
  | MessageUpdated BotMessage uuid
  | ConversationCreated Conversation uuid "uuid list"

record Notice =
  nt_user_id :: uuid
  nt_workspace_id :: uuid
  nt_workflow_id :: uuid
  nt_body :: rstr

datatype AuditAction = WorkflowCreated | WorkflowUpdated | WorkflowEnabled | WorkflowDisabled | WorkflowDeleted
  | WorkflowTakenOver | WorkflowLinkRotated

record AuditEntry =
  au_action :: AuditAction
  au_actor :: uuid
  au_workspace :: uuid
  au_resource :: uuid
  au_name :: rstr
  au_from :: "uuid option"

text \<open>
  \<open>d_unread\<close> lists the calls of \<open>bump_unread\<close> (channel, author, mentioned people), \<open>d_hooks\<close> the calls that turn off
  the hooks of a creator, \<open>d_notices\<close> what admins are told, \<open>d_audit\<close> the audit log.
\<close>

record wf_db =
  d_workflows :: "WorkflowRow list"
  d_runs :: "RunRow list"
  d_steps :: "RunStep list"
  d_forms :: "FormRow list"
  d_messages :: "BotMessage list"
  d_conversations :: "Conversation list"
  d_lists :: world
  d_unread :: "(uuid \<times> uuid \<times> uuid list) list"
  d_outbox :: "WfEvent list"
  d_dispatched :: "WfEvent list"
  d_hooks :: "(uuid option \<times> uuid \<times> rstr) list"
  d_notices :: "Notice list"
  d_audit :: "AuditEntry list"

type_synonym next_run = "ScheduleOf \<Rightarrow> timestamp \<Rightarrow> timestamp option"

section \<open>Workflows\<close>

definition next_run_of :: "next_run \<Rightarrow> ScheduleOf option \<Rightarrow> timestamp \<Rightarrow> timestamp option" where
  "next_run_of nr schedule after = Option.bind schedule (\<lambda>s. nr s after)"

definition insert_workflow ::
  "next_run \<Rightarrow> timestamp \<Rightarrow> wf_db \<Rightarrow> uuid \<Rightarrow> uuid \<Rightarrow> uuid \<Rightarrow> CheckedWorkflow \<Rightarrow> rstr option \<Rightarrow>
   ScheduleOf option \<Rightarrow> wf_db AppResult" where
  "insert_workflow nr now D new w by ck token schedule =
     (if new \<in> wf_id ` set (d_workflows D)
         \<or> (token \<noteq> None \<and> token \<in> wf_webhook_token ` set (d_workflows D))
      then Inl (db_error ''duplicate key'')
      else Inr (D\<lparr>d_workflows := d_workflows D @
        [\<lparr>wf_id = new, wf_workspace_id = w, wf_name = ck_name ck, wf_description = ck_description ck,
          wf_created_by = by, wf_definition = Some (ck_definition ck), wf_version = 1, wf_enabled = True,
          wf_webhook_token = token, wf_next_run_at = next_run_of nr schedule now,
          wf_created_at = now, wf_updated_at = now\<rparr>]\<rparr>))"

definition on_workflow :: "wf_db \<Rightarrow> uuid \<Rightarrow> (WorkflowRow \<Rightarrow> WorkflowRow) \<Rightarrow> wf_db" where
  "on_workflow D i f = D\<lparr>d_workflows := update_rows (\<lambda>w. wf_id w = i) f (d_workflows D)\<rparr>"

definition update_workflow :: "timestamp \<Rightarrow> wf_db \<Rightarrow> uuid \<Rightarrow> CheckedWorkflow \<Rightarrow> rstr option \<Rightarrow> wf_db" where
  "update_workflow now D i ck token =
     on_workflow D i (\<lambda>w. w\<lparr>wf_name := ck_name ck, wf_description := ck_description ck,
       wf_definition := Some (ck_definition ck), wf_webhook_token := token,
       wf_version := wf_version w + 1, wf_updated_at := now\<rparr>)"

definition set_enabled :: "next_run \<Rightarrow> timestamp \<Rightarrow> wf_db \<Rightarrow> uuid \<Rightarrow> bool \<Rightarrow> ScheduleOf option \<Rightarrow> wf_db" where
  "set_enabled nr now D i enabled schedule =
     on_workflow D i (\<lambda>w. w\<lparr>wf_enabled := enabled,
       wf_next_run_at := (if enabled then next_run_of nr schedule now else None), wf_updated_at := now\<rparr>)"

text \<open>Deleting a workflow cascades to its runs, their steps and their forms.\<close>

definition delete_workflow_row :: "wf_db \<Rightarrow> uuid \<Rightarrow> wf_db" where
  "delete_workflow_row D i =
     (let gone = run_id ` set (filter (\<lambda>r. run_workflow_id r = i) (d_runs D))
      in D\<lparr>d_workflows := filter (\<lambda>w. wf_id w \<noteq> i) (d_workflows D),
           d_runs := filter (\<lambda>r. run_workflow_id r \<noteq> i) (d_runs D),
           d_steps := filter (\<lambda>s. rs_run_id s \<notin> gone) (d_steps D),
           d_forms := filter (\<lambda>f. fm_run_id f \<notin> gone) (d_forms D)\<rparr>)"

definition find_workflow :: "wf_db \<Rightarrow> uuid \<Rightarrow> WorkflowRow option" where
  "find_workflow D i = List.find (\<lambda>w. wf_id w = i) (d_workflows D)"

definition find_by_token :: "wf_db \<Rightarrow> rstr \<Rightarrow> WorkflowRow option" where
  "find_by_token D token = List.find (\<lambda>w. wf_webhook_token w = Some token) (d_workflows D)"

text \<open>The column \<open>creator_gone\<close> of the queries: no membership of an active user.\<close>

definition creator_gone :: "tables \<Rightarrow> WorkflowRow \<Rightarrow> bool" where
  "creator_gone T w \<longleftrightarrow>
     \<not> list_ex (\<lambda>m. mr_workspace_id m = wf_workspace_id w \<and> mr_user_id m = wf_created_by w
         \<and> list_ex (\<lambda>u. u_id u = mr_user_id m \<and> status u = Active) (users T)) (workspace_members T)"

definition disable_by_creator ::
  "timestamp \<Rightarrow> wf_db \<Rightarrow> uuid option \<Rightarrow> uuid \<Rightarrow> wf_db \<times> WorkflowRow list" where
  "disable_by_creator now D w by =
     (let hit = (\<lambda>r. (case w of None \<Rightarrow> True | Some i \<Rightarrow> wf_workspace_id r = i)
                  \<and> wf_created_by r = by \<and> wf_enabled r)
      in (D\<lparr>d_workflows := update_rows hit
             (\<lambda>r. r\<lparr>wf_enabled := False, wf_next_run_at := None, wf_updated_at := now\<rparr>) (d_workflows D)\<rparr>,
          filter hit (d_workflows D)))"

definition set_owner :: "timestamp \<Rightarrow> wf_db \<Rightarrow> uuid \<Rightarrow> uuid \<Rightarrow> rstr \<Rightarrow> wf_db" where
  "set_owner now D i owner token =
     on_workflow D i (\<lambda>w. w\<lparr>wf_created_by := owner, wf_enabled := False, wf_next_run_at := None,
       wf_webhook_token := map_option (\<lambda>_. token) (wf_webhook_token w), wf_updated_at := now\<rparr>)"

definition rotate_token :: "timestamp \<Rightarrow> wf_db \<Rightarrow> uuid \<Rightarrow> rstr \<Rightarrow> wf_db \<times> bool" where
  "rotate_token now D i token =
     (let hit = (\<lambda>w. wf_id w = i \<and> wf_webhook_token w \<noteq> None)
      in (D\<lparr>d_workflows := update_rows hit
             (\<lambda>w. w\<lparr>wf_webhook_token := Some token, wf_updated_at := now\<rparr>) (d_workflows D)\<rparr>,
          list_ex hit (d_workflows D)))"

definition admin_ids :: "tables \<Rightarrow> uuid \<Rightarrow> uuid list" where
  "admin_ids T w = map mr_user_id
     (filter (\<lambda>m. mr_workspace_id m = w \<and> (mr_role m = Admin \<or> mr_role m = Owner)) (workspace_members T))"

definition listening :: "wf_db \<Rightarrow> rstr \<Rightarrow> uuid \<Rightarrow> rstr option \<Rightarrow> WorkflowRow list" where
  "listening D kind c e =
     filter (\<lambda>w. wf_enabled w \<and> (case wf_definition w of
         None \<Rightarrow> False
       | Some d \<Rightarrow> trigger_channel (trigger d) = Some c \<and> trigger_kind (trigger d) = kind
           \<and> (case e of None \<Rightarrow> True
              | Some x \<Rightarrow> (case trigger d of ReactionAdded _ y \<Rightarrow> y = x | _ \<Rightarrow> False))))
       (d_workflows D)"

definition due_schedules_in :: "timestamp \<Rightarrow> wf_db \<Rightarrow> nat \<Rightarrow> WorkflowRow list" where
  "due_schedules_in now D limit =
     take limit (sort_key (\<lambda>w. the (wf_next_run_at w))
       (filter (\<lambda>w. wf_enabled w \<and> (case wf_next_run_at w of None \<Rightarrow> False | Some t \<Rightarrow> t \<le> now)) (d_workflows D)))"

definition advance_in :: "next_run \<Rightarrow> timestamp \<Rightarrow> wf_db \<Rightarrow> uuid \<Rightarrow> ScheduleOf option \<Rightarrow> wf_db" where
  "advance_in nr now D i schedule =
     on_workflow D i (\<lambda>w. w\<lparr>wf_next_run_at := next_run_of nr schedule
       (case wf_next_run_at w of None \<Rightarrow> now | Some t \<Rightarrow> max t now)\<rparr>)"

section \<open>Runs\<close>

text \<open>\<open>ON CONFLICT (workflow_id, trigger_key)\<close>: a key that is there gives the run that has it.\<close>

definition run_with_key :: "wf_db \<Rightarrow> uuid \<Rightarrow> rstr \<Rightarrow> RunRow option" where
  "run_with_key D w key = List.find (\<lambda>r. run_workflow_id r = w \<and> run_key r = key) (d_runs D)"

definition queue_run :: "timestamp \<Rightarrow> wf_db \<Rightarrow> uuid \<Rightarrow> uuid \<Rightarrow> int \<Rightarrow> rstr \<Rightarrow> json \<Rightarrow> (wf_db \<times> uuid) AppResult" where
  "queue_run now D new w version key context =
     (case run_with_key D w key of
        Some r \<Rightarrow> Inr (D, run_id r)
      | None \<Rightarrow>
          if new \<in> run_id ` set (d_runs D) \<or> w \<notin> wf_id ` set (d_workflows D)
          then Inl (db_error ''duplicate key'')
          else Inr (D\<lparr>d_runs := d_runs D @
            [\<lparr>run_id = new, run_workflow_id = w, run_version = version, run_key = key, run_status = StPending,
              run_context = context, run_error = None, run_claimed_at = None, run_started_at = now,
              run_finished_at = None\<rparr>]\<rparr>, new))"

definition skip_run ::
  "timestamp \<Rightarrow> wf_db \<Rightarrow> uuid \<Rightarrow> uuid \<Rightarrow> int \<Rightarrow> rstr \<Rightarrow> json \<Rightarrow> rstr \<Rightarrow> wf_db AppResult" where
  "skip_run now D new w version key context reason =
     (case run_with_key D w key of
        Some r \<Rightarrow> Inr D
      | None \<Rightarrow>
          if new \<in> run_id ` set (d_runs D) \<or> w \<notin> wf_id ` set (d_workflows D)
          then Inl (db_error ''duplicate key'')
          else Inr (D\<lparr>d_runs := d_runs D @
            [\<lparr>run_id = new, run_workflow_id = w, run_version = version, run_key = key, run_status = StFailed,
              run_context = context, run_error = Some reason, run_claimed_at = None, run_started_at = now,
              run_finished_at = Some now\<rparr>]\<rparr>))"

definition CLAIM_SECONDS :: int where "CLAIM_SECONDS = 300"

definition claimable :: "timestamp \<Rightarrow> RunRow \<Rightarrow> bool" where
  "claimable now r \<longleftrightarrow> run_status r = StPending
     \<or> run_status r = StRunning \<and> (case run_claimed_at r of None \<Rightarrow> False | Some t \<Rightarrow> t < now - CLAIM_SECONDS * SECOND)"

definition on_run :: "wf_db \<Rightarrow> uuid \<Rightarrow> (RunRow \<Rightarrow> RunRow) \<Rightarrow> wf_db" where
  "on_run D i f = D\<lparr>d_runs := update_rows (\<lambda>r. run_id r = i) f (d_runs D)\<rparr>"

definition claim_row :: "timestamp \<Rightarrow> RunRow \<Rightarrow> RunRow" where
  "claim_row now r = r\<lparr>run_status := StRunning, run_claimed_at := Some now\<rparr>"

definition claim_runs :: "timestamp \<Rightarrow> wf_db \<Rightarrow> nat \<Rightarrow> wf_db \<times> RunRow list" where
  "claim_runs now D limit =
     (let due = take limit (sort_key run_started_at (filter (claimable now) (d_runs D)));
          ids = set (map run_id due)
      in (D\<lparr>d_runs := update_rows (\<lambda>r. run_id r \<in> ids) (claim_row now) (d_runs D)\<rparr>,
          map (claim_row now) (filter (\<lambda>r. run_id r \<in> ids) (d_runs D))))"

definition finish :: "timestamp \<Rightarrow> wf_db \<Rightarrow> uuid \<Rightarrow> int \<Rightarrow> RunStatus \<Rightarrow> rstr option \<Rightarrow> wf_db" where
  "finish now D i version st err =
     on_run D i (\<lambda>r. r\<lparr>run_status := st, run_error := err, run_version := version, run_finished_at := Some now\<rparr>)"

section \<open>Steps\<close>

definition step_row :: "wf_db \<Rightarrow> uuid \<Rightarrow> int \<Rightarrow> RunStep option" where
  "step_row D r p = List.find (\<lambda>s. rs_run_id s = r \<and> rs_position s = p) (d_steps D)"

definition finished_positions :: "wf_db \<Rightarrow> uuid \<Rightarrow> int list" where
  "finished_positions D r = map rs_position (filter (\<lambda>s. rs_run_id s = r \<and> rs_succeeded s) (d_steps D))"

definition upsert_step :: "wf_db \<Rightarrow> RunStep \<Rightarrow> (RunStep \<Rightarrow> RunStep) \<Rightarrow> wf_db" where
  "upsert_step D new f =
     (if step_row D (rs_run_id new) (rs_position new) = None then D\<lparr>d_steps := d_steps D @ [new]\<rparr>
      else D\<lparr>d_steps := update_rows
        (\<lambda>s. rs_run_id s = rs_run_id new \<and> rs_position s = rs_position new) f (d_steps D)\<rparr>)"

definition record_item_step_in :: "timestamp \<Rightarrow> wf_db \<Rightarrow> uuid \<Rightarrow> int \<Rightarrow> uuid \<Rightarrow> wf_db" where
  "record_item_step_in now D r p item =
     upsert_step D \<lparr>rs_run_id = r, rs_position = p, rs_succeeded = True, rs_message_id = None,
         rs_list_item_id = Some item, rs_error = None, rs_finished_at = now\<rparr>
       (\<lambda>s. s\<lparr>rs_succeeded := True, rs_list_item_id := Some item, rs_error := None, rs_finished_at := now\<rparr>)"

definition item_of :: "wf_db \<Rightarrow> uuid \<Rightarrow> int \<Rightarrow> uuid option" where
  "item_of D r p = Option.bind (step_row D r p) rs_list_item_id"

definition record_step_in :: "timestamp \<Rightarrow> wf_db \<Rightarrow> uuid \<Rightarrow> int \<Rightarrow> rstr + uuid option \<Rightarrow> wf_db" where
  "record_step_in now D r p outcome =
     (let (ok, m, e) = (case outcome of Inr m \<Rightarrow> (True, m, None) | Inl e \<Rightarrow> (False, None, Some e))
      in upsert_step D \<lparr>rs_run_id = r, rs_position = p, rs_succeeded = ok, rs_message_id = m,
             rs_list_item_id = None, rs_error = e, rs_finished_at = now\<rparr>
           (\<lambda>s. s\<lparr>rs_succeeded := ok, rs_message_id := m, rs_error := e, rs_finished_at := now\<rparr>))"

section \<open>Forms\<close>

definition form_row :: "wf_db \<Rightarrow> uuid \<Rightarrow> int \<Rightarrow> FormRow option" where
  "form_row D r p = List.find (\<lambda>f. fm_run_id f = r \<and> fm_position f = p) (d_forms D)"

definition wait_in ::
  "wf_db \<Rightarrow> uuid \<Rightarrow> int \<Rightarrow> uuid \<Rightarrow> uuid \<Rightarrow> FormField list \<Rightarrow> timestamp \<Rightarrow> wf_db AppResult" where
  "wait_in D r p recipient message fs expires =
     (if form_row D r p \<noteq> None then Inl (db_error ''duplicate key'')
      else Inr (on_run (D\<lparr>d_forms := d_forms D @
        [\<lparr>fm_run_id = r, fm_position = p, fm_recipient_id = recipient, fm_message_id = message, fm_fields = fs,
          fm_answers = None, fm_expires_at = expires, fm_answered_at = None\<rparr>]\<rparr>) r
        (\<lambda>x. x\<lparr>run_status := StWaiting\<rparr>)))"

text \<open>\<open>jsonb_set(context, '{form}', COALESCE(context->'form', '{}') || answers)\<close> on an object.\<close>

definition object_fields :: "json option \<Rightarrow> (rstr \<times> json) list" where
  "object_fields v = (case v of Some (JObject kvs) \<Rightarrow> kvs | _ \<Rightarrow> [])"

definition add_answers :: "json \<Rightarrow> (rstr \<times> json) list \<Rightarrow> json" where
  "add_answers context answers =
     (case context of
        JObject kvs \<Rightarrow> JObject (AList.update (lit ''form'')
          (JObject (AList.merge (object_fields (map_of kvs (lit ''form''))) answers)) kvs)
      | other \<Rightarrow> other)"

definition answer_in :: "timestamp \<Rightarrow> wf_db \<Rightarrow> uuid \<Rightarrow> int \<Rightarrow> (rstr \<times> json) list \<Rightarrow> wf_db" where
  "answer_in now D r p answers =
     on_run (D\<lparr>d_forms := update_rows (\<lambda>f. fm_run_id f = r \<and> fm_position f = p)
         (\<lambda>f. f\<lparr>fm_answers := Some (JObject answers), fm_answered_at := Some now\<rparr>) (d_forms D)\<rparr>) r
       (\<lambda>x. x\<lparr>run_context := add_answers (run_context x) answers, run_status := StPending, run_claimed_at := None\<rparr>)"

definition form_expired :: "timestamp \<Rightarrow> wf_db \<Rightarrow> FormRow \<Rightarrow> bool" where
  "form_expired now D f \<longleftrightarrow> fm_answered_at f = None \<and> fm_expires_at f \<le> now
     \<and> list_ex (\<lambda>r. run_id r = fm_run_id f \<and> run_status r = StWaiting
         \<and> find_workflow D (run_workflow_id r) \<noteq> None) (d_runs D)"

definition workspace_of_run :: "wf_db \<Rightarrow> uuid \<Rightarrow> uuid option" where
  "workspace_of_run D i =
     Option.bind (List.find (\<lambda>r. run_id r = i) (d_runs D)) (\<lambda>r.
       map_option wf_workspace_id (find_workflow D (run_workflow_id r)))"

definition expire_forms_in :: "timestamp \<Rightarrow> wf_db \<Rightarrow> rstr \<Rightarrow> wf_db \<times> (uuid \<times> uuid) list" where
  "expire_forms_in now D reason =
     (let forms = filter (form_expired now D) (d_forms D);
          ids = set (map fm_run_id forms)
      in (D\<lparr>d_runs := update_rows (\<lambda>r. run_id r \<in> ids)
             (\<lambda>r. r\<lparr>run_status := StExpired, run_error := Some reason, run_finished_at := Some now\<rparr>) (d_runs D)\<rparr>,
          List.map_filter (\<lambda>f. map_option (\<lambda>w. (fm_message_id f, w)) (workspace_of_run D (fm_run_id f))) forms))"

section \<open>Messages and conversations\<close>

definition create_bot_message_in ::
  "wf_db \<Rightarrow> uuid \<Rightarrow> uuid \<Rightarrow> uuid \<Rightarrow> rstr \<Rightarrow> bot_metadata \<Rightarrow> uuid list \<Rightarrow> uuid \<Rightarrow> int \<Rightarrow> wf_db \<times> BotMessage" where
  "create_bot_message_in D new c by content meta mentioned r p =
     (let m = \<lparr>bot_id = new, bot_channel_id = c, bot_user_id = by, bot_content = content, bot_meta = meta,
                bot_run = r, bot_position = p\<rparr>
      in (D\<lparr>d_messages := d_messages D @ [m], d_unread := d_unread D @ [(c, by, mentioned)]\<rparr>, m))"

definition set_form_in :: "wf_db \<Rightarrow> BotMessage \<Rightarrow> FormRequest \<Rightarrow> wf_db \<times> BotMessage" where
  "set_form_in D m form =
     (let f = (\<lambda>x. x\<lparr>bot_meta := (bot_meta x)\<lparr>md_form := Some form\<rparr>\<rparr>)
      in (D\<lparr>d_messages := update_rows (\<lambda>x. bot_id x = bot_id m) f (d_messages D)\<rparr>, f m))"

definition mark_form_in :: "wf_db \<Rightarrow> uuid \<Rightarrow> (FormRequest \<Rightarrow> FormRequest) \<Rightarrow> wf_db \<times> BotMessage option" where
  "mark_form_in D i g =
     (let hit = (\<lambda>m. bot_id m = i \<and> md_form (bot_meta m) \<noteq> None);
          f = (\<lambda>m. m\<lparr>bot_meta := (bot_meta m)\<lparr>md_form := map_option g (md_form (bot_meta m))\<rparr>\<rparr>)
      in (D\<lparr>d_messages := update_rows hit f (d_messages D)\<rparr>, map_option f (List.find hit (d_messages D))))"

definition wf_stage :: "wf_db \<Rightarrow> WfEvent \<Rightarrow> wf_db" where
  "wf_stage D ev = D\<lparr>d_outbox := d_outbox D @ [ev]\<rparr>"

definition wf_dispatch :: "wf_db \<Rightarrow> WfEvent \<Rightarrow> wf_db" where
  "wf_dispatch D ev = D\<lparr>d_dispatched := d_dispatched D @ [ev]\<rparr>"

definition find_direct :: "wf_db \<Rightarrow> uuid \<Rightarrow> uuid \<Rightarrow> uuid \<Rightarrow> Conversation option" where
  "find_direct D w a b =
     (case sort_key cv_created_at (sort_key cv_id (filter (\<lambda>c. cv_workspace_id c = w \<and> a \<in> set (cv_members c)
         \<and> b \<in> set (cv_members c)) (d_conversations D))) of
        [] \<Rightarrow> None | c # _ \<Rightarrow> Some c)"

definition open_direct :: "timestamp \<Rightarrow> wf_db \<Rightarrow> uuid \<Rightarrow> uuid \<Rightarrow> uuid \<Rightarrow> uuid \<Rightarrow> wf_db \<times> uuid" where
  "open_direct now D new w starter other =
     (case find_direct D w starter other of
        Some existing \<Rightarrow> (D, cv_id existing)
      | None \<Rightarrow>
          let c = \<lparr>cv_id = new, cv_workspace_id = w, cv_created_by = starter, cv_created_at = now,
                    cv_members = remdups [other, starter]\<rparr>;
              ev = ConversationCreated c w [other, starter]
          in (wf_dispatch (wf_stage (D\<lparr>d_conversations := d_conversations D @ [c]\<rparr>) ev) ev, new))"

definition require_reachable :: "queries \<Rightarrow> (uuid \<Rightarrow> uuid \<Rightarrow> bool AppResult) \<Rightarrow> WorkspaceMember \<Rightarrow> uuid \<Rightarrow> unit AppResult" where
  "require_reachable q share_a_channel starter other =
     and_then
       (case require_workspace_member q (wm_workspace_id starter) other of
          Inr _ \<Rightarrow> if role starter \<noteq> Guest then Inr True else share_a_channel (wm_user_id starter) other
        | Inl _ \<Rightarrow> Inr False) (\<lambda>reachable.
       if \<not> reachable then Inl (Forbidden (lit ''You cannot start a conversation with that person''))
       else Inr ())"

end
