(* ===== verification/Workflow_Runs.thy ===== *)
theory Workflow_Runs
  imports Workflow_Store
begin

text \<open>
  The runner of workflows, \<open>src/backend/api/src/workflows/runner.rs\<close>: claiming runs, executing the steps of a run, forms and
  their expiry, schedules; with \<open>stand_down\<close> of \<open>src/backend/api/src/workspace/membership.rs\<close> and
  \<open>stop_creators_workflows\<close> of \<open>service.rs\<close>, which a run calls when its creator is gone. An operation takes the
  environment (the answers of other repositories, the library functions, the clock) and the tables; each transaction commits or leaves no
  trace. Statements on the tables of \<open>Workflow_Store\<close> fail only on the constraints written there; losing the database in the middle
  of a run is the loss of the process, \<open>interrupted\<close> below.
\<close>

section \<open>Environment and context\<close>

record wf_env =
  we_wf :: wf_ext
  we_lists :: env
  we_mentions :: mention_env
  we_alnum :: "uchar \<Rightarrow> bool"
  we_next_run :: next_run
  we_share_a_channel :: "uuid \<Rightarrow> uuid \<Rightarrow> bool AppResult"
  we_profile_name :: "uuid \<Rightarrow> uuid \<Rightarrow> rstr option AppResult"
  we_find_message :: "uuid \<Rightarrow> (rstr \<times> bool) option AppResult"
  we_timezone_exists :: "rstr \<Rightarrow> bool AppResult"
  we_public_url :: rstr
  we_json_text :: "json \<Rightarrow> rstr"

abbreviation we_now :: "wf_env \<Rightarrow> timestamp" where
  "we_now E \<equiv> e_now (we_lists E)"

abbreviation we_queries :: "wf_env \<Rightarrow> queries" where
  "we_queries E \<equiv> e_queries (we_lists E)"

abbreviation we_ext :: "wf_env \<Rightarrow> ext" where
  "we_ext E \<equiv> e_ext (we_lists E)"

record Fired =
  fired_user :: "uuid option"
  fired_values :: "(rstr \<times> rstr) list"

record Context =
  cx_workflow :: WorkflowRow
  cx_run :: RunRow
  cx_definition :: Definition
  cx_fired :: Fired

text \<open>Indexing a JSON value by a key: \<open>Null\<close> where there is nothing.\<close>

definition json_at :: "json \<Rightarrow> rstr \<Rightarrow> json" where
  "json_at v k = (case json_get v k of None \<Rightarrow> JNull | Some x \<Rightarrow> x)"

definition text_of :: "wf_env \<Rightarrow> json \<Rightarrow> rstr" where
  "text_of E v = (case v of JString s \<Rightarrow> s | JNull \<Rightarrow> [] | other \<Rightarrow> we_json_text E other)"

definition cx_value :: "wf_env \<Rightarrow> Context \<Rightarrow> rstr \<Rightarrow> rstr" where
  "cx_value E cx name =
     (case strip_prefix name (lit ''webhook.'') of
        Some variable \<Rightarrow> text_of E (json_at (json_at (run_context (cx_run cx)) (lit ''webhook'')) variable)
      | None \<Rightarrow>
          (case strip_prefix name (lit ''form.'') of
             Some field \<Rightarrow> text_of E (json_at (json_at (run_context (cx_run cx)) (lit ''form'')) field)
           | None \<Rightarrow> (case map_of (fired_values (cx_fired cx)) name of None \<Rightarrow> [] | Some v \<Rightarrow> v)))"

definition trusted :: "Definition \<Rightarrow> rstr \<Rightarrow> bool" where
  "trusted d name \<longleftrightarrow>
     (if starts_with name (lit ''webhook.'') \<or> name = lit ''trigger.message'' then False
      else case strip_prefix name (lit ''form.'') of
        Some field \<Rightarrow> list_ex (\<lambda>f. ff_name f = field \<and> ff_kind f = PersonField)
          (fields_before d (length (steps d)))
      | None \<Rightarrow> True)"

definition rendered :: "wf_env \<Rightarrow> Context \<Rightarrow> rstr \<Rightarrow> rstr" where
  "rendered E cx t = wf_render t (cx_value E cx)"

definition authored :: "wf_env \<Rightarrow> Context \<Rightarrow> rstr \<Rightarrow> rstr" where
  "authored E cx t = wf_render t (\<lambda>name. if trusted (cx_definition cx) name then cx_value E cx name else [])"

definition answers :: "wf_env \<Rightarrow> Context \<Rightarrow> nat \<Rightarrow> bool \<Rightarrow> MessageField list" where
  "answers E cx pos only_trusted =
     map (\<lambda>f. let name = lit ''form.'' @ ff_name f in
         \<lparr>mf_label = trim (ff_label f),
          mf_value = (if only_trusted \<and> \<not> trusted (cx_definition cx) name then [] else cx_value E cx name)\<rparr>)
       (fields_before (cx_definition cx) pos)"

definition metadata :: "Context \<Rightarrow> bot_metadata" where
  "metadata cx = \<lparr>md_workflow_id = wf_id (cx_workflow cx), md_name = wf_name (cx_workflow cx),
     md_fields = None, md_form = None\<rparr>"

definition EM_DASH :: rstr where "EM_DASH = [8212]"

text \<open>\<open>replace('\n', "  \n")\<close> and \<open>join("\n\n")\<close>.\<close>

definition hard_breaks :: "rstr \<Rightarrow> rstr" where
  "hard_breaks s = concat (map (\<lambda>c. if c = 10 then [32, 32, 10] else [c]) s)"

fun join_blocks :: "rstr list \<Rightarrow> rstr" where
  "join_blocks [] = []"
| "join_blocks [b] = b"
| "join_blocks (b # bs) = b @ [10, 10] @ join_blocks bs"

definition wf_summary :: "MessageField list \<Rightarrow> rstr" where
  "wf_summary fs = join_blocks (map (\<lambda>a.
     let value = (if trim (mf_value a) = [] then EM_DASH else hard_breaks (mf_value a))
     in lit ''**'' @ mf_label a @ lit ''**  '' @ [10] @ value) fs)"

section \<open>What set a run off\<close>

definition mention_text :: "wf_env \<Rightarrow> rstr \<Rightarrow> uuid \<Rightarrow> rstr" where
  "mention_text E name u = lit ''@['' @ name @ lit '']('' @ uuid_str (we_ext E) u @ lit '')''"

definition mention_of :: "wf_env \<Rightarrow> uuid \<Rightarrow> uuid \<Rightarrow> rstr option AppResult" where
  "mention_of E w u =
     and_then (we_profile_name E w u) (\<lambda>n. Inr (map_option (\<lambda>name. mention_text E name u) n))"

definition fact_id :: "wf_env \<Rightarrow> json \<Rightarrow> rstr \<Rightarrow> uuid option" where
  "fact_id E facts key = Option.bind (Option.bind (json_get facts key) as_str) (parse_uuid (we_ext E))"

definition user_value :: "wf_env \<Rightarrow> uuid \<Rightarrow> uuid option \<Rightarrow> (rstr \<times> rstr) list AppResult" where
  "user_value E w user =
     (case user of
        None \<Rightarrow> Inr []
      | Some u \<Rightarrow> and_then (mention_of E w u) (\<lambda>m.
          Inr [(lit ''trigger.user'', case m of Some x \<Rightarrow> x | None \<Rightarrow> mention_text E (lit ''someone'') u)]))"

definition message_values :: "wf_env \<Rightarrow> uuid \<Rightarrow> uuid \<Rightarrow> uuid option \<Rightarrow> (rstr \<times> rstr) list AppResult" where
  "message_values E w c message =
     (case message of
        None \<Rightarrow> Inr []
      | Some m \<Rightarrow> and_then (we_find_message E m) (\<lambda>found.
          Inr [(lit ''trigger.message'', case found of Some (content, False) \<Rightarrow> content | _ \<Rightarrow> []),
               (lit ''trigger.message_link'', we_public_url E @ lit ''/app/'' @ uuid_str (we_ext E) w @ lit ''/''
                  @ uuid_str (we_ext E) c @ lit ''/'' @ uuid_str (we_ext E) m)]))"

definition channel_values :: "wf_env \<Rightarrow> uuid \<Rightarrow> uuid option \<Rightarrow> uuid option \<Rightarrow> (rstr \<times> rstr) list AppResult" where
  "channel_values E w chan message =
     (case chan of
        None \<Rightarrow> Inr []
      | Some c \<Rightarrow>
          and_then (q_find_channel (we_queries E) c) (\<lambda>ch.
          and_then (message_values E w c message) (\<lambda>vs.
            Inr ((case Option.bind ch ch_name of Some n \<Rightarrow> [(lit ''trigger.channel'', 35 # n)] | None \<Rightarrow> []) @ vs))))"

definition fired :: "wf_env \<Rightarrow> WorkflowRow \<Rightarrow> RunRow \<Rightarrow> Fired AppResult" where
  "fired E w rn =
     (let facts = json_at (run_context rn) (lit ''trigger''); user = fact_id E facts (lit ''user_id'') in
      and_then (user_value E (wf_workspace_id w) user) (\<lambda>us.
      and_then (channel_values E (wf_workspace_id w) (fact_id E facts (lit ''channel_id''))
                 (fact_id E facts (lit ''message_id''))) (\<lambda>cs.
        Inr \<lparr>fired_user = user, fired_values = us @ cs\<rparr>)))"

section \<open>Standing a creator down\<close>

text \<open>The admins of each workspace hear of every workflow that stopped.\<close>

definition stop_creators_workflows ::
  "wf_env \<Rightarrow> wf_db \<Rightarrow> uuid option \<Rightarrow> uuid \<Rightarrow> rstr \<Rightarrow> wf_db \<times> WorkflowRow list" where
  "stop_creators_workflows E D w u because =
     (let (D1, stopped) = disable_by_creator (we_now E) D w u;
          notices = concat (map (\<lambda>r. map (\<lambda>admin.
            \<lparr>nt_user_id = admin, nt_workspace_id = wf_workspace_id r, nt_workflow_id = wf_id r,
             nt_body = curly (wf_name r) @ lit '' stopped because '' @ because @ lit ''.''\<rparr>)
            (admin_ids (e_tables (we_lists E)) (wf_workspace_id r))) stopped)
      in (D1\<lparr>d_notices := d_notices D1 @ notices\<rparr>, stopped))"

fun stood_down_because :: "Stopped \<Rightarrow> rstr" where
  "stood_down_because Inactive = lit ''the person who built it was suspended''"
| "stood_down_because LeftWorkspace = lit ''the person who built it left the workspace''"
| "stood_down_because LostChannel = lit ''the person who built it left the workspace''"
| "stood_down_because Demoted = lit ''the person who built it is no longer allowed to''"

definition stand_down :: "wf_env \<Rightarrow> wf_db \<Rightarrow> uuid option \<Rightarrow> uuid \<Rightarrow> Stopped \<Rightarrow> wf_db" where
  "stand_down E D w u why =
     fst (stop_creators_workflows E (D\<lparr>d_hooks := d_hooks D @ [(w, u, stopped_reason why)]\<rparr>) w u
       (stood_down_because why))"

section \<open>One step\<close>

datatype Outcome = Done | Waiting

datatype Item = New uuid | From nat

text \<open>The identifiers the database and \<open>Uuid::new_v4\<close> draw while a step runs.\<close>

record step_ids =
  id_message :: uuid
  id_conversation :: uuid
  id_item :: uuid

text \<open>\<open>as i32\<close> keeps the low 32 bits and reads them as a signed number.\<close>

definition as_i32 :: "nat \<Rightarrow> int" where
  "as_i32 n = signed_take_bit 31 (int n)"

definition recipient_of :: "Recipient \<Rightarrow> Context \<Rightarrow> rstr + uuid" where
  "recipient_of to cx =
     (case (to, fired_user (cx_fired cx)) of
        (ToPerson u, _) \<Rightarrow> Inr u
      | (TriggerUser, Some u) \<Rightarrow> Inr u
      | (TriggerUser, None) \<Rightarrow> Inl (lit ''This trigger has no person''))"

definition dm_channel ::
  "wf_env \<Rightarrow> wf_db \<Rightarrow> uuid \<Rightarrow> WorkspaceMember \<Rightarrow> uuid \<Rightarrow> rstr + wf_db \<times> uuid" where
  "dm_channel E D new creator recipient =
     (if recipient = wm_user_id creator then Inl (lit ''A workflow can't send its creator a DM'')
      else and_then (map_err error_text (q_get_member (we_queries E) (wm_workspace_id creator) recipient)) (\<lambda>present.
        if present = None then Inl (lit ''That person is no longer in this workspace'')
        else and_then
          (if role creator = Guest
           then map_err (\<lambda>_. lit ''Its creator can no longer message that person'')
                  (require_reachable (we_queries E) (we_share_a_channel E) creator recipient)
           else Inr ()) (\<lambda>_.
          Inr (open_direct (we_now E) D new (wm_workspace_id creator) (wm_user_id creator) recipient))))"

fun list_error :: "AppError \<Rightarrow> rstr" where
  "list_error (Validation m) = m"
| "list_error (NotFound m) = m"
| "list_error (Forbidden m) = m"
| "list_error (Conflict m) = m"
| "list_error e = error_text e"

definition target_of :: "wf_db \<Rightarrow> Context \<Rightarrow> Item \<Rightarrow> rstr + uuid \<times> uuid option" where
  "target_of D cx target =
     (case target of
        New l \<Rightarrow> Inr (l, None)
      | From step \<Rightarrow>
          and_then (ok_or (item_of D (run_id (cx_run cx)) (as_i32 step)) (lit ''The item it updates was deleted'')) (\<lambda>item.
          and_then (ok_or (list_of (cx_definition cx) step) (lit ''The step that added the item is gone'')) (\<lambda>l.
            Inr (l, Some item))))"

fun cell_values ::
  "wf_env \<Rightarrow> Context \<Rightarrow> ListColumn list \<Rightarrow> (rstr \<times> json) list \<Rightarrow> CellValue list \<Rightarrow> rstr + (rstr \<times> json) list" where
  "cell_values E cx columns values [] = Inr values"
| "cell_values E cx columns values (cell # cells) =
     and_then (ok_or (List.find (\<lambda>c. lc_id c = cell_column_id cell) columns) (lit ''A column it fills was deleted'')) (\<lambda>column.
     and_then (cell_of (we_ext E) column (rendered E cx (cell_value cell))) (\<lambda>v.
       cell_values E cx columns
         (case v of Some x \<Rightarrow> AList.update (uuid_str (we_ext E) (lc_id column)) x values | None \<Rightarrow> values) cells))"

definition write_item ::
  "wf_env \<Rightarrow> wf_db \<Rightarrow> step_ids \<Rightarrow> Context \<Rightarrow> uuid \<Rightarrow> int \<Rightarrow> Item \<Rightarrow> CellValue list \<Rightarrow> rstr + wf_db \<times> Outcome" where
  "write_item E D ids cx creator pos target cells =
     and_then (target_of D cx target) (\<lambda>(list_id, item_id).
     and_then (map_err (\<lambda>_. lit ''Its creator can no longer add to that list'')
       (writable (we_lists E) (d_lists D) creator list_id)) (\<lambda>l.
       let columns = columns_in (w_store (d_lists D)) list_id in
     and_then (cell_values E cx columns [] cells) (\<lambda>values.
     and_then (map_err list_error
       (case item_id of
          None \<Rightarrow> create_item_in (we_lists E) (d_lists D) (id_item ids) creator list_id values None
        | Some item \<Rightarrow> update_item_in (we_lists E) (d_lists D) creator l item values)) (\<lambda>(L, w).
       let D1 = record_item_step_in (we_now E) (D\<lparr>d_lists := L\<rparr>) (run_id (cx_run cx)) pos (li_id (iw_item w))
       in Inr (D1\<lparr>d_lists := announce (d_lists D1) w\<rparr>, Done)))))"

definition SECONDS_PER_DAY :: int where "SECONDS_PER_DAY = 86400"

definition post_form ::
  "wf_env \<Rightarrow> wf_db \<Rightarrow> step_ids \<Rightarrow> Context \<Rightarrow> uuid \<Rightarrow> int \<Rightarrow> uuid \<Rightarrow> uuid \<Rightarrow> rstr \<Rightarrow> FormField list \<Rightarrow> wf_db AppResult" where
  "post_form E D ids cx creator pos c recipient title fs =
     (let r = run_id (cx_run cx);
          expires_at = we_now E + int FORM_EXPIRY_DAYS * SECONDS_PER_DAY * SECOND;
          form = \<lparr>fq_run_id = r, fq_position = pos, fq_title = title, fq_recipient_id = recipient,
                  fq_fields = fs, fq_expires_at = expires_at, fq_submitted_at = None, fq_expired = False\<rparr>;
          (D1, m1) = create_bot_message_in D (id_message ids) c creator title (metadata cx) [] r pos;
          (D2, m2) = set_form_in D1 m1 form
      in and_then (wait_in D2 r pos recipient (bot_id m2) fs expires_at) (\<lambda>D3.
        let ev = MessageCreated m2 (wf_workspace_id (cx_workflow cx)) []
        in Inr (wf_dispatch (wf_stage D3 ev) ev)))"

text \<open>The text a message shows and the part of it that may mention people.\<close>

definition step_content :: "wf_env \<Rightarrow> Context \<Rightarrow> int \<Rightarrow> Step \<Rightarrow> rstr \<times> rstr \<times> bot_metadata" where
  "step_content E cx pos step =
     (let t = (case step_text step of Some t \<Rightarrow> t | None \<Rightarrow> []) in
      if step_summary step
      then let as = answers E cx (nat pos) False
           in (rendered E cx t @ [10, 10] @ wf_summary as,
               authored E cx t @ [10, 10] @ wf_summary (answers E cx (nat pos) True),
               (metadata cx)\<lparr>md_fields := Some as\<rparr>)
      else (rendered E cx t, authored E cx t, metadata cx))"

definition post_step ::
  "wf_env \<Rightarrow> wf_db \<Rightarrow> step_ids \<Rightarrow> Context \<Rightarrow> uuid \<Rightarrow> int \<Rightarrow> uuid \<Rightarrow> Step \<Rightarrow> wf_db \<times> Outcome" where
  "post_step E D ids cx creator pos c step =
     (let (content, authored_text, meta) = step_content E cx pos step;
          mentioned = expand_mentions (we_ext E) (we_alnum E) (we_mentions E) c creator authored_text;
          r = run_id (cx_run cx);
          (D1, m) = create_bot_message_in D (id_message ids) c creator content meta mentioned r pos;
          D2 = record_step_in (we_now E) D1 r pos (Inr (Some (bot_id m)));
          ev = MessageCreated m (wf_workspace_id (cx_workflow cx)) mentioned
      in (wf_dispatch (wf_stage D2 ev) ev, Done))"

definition cannot_post :: rstr where
  "cannot_post = lit ''Its creator can no longer post in that channel''"

text \<open>A step that fails keeps the tables as its last committed transaction left them.\<close>

definition committed :: "wf_db \<Rightarrow> rstr + wf_db \<times> 'a \<Rightarrow> wf_db \<times> (rstr + 'a)" where
  "committed D r = (case r of Inl e \<Rightarrow> (D, Inl e) | Inr (D', x) \<Rightarrow> (D', Inr x))"

fun run_step ::
  "wf_env \<Rightarrow> wf_db \<Rightarrow> step_ids \<Rightarrow> Context \<Rightarrow> WorkspaceMember \<Rightarrow> int \<Rightarrow> Step \<Rightarrow> wf_db \<times> (rstr + Outcome)" where
  "run_step E D ids cx creator pos (SendMessage c t s) =
     committed D (
       and_then (map_err (\<lambda>_. cannot_post) (require_channel_post (we_queries E) c (wm_user_id creator))) (\<lambda>access.
         if is_archived (channel access) then Inl (lit ''That channel is archived'')
         else Inr (post_step E D ids cx (wm_user_id creator) pos c (SendMessage c t s))))"
| "run_step E D ids cx creator pos (SendDm to t s) =
     committed D (
       and_then (recipient_of to cx) (\<lambda>recipient.
         if recipient = wm_user_id creator \<and> to = TriggerUser
         then Inr (record_step_in (we_now E) D (run_id (cx_run cx)) pos (Inr None), Done)
         else and_then (dm_channel E D (id_conversation ids) creator recipient) (\<lambda>(D1, c).
           Inr (post_step E D1 ids cx (wm_user_id creator) pos c (SendDm to t s)))))"
| "run_step E D ids cx creator pos (AddListItem l cells) =
     committed D (write_item E D ids cx (wm_user_id creator) pos (New l) cells)"
| "run_step E D ids cx creator pos (UpdateListItem from_step cells) =
     committed D (write_item E D ids cx (wm_user_id creator) pos (From from_step) cells)"
| "run_step E D ids cx creator pos (Form to title fs) =
     (case and_then (recipient_of to cx) (\<lambda>recipient.
             and_then
               (if recipient = wm_user_id creator
                then and_then (ok_or (trigger_channel (trigger (cx_definition cx)))
                       (lit ''A workflow can't send its creator a form'')) (\<lambda>c.
                     and_then (map_err (\<lambda>_. cannot_post) (require_channel_post (we_queries E) c (wm_user_id creator)))
                       (\<lambda>_. Inr (D, c)))
                else dm_channel E D (id_conversation ids) creator recipient) (\<lambda>(D1, c). Inr (D1, c, recipient))) of
        Inl e \<Rightarrow> (D, Inl e)
      | Inr (D1, c, recipient) \<Rightarrow>
          committed D1 (
            and_then (map_err error_text
              (post_form E D1 ids cx (wm_user_id creator) pos c recipient (trim title) fs)) (\<lambda>D2.
              Inr (D2, Waiting))))"

section \<open>A run\<close>

fun lost_builder :: "Stopped \<Rightarrow> rstr" where
  "lost_builder Inactive = lit ''The person who built it is suspended''"
| "lost_builder LeftWorkspace = lit ''The person who built it is no longer in this workspace''"
| "lost_builder LostChannel = lit ''The person who built it is no longer in this workspace''"
| "lost_builder Demoted = lit ''The person who built it is no longer allowed to''"

text \<open>The first part of \<open>steps\<close>, up to the loop: whether the run may go on, and with what.\<close>

definition admitted :: "wf_env \<Rightarrow> wf_db \<Rightarrow> WorkflowRow \<Rightarrow> RunRow \<Rightarrow> wf_db \<times> (rstr + Definition)" where
  "admitted E D w rn =
     (if \<not> wf_enabled w then (D, Inl (lit ''The workflow was turned off before it ran''))
      else case wf_definition w of
        None \<Rightarrow> (D, Inl (lit ''The workflow can't be read''))
      | Some d \<Rightarrow>
          (case still_acting (we_queries E) (wf_workspace_id w) (wf_created_by w) (trigger_channel (trigger d)) of
             Inl e \<Rightarrow> (D, Inl (error_text e))
           | Inr None \<Rightarrow> (D, Inr d)
           | Inr (Some LostChannel) \<Rightarrow> (D, Inl (lit ''Its creator can no longer see the channel it listens to''))
           | Inr (Some why) \<Rightarrow>
               (stand_down E D (Some (wf_workspace_id w)) (wf_created_by w) why, Inl (lost_builder why))))"

definition prepared ::
  "wf_env \<Rightarrow> wf_db \<Rightarrow> WorkflowRow \<Rightarrow> RunRow \<Rightarrow> Definition \<Rightarrow> rstr + Context \<times> WorkspaceMember \<times> int list" where
  "prepared E D w rn d =
     and_then (map_err error_text (q_get_member (we_queries E) (wf_workspace_id w) (wf_created_by w))) (\<lambda>m.
     and_then (ok_or m (lit ''The person who built it is no longer in this workspace'')) (\<lambda>creator.
       let finished = finished_positions D (run_id rn) in
       if finished \<noteq> [] \<and> wf_version w \<noteq> run_version rn
       then Inl (lit ''The workflow was edited while this run was under way'')
       else and_then (map_err error_text (fired E w rn)) (\<lambda>f.
         Inr (\<lparr>cx_workflow = w, cx_run = rn, cx_definition = d, cx_fired = f\<rparr>, creator, finished))))"

fun steps_from ::
  "wf_env \<Rightarrow> wf_db \<Rightarrow> (nat \<Rightarrow> step_ids) \<Rightarrow> Context \<Rightarrow> WorkspaceMember \<Rightarrow> int list \<Rightarrow> (nat \<times> Step) list \<Rightarrow>
   wf_db \<times> (rstr + Outcome)" where
  "steps_from E D ids cx creator finished [] = (D, Inr Done)"
| "steps_from E D ids cx creator finished ((index, step) # rest) =
     (let pos = as_i32 index in
      if pos \<in> set finished then steps_from E D ids cx creator finished rest
      else case run_step E D (ids index) cx creator pos step of
        (D1, Inr Done) \<Rightarrow> steps_from E D1 ids cx creator finished rest
      | (D1, Inr Waiting) \<Rightarrow> (D1, Inr Waiting)
      | (D1, Inl reason) \<Rightarrow>
          (record_step_in (we_now E) D1 (run_id (cx_run cx)) pos (Inl reason),
           Inl (step_at index @ lit '' ('' @ step_label step @ lit ''): '' @ reason)))"

definition run_steps ::
  "wf_env \<Rightarrow> wf_db \<Rightarrow> (nat \<Rightarrow> step_ids) \<Rightarrow> WorkflowRow \<Rightarrow> RunRow \<Rightarrow> wf_db \<times> (rstr + Outcome)" where
  "run_steps E D ids w rn =
     (case admitted E D w rn of
        (D1, Inl e) \<Rightarrow> (D1, Inl e)
      | (D1, Inr d) \<Rightarrow>
          (case prepared E D1 w rn d of
             Inl e \<Rightarrow> (D1, Inl e)
           | Inr (cx, creator, finished) \<Rightarrow>
               steps_from E D1 ids cx creator finished (enumerate 0 (steps d))))"

definition execute :: "wf_env \<Rightarrow> wf_db \<Rightarrow> (nat \<Rightarrow> step_ids) \<Rightarrow> RunRow \<Rightarrow> wf_db" where
  "execute E D ids rn =
     (case find_workflow D (run_workflow_id rn) of
        None \<Rightarrow> D
      | Some w \<Rightarrow>
          (case run_steps E D ids w rn of
             (D1, Inr Waiting) \<Rightarrow> D1
           | (D1, Inr Done) \<Rightarrow> finish (we_now E) D1 (run_id rn) (wf_version w) StSucceeded None
           | (D1, Inl reason) \<Rightarrow> finish (we_now E) D1 (run_id rn) (wf_version w) StFailed (Some reason)))"

definition RUN_BATCH :: nat where "RUN_BATCH = 20"
definition SCHEDULE_BATCH :: nat where "SCHEDULE_BATCH = 50"
definition LATE_LIMIT_MINUTES :: int where "LATE_LIMIT_MINUTES = 15"

fun execute_all :: "wf_env \<Rightarrow> wf_db \<Rightarrow> (uuid \<Rightarrow> nat \<Rightarrow> step_ids) \<Rightarrow> RunRow list \<Rightarrow> wf_db" where
  "execute_all E D ids [] = D"
| "execute_all E D ids (rn # runs) = execute_all E (execute E D (ids (run_id rn)) rn) ids runs"

definition run_pending :: "wf_env \<Rightarrow> wf_db \<Rightarrow> (uuid \<Rightarrow> nat \<Rightarrow> step_ids) \<Rightarrow> wf_db \<times> nat" where
  "run_pending E D ids =
     (let (D1, runs) = claim_runs (we_now E) D RUN_BATCH
      in (execute_all E D1 ids runs, length runs))"

text \<open>
  The process can die between two transactions of a run: the first \<open>k\<close> steps were looked at, the run was not finished, and its
  row says that it is running. Another claim takes it up after five minutes.
\<close>

definition interrupted :: "wf_env \<Rightarrow> wf_db \<Rightarrow> (nat \<Rightarrow> step_ids) \<Rightarrow> nat \<Rightarrow> RunRow \<Rightarrow> wf_db" where
  "interrupted E D ids k rn =
     (case find_workflow D (run_workflow_id rn) of
        None \<Rightarrow> D
      | Some w \<Rightarrow>
          (case admitted E D w rn of
             (D1, Inl e) \<Rightarrow> D1
           | (D1, Inr d) \<Rightarrow>
               (case prepared E D1 w rn d of
                  Inl e \<Rightarrow> D1
                | Inr (cx, creator, finished) \<Rightarrow>
                    fst (steps_from E D1 ids cx creator finished (take k (enumerate 0 (steps d)))))))"

section \<open>Forms that expire, schedules that fall due\<close>

fun mark_expired :: "wf_db \<Rightarrow> (uuid \<times> uuid) list \<Rightarrow> wf_db \<times> WfEvent list" where
  "mark_expired D [] = (D, [])"
| "mark_expired D ((m, w) # forms) =
     (case mark_form_in D m (\<lambda>f. f\<lparr>fq_expired := True\<rparr>) of
        (D1, None) \<Rightarrow> mark_expired D1 forms
      | (D1, Some message) \<Rightarrow>
          let ev = MessageUpdated message w; (D2, evs) = mark_expired (wf_stage D1 ev) forms
          in (D2, ev # evs))"

definition expire_forms :: "wf_env \<Rightarrow> wf_db \<Rightarrow> wf_db \<times> nat" where
  "expire_forms E D =
     (let (D1, expired) = expire_forms_in (we_now E) D (lit ''Nobody filled in the form within 7 days'');
          (D2, staged) = mark_expired D1 expired
      in (foldl wf_dispatch D2 staged, length expired))"

fun queue_due ::
  "wf_env \<Rightarrow> wf_db \<Rightarrow> (uuid \<Rightarrow> uuid) \<Rightarrow> (timestamp \<Rightarrow> rstr) \<Rightarrow> WorkflowRow list \<Rightarrow> (wf_db \<times> nat) AppResult" where
  "queue_due E D new rfc3339 [] = Inr (D, 0)"
| "queue_due E D new rfc3339 (w # due) =
     (let schedule = Option.bind (wf_definition w) (\<lambda>d. schedule_of (we_wf E) (trigger d));
          next_run_at = the (wf_next_run_at w);
          fresh = (schedule \<noteq> None \<and> next_run_at \<ge> we_now E - LATE_LIMIT_MINUTES * 60 * SECOND)
      in and_then
        (if fresh
         then and_then (queue_run (we_now E) D (new (wf_id w)) (wf_id w) (wf_version w)
                (lit ''schedule:'' @ rfc3339 next_run_at) (JObject [])) (\<lambda>(D1, _). Inr D1)
         else Inr D) (\<lambda>D1.
        and_then (queue_due E (advance_in (we_next_run E) (we_now E) D1 (wf_id w) schedule) new rfc3339 due) (\<lambda>(D2, n).
          Inr (D2, if fresh then Suc n else n))))"

definition queue_due_schedules ::
  "wf_env \<Rightarrow> wf_db \<Rightarrow> (uuid \<Rightarrow> uuid) \<Rightarrow> (timestamp \<Rightarrow> rstr) \<Rightarrow> (wf_db \<times> nat) AppResult" where
  "queue_due_schedules E D new rfc3339 =
     queue_due E D new rfc3339 (due_schedules_in (we_now E) D SCHEDULE_BATCH)"

end
