(* ===== verification/Workflow_Service.thy ===== *)
theory Workflow_Service
  imports Workflow_Runs
begin

text \<open>
  The workflow service, \<open>src/backend/api/src/workflows/service.rs\<close>, the webhook route of \<open>routes.rs\<close> and the event listener of
  \<open>listener.rs\<close>: who may build and change workflows, what a definition may touch, the ways a run starts, and the answers to a form.
  The verdict of the rate limiter and the token a random generator draws are arguments.
\<close>

section \<open>Who may build\<close>

definition require_builder :: "wf_env \<Rightarrow> uuid \<Rightarrow> uuid \<Rightarrow> WorkspaceMember AppResult" where
  "require_builder E w u =
     and_then (require_workspace_member (we_queries E) w u) (\<lambda>m.
       if role m = Guest then Inl (Forbidden (lit ''Guests can't build workflows''))
       else and_then (q_find_workspace (we_queries E) w) (\<lambda>wo.
       and_then (ok_or wo (NotFound (lit ''Workspace not found''))) (\<lambda>ws.
         if \<not> who_may_allows (who_may_of (ws_settings ws) WORKFLOW_BUILDERS) (role m)
         then Inl (Forbidden (lit ''Only admins can build workflows in this workspace''))
         else Inr m)))"

definition workflow_not_found :: AppError where
  "workflow_not_found = NotFound (lit ''Workflow not found'')"

definition find_manageable :: "wf_env \<Rightarrow> wf_db \<Rightarrow> uuid \<Rightarrow> uuid \<Rightarrow> (WorkflowRow \<times> WorkspaceMember) AppResult" where
  "find_manageable E D i u =
     and_then (ok_or (find_workflow D i) workflow_not_found) (\<lambda>row.
     and_then (q_get_member (we_queries E) (wf_workspace_id row) u) (\<lambda>mo.
     and_then (ok_or mo workflow_not_found) (\<lambda>m.
       if wf_created_by row \<noteq> u \<and> \<not> has_at_least (role m) Admin then Inl workflow_not_found
       else Inr (row, m))))"

definition find_own :: "wf_env \<Rightarrow> wf_db \<Rightarrow> uuid \<Rightarrow> uuid \<Rightarrow> WorkflowRow AppResult" where
  "find_own E D i u =
     and_then (find_manageable E D i u) (\<lambda>(row, _).
       if wf_created_by row \<noteq> u
       then Inl (Forbidden (lit ''Only the person who built a workflow can change it''))
       else and_then (require_builder E (wf_workspace_id row) u) (\<lambda>_. Inr row))"

section \<open>What a definition may touch\<close>

definition in_workspace_channel :: "uuid \<Rightarrow> ChannelAccess \<Rightarrow> bool" where
  "in_workspace_channel w access \<longleftrightarrow>
     ch_workspace_id (channel access) = w \<and> channel_type (channel access) \<in> {Public, Private}"

fun authority_cells ::
  "wf_env \<Rightarrow> uuid \<Rightarrow> Definition \<Rightarrow> nat \<Rightarrow> ListColumn list \<Rightarrow> bool \<Rightarrow> CellValue list \<Rightarrow> unit AppResult" where
  "authority_cells E w d index columns updating [] = Inr ()"
| "authority_cells E w d index columns updating (cell # cells) =
     (let inv = (\<lambda>m. Validation (step_at index @ lit '': '' @ m)) in
      and_then (ok_or (List.find (\<lambda>c. lc_id c = cell_column_id cell) columns) (inv (lit ''that list has no such column''))) (\<lambda>column.
      if updating \<and> lc_kind column \<notin> {Person, Select, Checkbox}
      then Inl (inv (curly (lc_name column) @ lit '' isn't a person, choice or checkbox column''))
      else
      and_then (map_err inv (check_cell (we_ext E) column (cell_value cell) (variable_kind d index))) (\<lambda>_.
      and_then
        (if lc_kind column = Person \<and> placeholders (cell_value cell) = []
         then and_then
           (case parse_uuid (we_ext E) (trim (cell_value cell)) of
              Some p \<Rightarrow> and_then (q_get_member (we_queries E) w p) (\<lambda>m. Inr (m \<noteq> None))
            | None \<Rightarrow> Inr False) (\<lambda>is_member.
           if is_member then Inr ()
           else Inl (inv (curly (lc_name column) @ lit '' must be someone in this workspace'')))
         else Inr ()) (\<lambda>_.
        authority_cells E w d index columns updating cells))))"

definition list_columns :: "wf_db \<Rightarrow> uuid \<Rightarrow> ListColumn list" where
  "list_columns D l = columns_in (w_store (d_lists D)) l"

definition person_reachable ::
  "wf_env \<Rightarrow> WorkspaceMember \<Rightarrow> uuid \<Rightarrow> nat \<Rightarrow> rstr \<Rightarrow> uuid \<Rightarrow> unit AppResult" where
  "person_reachable E m creator index what u =
     (if u = creator
      then invalid (step_at index @ lit '': a workflow can't send you a '' @ what @ lit ''; pick someone else'')
      else map_err (\<lambda>_. Validation (step_at index @ lit '': you can't message that person''))
        (require_reachable (we_queries E) (we_share_a_channel E) m u))"

fun authority_step ::
  "wf_env \<Rightarrow> wf_db \<Rightarrow> uuid \<Rightarrow> uuid \<Rightarrow> WorkspaceMember \<Rightarrow> Definition \<Rightarrow> nat \<Rightarrow> Step \<Rightarrow> unit AppResult" where
  "authority_step E D w creator m d index (SendMessage c t _) =
     (let refused = Validation (step_at index @ lit '': you can't post in that channel'') in
      and_then (map_err (\<lambda>_. refused) (require_channel_post (we_queries E) c creator)) (\<lambda>access.
        if \<not> in_workspace_channel w access then Inl refused
        else if is_archived (channel access) then invalid (step_at index @ lit '': that channel is archived'')
        else if mentions_everyone (we_alnum E) t
        then and_then (can_broadcast (we_queries E) (channel access) creator) (\<lambda>ok.
          if ok then Inr ()
          else invalid (step_at index @ lit '': you can't use @channel, @here or @everyone in that channel''))
        else Inr ()))"
| "authority_step E D w creator m d index (SendDm (ToPerson u) _ _) = person_reachable E m creator index (lit ''DM'') u"
| "authority_step E D w creator m d index (Form (ToPerson u) _ _) = person_reachable E m creator index (lit ''form'') u"
| "authority_step E D w creator m d index (SendDm TriggerUser _ _) = Inr ()"
| "authority_step E D w creator m d index (Form TriggerUser _ _) = Inr ()"
| "authority_step E D w creator m d index (AddListItem l cells) =
     (let refused = Validation (step_at index @ lit '': you can't add to that list'') in
      and_then (map_err (\<lambda>_. refused) (writable (we_lists E) (d_lists D) creator l)) (\<lambda>row.
        if l_workspace_id row \<noteq> w then Inl refused
        else authority_cells E w d index (list_columns D l) False cells))"
| "authority_step E D w creator m d index (UpdateListItem _ cells) =
     and_then (ok_or (list_of d index)
       (Validation (step_at index @ lit '': pick an earlier step that adds a list item''))) (\<lambda>l.
       authority_cells E w d index (list_columns D l) True cells)"

fun authority_steps ::
  "wf_env \<Rightarrow> wf_db \<Rightarrow> uuid \<Rightarrow> uuid \<Rightarrow> WorkspaceMember \<Rightarrow> Definition \<Rightarrow> (nat \<times> Step) list \<Rightarrow> unit AppResult" where
  "authority_steps E D w creator m d [] = Inr ()"
| "authority_steps E D w creator m d ((index, step) # rest) =
     and_then (authority_step E D w creator m d index step) (\<lambda>_. authority_steps E D w creator m d rest)"

definition check_authority :: "wf_env \<Rightarrow> wf_db \<Rightarrow> uuid \<Rightarrow> uuid \<Rightarrow> Definition \<Rightarrow> unit AppResult" where
  "check_authority E D w creator d =
     and_then
       (case trigger d of
          Schedule _ _ z \<Rightarrow> and_then (we_timezone_exists E z) (\<lambda>ok.
            if ok then Inr () else invalid (straight z @ lit '' isn't a timezone''))
        | _ \<Rightarrow> Inr ()) (\<lambda>_.
     and_then (require_workspace_member (we_queries E) w creator) (\<lambda>m.
     and_then
       (case trigger_channel (trigger d) of
          None \<Rightarrow> Inr ()
        | Some c \<Rightarrow>
            let refused = Validation (lit ''You can't see the channel it listens to'') in
            and_then (map_err (\<lambda>_. refused) (require_channel_access (we_queries E) c creator)) (\<lambda>access.
              if \<not> in_workspace_channel w access then Inl refused
              else if is_archived (channel access) then invalid (lit ''The channel it listens to is archived'')
              else Inr ())) (\<lambda>_.
       authority_steps E D w creator m d (enumerate 0 (steps d)))))"

section \<open>Managing workflows\<close>

definition audit :: "wf_db \<Rightarrow> AuditAction \<Rightarrow> uuid \<Rightarrow> WorkflowRow \<Rightarrow> uuid option \<Rightarrow> wf_db" where
  "audit D action actor row from = D\<lparr>d_audit := d_audit D @
     [\<lparr>au_action = action, au_actor = actor, au_workspace = wf_workspace_id row, au_resource = wf_id row,
       au_name = wf_name row, au_from = from\<rparr>]\<rparr>"

text \<open>
  A handler answers with a refusal and the tables as they were, or with the tables it wrote and the workflow read back from them; reading
  it back can fail after the writes are committed.
\<close>

definition guarded :: "wf_db \<Rightarrow> 'a AppResult \<Rightarrow> ('a \<Rightarrow> wf_db \<times> 'b AppResult) \<Rightarrow> wf_db \<times> 'b AppResult" where
  "guarded D r f = (case r of Inl e \<Rightarrow> (D, Inl e) | Inr x \<Rightarrow> f x)"

definition reload :: "wf_db \<Rightarrow> uuid \<Rightarrow> wf_db \<times> WorkflowRow AppResult" where
  "reload D i =
     (D, and_then (ok_or (find_workflow D i) workflow_not_found) (\<lambda>row.
       if wf_definition row = None then Inl (Internal (lit ''a stored workflow does not deserialize''))
       else Inr row))"

definition take_over :: "wf_env \<Rightarrow> wf_db \<Rightarrow> rstr \<Rightarrow> uuid \<Rightarrow> uuid \<Rightarrow> wf_db \<times> WorkflowRow AppResult" where
  "take_over E D token i u =
     guarded D
       (and_then (ok_or (find_workflow D i) workflow_not_found) (\<lambda>row.
        and_then (require_workspace_role (we_queries E) (wf_workspace_id row) u Admin) (\<lambda>_.
          if \<not> creator_gone (e_tables (we_lists E)) row
          then Inl (Conflict (lit ''Only a workflow whose creator left or was suspended can be taken over''))
          else Inr row))) (\<lambda>row.
       reload (audit (set_owner (we_now E) D i u token) WorkflowTakenOver u row (Some (wf_created_by row))) i)"

definition rotate_link :: "wf_env \<Rightarrow> wf_db \<Rightarrow> rstr \<Rightarrow> uuid \<Rightarrow> uuid \<Rightarrow> wf_db \<times> WorkflowRow AppResult" where
  "rotate_link E D token i u =
     guarded D (find_manageable E D i u) (\<lambda>(row, _).
       case rotate_token (we_now E) D i token of
         (_, False) \<Rightarrow> (D, Inl (Conflict (lit ''Only a workflow started by a webhook has a link to rotate'')))
       | (D1, True) \<Rightarrow> reload (audit D1 WorkflowLinkRotated u row None) i)"

fun is_webhook :: "Trigger \<Rightarrow> bool" where
  "is_webhook (Webhook _) = True"
| "is_webhook _ = False"

definition create_workflow ::
  "wf_env \<Rightarrow> wf_db \<Rightarrow> uuid \<Rightarrow> rstr \<Rightarrow> uuid \<Rightarrow> uuid \<Rightarrow> SaveWorkflowRequest \<Rightarrow> wf_db \<times> WorkflowRow AppResult" where
  "create_workflow E D new token w u req =
     guarded D
       (and_then (require_builder E w u) (\<lambda>_.
        and_then (checked (we_wf E) req) (\<lambda>ck.
        and_then (check_authority E D w u (sw_definition req)) (\<lambda>_.
          let t = trigger (sw_definition req) in
        and_then (insert_workflow (we_next_run E) (we_now E) D new w u ck
          (if is_webhook t then Some token else None) (schedule_of (we_wf E) t)) (\<lambda>D1.
          Inr (D1, ck)))))) (\<lambda>(D1, ck).
       reload (D1\<lparr>d_audit := d_audit D1 @ [\<lparr>au_action = WorkflowCreated, au_actor = u, au_workspace = w,
         au_resource = new, au_name = ck_name ck, au_from = None\<rparr>]\<rparr>) new)"

definition update_definition ::
  "wf_env \<Rightarrow> wf_db \<Rightarrow> rstr \<Rightarrow> uuid \<Rightarrow> uuid \<Rightarrow> SaveWorkflowRequest \<Rightarrow> wf_db \<times> WorkflowRow AppResult" where
  "update_definition E D token i u req =
     guarded D
       (and_then (find_own E D i u) (\<lambda>row.
        and_then (checked (we_wf E) req) (\<lambda>ck.
        and_then (check_authority E D (wf_workspace_id row) u (sw_definition req)) (\<lambda>_.
          Inr (row, ck))))) (\<lambda>(row, ck).
       let t = trigger (sw_definition req);
           tok = (if is_webhook t then Some (case wf_webhook_token row of Some x \<Rightarrow> x | None \<Rightarrow> token) else None);
           D1 = update_workflow (we_now E) D i ck tok;
           D2 = set_enabled (we_next_run E) (we_now E) D1 i (wf_enabled row) (schedule_of (we_wf E) t)
       in reload (audit D2 WorkflowUpdated u (row\<lparr>wf_name := ck_name ck\<rparr>) None) i)"

definition enable :: "wf_env \<Rightarrow> wf_db \<Rightarrow> uuid \<Rightarrow> uuid \<Rightarrow> wf_db \<times> WorkflowRow AppResult" where
  "enable E D i u =
     guarded D
       (and_then (find_own E D i u) (\<lambda>row.
        and_then (ok_or (wf_definition row) (Internal (lit ''a stored workflow does not deserialize''))) (\<lambda>d.
        and_then (check_authority E D (wf_workspace_id row) u d) (\<lambda>_. Inr (row, d))))) (\<lambda>(row, d).
       reload (audit (set_enabled (we_next_run E) (we_now E) D i True (schedule_of (we_wf E) (trigger d)))
         WorkflowEnabled u row None) i)"

definition disable :: "wf_env \<Rightarrow> wf_db \<Rightarrow> uuid \<Rightarrow> uuid \<Rightarrow> wf_db \<times> WorkflowRow AppResult" where
  "disable E D i u =
     guarded D (find_manageable E D i u) (\<lambda>(row, _).
       reload (audit (set_enabled (we_next_run E) (we_now E) D i False None) WorkflowDisabled u row None) i)"

definition delete_workflow :: "wf_env \<Rightarrow> wf_db \<Rightarrow> uuid \<Rightarrow> uuid \<Rightarrow> wf_db \<times> unit AppResult" where
  "delete_workflow E D i u =
     guarded D (find_manageable E D i u) (\<lambda>(row, _).
       (audit (delete_workflow_row D i) WorkflowDeleted u row None, Inr ()))"

section \<open>Starting runs\<close>

definition trigger_context :: "wf_env \<Rightarrow> uuid \<Rightarrow> uuid \<Rightarrow> uuid option \<Rightarrow> json" where
  "trigger_context E u c m =
     JObject [(lit ''trigger'', JObject
       [(lit ''user_id'', JString (uuid_str (we_ext E) u)), (lit ''channel_id'', JString (uuid_str (we_ext E) c)),
        (lit ''message_id'', case m of None \<Rightarrow> JNull | Some i \<Rightarrow> JString (uuid_str (we_ext E) i))])]"

definition turned_off :: AppError where
  "turned_off = Conflict (lit ''This workflow is turned off'')"

definition start_shortcut ::
  "wf_env \<Rightarrow> wf_db \<Rightarrow> uuid \<Rightarrow> uuid \<Rightarrow> unit AppResult \<Rightarrow> uuid \<Rightarrow> uuid \<Rightarrow> rstr option \<Rightarrow> (wf_db \<times> uuid) AppResult" where
  "start_shortcut E D new drawn limit i u request_id =
     and_then (ok_or (find_workflow D i) workflow_not_found) (\<lambda>row.
       case map_option trigger (wf_definition row) of
         Some (Shortcut c) \<Rightarrow>
           and_then (map_err (\<lambda>_. workflow_not_found) (require_channel_post (we_queries E) c u)) (\<lambda>_.
             if \<not> wf_enabled row then Inl turned_off
             else and_then limit (\<lambda>_.
               let key = (case request_id of
                     Some r \<Rightarrow> lit ''shortcut:'' @ uuid_str (we_ext E) u @ lit '':'' @ r
                   | None \<Rightarrow> lit ''shortcut:'' @ uuid_str (we_ext E) drawn)
               in queue_run (we_now E) D new (wf_id row) (wf_version row) key (trigger_context E u c None)))
       | _ \<Rightarrow> Inl workflow_not_found)"

definition bad_token :: AppError where
  "bad_token = Unauthorized (lit ''Invalid webhook token'')"

fun webhook_values :: "wf_env \<Rightarrow> json \<Rightarrow> (rstr \<times> json) list \<Rightarrow> rstr list \<Rightarrow> (rstr \<times> json) list AppResult" where
  "webhook_values E sent values [] = Inr values"
| "webhook_values E sent values (name # names) =
     (let v = text_of E (json_at sent name) in
      if length v > WF_TEXT_MAX_CHARS
      then invalid (straight name @ lit '' can be at most 4000 characters'')
      else webhook_values E sent (AList.update name (JString v) values) names)"

definition workflow_webhook ::
  "wf_env \<Rightarrow> wf_db \<Rightarrow> uuid \<Rightarrow> unit AppResult \<Rightarrow> unit AppResult \<Rightarrow> rstr \<Rightarrow> rstr \<Rightarrow> json option \<Rightarrow> (wf_db \<times> uuid) AppResult" where
  "workflow_webhook E D new ip_limit limit request_id token body =
     and_then ip_limit (\<lambda>_.
     and_then (ok_or (find_by_token D token) bad_token) (\<lambda>row.
       if \<not> wf_enabled row then Inl turned_off
       else case map_option trigger (wf_definition row) of
         Some (Webhook variables) \<Rightarrow>
           and_then limit (\<lambda>_.
           and_then (webhook_values E (case body of None \<Rightarrow> JNull | Some v \<Rightarrow> v) [] variables) (\<lambda>values.
             queue_run (we_now E) D new (wf_id row) (wf_version row) (lit ''webhook:'' @ request_id)
               (JObject [(lit ''webhook'', JObject values)])))
       | _ \<Rightarrow> Inl bad_token))"

record FiredEvent =
  fe_kind :: rstr
  fe_channel_id :: uuid
  fe_user_id :: uuid
  fe_emoji :: "rstr option"
  fe_message_id :: "uuid option"

definition fired_event :: "wf_env \<Rightarrow> rstr \<Rightarrow> json \<Rightarrow> FiredEvent option" where
  "fired_event E event_type payload =
     (if event_type = lit ''reaction.added''
      then Option.bind (fact_id E payload (lit ''channel_id'')) (\<lambda>c.
           Option.bind (fact_id E payload (lit ''user_id'')) (\<lambda>u.
           Option.bind (Option.bind (json_get payload (lit ''emoji'')) as_str) (\<lambda>e.
           Option.bind (fact_id E payload (lit ''message_id'')) (\<lambda>m.
             Some \<lparr>fe_kind = lit ''reaction_added'', fe_channel_id = c, fe_user_id = u, fe_emoji = Some e,
                   fe_message_id = Some m\<rparr>))))
      else if event_type = lit ''channel.member_joined''
      then Option.bind (fact_id E payload (lit ''channel_id'')) (\<lambda>c.
           Option.bind (fact_id E payload (lit ''user_id'')) (\<lambda>u.
             Some \<lparr>fe_kind = lit ''member_joined'', fe_channel_id = c, fe_user_id = u, fe_emoji = None,
                   fe_message_id = None\<rparr>))
      else None)"

definition over_limit :: rstr where
  "over_limit = lit ''Skipped: it started more than 30 times in a minute''"

text \<open>Each run is queued by a statement of its own: an error leaves the runs queued before it.\<close>

fun start_listeners ::
  "wf_env \<Rightarrow> wf_db \<Rightarrow> (uuid \<Rightarrow> uuid) \<Rightarrow> (uuid \<Rightarrow> bool) \<Rightarrow> rstr \<Rightarrow> json \<Rightarrow> WorkflowRow list \<Rightarrow> wf_db \<times> unit AppResult" where
  "start_listeners E D new within_limit key context [] = (D, Inr ())"
| "start_listeners E D new within_limit key context (w # ws) =
     guarded D
       (if within_limit (wf_id w)
        then and_then (queue_run (we_now E) D (new (wf_id w)) (wf_id w) (wf_version w) key context) (\<lambda>(D1, _). Inr D1)
        else skip_run (we_now E) D (new (wf_id w)) (wf_id w) (wf_version w) key context over_limit) (\<lambda>D1.
       start_listeners E D1 new within_limit key context ws)"

definition handle_event ::
  "wf_env \<Rightarrow> wf_db \<Rightarrow> (uuid \<Rightarrow> uuid) \<Rightarrow> (uuid \<Rightarrow> bool) \<Rightarrow> uuid \<Rightarrow> rstr \<Rightarrow> json \<Rightarrow> wf_db \<times> nat AppResult" where
  "handle_event E D new within_limit event_id event_type payload =
     (case fired_event E event_type payload of
        None \<Rightarrow> (D, Inr 0)
      | Some f \<Rightarrow>
          let listeners = listening D (fe_kind f) (fe_channel_id f) (fe_emoji f) in
          (case start_listeners E D new within_limit (lit ''event:'' @ uuid_str (we_ext E) event_id)
             (trigger_context E (fe_user_id f) (fe_channel_id f) (fe_message_id f)) listeners of
             (D1, Inl e) \<Rightarrow> (D1, Inl e)
           | (D1, Inr _) \<Rightarrow> (D1, Inr (length listeners))))"

section \<open>Answering a form\<close>

definition labelled :: "FormField \<Rightarrow> rstr \<Rightarrow> 'a AppResult" where
  "labelled f m = invalid (curly (trim (ff_label f)) @ m)"

fun checked_answer :: "wf_env \<Rightarrow> uuid \<Rightarrow> FormField \<Rightarrow> FieldKind \<Rightarrow> rstr \<Rightarrow> rstr AppResult" where
  "checked_answer E w f ShortText a =
     (if length a > SHORT_ANSWER_MAX_CHARS then labelled f (lit '' can be at most 200 characters'')
      else if 10 \<in> set a then labelled f (lit '' takes one line'') else Inr a)"
| "checked_answer E w f LongText a =
     (if length a > LONG_ANSWER_MAX_CHARS then labelled f (lit '' can be at most 4000 characters'') else Inr a)"
| "checked_answer E w f SelectField a =
     (if \<not> list_ex (\<lambda>option. trim option = a) (ff_options f) then labelled f (lit '' has no choice '' @ curly a)
      else Inr a)"
| "checked_answer E w f PersonField a =
     (case parse_uuid (we_ext E) a of
        None \<Rightarrow> labelled f (lit '' must be someone in this workspace'')
      | Some p \<Rightarrow>
          and_then (q_get_member (we_queries E) w p) (\<lambda>m.
            if m = None then labelled f (lit '' must be someone in this workspace'')
            else and_then (mention_of E w p) (\<lambda>mention.
              case mention of
                None \<Rightarrow> labelled f (lit '' must be someone in this workspace'')
              | Some x \<Rightarrow> Inr x)))"
| "checked_answer E w f DateField a =
     (case parse_ymd (we_ext E) a of
        None \<Rightarrow> labelled f (lit '' needs a date'')
      | Some d \<Rightarrow> Inr (format_ymd (we_ext E) d))"

fun checked_fields ::
  "wf_env \<Rightarrow> uuid \<Rightarrow> (rstr \<times> rstr) list \<Rightarrow> (rstr \<times> json) list \<Rightarrow> FormField list \<Rightarrow> (rstr \<times> json) list AppResult" where
  "checked_fields E w given acc [] = Inr acc"
| "checked_fields E w given acc (f # fs) =
     (let a = (case map_of given (ff_name f) of None \<Rightarrow> [] | Some x \<Rightarrow> trim x) in
      if a = []
      then if ff_required f then labelled f (lit '' needs an answer'')
           else checked_fields E w given (AList.update (ff_name f) (JString []) acc) fs
      else and_then (checked_answer E w f (ff_kind f) a) (\<lambda>v.
        checked_fields E w given (AList.update (ff_name f) (JString v) acc) fs))"

definition checked_answers ::
  "wf_env \<Rightarrow> uuid \<Rightarrow> FormField list \<Rightarrow> (rstr \<times> rstr) list \<Rightarrow> (rstr \<times> json) list AppResult" where
  "checked_answers E w fs given =
     (case List.find (\<lambda>name. \<not> list_ex (\<lambda>f. ff_name f = name) fs) (map fst given) of
        Some name \<Rightarrow> invalid (straight name @ lit '' is not a question in this form'')
      | None \<Rightarrow> checked_fields E w given [] fs)"

definition run_of :: "wf_db \<Rightarrow> uuid \<Rightarrow> RunRow option" where
  "run_of D r = List.find (\<lambda>x. run_id x = r) (d_runs D)"

text \<open>\<open>form_for_update_in\<close> joins the form with its run and the workspace of its workflow.\<close>

definition form_for_update_in :: "wf_db \<Rightarrow> uuid \<Rightarrow> int \<Rightarrow> (FormRow \<times> RunStatus \<times> uuid) option" where
  "form_for_update_in D r p =
     Option.bind (form_row D r p) (\<lambda>f.
     Option.bind (run_of D r) (\<lambda>rn.
     map_option (\<lambda>w. (f, run_status rn, wf_workspace_id w)) (find_workflow D (run_workflow_id rn))))"

definition answer_form ::
  "wf_env \<Rightarrow> wf_db \<Rightarrow> uuid \<Rightarrow> int \<Rightarrow> uuid \<Rightarrow> (rstr \<times> rstr) list \<Rightarrow> (wf_db \<times> WfEvent option) AppResult" where
  "answer_form E D r p u given =
     and_then (ok_or (form_for_update_in D r p) (NotFound (lit ''Form not found''))) (\<lambda>(f, st, w).
       if fm_recipient_id f \<noteq> u then Inl (Forbidden (lit ''This form was sent to someone else''))
       else if fm_answered_at f \<noteq> None then Inl (Conflict (lit ''This form was already filled in''))
       else if st = StExpired \<or> fm_expires_at f \<le> we_now E then Inl (Conflict (lit ''This form has expired''))
       else if st \<noteq> StWaiting then Inl (Conflict (lit ''This workflow is no longer waiting for the form''))
       else and_then (checked_answers E w (fm_fields f) given) (\<lambda>as.
         let D1 = answer_in (we_now E) D r p as;
             D2 = record_step_in (we_now E) D1 r p (Inr (Some (fm_message_id f)))
         in case mark_form_in D2 (fm_message_id f) (\<lambda>q. q\<lparr>fq_submitted_at := Some (we_now E)\<rparr>) of
              (D3, Some m) \<Rightarrow> let ev = MessageUpdated m w in Inr (wf_stage D3 ev, Some ev)
            | (D3, None) \<Rightarrow> Inr (D3, None)))"

definition submit_form :: "wf_env \<Rightarrow> wf_db \<Rightarrow> uuid \<Rightarrow> int \<Rightarrow> uuid \<Rightarrow> (rstr \<times> rstr) list \<Rightarrow> wf_db AppResult" where
  "submit_form E D r p u given =
     and_then (answer_form E D r p u given) (\<lambda>(D1, staged).
       Inr (case staged of Some ev \<Rightarrow> wf_dispatch D1 ev | None \<Rightarrow> D1))"

end
