(* ===== verification/Workflow_Invariant.thy ===== *)
theory Workflow_Invariant
  imports Workflow_Check Workflow_Service
begin

text \<open>
  The life of workflow runs. The machine at the end takes every operation that touches the tables: starting runs, the runner's ticks
  (also one that dies half way), answers to forms, their expiry, and the management of workflows. Its invariant says which rows can stand beside each other;
  it is stated over a view of the tables, so that an operation is first reduced to what it does to the view.
\<close>

section \<open>What the results look at\<close>

definition finished_keys :: "wf_db \<Rightarrow> (uuid \<times> int) set" where
  "finished_keys D = (\<lambda>s. (rs_run_id s, rs_position s)) ` {s \<in> set (d_steps D). rs_succeeded s}"

definition form_keys :: "wf_db \<Rightarrow> (uuid \<times> int) list" where
  "form_keys D = map (\<lambda>f. (fm_run_id f, fm_position f)) (d_forms D)"

definition unanswered :: "wf_db \<Rightarrow> (uuid \<times> int) set" where
  "unanswered D = (\<lambda>f. (fm_run_id f, fm_position f)) ` {f \<in> set (d_forms D). fm_answered_at f = None}"

definition post_keys :: "wf_db \<Rightarrow> (uuid \<times> int) list" where
  "post_keys D = map (\<lambda>m. (bot_run m, bot_position m)) (d_messages D)"

definition status_of :: "wf_db \<Rightarrow> uuid \<Rightarrow> RunStatus option" where
  "status_of D = map_of (map (\<lambda>r. (run_id r, run_status r)) (d_runs D))"

definition small_definitions :: "wf_db \<Rightarrow> bool" where
  "small_definitions D \<longleftrightarrow>
     (\<forall>w\<in>set (d_workflows D). \<forall>d. wf_definition w = Some d \<longrightarrow> length (steps d) \<le> MAX_STEPS)"

lemmas view_defs = finished_keys_def form_keys_def unanswered_def post_keys_def

definition halted :: "RunStatus \<Rightarrow> bool" where
  "halted st \<longleftrightarrow> st = StWaiting \<or> st = StExpired"

text \<open>
  The invariant over the statuses \<open>S\<close>, finished steps \<open>F\<close>, forms \<open>G\<close>, unanswered forms \<open>U\<close> and posts
  \<open>P\<close>: forms and posts are unique, rows belong to runs, a form without an answer is not a finished step, whatever was posted for a run is a
  finished step or a form, only a run that waits or expired has an open form, and then one.
\<close>

definition view_ok ::
  "(uuid \<Rightarrow> RunStatus option) \<Rightarrow> (uuid \<times> int) set \<Rightarrow> (uuid \<times> int) list \<Rightarrow> (uuid \<times> int) set \<Rightarrow> (uuid \<times> int) list \<Rightarrow> bool" where
  "view_ok S F G U P \<longleftrightarrow>
     distinct G \<and> distinct P \<and> U \<subseteq> set G - F
     \<and> (\<forall>r p. (r, p) \<in> F \<union> set G \<longrightarrow> S r \<noteq> None)
     \<and> (\<forall>r p. (r, p) \<in> set P \<and> S r \<noteq> None \<longrightarrow> (r, p) \<in> F \<union> set G)
     \<and> (\<forall>r st p. S r = Some st \<and> \<not> halted st \<and> (r, p) \<in> set G \<longrightarrow> (r, p) \<in> F)
     \<and> (\<forall>r p q. (r, p) \<in> set G - F \<and> (r, q) \<in> set G - F \<longrightarrow> p = q)"

definition wf_ok :: "wf_db \<Rightarrow> bool" where
  "wf_ok D \<longleftrightarrow> view_ok (status_of D) (finished_keys D) (form_keys D) (unanswered D) (post_keys D)
     \<and> distinct (map run_id (d_runs D)) \<and> small_definitions D
     \<and> snd ` set (form_keys D) \<subseteq> int ` {..<MAX_STEPS}"

section \<open>How the invariant moves\<close>

lemma view_okD:
  assumes "view_ok S F G U P"
  shows "distinct G" "distinct P" "k \<in> U \<Longrightarrow> k \<in> set G \<and> k \<notin> F"
    "(r, p) \<in> F \<Longrightarrow> S r \<noteq> None" "(r, p) \<in> set G \<Longrightarrow> S r \<noteq> None"
    "(r, p) \<in> set P \<Longrightarrow> S r \<noteq> None \<Longrightarrow> (r, p) \<in> F \<or> (r, p) \<in> set G"
    "S r = Some st \<Longrightarrow> \<not> halted st \<Longrightarrow> (r, p) \<in> set G \<Longrightarrow> (r, p) \<in> F"
    "(r, p) \<in> set G \<Longrightarrow> (r, p) \<notin> F \<Longrightarrow> (r, q) \<in> set G \<Longrightarrow> (r, q) \<notin> F \<Longrightarrow> p = q"
  using assms unfolding view_ok_def by blast+

lemma view_okI:
  assumes "distinct G" and "distinct P" and "\<And>k. k \<in> U \<Longrightarrow> k \<in> set G \<and> k \<notin> F"
    and "\<And>r p. (r, p) \<in> F \<Longrightarrow> S r \<noteq> None" and "\<And>r p. (r, p) \<in> set G \<Longrightarrow> S r \<noteq> None"
    and "\<And>r p. (r, p) \<in> set P \<Longrightarrow> S r \<noteq> None \<Longrightarrow> (r, p) \<in> F \<or> (r, p) \<in> set G"
    and "\<And>r st p. S r = Some st \<Longrightarrow> \<not> halted st \<Longrightarrow> (r, p) \<in> set G \<Longrightarrow> (r, p) \<in> F"
    and "\<And>r p q. (r, p) \<in> set G \<Longrightarrow> (r, p) \<notin> F \<Longrightarrow> (r, q) \<in> set G \<Longrightarrow> (r, q) \<notin> F \<Longrightarrow> p = q"
  shows "view_ok S F G U P"
  using assms unfolding view_ok_def by blast

lemma running_closed:
  assumes "view_ok S F G U P" and "S r = Some st" and "\<not> halted st" and "(r, p) \<notin> F"
  shows "(r, p) \<notin> set G \<and> (r, p) \<notin> U \<and> (r, p) \<notin> set P"
  using view_okD [OF assms(1)] assms(2-4) by blast

lemma view_finished:
  assumes ok: "view_ok S F G U P" and r: "S r = Some st" "\<not> halted st" "(r, p) \<notin> F"
    and P': "P' = P \<or> P' = P @ [(r, p)]"
  shows "view_ok S (insert (r, p) F) G U P'"
proof -
  note d = view_okD [OF ok] and no = running_closed [OF ok r]
  have "distinct P'" "\<And>k. k \<in> set P' \<Longrightarrow> k \<in> set P \<or> k = (r, p)" using d(2) no P' by auto
  then show ?thesis by (intro view_okI) (use d no r(1) in blast)+
qed

lemma view_waits:
  assumes ok: "view_ok S F G U P" and r: "S r = Some st" "\<not> halted st" "(r, p) \<notin> F"
  shows "view_ok (S(r \<mapsto> StWaiting)) F (G @ [(r, p)]) (insert (r, p) U) (P @ [(r, p)])"
proof -
  note d = view_okD [OF ok] and no = running_closed [OF ok r]
  have closed: "(r, q) \<in> set G \<Longrightarrow> (r, q) \<in> F" for q using d(7) r by blast
  show ?thesis
  proof (rule view_okI)
    show "distinct (G @ [(r, p)])" "distinct (P @ [(r, p)])" using d(1,2) no by auto
    show "\<And>k. k \<in> insert (r, p) U \<Longrightarrow> k \<in> set (G @ [(r, p)]) \<and> k \<notin> F" using d(3) r(3) by auto
    show "\<And>i q. (i, q) \<in> F \<Longrightarrow> (S(r \<mapsto> StWaiting)) i \<noteq> None" using d(4) by auto
    show "\<And>i q. (i, q) \<in> set (G @ [(r, p)]) \<Longrightarrow> (S(r \<mapsto> StWaiting)) i \<noteq> None" using d(5) by auto
    show "\<And>i q. (i, q) \<in> set (P @ [(r, p)]) \<Longrightarrow> (S(r \<mapsto> StWaiting)) i \<noteq> None
      \<Longrightarrow> (i, q) \<in> F \<or> (i, q) \<in> set (G @ [(r, p)])"
      using d(6) r(1) by (auto split: if_splits)
    show "\<And>i x q. (S(r \<mapsto> StWaiting)) i = Some x \<Longrightarrow> \<not> halted x \<Longrightarrow> (i, q) \<in> set (G @ [(r, p)]) \<Longrightarrow> (i, q) \<in> F"
      using d(7) by (auto simp: halted_def split: if_splits)
    show "\<And>i q q'. (i, q) \<in> set (G @ [(r, p)]) \<Longrightarrow> (i, q) \<notin> F \<Longrightarrow> (i, q') \<in> set (G @ [(r, p)])
      \<Longrightarrow> (i, q') \<notin> F \<Longrightarrow> q = q'"
      using d(8) closed by auto
  qed
qed

lemma view_answered:
  assumes ok: "view_ok S F G U P" and r: "(r, p) \<in> U"
  shows "view_ok (S(r \<mapsto> st)) (insert (r, p) F) G (U - {(r, p)}) P"
proof -
  note d = view_okD [OF ok]
  have closed: "(r, q) \<in> set G \<Longrightarrow> (r, q) \<in> insert (r, p) F" for q using d(3,8) r by blast
  have s: "S r \<noteq> None" using d(3,5) r by blast
  show ?thesis
  proof (rule view_okI)
    show "\<And>i x q. (S(r \<mapsto> st)) i = Some x \<Longrightarrow> \<not> halted x \<Longrightarrow> (i, q) \<in> set G \<Longrightarrow> (i, q) \<in> insert (r, p) F"
      using d(7) closed by (auto split: if_splits)
    show "\<And>i q. (i, q) \<in> set P \<Longrightarrow> (S(r \<mapsto> st)) i \<noteq> None \<Longrightarrow> (i, q) \<in> insert (r, p) F \<or> (i, q) \<in> set G"
      using d(6) s by (auto split: if_splits)
    show "\<And>i q q'. (i, q) \<in> set G \<Longrightarrow> (i, q) \<notin> insert (r, p) F \<Longrightarrow> (i, q') \<in> set G
      \<Longrightarrow> (i, q') \<notin> insert (r, p) F \<Longrightarrow> q = q'"
      using d(8) by blast
  qed (use d(1-5) in auto)
qed

lemma view_restatus:
  assumes ok: "view_ok S F G U P"
    and dom: "\<And>r. S' r = None \<longleftrightarrow> S r = None"
    and calm: "\<And>r st. S' r = Some st \<Longrightarrow> \<not> halted st \<Longrightarrow> \<exists>st'. S r = Some st' \<and> \<not> halted st'"
  shows "view_ok S' F G U P"
proof (rule view_okI)
  note d = view_okD [OF ok]
  show "\<And>r st p. S' r = Some st \<Longrightarrow> \<not> halted st \<Longrightarrow> (r, p) \<in> set G \<Longrightarrow> (r, p) \<in> F"
    using calm d(7) by blast
  show "\<And>r p. (r, p) \<in> set P \<Longrightarrow> S' r \<noteq> None \<Longrightarrow> (r, p) \<in> F \<or> (r, p) \<in> set G"
    using d(6) unfolding dom .
  show "\<And>r p q. (r, p) \<in> set G \<Longrightarrow> (r, p) \<notin> F \<Longrightarrow> (r, q) \<in> set G \<Longrightarrow> (r, q) \<notin> F \<Longrightarrow> p = q"
    by (rule d(8))
qed (use view_okD(1-5) [OF ok] dom in \<open>simp_all\<close>)

lemma view_queued:
  assumes ok: "view_ok S F G U P" and r: "S r = None" and "r \<notin> fst ` set P"
  shows "view_ok (S(r \<mapsto> st)) F G U P"
proof -
  note d = view_okD [OF ok]
  have "(r, p) \<notin> set P" for p using assms(3) by force
  moreover have "(r, p) \<notin> F" "(r, p) \<notin> set G" for p using d(4,5) r by blast+
  moreover have "i \<noteq> r \<Longrightarrow> (S(r \<mapsto> st)) i = S i" for i by auto
  ultimately show ?thesis by (intro view_okI) (use d in \<open>metis\<close>)+
qed

lemma view_deleted:
  assumes ok: "view_ok S F G U P"
  shows "view_ok (S |` K) {k \<in> F. fst k \<in> K} (filter (\<lambda>k. fst k \<in> K) G) {k \<in> U. fst k \<in> K} P"
proof -
  note d = view_okD [OF ok]
  have "(S |` K) i \<noteq> None \<longleftrightarrow> i \<in> K \<and> S i \<noteq> None" "(S |` K) i = Some x \<longleftrightarrow> i \<in> K \<and> S i = Some x" for i x
    by (auto simp: restrict_map_def)
  then show ?thesis by (intro view_okI) (use d in \<open>auto\<close>)
qed

section \<open>What the statements do to it\<close>

lemma status_of_None: "status_of D r = None \<longleftrightarrow> r \<notin> run_id ` set (d_runs D)"
  by (force simp: status_of_def map_of_eq_None_iff)

lemma status_update_rows:
  assumes "\<And>x. run_id (f x) = run_id x" and "\<And>x. run_status (f x) = st"
  shows "map_of (map (\<lambda>r. (run_id r, run_status r)) (update_rows (\<lambda>r. run_id r \<in> I) f rs)) i
    = (if i \<in> I then map_option (\<lambda>_. st) (map_of (map (\<lambda>r. (run_id r, run_status r)) rs) i)
       else map_of (map (\<lambda>r. (run_id r, run_status r)) rs) i)"
  by (induction rs) (auto simp: update_rows_def assms)

lemma status_on_run:
  assumes "\<And>x. run_id (f x) = run_id x" and "\<And>x. run_status (f x) = st"
  shows "status_of (on_run D r f) = (if status_of D r = None then status_of D else (status_of D)(r \<mapsto> st))"
  using status_update_rows [OF assms, of "{r}" "d_runs D"]
  by (auto simp: status_of_def on_run_def fun_eq_iff)

lemma run_ids_update: "(\<And>x. run_id (f x) = run_id x) \<Longrightarrow> map run_id (update_rows Q f rs) = map run_id rs"
  by (induction rs) (auto simp: update_rows_def)

lemma finished_upsert:
  assumes "\<And>s. rs_run_id (f s) = rs_run_id s" and "\<And>s. rs_position (f s) = rs_position s"
    and "\<And>s. rs_succeeded (f s) = rs_succeeded new"
  shows "finished_keys (upsert_step D new f) =
    (if rs_succeeded new then insert (rs_run_id new, rs_position new) (finished_keys D)
     else finished_keys D - {(rs_run_id new, rs_position new)})"
proof (cases "step_row D (rs_run_id new) (rs_position new)")
  case None
  then have "\<forall>s\<in>set (d_steps D). \<not> (rs_run_id s = rs_run_id new \<and> rs_position s = rs_position new)"
    unfolding step_row_def find_None_iff .
  then show ?thesis using None by (auto simp: finished_keys_def upsert_step_def)
next
  case (Some s)
  then have s: "s \<in> set (d_steps D)" "rs_run_id s = rs_run_id new" "rs_position s = rs_position new"
    unfolding step_row_def by (auto dest: find_Some_iff)
  let ?hit = "\<lambda>x. rs_run_id x = rs_run_id new \<and> rs_position x = rs_position new"
  let ?g = "\<lambda>x. if ?hit x then f x else x"
  have "d_steps (upsert_step D new f) = map ?g (d_steps D)"
    using Some by (simp add: upsert_step_def update_rows_def)
  then have "k \<in> finished_keys (upsert_step D new f) \<longleftrightarrow>
      (\<exists>x\<in>set (d_steps D). rs_succeeded (?g x) \<and> k = (rs_run_id (?g x), rs_position (?g x)))" for k
    by (auto simp: finished_keys_def)
  moreover have "rs_run_id (?g x) = rs_run_id x" "rs_position (?g x) = rs_position x"
    "rs_succeeded (?g x) = (if ?hit x then rs_succeeded new else rs_succeeded x)" for x
    using assms by auto
  ultimately have "k \<in> finished_keys (upsert_step D new f) \<longleftrightarrow>
      (\<exists>x\<in>set (d_steps D). (if ?hit x then rs_succeeded new else rs_succeeded x) \<and> k = (rs_run_id x, rs_position x))" for k
    by simp
  then show ?thesis using s by (auto simp: finished_keys_def set_eq_iff split: if_splits)
qed

lemma upsert_fields [simp]:
  "d_runs (upsert_step D new f) = d_runs D" "d_forms (upsert_step D new f) = d_forms D"
  "d_messages (upsert_step D new f) = d_messages D" "d_workflows (upsert_step D new f) = d_workflows D"
  "d_lists (upsert_step D new f) = d_lists D" "d_unread (upsert_step D new f) = d_unread D"
  by (simp_all add: upsert_step_def)

lemma finished_record [simp]:
  "finished_keys (record_step_in now D r p (Inr m)) = insert (r, p) (finished_keys D)"
  "finished_keys (record_step_in now D r p (Inl e)) = finished_keys D - {(r, p)}"
  "finished_keys (record_item_step_in now D r p i) = insert (r, p) (finished_keys D)"
  by (simp_all add: record_step_in_def record_item_step_in_def finished_upsert)

lemma record_fields [simp]:
  "d_runs (record_step_in now D r p x) = d_runs D" "d_forms (record_step_in now D r p x) = d_forms D"
  "d_messages (record_step_in now D r p x) = d_messages D" "d_workflows (record_step_in now D r p x) = d_workflows D"
  "d_unread (record_step_in now D r p x) = d_unread D"
  "d_runs (record_item_step_in now D r p i) = d_runs D" "d_forms (record_item_step_in now D r p i) = d_forms D"
  "d_messages (record_item_step_in now D r p i) = d_messages D"
  "d_workflows (record_item_step_in now D r p i) = d_workflows D"
  by (cases x; simp add: record_step_in_def record_item_step_in_def)+

lemma finished_fields [simp]:
  "finished_keys (D\<lparr>d_runs := a\<rparr>) = finished_keys D" "finished_keys (D\<lparr>d_forms := b\<rparr>) = finished_keys D"
  "finished_keys (D\<lparr>d_messages := c\<rparr>) = finished_keys D" "finished_keys (D\<lparr>d_lists := l\<rparr>) = finished_keys D"
  "finished_keys (D\<lparr>d_unread := u\<rparr>) = finished_keys D" "finished_keys (D\<lparr>d_outbox := v\<rparr>) = finished_keys D"
  "finished_keys (D\<lparr>d_dispatched := x\<rparr>) = finished_keys D" "finished_keys (D\<lparr>d_conversations := y\<rparr>) = finished_keys D"
  "finished_keys (on_run D r f) = finished_keys D"
  by (simp_all add: finished_keys_def on_run_def)

lemma post_keys_update:
  "(\<And>m. bot_run (f m) = bot_run m) \<Longrightarrow> (\<And>m. bot_position (f m) = bot_position m)
    \<Longrightarrow> map (\<lambda>m. (bot_run m, bot_position m)) (update_rows Q f ms) = map (\<lambda>m. (bot_run m, bot_position m)) ms"
  by (induction ms) (auto simp: update_rows_def)

text \<open>What the other components write is out of the way.\<close>

lemma open_direct_fields:
  assumes "open_direct now D new w a b = (D', c)"
  shows "d_runs D' = d_runs D" "d_forms D' = d_forms D" "d_messages D' = d_messages D" "d_steps D' = d_steps D"
    "d_workflows D' = d_workflows D" "d_unread D' = d_unread D"
  using assms by (auto simp: open_direct_def wf_dispatch_def wf_stage_def Let_def split: option.splits)

lemma dm_channel_fields:
  assumes "dm_channel E D new creator u = Inr (D', c)"
  shows "d_runs D' = d_runs D" "d_forms D' = d_forms D" "d_messages D' = d_messages D" "d_steps D' = d_steps D"
    "d_workflows D' = d_workflows D" "d_unread D' = d_unread D"
  using assms by (auto simp: dm_channel_def dest: open_direct_fields split: if_splits)

section \<open>One step\<close>

text \<open>The three ways a step ends, seen by the invariant.\<close>

definition same_rows :: "wf_db \<Rightarrow> wf_db \<Rightarrow> bool" where
  "same_rows D D' \<longleftrightarrow> d_runs D' = d_runs D \<and> d_forms D' = d_forms D \<and> d_messages D' = d_messages D
     \<and> d_steps D' = d_steps D \<and> d_workflows D' = d_workflows D"

definition finishes :: "wf_db \<Rightarrow> uuid \<Rightarrow> int \<Rightarrow> wf_db \<Rightarrow> bool" where
  "finishes D r p D' \<longleftrightarrow> d_runs D' = d_runs D \<and> d_forms D' = d_forms D \<and> d_workflows D' = d_workflows D
     \<and> finished_keys D' = insert (r, p) (finished_keys D)
     \<and> (post_keys D' = post_keys D \<or> post_keys D' = post_keys D @ [(r, p)])"

definition waits :: "wf_db \<Rightarrow> uuid \<Rightarrow> int \<Rightarrow> wf_db \<Rightarrow> bool" where
  "waits D r p D' \<longleftrightarrow> d_workflows D' = d_workflows D \<and> finished_keys D' = finished_keys D
     \<and> map run_id (d_runs D') = map run_id (d_runs D)
     \<and> status_of D' = (if status_of D r = None then status_of D else (status_of D)(r \<mapsto> StWaiting))
     \<and> form_keys D' = form_keys D @ [(r, p)] \<and> unanswered D' = insert (r, p) (unanswered D)
     \<and> post_keys D' = post_keys D @ [(r, p)]"

lemma post_step_finishes:
  assumes "post_step E D ids cx by p c step = (D', out)"
  shows "out = Done \<and> finishes D (run_id (cx_run cx)) p D'"
  using assms
  by (auto simp: post_step_def finishes_def create_bot_message_in_def wf_stage_def wf_dispatch_def post_keys_def
      Let_def split: prod.splits)

lemma finishes_same:
  assumes "d_runs D1 = d_runs D" "d_forms D1 = d_forms D" "d_messages D1 = d_messages D" "d_steps D1 = d_steps D"
    "d_workflows D1 = d_workflows D"
  shows "finishes D1 r p D' = finishes D r p D'" "waits D1 r p D' = waits D r p D'"
  using assms by (simp_all add: finishes_def waits_def view_defs status_of_def)

lemma write_item_finishes:
  assumes "write_item E D ids cx by p target cells = Inr (D', out)"
  shows "out = Done \<and> finishes D (run_id (cx_run cx)) p D'"
  using assms by (auto simp: write_item_def finishes_def Let_def post_keys_def split: prod.splits)

lemma wait_in_waits:
  assumes "wait_in D r p u m fs x = Inr D'" and "post_keys D = post_keys D0 @ [(r, p)]"
    and "d_runs D = d_runs D0" "d_forms D = d_forms D0" "d_steps D = d_steps D0" "d_workflows D = d_workflows D0"
  shows "waits D0 r p D'"
proof -
  let ?f = "\<lambda>x. x\<lparr>run_status := StWaiting\<rparr>"
  obtain X where X: "D' = on_run X r ?f" and d: "d_runs X = d_runs D0" "d_steps X = d_steps D0"
    "d_workflows X = d_workflows D0" "d_messages X = d_messages D"
    and f: "form_keys X = form_keys D0 @ [(r, p)]" "unanswered X = insert (r, p) (unanswered D0)"
    using assms by (force simp: wait_in_def form_keys_def unanswered_def split: if_splits)
  have "status_of D' = (if status_of X r = None then status_of X else (status_of X)(r \<mapsto> StWaiting))"
    unfolding X by (rule status_on_run) simp_all
  moreover have "status_of X = status_of D0" using d by (simp add: status_of_def)
  moreover have "map run_id (d_runs D') = map run_id (d_runs D0)"
    using d by (simp add: X on_run_def run_ids_update)
  moreover have "post_keys D' = post_keys D" "form_keys D' = form_keys X" "unanswered D' = unanswered X"
    "finished_keys D' = finished_keys D0" "d_workflows D' = d_workflows D0"
    using d by (simp_all add: X on_run_def view_defs)
  ultimately show ?thesis using f assms(2) by (simp add: waits_def)
qed

lemma waits_more [simp]:
  "waits D r p (wf_stage D' ev) = waits D r p D'" "waits D r p (wf_dispatch D' ev) = waits D r p D'"
  by (simp_all add: waits_def wf_stage_def wf_dispatch_def view_defs status_of_def)

lemma post_form_waits:
  assumes "post_form E D ids cx by p c u title fs = Inr D'"
  shows "waits D (run_id (cx_run cx)) p D'"
proof -
  let ?r = "run_id (cx_run cx)"
  obtain D2 D3 m x ev where w: "wait_in D2 ?r p u m fs x = Inr D3" and D': "D' = wf_dispatch (wf_stage D3 ev) ev"
    and D2: "d_runs D2 = d_runs D" "d_forms D2 = d_forms D" "d_steps D2 = d_steps D" "d_workflows D2 = d_workflows D"
      "post_keys D2 = post_keys D @ [(?r, p)]"
    using assms
    by (auto simp: post_form_def create_bot_message_in_def set_form_in_def Let_def post_keys_def post_keys_update)
  show ?thesis using wait_in_waits [OF w D2(5,1-4)] by (simp add: D')
qed

lemma committed_cases:
  assumes "committed D x = (D', out)"
  obtains (refused) e where "x = Inl e" "D' = D" "out = Inl e"
    | (done_with) y where "x = Inr (D', y)" "out = Inr y"
  using assms by (auto simp: committed_def split: sum.splits)

lemma same_rows_refl [simp]: "same_rows D D"
  by (simp add: same_rows_def)

lemma run_step_view:
  assumes run: "run_step E D ids cx creator p step = (D', out)" and r: "r = run_id (cx_run cx)"
  shows "case out of Inl e \<Rightarrow> same_rows D D' | Inr Done \<Rightarrow> finishes D r p D' | Inr Waiting \<Rightarrow> waits D r p D'"
proof (cases step)
  case (SendMessage c t s)
  then show ?thesis
    using assms by (auto elim!: committed_cases dest!: post_step_finishes split: if_splits)
next
  case (SendDm to t s)
  then have "committed D (and_then (recipient_of to cx) (\<lambda>u.
         if u = wm_user_id creator \<and> to = TriggerUser then Inr (record_step_in (we_now E) D (run_id (cx_run cx)) p (Inr None), Done)
         else and_then (dm_channel E D (id_conversation ids) creator u) (\<lambda>(D1, c).
           Inr (post_step E D1 ids cx (wm_user_id creator) p c (SendDm to t s))))) = (D', out)"
    using run by simp
  then show ?thesis
  proof (cases rule: committed_cases)
    case (done_with y)
    then consider "D' = record_step_in (we_now E) D r p (Inr None)" "y = Done"
      | D1 u c where "dm_channel E D (id_conversation ids) creator u = Inr (D1, c)"
          "post_step E D1 ids cx (wm_user_id creator) p c (SendDm to t s) = (D', y)"
      by (auto simp: r split: if_splits)
    then show ?thesis
    proof cases
      case 1
      then show ?thesis using done_with by (simp add: finishes_def post_keys_def)
    next
      case 2
      then show ?thesis
        using done_with post_step_finishes [OF 2(2)] finishes_same(1) [OF dm_channel_fields(1-5) [OF 2(1)]] r by simp
    qed
  qed simp
next
  case (Form to title fs)
  show ?thesis
  proof (cases out)
    case (Inl e)
    with Form run have "same_rows D D'"
      by (auto simp: committed_def same_rows_def split: sum.splits prod.splits if_splits dest: dm_channel_fields)
    then show ?thesis using Inl by simp
  next
    case (Inr y)
    with Form run obtain D1 c u where post: "post_form E D1 ids cx (wm_user_id creator) p c u (trim title) fs = Inr D'"
      and y: "y = Waiting" and same: "d_runs D1 = d_runs D" "d_forms D1 = d_forms D" "d_messages D1 = d_messages D"
        "d_steps D1 = d_steps D" "d_workflows D1 = d_workflows D"
      by (auto simp: committed_def split: sum.splits prod.splits if_splits dest: dm_channel_fields)
    show ?thesis using Inr y post_form_waits [OF post] finishes_same(2) [OF same] r by simp
  qed
next
  case (AddListItem l cells)
  then show ?thesis
    using assms by (auto elim!: committed_cases dest!: write_item_finishes)
next
  case (UpdateListItem k cells)
  then show ?thesis
    using assms by (auto elim!: committed_cases dest!: write_item_finishes)
qed

section \<open>A run\<close>

lemma wf_ok_view:
  assumes "d_runs D' = d_runs D" "d_forms D' = d_forms D" "finished_keys D' = finished_keys D"
    "post_keys D' = post_keys D" "small_definitions D \<Longrightarrow> small_definitions D'"
  shows "wf_ok D \<Longrightarrow> wf_ok D'" "status_of D' = status_of D"
  using assms by (simp_all add: wf_ok_def status_of_def form_keys_def unanswered_def)

lemma same_rows_ok:
  assumes "same_rows D D'"
  shows "wf_ok D \<Longrightarrow> wf_ok D'" "status_of D' = status_of D" "finished_keys D' = finished_keys D"
  using assms wf_ok_view [of D' D] by (simp_all add: same_rows_def finished_keys_def post_keys_def small_definitions_def)

lemma finishes_ok:
  assumes "wf_ok D" and "status_of D r = Some st" "\<not> halted st" "(r, p) \<notin> finished_keys D" and f: "finishes D r p D'"
  shows "wf_ok D' \<and> status_of D' = status_of D"
proof -
  have "status_of D' = status_of D" "form_keys D' = form_keys D" "unanswered D' = unanswered D"
    using f by (simp_all add: finishes_def status_of_def form_keys_def unanswered_def)
  moreover have "view_ok (status_of D) (insert (r, p) (finished_keys D)) (form_keys D) (unanswered D) (post_keys D')"
    using assms by (intro view_finished) (auto simp: wf_ok_def finishes_def)
  ultimately show ?thesis using assms(1) f by (simp add: wf_ok_def finishes_def small_definitions_def)
qed

lemma waits_ok:
  assumes "wf_ok D" and "status_of D r = Some st" "\<not> halted st" "(r, p) \<notin> finished_keys D" and f: "waits D r p D'"
    and "p \<in> int ` {..<MAX_STEPS}"
  shows "wf_ok D' \<and> status_of D' = (status_of D)(r \<mapsto> StWaiting)"
  using view_waits [of "status_of D" "finished_keys D" "form_keys D" "unanswered D" "post_keys D" r st p] assms
  by (simp add: wf_ok_def waits_def small_definitions_def del: distinct_map)

lemma steps_from_ok:
  assumes "steps_from E D ids cx creator finished xs = (D', out)" and "wf_ok D"
    and "status_of D r = Some st" "\<not> halted st" and "r = run_id (cx_run cx)"
    and "distinct (map (as_i32 \<circ> fst) xs)"
    and "\<forall>x\<in>set xs. as_i32 (fst x) \<in> set finished \<longleftrightarrow> (r, as_i32 (fst x)) \<in> finished_keys D"
    and "\<forall>x\<in>set xs. as_i32 (fst x) \<in> int ` {..<MAX_STEPS}"
  shows "wf_ok D' \<and> finished_keys D \<subseteq> finished_keys D' \<and> d_workflows D' = d_workflows D
    \<and> status_of D' = (if out = Inr Waiting then (status_of D)(r \<mapsto> StWaiting) else status_of D)
    \<and> (out = Inr Done \<longrightarrow> (\<forall>x\<in>set xs. (r, as_i32 (fst x)) \<in> finished_keys D'))"
  using assms(1,2,3,6,7,8)
proof (induction xs arbitrary: D)
  case Nil
  then show ?case by auto
next
  case (Cons x xs)
  obtain i step where x: "x = (i, step)" by (cases x)
  let ?p = "as_i32 i"
  show ?case
  proof (cases "?p \<in> set finished")
    case True
    then have "steps_from E D ids cx creator finished xs = (D', out)" using Cons.prems(1) by (simp add: x)
    from Cons.IH [OF this Cons.prems(2,3)] show ?thesis using Cons.prems(4-6) True by (auto simp: x)
  next
    case False
    then have new: "(r, ?p) \<notin> finished_keys D" using Cons.prems(5) by (auto simp: x)
    obtain D1 res where step: "run_step E D (ids i) cx creator ?p step = (D1, res)" by (cases "run_step E D (ids i) cx creator ?p step")
    note view = run_step_view [OF step assms(5)]
    consider (err) e where "res = Inl e" | (done_it) "res = Inr Done" | (wait) "res = Inr Waiting"
      by (metis Outcome.exhaust sum.exhaust)
    then show ?thesis
    proof cases
      case err
      then have "D' = record_step_in (we_now E) D1 r ?p (Inl e)" "\<exists>m. out = Inl m"
        using Cons.prems(1) False step assms(5) by (auto simp: x)
      moreover have "same_rows D D1" using view err by simp
      ultimately show ?thesis
        using Cons.prems(2) new same_rows_ok [of D D1] wf_ok_view [of D' D]
        by (auto simp: same_rows_def post_keys_def small_definitions_def)
    next
      case done_it
      then have f: "finishes D r ?p D1" and rest: "steps_from E D1 ids cx creator finished xs = (D', out)"
        using view Cons.prems(1) False step by (auto simp: x)
      note ok = finishes_ok [OF Cons.prems(2,3) assms(4) new f]
      have fk: "finished_keys D1 = insert (r, ?p) (finished_keys D)" using f by (simp add: finishes_def)
      have "\<forall>y\<in>set xs. as_i32 (fst y) \<noteq> ?p" using Cons.prems(4) by (force simp: x)
      then show ?thesis
        using Cons.IH [OF rest] ok fk Cons.prems(3-6) f by (auto simp: x finishes_def)
    next
      case wait
      then have f: "waits D r ?p D1" and "D' = D1" "out = Inr Waiting"
        using view Cons.prems(1) False step by (auto simp: x)
      then show ?thesis
        using waits_ok [OF Cons.prems(2,3) assms(4) new f] Cons.prems(6) by (auto simp: waits_def x)
    qed
  qed
qed

lemma as_i32_small: "n \<le> MAX_STEPS \<Longrightarrow> as_i32 n = int n"
  by (simp add: as_i32_def MAX_STEPS_def signed_take_bit_int_eq_self)

lemma positions_distinct:
  assumes "length xs \<le> MAX_STEPS"
  shows "distinct (map (as_i32 \<circ> fst) (take k (enumerate 0 xs)))"
proof -
  have "i \<in> fst ` set (take k (enumerate 0 xs)) \<Longrightarrow> i < length xs" for i
    by (auto dest!: in_set_takeD simp: in_set_enumerate_eq)
  then have "i \<in> fst ` set (take k (enumerate 0 xs)) \<Longrightarrow> as_i32 i = int i" for i
    using assms by (intro as_i32_small) fastforce
  then have "inj_on as_i32 (fst ` set (take k (enumerate 0 xs)))"
    by (intro inj_onI) simp
  moreover have "distinct (map fst (take k (enumerate 0 xs)))"
    by (metis distinct_take map_fst_enumerate distinct_upt take_map)
  ultimately show ?thesis by (simp add: distinct_map comp_inj_on image_comp [symmetric])
qed

lemma positions_small:
  assumes "length xs \<le> MAX_STEPS" and "x \<in> set (take k (enumerate 0 xs))"
  shows "as_i32 (fst x) \<in> int ` {..<MAX_STEPS}"
proof -
  have "fst x < length xs" using assms(2) by (auto dest!: in_set_takeD simp: in_set_enumerate_eq)
  then show ?thesis using assms(1) as_i32_small [of "fst x"] by simp
qed

lemma stand_down_fields:
  "d_runs (stand_down E D w u why) = d_runs D" "d_forms (stand_down E D w u why) = d_forms D"
  "d_messages (stand_down E D w u why) = d_messages D" "d_steps (stand_down E D w u why) = d_steps D"
  "small_definitions D \<Longrightarrow> small_definitions (stand_down E D w u why)"
  by (auto simp: stand_down_def stop_creators_workflows_def disable_by_creator_def small_definitions_def update_rows_def Let_def)

lemma admitted_ok:
  assumes "admitted E D w rn = (D1, res)"
  shows "wf_ok D \<Longrightarrow> wf_ok D1" "status_of D1 = status_of D" "finished_keys D1 = finished_keys D"
    "\<And>d. res = Inr d \<Longrightarrow> wf_definition w = Some d \<and> D1 = D"
proof -
  consider "D1 = D" | why where "D1 = stand_down E D (Some (wf_workspace_id w)) (wf_created_by w) why"
    using assms by (auto simp: admitted_def split: if_splits option.splits sum.splits Stopped.splits)
  then have "d_runs D1 = d_runs D" "d_forms D1 = d_forms D" "d_messages D1 = d_messages D" "d_steps D1 = d_steps D"
    "small_definitions D \<Longrightarrow> small_definitions D1"
    by (cases; simp add: stand_down_fields)+
  then show "wf_ok D \<Longrightarrow> wf_ok D1" "status_of D1 = status_of D" "finished_keys D1 = finished_keys D"
    using wf_ok_view [of D1 D] by (simp_all add: finished_keys_def post_keys_def)
  show "\<And>d. res = Inr d \<Longrightarrow> wf_definition w = Some d \<and> D1 = D"
    using assms by (auto simp: admitted_def split: if_splits option.splits sum.splits Stopped.splits)
qed

lemma finished_positions_iff: "p \<in> set (finished_positions D r) \<longleftrightarrow> (r, p) \<in> finished_keys D"
  by (auto simp: finished_positions_def finished_keys_def)

lemma prepared_context:
  assumes "prepared E D w rn d = Inr (cx, creator, finished)"
  shows "cx_run cx = rn \<and> cx_definition cx = d \<and> finished = finished_positions D (run_id rn)"
  using assms by (auto simp: prepared_def Let_def split: if_splits)

lemma find_workflow_small:
  assumes "wf_ok D" and "find_workflow D i = Some w" and "wf_definition w = Some d"
  shows "length (steps d) \<le> MAX_STEPS"
  using assms by (auto simp: wf_ok_def small_definitions_def find_workflow_def dest: find_Some_iff)

text \<open>The loop of a run, whole or cut off after \<open>k\<close> steps.\<close>

lemma loop_ok:
  assumes adm: "admitted E D w rn = (D1, Inr d)" and prep: "prepared E D1 w rn d = Inr (cx, creator, finished)"
    and run: "steps_from E D1 ids cx creator finished (take k (enumerate 0 (steps d))) = (D', out)"
    and ok: "wf_ok D" "status_of D (run_id rn) = Some st" "\<not> halted st" "find_workflow D i = Some w"
  shows "wf_ok D' \<and> finished_keys D \<subseteq> finished_keys D'
    \<and> status_of D' = (if out = Inr Waiting then (status_of D)(run_id rn \<mapsto> StWaiting) else status_of D)
    \<and> (out = Inr Done \<longrightarrow> (\<forall>x\<in>set (take k (enumerate 0 (steps d))). (run_id rn, as_i32 (fst x)) \<in> finished_keys D'))"
proof -
  have d: "wf_definition w = Some d" and D1: "D1 = D" using admitted_ok(4) [OF adm] by auto
  have fin: "\<forall>x\<in>set (take k (enumerate 0 (steps d))).
      as_i32 (fst x) \<in> set finished \<longleftrightarrow> (run_id rn, as_i32 (fst x)) \<in> finished_keys D"
    using prepared_context [OF prep] by (simp add: finished_positions_iff D1)
  have r: "run_id rn = run_id (cx_run cx)" using prepared_context [OF prep] by simp
  note small = find_workflow_small [OF ok(1,4) d]
  show ?thesis
    using steps_from_ok [OF run [unfolded D1] ok(1,2,3) r positions_distinct [OF small] fin] positions_small [OF small]
    by blast
qed

lemma run_steps_ok:
  assumes run: "run_steps E D ids w rn = (D', out)"
    and ok: "wf_ok D" "status_of D (run_id rn) = Some st" "\<not> halted st" "find_workflow D i = Some w"
  shows "wf_ok D' \<and> finished_keys D \<subseteq> finished_keys D'
    \<and> status_of D' = (if out = Inr Waiting then (status_of D)(run_id rn \<mapsto> StWaiting) else status_of D)
    \<and> (out = Inr Done \<longrightarrow> (\<exists>d. wf_definition w = Some d \<and>
        (\<forall>n<length (steps d). (run_id rn, int n) \<in> finished_keys D')))"
proof -
  obtain D1 res where adm: "admitted E D w rn = (D1, res)" by (cases "admitted E D w rn")
  note a = admitted_ok [OF adm]
  show ?thesis
  proof (cases res)
    case (Inl e)
    then show ?thesis using run adm a ok by (auto simp: run_steps_def)
  next
    case (Inr d)
    show ?thesis
    proof (cases "prepared E D1 w rn d")
      case (Inl e)
      then show ?thesis using run adm a ok Inr by (auto simp: run_steps_def)
    next
      case prep: (Inr x)
      obtain cx creator finished where x: "x = (cx, creator, finished)" by (cases x)
      have small: "length (steps d) \<le> MAX_STEPS"
        using find_workflow_small [OF ok(1,4)] a(4) \<open>res = Inr d\<close> by simp
      have "steps_from E D1 ids cx creator finished (take (length (steps d)) (enumerate 0 (steps d))) = (D', out)"
        using run adm \<open>res = Inr d\<close> prep x by (simp add: run_steps_def)
      note l = loop_ok [OF adm [unfolded \<open>res = Inr d\<close>] prep [unfolded x] this ok]
      have "(run_id rn, int n) \<in> finished_keys D'" if "out = Inr Done" "n < length (steps d)" for n
      proof -
        have "(n, steps d ! n) \<in> set (take (length (steps d)) (enumerate 0 (steps d)))"
          using that(2) by (simp add: in_set_enumerate_eq)
        with l that(1) have "(run_id rn, as_i32 (fst (n, steps d ! n))) \<in> finished_keys D'" by blast
        then show ?thesis using that(2) small by (simp add: as_i32_small)
      qed
      then show ?thesis using l a(4) [OF \<open>res = Inr d\<close>] by blast
    qed
  qed
qed

lemma restatus_ok:
  assumes ok: "wf_ok D" and rows: "d_forms D' = d_forms D" "finished_keys D' = finished_keys D"
    "post_keys D' = post_keys D" "small_definitions D \<Longrightarrow> small_definitions D'"
    "map run_id (d_runs D') = map run_id (d_runs D)"
    and calm: "\<And>r st. status_of D' r = Some st \<Longrightarrow> \<not> halted st \<Longrightarrow> \<exists>st'. status_of D r = Some st' \<and> \<not> halted st'"
  shows "wf_ok D'"
proof -
  have "status_of D' r = None \<longleftrightarrow> status_of D r = None" for r
    using rows(5) unfolding status_of_None by (metis set_map)
  from view_restatus [OF _ this calm] ok show ?thesis
    using rows by (simp add: wf_ok_def form_keys_def unanswered_def del: distinct_map)
qed

lemma finish_ok:
  assumes ok: "wf_ok D" "status_of D r = Some st" "\<not> halted st"
  shows "wf_ok (finish now D r v st' err) \<and> status_of (finish now D r v st' err) = (status_of D)(r \<mapsto> st')
    \<and> finished_keys (finish now D r v st' err) = finished_keys D"
proof -
  have s: "status_of (finish now D r v st' err) = (status_of D)(r \<mapsto> st')"
    unfolding finish_def by (subst status_on_run [of _ st']) (simp_all add: ok(2))
  have "wf_ok (finish now D r v st' err)"
  proof (rule restatus_ok [OF ok(1)])
    fix i x assume "status_of (finish now D r v st' err) i = Some x" "\<not> halted x"
    then show "\<exists>x'. status_of D i = Some x' \<and> \<not> halted x'"
      using ok(2,3) unfolding s by (auto split: if_splits)
  qed (simp_all add: finish_def on_run_def run_ids_update small_definitions_def post_keys_def finished_keys_def)
  then show ?thesis using s by (simp add: finish_def)
qed

lemma execute_ok:
  assumes ok: "wf_ok D" "status_of D (run_id rn) = Some st" "\<not> halted st" and D': "D' = execute E D ids rn"
  shows "wf_ok D'" "finished_keys D \<subseteq> finished_keys D'" "i \<noteq> run_id rn \<Longrightarrow> status_of D' i = status_of D i"
    "find_workflow D (run_workflow_id rn) = Some w \<Longrightarrow>
      status_of D' (run_id rn) \<in> Some ` {StSucceeded, StFailed, StWaiting}
      \<and> (status_of D' (run_id rn) = Some StSucceeded \<longrightarrow> (\<exists>d. wf_definition w = Some d \<and>
          (\<forall>n<length (steps d). (run_id rn, int n) \<in> finished_keys D')))"
proof -
  have "wf_ok D' \<and> finished_keys D \<subseteq> finished_keys D' \<and> (i \<noteq> run_id rn \<longrightarrow> status_of D' i = status_of D i)
    \<and> (find_workflow D (run_workflow_id rn) = Some w \<longrightarrow>
      status_of D' (run_id rn) \<in> Some ` {StSucceeded, StFailed, StWaiting}
      \<and> (status_of D' (run_id rn) = Some StSucceeded \<longrightarrow> (\<exists>d. wf_definition w = Some d \<and>
          (\<forall>n<length (steps d). (run_id rn, int n) \<in> finished_keys D'))))"
  proof (cases "find_workflow D (run_workflow_id rn)")
    case None
    then show ?thesis using ok D' by (simp add: execute_def)
  next
    case (Some v)
    obtain D1 out where run: "run_steps E D ids v rn = (D1, out)" by (cases "run_steps E D ids v rn")
    note l = run_steps_ok [OF run ok Some]
    consider (err) e where "out = Inl e" | (over) "out = Inr Done" | (wait) "out = Inr Waiting"
      by (metis Outcome.exhaust sum.exhaust)
    then show ?thesis
    proof cases
      case err
      have "D' = finish (we_now E) D1 (run_id rn) (wf_version v) StFailed (Some e)"
        using D' Some run err by (simp add: execute_def)
      with finish_ok [of D1 "run_id rn" st "we_now E" "wf_version v" StFailed "Some e"] show ?thesis using l err ok by auto
    next
      case over
      have "D' = finish (we_now E) D1 (run_id rn) (wf_version v) StSucceeded None"
        using D' Some run over by (simp add: execute_def)
      with finish_ok [of D1 "run_id rn" st "we_now E" "wf_version v" StSucceeded None] show ?thesis using l over ok Some by auto
    next
      case wait
      then have "D' = D1" using D' Some run by (simp add: execute_def)
      then show ?thesis using l wait by auto
    qed
  qed
  then show "wf_ok D'" "finished_keys D \<subseteq> finished_keys D'" "i \<noteq> run_id rn \<Longrightarrow> status_of D' i = status_of D i"
    "find_workflow D (run_workflow_id rn) = Some w \<Longrightarrow>
      status_of D' (run_id rn) \<in> Some ` {StSucceeded, StFailed, StWaiting}
      \<and> (status_of D' (run_id rn) = Some StSucceeded \<longrightarrow> (\<exists>d. wf_definition w = Some d \<and>
          (\<forall>n<length (steps d). (run_id rn, int n) \<in> finished_keys D')))"
    by blast+
qed

lemma interrupted_ok:
  assumes ok: "wf_ok D" "status_of D (run_id rn) = Some st" "\<not> halted st"
  shows "wf_ok (interrupted E D ids k rn)"
proof (cases "find_workflow D (run_workflow_id rn)")
  case (Some w)
  obtain D1 res where adm: "admitted E D w rn = (D1, res)" by (cases "admitted E D w rn")
  show ?thesis
  proof (cases res)
    case (Inl e)
    then show ?thesis using Some adm admitted_ok(1) [OF adm] ok by (simp add: interrupted_def)
  next
    case (Inr d)
    show ?thesis
    proof (cases "prepared E D1 w rn d")
      case (Inl e)
      then show ?thesis using Some adm admitted_ok(1) [OF adm] ok Inr by (simp add: interrupted_def)
    next
      case (Inr x)
      obtain cx creator finished where x: "x = (cx, creator, finished)" by (cases x)
      let ?l = "steps_from E D1 ids cx creator finished (take k (enumerate 0 (steps d)))"
      have "?l = (fst ?l, snd ?l)" by simp
      from loop_ok [OF adm [unfolded \<open>res = Inr d\<close>] Inr [unfolded x] this ok Some] show ?thesis
        using Some adm \<open>res = Inr d\<close> Inr x by (simp add: interrupted_def)
    qed
  qed
qed (simp add: interrupted_def ok)

section \<open>The tick of the runner\<close>

lemma status_of_row:
  assumes "wf_ok D" and "r \<in> set (d_runs D)"
  shows "status_of D (run_id r) = Some (run_status r)"
  using assms by (auto simp: status_of_def wf_ok_def o_def intro!: map_of_is_SomeI)

lemma claim_ok:
  assumes ok: "wf_ok D" and c: "claim_runs now D limit = (D1, runs)"
  shows "wf_ok D1" "distinct (map run_id runs)" "r \<in> set runs \<Longrightarrow> status_of D1 (run_id r) = Some StRunning"
    "finished_keys D1 = finished_keys D"
proof -
  define ids where "ids = set (map run_id (take limit (sort_key run_started_at (filter (claimable now) (d_runs D)))))"
  have D1: "D1 = D\<lparr>d_runs := update_rows (\<lambda>r. run_id r \<in> ids) (claim_row now) (d_runs D)\<rparr>"
    and runs: "runs = map (claim_row now) (filter (\<lambda>r. run_id r \<in> ids) (d_runs D))"
    using c by (auto simp: claim_runs_def ids_def Let_def)
  have row: "run_id (claim_row now x) = run_id x" "run_status (claim_row now x) = StRunning" for x
    by (simp_all add: claim_row_def)
  have s: "status_of D1 i = (if i \<in> ids then map_option (\<lambda>_. StRunning) (status_of D i) else status_of D i)" for i
    using status_update_rows [OF row] by (simp add: D1 status_of_def)
  have calm: "\<exists>st. status_of D i = Some st \<and> \<not> halted st" if "i \<in> ids" for i
  proof -
    from that obtain x where x: "x \<in> set (d_runs D)" "claimable now x" "run_id x = i"
      by (auto simp: ids_def dest!: in_set_takeD)
    then show ?thesis using status_of_row [OF ok x(1)] by (auto simp: claimable_def halted_def)
  qed
  show "wf_ok D1"
  proof (rule restatus_ok [OF ok])
    fix i x assume "status_of D1 i = Some x" "\<not> halted x"
    then show "\<exists>x'. status_of D i = Some x' \<and> \<not> halted x'" using calm s by (auto split: if_splits)
  qed (simp_all add: D1 run_ids_update row small_definitions_def post_keys_def)
  show "distinct (map run_id runs)" using ok by (auto simp: runs wf_ok_def o_def row distinct_map_filter)
  show "r \<in> set runs \<Longrightarrow> status_of D1 (run_id r) = Some StRunning"
    using s calm by (fastforce simp: runs row)
  show "finished_keys D1 = finished_keys D" by (simp add: D1)
qed

lemma execute_all_ok:
  assumes "wf_ok D" and "distinct (map run_id runs)" and "\<forall>r\<in>set runs. status_of D (run_id r) = Some StRunning"
  shows "wf_ok (execute_all E D ids runs)
    \<and> (\<forall>i. i \<notin> run_id ` set runs \<longrightarrow> status_of (execute_all E D ids runs) i = status_of D i)"
  using assms
proof (induction runs arbitrary: D)
  case (Cons r rs)
  have r: "status_of D (run_id r) = Some StRunning" "\<not> halted StRunning" using Cons.prems(3) by (auto simp: halted_def)
  note e = execute_ok [OF Cons.prems(1) r refl, where E = E and ids = "ids (run_id r)"]
  have other: "i \<noteq> run_id r \<Longrightarrow> status_of (execute E D (ids (run_id r)) r) i = status_of D i" for i
    by (rule e(3))
  have "\<forall>x\<in>set rs. status_of (execute E D (ids (run_id r)) r) (run_id x) = Some StRunning"
  proof
    fix x assume x: "x \<in> set rs"
    then have "run_id x \<noteq> run_id r" using Cons.prems(2) by (metis distinct.simps(2) image_eqI list.simps(9) set_map)
    then show "status_of (execute E D (ids (run_id r)) r) (run_id x) = Some StRunning"
      using other x Cons.prems(3) by simp
  qed
  from Cons.IH [OF e(1) _ this] show ?case using Cons.prems(2) other by auto
qed simp

lemma run_pending_ok: "wf_ok D \<Longrightarrow> wf_ok (fst (run_pending E D ids))"
  using claim_ok [of D "we_now E" RUN_BATCH] execute_all_ok
  by (auto simp: run_pending_def split: prod.splits)

text \<open>A tick that dies: the batch is claimed, \<open>n\<close> runs are executed, and the next one gets to its step \<open>k\<close>.\<close>

definition died :: "wf_env \<Rightarrow> wf_db \<Rightarrow> (uuid \<Rightarrow> nat \<Rightarrow> step_ids) \<Rightarrow> nat \<Rightarrow> nat \<Rightarrow> wf_db" where
  "died E D ids n k =
     (let (D1, runs) = claim_runs (we_now E) D RUN_BATCH; D2 = execute_all E D1 ids (take n runs)
      in if n < length runs then interrupted E D2 (ids (run_id (runs ! n))) k (runs ! n) else D2)"

lemma died_ok:
  assumes ok: "wf_ok D"
  shows "wf_ok (died E D ids n k)"
proof -
  obtain D1 runs where c: "claim_runs (we_now E) D RUN_BATCH = (D1, runs)" by (cases "claim_runs (we_now E) D RUN_BATCH")
  note cl = claim_ok [OF ok c]
  have "distinct (map run_id (take n runs))" using cl(2) by (metis distinct_take take_map)
  moreover have "\<forall>r\<in>set (take n runs). status_of D1 (run_id r) = Some StRunning"
    using cl(3) by (auto dest: in_set_takeD)
  ultimately have all: "wf_ok (execute_all E D1 ids (take n runs))"
    "\<And>i. i \<notin> run_id ` set (take n runs) \<Longrightarrow> status_of (execute_all E D1 ids (take n runs)) i = status_of D1 i"
    using execute_all_ok [OF cl(1), of "take n runs" E ids] by auto
  show ?thesis
  proof (cases "n < length runs")
    case True
    then have "run_id (runs ! n) \<notin> run_id ` set (take n runs)"
      using cl(2) by (auto simp: in_set_conv_nth distinct_conv_nth)
    then have "status_of (execute_all E D1 ids (take n runs)) (run_id (runs ! n)) = Some StRunning"
      using all(2) cl(3) True by simp
    then show ?thesis using interrupted_ok [OF all(1)] c True by (simp add: died_def halted_def)
  qed (use all c in \<open>simp add: died_def\<close>)
qed

section \<open>Answers and expiry\<close>

lemma mark_form_fields:
  assumes "mark_form_in D m g = (D', x)" and "\<And>q. fq_run_id (g q) = fq_run_id q"
  shows "d_runs D' = d_runs D" "d_forms D' = d_forms D" "d_steps D' = d_steps D" "d_workflows D' = d_workflows D"
    "post_keys D' = post_keys D"
  using assms by (auto simp: mark_form_in_def post_keys_def Let_def intro!: post_keys_update)

lemma unanswered_update:
  "(\<lambda>f. (fm_run_id f, fm_position f)) ` {f \<in> set (update_rows (\<lambda>f. fm_run_id f = r \<and> fm_position f = p)
      (\<lambda>f. f\<lparr>fm_answers := a, fm_answered_at := Some now\<rparr>) fs). fm_answered_at f = None}
    = (\<lambda>f. (fm_run_id f, fm_position f)) ` {f \<in> set fs. fm_answered_at f = None} - {(r, p)}"
proof -
  let ?key = "\<lambda>f. (fm_run_id f, fm_position f)"
  let ?h = "\<lambda>f. if fm_run_id f = r \<and> fm_position f = p then f\<lparr>fm_answers := a, fm_answered_at := Some now\<rparr> else f"
  have h: "fm_answered_at (?h f) = None \<longleftrightarrow> ?key f \<noteq> (r, p) \<and> fm_answered_at f = None" "?key (?h f) = ?key f" for f
    by auto
  have "k \<in> ?key ` {f \<in> set (map ?h fs). fm_answered_at f = None}
      \<longleftrightarrow> (\<exists>f\<in>set fs. fm_answered_at (?h f) = None \<and> k = ?key (?h f))" for k
    by auto
  then have "k \<in> ?key ` {f \<in> set (map ?h fs). fm_answered_at f = None}
      \<longleftrightarrow> (\<exists>f\<in>set fs. ?key f \<noteq> (r, p) \<and> fm_answered_at f = None \<and> k = ?key f)" for k
    unfolding h by blast
  then show ?thesis unfolding update_rows_def by (intro set_eqI) (simp only: Diff_iff, blast)
qed

lemma submit_view:
  assumes "submit_form E D r p u given = Inr D'"
  shows "(r, p) \<in> unanswered D" "finished_keys D' = insert (r, p) (finished_keys D)"
    "form_keys D' = form_keys D" "unanswered D' = unanswered D - {(r, p)}" "post_keys D' = post_keys D"
    "status_of D' = (status_of D)(r \<mapsto> StPending)" "map run_id (d_runs D') = map run_id (d_runs D)"
    "d_workflows D' = d_workflows D"
proof -
  obtain f st w as where form: "form_for_update_in D r p = Some (f, st, w)" and none: "fm_answered_at f = None"
    and D': "\<exists>D3 x. mark_form_in (record_step_in (we_now E) (answer_in (we_now E) D r p as) r p (Inr (Some (fm_message_id f))))
        (fm_message_id f) (\<lambda>q. q\<lparr>fq_submitted_at := Some (we_now E)\<rparr>) = (D3, x)
      \<and> d_runs D' = d_runs D3 \<and> d_forms D' = d_forms D3 \<and> d_steps D' = d_steps D3
      \<and> d_workflows D' = d_workflows D3 \<and> d_messages D' = d_messages D3"
    using assms
    by (fastforce simp: submit_form_def answer_form_def Let_def wf_stage_def wf_dispatch_def
        split: if_splits option.splits prod.splits)
  let ?D2 = "record_step_in (we_now E) (answer_in (we_now E) D r p as) r p (Inr (Some (fm_message_id f)))"
  obtain D3 x where m: "mark_form_in ?D2 (fm_message_id f) (\<lambda>q. q\<lparr>fq_submitted_at := Some (we_now E)\<rparr>) = (D3, x)"
    and D3: "d_runs D' = d_runs D3" "d_forms D' = d_forms D3" "d_steps D' = d_steps D3"
      "d_workflows D' = d_workflows D3" "d_messages D' = d_messages D3"
    using D' by blast
  have rows: "d_runs D' = d_runs ?D2" "d_forms D' = d_forms ?D2" "d_steps D' = d_steps ?D2"
    "d_workflows D' = d_workflows ?D2" "post_keys D' = post_keys ?D2"
    using mark_form_fields [OF m] D3 by (simp_all add: post_keys_def)
  have f: "form_row D r p = Some f" and s: "status_of D r \<noteq> None"
    using form find_Some_iff [of "\<lambda>x. run_id x = r" "d_runs D"]
    by (auto simp: form_for_update_in_def run_of_def bind_eq_Some_conv status_of_None)
  then have "f \<in> set (d_forms D)" "fm_run_id f = r" "fm_position f = p"
    by (auto simp: form_row_def dest: find_Some_iff)
  then show "(r, p) \<in> unanswered D" using none by (force simp: unanswered_def)
  show "finished_keys D' = insert (r, p) (finished_keys D)"
    using rows(3) finished_record(1) [of "we_now E" "answer_in (we_now E) D r p as" r p "Some (fm_message_id f)"]
    by (simp add: finished_keys_def answer_in_def on_run_def)
  show "form_keys D' = form_keys D"
    using rows(2) by (auto simp: form_keys_def answer_in_def on_run_def update_rows_def)
  show "unanswered D' = unanswered D - {(r, p)}"
    using rows(2) unanswered_update
    by (simp add: unanswered_def answer_in_def on_run_def)
  show "post_keys D' = post_keys D" "d_workflows D' = d_workflows D"
    using rows by (simp_all add: answer_in_def on_run_def post_keys_def)
  show "map run_id (d_runs D') = map run_id (d_runs D)"
    using rows(1) by (simp add: answer_in_def on_run_def run_ids_update)
  have "status_of D' = status_of (answer_in (we_now E) D r p as)" using rows(1) by (simp add: status_of_def)
  also have "\<dots> = (status_of D)(r \<mapsto> StPending)"
    unfolding answer_in_def
    by (subst status_on_run [of _ StPending]) (use s in \<open>auto simp: status_of_def\<close>)
  finally show "status_of D' = (status_of D)(r \<mapsto> StPending)" .
qed

lemma submit_ok:
  assumes "wf_ok D" and s: "submit_form E D r p u given = Inr D'"
  shows "wf_ok D'"
  using view_answered [of "status_of D" "finished_keys D" "form_keys D" "unanswered D" "post_keys D" r p StPending]
    assms(1) submit_view [OF s]
  by (simp add: wf_ok_def small_definitions_def del: distinct_map)

lemma mark_expired_fields:
  assumes "mark_expired D xs = (D', evs)"
  shows "d_runs D' = d_runs D \<and> d_forms D' = d_forms D \<and> d_steps D' = d_steps D \<and> d_workflows D' = d_workflows D
    \<and> post_keys D' = post_keys D"
  using assms
proof (induction xs arbitrary: D D' evs)
  case (Cons y forms)
  obtain m w where y: "y = (m, w)" by (cases y)
  obtain D1 x where m: "mark_form_in D m (\<lambda>f. f\<lparr>fq_expired := True\<rparr>) = (D1, x)"
    by (cases "mark_form_in D m (\<lambda>f. f\<lparr>fq_expired := True\<rparr>)")
  have f: "d_runs D1 = d_runs D" "d_forms D1 = d_forms D" "d_steps D1 = d_steps D" "d_workflows D1 = d_workflows D"
    "post_keys D1 = post_keys D"
    using mark_form_fields [OF m] by simp_all
  show ?case
  proof (cases x)
    case None
    then show ?thesis using Cons.IH [of D1 D' evs] Cons.prems m f y by simp
  next
    case (Some message)
    then obtain evs' where "mark_expired (wf_stage D1 (MessageUpdated message w)) forms = (D', evs')"
      using Cons.prems m y by (auto simp: Let_def split: prod.splits)
    from Cons.IH [OF this] show ?thesis using f by (simp add: wf_stage_def post_keys_def)
  qed
qed simp

lemma dispatch_fields:
  "d_runs (foldl wf_dispatch D evs) = d_runs D \<and> d_forms (foldl wf_dispatch D evs) = d_forms D
    \<and> d_steps (foldl wf_dispatch D evs) = d_steps D \<and> d_workflows (foldl wf_dispatch D evs) = d_workflows D
    \<and> d_messages (foldl wf_dispatch D evs) = d_messages D"
  by (induction evs arbitrary: D) (auto simp: wf_dispatch_def)

lemma expire_ok:
  assumes ok: "wf_ok D"
  shows "wf_ok (fst (expire_forms E D))"
proof -
  let ?reason = "lit ''Nobody filled in the form within 7 days''"
  obtain D1 xs where e: "expire_forms_in (we_now E) D ?reason = (D1, xs)" by (cases "expire_forms_in (we_now E) D ?reason")
  define ids where "ids = set (map fm_run_id (filter (form_expired (we_now E) D) (d_forms D)))"
  define f where "f = (\<lambda>r :: RunRow. r\<lparr>run_status := StExpired, run_error := Some ?reason, run_finished_at := Some (we_now E)\<rparr>)"
  have D1: "D1 = D\<lparr>d_runs := update_rows (\<lambda>r. run_id r \<in> ids) f (d_runs D)\<rparr>"
    using e by (auto simp: expire_forms_in_def ids_def f_def Let_def)
  have row: "run_id (f x) = run_id x" "run_status (f x) = StExpired" for x by (simp_all add: f_def)
  have s: "status_of D1 i = (if i \<in> ids then map_option (\<lambda>_. StExpired) (status_of D i) else status_of D i)" for i
    using status_update_rows [OF row] by (simp add: D1 status_of_def)
  have "wf_ok D1"
  proof (rule restatus_ok [OF ok])
    fix i x assume "status_of D1 i = Some x" "\<not> halted x"
    then show "\<exists>x'. status_of D i = Some x' \<and> \<not> halted x'" using s by (auto simp: halted_def split: if_splits)
  qed (simp_all add: D1 run_ids_update row small_definitions_def post_keys_def)
  obtain D2 evs where m: "mark_expired D1 xs = (D2, evs)" by (cases "mark_expired D1 xs")
  let ?D = "foldl wf_dispatch D2 evs"
  have "d_runs ?D = d_runs D1" "d_forms ?D = d_forms D1" "finished_keys ?D = finished_keys D1" "post_keys ?D = post_keys D1"
    "small_definitions D1 \<Longrightarrow> small_definitions ?D"
    using mark_expired_fields [OF m] dispatch_fields [of D2 evs]
    by (simp_all add: finished_keys_def post_keys_def small_definitions_def)
  from wf_ok_view(1) [OF this \<open>wf_ok D1\<close>] show ?thesis using e m by (simp add: expire_forms_def)
qed

section \<open>Starting runs\<close>

definition new_to :: "wf_db \<Rightarrow> uuid \<Rightarrow> bool" where
  "new_to D r \<longleftrightarrow> r \<notin> fst ` set (post_keys D)"

lemma appended_ok:
  assumes ok: "wf_ok D" and "run_id x \<notin> run_id ` set (d_runs D)" and "new_to D (run_id x)"
  shows "wf_ok (D\<lparr>d_runs := d_runs D @ [x]\<rparr>)"
proof -
  let ?D = "D\<lparr>d_runs := d_runs D @ [x]\<rparr>"
  have "status_of D (run_id x) = None" using assms(2) by (simp add: status_of_None)
  moreover have "map_of (map g rs @ [(k, v)]) = (map_of (map g rs))(k \<mapsto> v)" if "map_of (map g rs) k = None"
    for g :: "RunRow \<Rightarrow> uuid \<times> RunStatus" and rs k v
    using that by (induction rs) (auto simp: fun_eq_iff)
  ultimately have "status_of ?D = (status_of D)(run_id x \<mapsto> run_status x)" by (simp add: status_of_def)
  moreover have "finished_keys ?D = finished_keys D" "form_keys ?D = form_keys D" "unanswered ?D = unanswered D"
    "post_keys ?D = post_keys D"
    by (simp_all add: view_defs)
  ultimately show ?thesis
    using view_queued [of "status_of D" "finished_keys D" "form_keys D" "unanswered D" "post_keys D" "run_id x" "run_status x"]
      assms \<open>status_of D (run_id x) = None\<close>
    by (auto simp: wf_ok_def new_to_def small_definitions_def)
qed

lemma queue_ok:
  assumes "queue_run now D new w v key ctx = Inr (D', r)" and "wf_ok D" and "new_to D new"
  shows "wf_ok D'" "d_workflows D' = d_workflows D" "d_messages D' = d_messages D"
  using assms appended_ok [OF assms(2)] by (auto simp: queue_run_def split: option.splits if_splits)

lemma skip_ok:
  assumes "skip_run now D new w v key ctx reason = Inr D'" and "wf_ok D" and "new_to D new"
  shows "wf_ok D'" "d_workflows D' = d_workflows D" "d_messages D' = d_messages D"
  using assms appended_ok [OF assms(2)] by (auto simp: skip_run_def split: option.splits if_splits)

lemma start_listeners_ok:
  assumes "wf_ok D" and "\<forall>w\<in>set ws. new_to D (new (wf_id w))"
  shows "wf_ok (fst (start_listeners E D new lim key ctx ws))"
  using assms
proof (induction ws arbitrary: D)
  case (Cons w ws)
  show ?case
  proof (cases "if lim (wf_id w)
        then and_then (queue_run (we_now E) D (new (wf_id w)) (wf_id w) (wf_version w) key ctx) (\<lambda>(D1, _). Inr D1)
        else skip_run (we_now E) D (new (wf_id w)) (wf_id w) (wf_version w) key ctx over_limit")
    case (Inl e)
    then show ?thesis using Cons.prems by (simp add: guarded_def)
  next
    case (Inr D1)
    then have D1: "wf_ok D1 \<and> d_messages D1 = d_messages D"
      using Cons.prems queue_ok skip_ok by (auto split: if_splits; blast)
    have "\<forall>w\<in>set ws. new_to D1 (new (wf_id w))" using Cons.prems(2) D1 by (simp add: new_to_def post_keys_def)
    from Cons.IH [OF _ this] D1 Inr show ?thesis by (simp add: guarded_def)
  qed
qed simp

lemma on_workflow_ok:
  assumes "\<And>w d. wf_definition (f w) = Some d \<Longrightarrow> wf_definition w = Some d \<or> length (steps d) \<le> MAX_STEPS" and "wf_ok D"
  shows "wf_ok (on_workflow D i f)"
  by (rule wf_ok_view(1) [OF _ _ _ _ _ assms(2)])
     (use assms(1) in \<open>auto simp: on_workflow_def finished_keys_def post_keys_def small_definitions_def update_rows_def\<close>)

lemma queue_due_ok:
  assumes "queue_due E D new rfc ws = Inr (D', n)" and "wf_ok D" and "\<forall>w\<in>set ws. new_to D (new (wf_id w))"
  shows "wf_ok D'"
  using assms
proof (induction ws arbitrary: D D' n)
  case (Cons w ws)
  let ?s = "Option.bind (wf_definition w) (\<lambda>d. schedule_of (we_wf E) (trigger d))"
  obtain D1 n' where D1: "wf_ok D1" "d_messages D1 = d_messages D"
    and rest: "queue_due E (advance_in (we_next_run E) (we_now E) D1 (wf_id w) ?s) new rfc ws = Inr (D', n')"
    using Cons.prems by (auto simp: Let_def split: if_splits dest: queue_ok)
  have "wf_ok (advance_in (we_next_run E) (we_now E) D1 (wf_id w) ?s)"
    unfolding advance_in_def by (rule on_workflow_ok) (auto simp: D1)
  moreover have "\<forall>v\<in>set ws. new_to (advance_in (we_next_run E) (we_now E) D1 (wf_id w) ?s) (new (wf_id v))"
    using Cons.prems(3) D1 by (simp add: new_to_def post_keys_def advance_in_def on_workflow_def)
  ultimately show ?case by (rule Cons.IH [OF rest])
qed simp

section \<open>Managing workflows\<close>

lemma check_small: "check X d = Inr () \<Longrightarrow> length (steps d) \<le> MAX_STEPS"
  by (auto simp: check_def invalid_def split: if_splits)

lemma checked_small: "checked X req = Inr ck \<Longrightarrow> length (steps (ck_definition ck)) \<le> MAX_STEPS"
  by (auto simp: checked_def invalid_def Let_def intro: check_small split: if_splits)

lemma audit_ok [simp]: "wf_ok (D\<lparr>d_audit := a\<rparr>) = wf_ok D"
  by (simp add: wf_ok_def view_defs status_of_def small_definitions_def)

lemma reload_fst [simp]: "fst (reload D i) = D"
  by (simp add: reload_def)

lemma guarded_ok:
  "wf_ok D \<Longrightarrow> (\<And>x. r = Inr x \<Longrightarrow> wf_ok (fst (f x))) \<Longrightarrow> wf_ok (fst (guarded D r f))"
  by (simp add: guarded_def split: sum.splits)

lemma delete_row_ok:
  assumes ok: "wf_ok D"
  shows "wf_ok (delete_workflow_row D i)"
proof -
  let ?D = "delete_workflow_row D i"
  define gone where "gone = run_id ` set (filter (\<lambda>r. run_workflow_id r = i) (d_runs D))"
  have D': "?D = D\<lparr>d_workflows := filter (\<lambda>w. wf_id w \<noteq> i) (d_workflows D),
      d_runs := filter (\<lambda>r. run_workflow_id r \<noteq> i) (d_runs D), d_steps := filter (\<lambda>s. rs_run_id s \<notin> gone) (d_steps D),
      d_forms := filter (\<lambda>f. fm_run_id f \<notin> gone) (d_forms D)\<rparr>"
    by (simp add: delete_workflow_row_def gone_def Let_def)
  have inj: "inj_on run_id (set (d_runs D))" using ok by (simp add: wf_ok_def distinct_map)
  have "filter (\<lambda>r. run_workflow_id r \<noteq> i) (d_runs D) = filter (\<lambda>r. run_id r \<in> - gone) (d_runs D)"
    by (rule filter_cong [OF refl]) (use inj in \<open>auto simp: gone_def dest: inj_onD\<close>)
  moreover have "map_of (map (\<lambda>r. (run_id r, run_status r)) (filter (\<lambda>r. run_id r \<in> K) rs))
      = map_of (map (\<lambda>r. (run_id r, run_status r)) rs) |` K" for K rs
    by (induction rs) (auto simp: restrict_map_def fun_eq_iff)
  ultimately have "status_of ?D = status_of D |` (- gone)" by (simp add: status_of_def D' del: Compl_iff)
  moreover have "finished_keys ?D = {k \<in> finished_keys D. fst k \<in> - gone}" "unanswered ?D = {k \<in> unanswered D. fst k \<in> - gone}"
    "form_keys ?D = filter (\<lambda>k. fst k \<in> - gone) (form_keys D)" "post_keys ?D = post_keys D"
    by (auto simp: D' view_defs filter_map o_def)
  ultimately show ?thesis
    using view_deleted [of "status_of D" "finished_keys D" "form_keys D" "unanswered D" "post_keys D" "- gone"] ok
    by (auto simp: wf_ok_def D' small_definitions_def distinct_map_filter)
qed

section \<open>The machine\<close>

text \<open>
  Every operation on the tables, with its environment and the identifiers it draws. An identifier drawn for a run is one no run ever had;
  an operation that would reuse one is not performed. \<open>Lists_changed\<close> is whatever requests do to lists between two operations.
\<close>

datatype (plugins only: code) wf_op =
    Shortcut_started wf_env uuid uuid "unit AppResult" uuid uuid "rstr option"
  | Webhook_called wf_env uuid "unit AppResult" "unit AppResult" rstr rstr "json option"
  | Event_delivered wf_env "uuid \<Rightarrow> uuid" "uuid \<Rightarrow> bool" uuid rstr json
  | Schedules_due wf_env "uuid \<Rightarrow> uuid" "timestamp \<Rightarrow> rstr"
  | Ticked wf_env "uuid \<Rightarrow> nat \<Rightarrow> step_ids"
  | Died wf_env "uuid \<Rightarrow> nat \<Rightarrow> step_ids" nat nat
  | Form_submitted wf_env uuid int uuid "(rstr \<times> rstr) list"
  | Forms_expired wf_env
  | Taken_over wf_env rstr uuid uuid
  | Link_rotated wf_env rstr uuid uuid
  | Created wf_env uuid rstr uuid uuid SaveWorkflowRequest
  | Updated wf_env rstr uuid uuid SaveWorkflowRequest
  | Enabled wf_env uuid uuid
  | Disabled wf_env uuid uuid
  | Deleted wf_env uuid uuid
  | Lists_changed world

definition kept :: "wf_db \<Rightarrow> (wf_db \<times> 'a) AppResult \<Rightarrow> wf_db" where
  "kept D r = (case r of Inl _ \<Rightarrow> D | Inr (D', _) \<Rightarrow> D')"

definition all_new :: "wf_db \<Rightarrow> (uuid \<Rightarrow> uuid) \<Rightarrow> bool" where
  "all_new D new \<longleftrightarrow> (\<forall>w\<in>set (d_workflows D). new_to D (new (wf_id w)))"

fun wf_step :: "wf_db \<Rightarrow> wf_op \<Rightarrow> wf_db" where
  "wf_step D (Shortcut_started E new drawn limit i u req) =
     (if new_to D new then kept D (start_shortcut E D new drawn limit i u req) else D)"
| "wf_step D (Webhook_called E new ip_limit limit req token body) =
     (if new_to D new then kept D (workflow_webhook E D new ip_limit limit req token body) else D)"
| "wf_step D (Event_delivered E new within event_id event_type payload) =
     (if all_new D new then fst (handle_event E D new within event_id event_type payload) else D)"
| "wf_step D (Schedules_due E new rfc3339) =
     (if all_new D new then kept D (queue_due_schedules E D new rfc3339) else D)"
| "wf_step D (Ticked E ids) = fst (run_pending E D ids)"
| "wf_step D (Died E ids n k) = died E D ids n k"
| "wf_step D (Form_submitted E r p u given) = (case submit_form E D r p u given of Inl _ \<Rightarrow> D | Inr D' \<Rightarrow> D')"
| "wf_step D (Forms_expired E) = fst (expire_forms E D)"
| "wf_step D (Taken_over E token i u) = fst (take_over E D token i u)"
| "wf_step D (Link_rotated E token i u) = fst (rotate_link E D token i u)"
| "wf_step D (Created E new token w u req) = fst (create_workflow E D new token w u req)"
| "wf_step D (Updated E token i u req) = fst (update_definition E D token i u req)"
| "wf_step D (Enabled E i u) = fst (enable E D i u)"
| "wf_step D (Disabled E i u) = fst (disable E D i u)"
| "wf_step D (Deleted E i u) = fst (delete_workflow E D i u)"
| "wf_step D (Lists_changed W) = D\<lparr>d_lists := W\<rparr>"

definition empty_db :: "world \<Rightarrow> wf_db" where
  "empty_db W = \<lparr>d_workflows = [], d_runs = [], d_steps = [], d_forms = [], d_messages = [], d_conversations = [],
     d_lists = W, d_unread = [], d_outbox = [], d_dispatched = [], d_hooks = [], d_notices = [], d_audit = []\<rparr>"

lemma case_trigger_Inr:
  assumes "(case t of Some (Shortcut c) \<Rightarrow> f c | _ \<Rightarrow> Inl e) = Inr x"
  obtains c where "t = Some (Shortcut c)" "f c = Inr x"
  using assms by (cases t) (auto split: Trigger.splits)

lemma case_webhook_Inr:
  assumes "(case t of Some (Webhook vs) \<Rightarrow> f vs | _ \<Rightarrow> Inl e) = Inr x"
  obtains vs where "t = Some (Webhook vs)" "f vs = Inr x"
  using assms by (cases t) (auto split: Trigger.splits)

lemma shortcut_queues:
  assumes "start_shortcut E D new drawn limit i u req = Inr (D', r)"
  shows "\<exists>w v key ctx. queue_run (we_now E) D new w v key ctx = Inr (D', r)"
  using assms unfolding start_shortcut_def
  by (auto elim!: case_trigger_Inr simp: Let_def simp del: lit_simps case_map_option split: if_splits) blast

lemma webhook_queues:
  assumes "workflow_webhook E D new l1 l2 req token body = Inr (D', r)"
  shows "\<exists>w v key ctx. queue_run (we_now E) D new w v key ctx = Inr (D', r)"
  using assms unfolding workflow_webhook_def
  by (auto elim!: case_webhook_Inr simp del: lit_simps case_map_option split: if_splits) blast

lemma start_ok:
  assumes ok: "wf_ok D"
  shows "new_to D new \<Longrightarrow> wf_ok (kept D (start_shortcut E D new drawn limit i u req))"
    "new_to D new \<Longrightarrow> wf_ok (kept D (workflow_webhook E D new l1 l2 req' token body))"
    "all_new D nw \<Longrightarrow> wf_ok (fst (handle_event E D nw within e ty payload))"
    "all_new D nw \<Longrightarrow> wf_ok (kept D (queue_due_schedules E D nw rfc))"
proof -
  assume "new_to D new"
  then have q: "queue_run now D new w v key ctx = Inr (D', r) \<Longrightarrow> wf_ok D'" for now w v key ctx D' r
    using queue_ok(1) ok by blast
  show "wf_ok (kept D (start_shortcut E D new drawn limit i u req))"
    using ok q by (auto simp: kept_def dest!: shortcut_queues split: sum.splits)
  show "wf_ok (kept D (workflow_webhook E D new l1 l2 req' token body))"
    using ok q by (auto simp: kept_def dest!: webhook_queues split: sum.splits)
next
  assume n: "all_new D nw"
  have sub: "set (listening D k c em) \<subseteq> set (d_workflows D)" for k c em by (auto simp: listening_def)
  have "wf_ok (fst (start_listeners E D nw within key ctx (listening D k c em)))" for key ctx k c em
    by (rule start_listeners_ok [OF ok]) (use n sub in \<open>unfold all_new_def, blast\<close>)
  then show "wf_ok (fst (handle_event E D nw within e ty payload))"
    using ok by (auto simp: handle_event_def Let_def split: option.splits prod.splits sum.splits) (metis fst_conv)+
  have "set (due_schedules_in now D k) \<subseteq> set (d_workflows D)" for now k
    by (auto simp: due_schedules_in_def dest!: in_set_takeD)
  then have "\<forall>w\<in>set (due_schedules_in now D k). new_to D (nw (wf_id w))" for now k using n by (auto simp: all_new_def)
  from queue_due_ok [OF _ ok this] show "wf_ok (kept D (queue_due_schedules E D nw rfc))"
    using ok by (auto simp: kept_def queue_due_schedules_def split: sum.splits)
qed

lemma rotate_token_ok:
  assumes ok: "wf_ok D"
  shows "wf_ok (fst (rotate_token now D i token))"
proof (rule wf_ok_view(1) [OF _ _ _ _ _ ok])
  show "small_definitions (fst (rotate_token now D i token))" if "small_definitions D"
    using that by (auto simp: small_definitions_def rotate_token_def update_rows_def Let_def)
qed (simp_all add: rotate_token_def Let_def finished_keys_def post_keys_def)

lemma insert_ok:
  assumes "insert_workflow nr now D new w by ck token s = Inr D'" and ok: "wf_ok D" and "length (steps (ck_definition ck)) \<le> MAX_STEPS"
  shows "wf_ok D'"
proof (rule wf_ok_view(1) [OF _ _ _ _ _ ok])
  show "d_runs D' = d_runs D" "d_forms D' = d_forms D" "finished_keys D' = finished_keys D" "post_keys D' = post_keys D"
    using assms(1) by (auto simp: insert_workflow_def finished_keys_def post_keys_def split: if_splits)
  show "small_definitions D'" if "small_definitions D"
    using assms(1,3) that unfolding insert_workflow_def small_definitions_def by (auto split: if_splits)
qed

lemma manage_ok:
  assumes ok: "wf_ok D"
  shows "wf_ok (fst (take_over E D token i u))" "wf_ok (fst (rotate_link E D token i u))"
    "wf_ok (fst (create_workflow E D new token w u req))" "wf_ok (fst (update_definition E D token i u req))"
    "wf_ok (fst (enable E D i u))" "wf_ok (fst (disable E D i u))" "wf_ok (fst (delete_workflow E D i u))"
proof -
  have set: "wf_ok (set_enabled nr now X i b s)" if "wf_ok X" for nr now X b s
    unfolding set_enabled_def by (rule on_workflow_ok) (auto simp: that)
  have own: "wf_ok (set_owner now D i u token)" for now
    unfolding set_owner_def by (rule on_workflow_ok) (auto simp: ok)
  have upd: "wf_ok (update_workflow now D i ck tok)" if "length (steps (ck_definition ck)) \<le> MAX_STEPS" for now ck tok
    unfolding update_workflow_def by (rule on_workflow_ok) (auto simp: ok that)
  show "wf_ok (fst (take_over E D token i u))"
    unfolding take_over_def by (rule guarded_ok [OF ok]) (simp add: audit_def own)
  show "wf_ok (fst (rotate_link E D token i u))"
    unfolding rotate_link_def
    by (rule guarded_ok [OF ok])
       (use ok rotate_token_ok [OF ok] in \<open>auto simp: audit_def split: prod.splits bool.splits\<close>, metis fst_conv)
  show "wf_ok (fst (create_workflow E D new token w u req))"
    unfolding create_workflow_def
    by (rule guarded_ok [OF ok]) (auto simp: Let_def intro: insert_ok [OF _ ok checked_small])
  show "wf_ok (fst (update_definition E D token i u req))"
    unfolding update_definition_def
    by (rule guarded_ok [OF ok]) (auto simp: Let_def audit_def intro!: set upd dest: checked_small)
  show "wf_ok (fst (enable E D i u))"
    unfolding enable_def by (rule guarded_ok [OF ok]) (auto simp: audit_def intro!: set ok)
  show "wf_ok (fst (disable E D i u))"
    unfolding disable_def by (rule guarded_ok [OF ok]) (auto simp: audit_def intro!: set ok)
  show "wf_ok (fst (delete_workflow E D i u))"
    unfolding delete_workflow_def by (rule guarded_ok [OF ok]) (auto simp: audit_def delete_row_ok [OF ok])
qed

lemma wf_step_ok: "wf_ok D \<Longrightarrow> wf_ok (wf_step D op)"
proof (cases op)
  case (Form_submitted E r p u given)
  then show "wf_ok D \<Longrightarrow> wf_ok (wf_step D op)" using submit_ok by (auto split: sum.splits)
next
  case (Lists_changed W)
  then show "wf_ok D \<Longrightarrow> wf_ok (wf_step D op)"
    by (simp add: wf_ok_def view_defs status_of_def small_definitions_def)
qed (simp_all add: start_ok manage_ok run_pending_ok died_ok expire_ok)

lemma empty_db_ok: "wf_ok (empty_db W)"
  by (simp add: wf_ok_def view_ok_def view_defs empty_db_def small_definitions_def)

interpretation workflows: stepped "empty_db W" wf_step wf_ok
  by unfold_locales (auto simp: empty_db_ok wf_step_ok)

end
