(* ===== verification/Workflow_Theorems.thy ===== *)
theory Workflow_Theorems
  imports Workflow_Check Workflow_Invariant
begin

text \<open>
  What the runner guarantees: no step posts twice, a run comes to an end, an event delivered again starts nothing, untrusted values never
  decide whom a message notifies, and the answers a form stores are of the kind its questions promise.
\<close>

section \<open>Once and for all\<close>


section \<open>A run comes to an end\<close>

definition unfinished :: "wf_db \<Rightarrow> uuid \<Rightarrow> nat" where
  "unfinished D r = card {n. n < MAX_STEPS \<and> (r, int n) \<notin> finished_keys D}"

text \<open>One round of a run that waits: it is executed, its form is answered, and it is claimed again.\<close>

definition round_trips :: "uuid \<Rightarrow> (wf_db \<times> wf_db) set" where
  "round_trips r = {(D', D). wf_ok D \<and> (\<exists>E ids rn E' p u given D1 now limit.
     run_of D r = Some rn \<and> run_status rn = StRunning
     \<and> submit_form E' (execute E D ids rn) r p u given = Inr D1 \<and> D' = fst (claim_runs now D1 limit))}"

lemma run_of_status:
  assumes "wf_ok D" and "run_of D r = Some rn"
  shows "run_id rn = r" "status_of D r = Some (run_status rn)"
proof -
  have "rn \<in> set (d_runs D)" "run_id rn = r" using assms(2) by (auto simp: run_of_def dest: find_Some_iff)
  then show "run_id rn = r" "status_of D r = Some (run_status rn)" using status_of_row [OF assms(1)] by auto
qed

lemma round_trip_progress:
  assumes "(D', D) \<in> round_trips r"
  shows "unfinished D' r < unfinished D r"
proof -
  obtain E ids rn E' p u given D1 now limit where ok: "wf_ok D" and rn: "run_of D r = Some rn" "run_status rn = StRunning"
    and s: "submit_form E' (execute E D ids rn) r p u given = Inr D1" and D': "D' = fst (claim_runs now D1 limit)"
    using assms by (auto simp: round_trips_def)
  have st: "status_of D (run_id rn) = Some StRunning" "\<not> halted StRunning"
    using run_of_status [OF ok rn(1)] rn(2) by (simp_all add: halted_def)
  let ?D = "execute E D ids rn"
  note e = execute_ok [OF ok st refl, where E = E and ids = ids]
  note v = submit_view [OF s]
  have "wf_ok D1" using submit_ok [OF e(1) s] .
  then have fin: "finished_keys D' = insert (r, p) (finished_keys ?D)"
    using claim_ok(4) [of D1 now limit] v(2) D' by (cases "claim_runs now D1 limit") auto
  have open': "(r, p) \<in> set (form_keys ?D)" "(r, p) \<notin> finished_keys ?D"
    using v(1) e(1) view_okD(3) by (auto simp: wf_ok_def)
  then obtain n where n: "n < MAX_STEPS" "p = int n" using e(1) by (force simp: wf_ok_def)
  have "{m. m < MAX_STEPS \<and> (r, int m) \<notin> finished_keys D'} \<subset> {m. m < MAX_STEPS \<and> (r, int m) \<notin> finished_keys D}"
    using fin e(2) n open' by blast
  then show ?thesis unfolding unfinished_def by (rule psubset_card_mono [rotated]) simp
qed


definition sample_run :: RunRow where
  "sample_run = \<lparr>run_id = 3, run_workflow_id = 8, run_version = 1, run_key = [], run_status = StRunning, run_context = JObject [],
     run_error = None, run_claimed_at = Some 0, run_started_at = 0, run_finished_at = None\<rparr>"

definition sample_workflow :: WorkflowRow where
  "sample_workflow = \<lparr>wf_id = 8, wf_workspace_id = 1, wf_name = lit ''Off'', wf_description = None, wf_created_by = 1,
     wf_definition = Some sample_definition, wf_version = 1, wf_enabled = False, wf_webhook_token = None,
     wf_next_run_at = None, wf_created_at = 0, wf_updated_at = 0\<rparr>"

definition sample_db :: "world \<Rightarrow> wf_db" where
  "sample_db W = (empty_db W)\<lparr>d_workflows := [sample_workflow], d_runs := [sample_run]\<rparr>"


section \<open>Untrusted values\<close>

lemma trusted_value:
  assumes person: "\<And>f. f \<in> set (fields_before (cx_definition cx) (length (steps (cx_definition cx)))) \<Longrightarrow> ff_kind f = PersonField \<Longrightarrow>
      json_at (json_at (run_context rn) (lit ''form'')) (ff_name f)
        = json_at (json_at (run_context (cx_run cx)) (lit ''form'')) (ff_name f)"
    and facts: "\<And>name. name \<noteq> lit ''trigger.message'' \<Longrightarrow> map_of (fired_values fd) name = map_of (fired_values (cx_fired cx)) name"
    and t: "trusted (cx_definition cx) name"
  shows "cx_value E (cx\<lparr>cx_run := rn, cx_fired := fd\<rparr>) name = cx_value E cx name"
proof -
  have "strip_prefix name (lit ''webhook.'') = None" "name \<noteq> lit ''trigger.message''"
    using t by (auto simp: trusted_def strip_prefix_def simp del: lit_simps split: if_splits)
  then show ?thesis
    using t person facts
    by (auto simp: cx_value_def trusted_def list_ex_iff simp del: lit_simps split: option.splits if_splits)
qed

text \<open>
  C33. Text from outside never decides whom a workflow's message notifies. Whatever a webhook sends, whatever the message says that
  was reacted to, and whatever is answered to questions of text, choice or date, the people a step's message counts as mentioned are the same: they depend
  on the text the author of the workflow wrote, on the facts of the trigger, and on the people named in answers to questions for a person.
\<close>

theorem untrusted_never_mention:
  assumes "\<And>f. f \<in> set (fields_before (cx_definition cx) (length (steps (cx_definition cx)))) \<Longrightarrow> ff_kind f = PersonField \<Longrightarrow>
      json_at (json_at (run_context rn) (lit ''form'')) (ff_name f)
        = json_at (json_at (run_context (cx_run cx)) (lit ''form'')) (ff_name f)"
    and "\<And>name. name \<noteq> lit ''trigger.message'' \<Longrightarrow> map_of (fired_values fd) name = map_of (fired_values (cx_fired cx)) name"
  shows "d_unread (fst (post_step E D ids (cx\<lparr>cx_run := rn, cx_fired := fd\<rparr>) by p c step))
    = d_unread (fst (post_step E D ids cx by p c step))"
proof -
  let ?cx = "cx\<lparr>cx_run := rn, cx_fired := fd\<rparr>"
  note same = trusted_value [OF assms]
  have "authored E ?cx t = authored E cx t" for t
    unfolding authored_def using same by (auto intro!: arg_cong [of _ _ "wf_render t"] simp: fun_eq_iff)
  moreover have "answers E ?cx n True = answers E cx n True" for n
    unfolding answers_def Let_def using same by auto
  ultimately have "fst (snd (step_content E ?cx p step)) = fst (snd (step_content E cx p step))"
    by (simp add: step_content_def Let_def)
  then show ?thesis
    by (auto simp: post_step_def create_bot_message_in_def wf_stage_def wf_dispatch_def Let_def split: prod.splits)
qed

definition sample_wf_env :: wf_env where
  "sample_wf_env = \<lparr>we_wf = sample_wf_ext,
     we_lists = \<lparr>e_ext = std_ext, e_as_f64 = (\<lambda>_. NaN), e_queries = queries_of sample_tables, e_tables = sample_tables,
       e_searchable = (\<lambda>_. []), e_now = 0\<rparr>,
     we_mentions = \<lparr>me_queries = queries_of sample_tables, list_channel_member_ids = (\<lambda>_. Inr []),
       online_user_ids = (\<lambda>_. {}), member_ids_for_groups = (\<lambda>_ _. Inr [])\<rparr>,
     we_alnum = is_ascii_alphanumeric, we_next_run = (\<lambda>_ _. None), we_share_a_channel = (\<lambda>_ _. Inr False),
     we_profile_name = (\<lambda>_ _. Inr None), we_find_message = (\<lambda>_. Inr None), we_timezone_exists = (\<lambda>_. Inr False),
     we_public_url = [], we_json_text = (\<lambda>_. [])\<rparr>"

definition sample_context :: Context where
  "sample_context = \<lparr>cx_workflow = sample_workflow, cx_run = sample_run, cx_definition = sample_definition,
     cx_fired = \<lparr>fired_user = None, fired_values = []\<rparr>\<rparr>"

theorem untrusted_never_mention_witness:
  "\<forall>W said ids. d_unread (fst (post_step sample_wf_env (sample_db W) ids
      (sample_context\<lparr>cx_run := sample_run\<lparr>run_context := JObject [(lit ''webhook'', JObject [(lit ''who'', JString said)])]\<rparr>,
        cx_fired := cx_fired sample_context\<rparr>) 1 0 7 (SendMessage 7 (lit ''{{webhook.who}}'') False)))
    = d_unread (fst (post_step sample_wf_env (sample_db W) ids sample_context 1 0 7 (SendMessage 7 (lit ''{{webhook.who}}'') False)))"
proof (intro allI)
  fix W said ids
  have "f \<in> set (fields_before (cx_definition sample_context) (length (steps (cx_definition sample_context)))) \<Longrightarrow> ff_kind f \<noteq> PersonField"
    for f by (auto simp: fields_before_def sample_context_def sample_definition_def)
  from untrusted_never_mention [of sample_context "sample_run\<lparr>run_context := JObject [(lit ''webhook'', JObject [(lit ''who'', JString said)])]\<rparr>"
      "cx_fired sample_context" sample_wf_env "sample_db W" ids 1 0 7 "SendMessage 7 (lit ''{{webhook.who}}'') False"] this
  show "d_unread (fst (post_step sample_wf_env (sample_db W) ids
      (sample_context\<lparr>cx_run := sample_run\<lparr>run_context := JObject [(lit ''webhook'', JObject [(lit ''who'', JString said)])]\<rparr>,
        cx_fired := cx_fired sample_context\<rparr>) 1 0 7 (SendMessage 7 (lit ''{{webhook.who}}'') False)))
    = d_unread (fst (post_step sample_wf_env (sample_db W) ids sample_context 1 0 7 (SendMessage 7 (lit ''{{webhook.who}}'') False)))"
    by blast
qed

section \<open>Events delivered again\<close>

lemma queued_keys:
  assumes "queue_run now D new w v key ctx = Inr (D', r)"
  shows "d_workflows D' = d_workflows D" "run_with_key D' w key \<noteq> None"
    "run_with_key D i k \<noteq> None \<Longrightarrow> run_with_key D' i k \<noteq> None"
  using assms by (auto simp: queue_run_def run_with_key_def find_None_iff dest: find_Some_iff split: option.splits if_splits)

lemma skipped_keys:
  assumes "skip_run now D new w v key ctx reason = Inr D'"
  shows "d_workflows D' = d_workflows D" "run_with_key D' w key \<noteq> None"
    "run_with_key D i k \<noteq> None \<Longrightarrow> run_with_key D' i k \<noteq> None"
  using assms by (auto simp: skip_run_def run_with_key_def find_None_iff dest: find_Some_iff split: option.splits if_splits)

lemma listeners_keys:
  assumes "start_listeners E D new within key ctx ws = (D1, Inr ())"
  shows "d_workflows D1 = d_workflows D \<and> (\<forall>w\<in>set ws. run_with_key D1 (wf_id w) key \<noteq> None)
    \<and> (\<forall>i. run_with_key D i key \<noteq> None \<longrightarrow> run_with_key D1 i key \<noteq> None)"
  using assms
proof (induction ws arbitrary: D)
  case (Cons w ws)
  then obtain D2 where "(\<exists>r. queue_run (we_now E) D (new (wf_id w)) (wf_id w) (wf_version w) key ctx = Inr (D2, r))
      \<or> skip_run (we_now E) D (new (wf_id w)) (wf_id w) (wf_version w) key ctx over_limit = Inr D2"
    and rest: "start_listeners E D2 new within key ctx ws = (D1, Inr ())"
    by (auto simp: guarded_def split: sum.splits if_splits)
  then consider (queued) r where "queue_run (we_now E) D (new (wf_id w)) (wf_id w) (wf_version w) key ctx = Inr (D2, r)"
    | (skipped) "skip_run (we_now E) D (new (wf_id w)) (wf_id w) (wf_version w) key ctx over_limit = Inr D2"
    by blast
  then have "d_workflows D2 = d_workflows D \<and> run_with_key D2 (wf_id w) key \<noteq> None
    \<and> (\<forall>i. run_with_key D i key \<noteq> None \<longrightarrow> run_with_key D2 i key \<noteq> None)"
  proof cases
    case queued
    then show ?thesis using queued_keys [OF queued] by auto
  next
    case skipped
    then show ?thesis using skipped_keys [OF skipped] by auto
  qed
  then show ?case using Cons.IH [OF rest] by auto
qed simp

lemma listeners_again:
  assumes "\<forall>w\<in>set ws. run_with_key D (wf_id w) key \<noteq> None"
  shows "start_listeners E D new within key ctx ws = (D, Inr ())"
  using assms by (induction ws) (auto simp: guarded_def queue_run_def skip_run_def split: option.splits)

lemma fired_event_ext: "we_ext E' = we_ext E \<Longrightarrow> fired_event E' ty pl = fired_event E ty pl"
  by (simp add: fired_event_def fact_id_def)

text \<open>
  C34. An event delivered again starts nothing. Once an event has been handled, handling it again changes no table and reports the same number of
  listeners, whatever the rate limiter says the second time and whatever identifiers are drawn: the trigger key made of the
  event's identifier stands for the run.
\<close>

theorem event_redelivered:
  assumes "handle_event E D new within event_id event_type payload = (D1, Inr n)" and X: "we_ext E' = we_ext E"
  shows "handle_event E' D1 new' within' event_id event_type payload = (D1, Inr n)"
proof (cases "fired_event E event_type payload")
  case None
  then show ?thesis using assms(1) fired_event_ext [OF X, of event_type payload] by (simp add: handle_event_def)
next
  case (Some f)
  have f': "fired_event E' event_type payload = Some f" using Some fired_event_ext [OF X] by simp
  let ?key = "lit ''event:'' @ uuid_str (we_ext E) event_id" and ?ws = "listening D (fe_kind f) (fe_channel_id f) (fe_emoji f)"
  obtain u where s: "start_listeners E D new within ?key
      (trigger_context E (fe_user_id f) (fe_channel_id f) (fe_message_id f)) ?ws = (D1, Inr u)" and n: "n = length ?ws"
    using assms(1) Some by (auto simp: handle_event_def Let_def simp del: lit_simps split: prod.splits sum.splits)
  from listeners_keys [of E D new within ?key _ ?ws D1] s
  have same: "d_workflows D1 = d_workflows D" and keys: "\<forall>w\<in>set ?ws. run_with_key D1 (wf_id w) ?key \<noteq> None" by auto
  have ws: "listening D1 (fe_kind f) (fe_channel_id f) (fe_emoji f) = ?ws" by (simp add: listening_def same)
  show ?thesis using listeners_again [OF keys] n f' by (simp add: handle_event_def Let_def ws X del: lit_simps)
qed

definition sample_joined :: json where
  "sample_joined = JObject [(lit ''channel_id'', JString (uuid_str std_ext 7)), (lit ''user_id'', JString (uuid_str std_ext 5))]"

definition sample_listener :: wf_db where
  "sample_listener = \<lparr>d_workflows = [sample_workflow\<lparr>wf_definition := Some \<lparr>trigger = MemberJoined 7, steps = []\<rparr>, wf_enabled := True\<rparr>],
     d_runs = [], d_steps = [], d_forms = [], d_messages = [], d_conversations = [],
     d_lists = \<lparr>w_store = \<lparr>s_lists = [], s_columns = [], s_views = [], s_items = [], s_comments = []\<rparr>, outbox = [],
       dispatched = [], due_synced = []\<rparr>, d_unread = [], d_outbox = [], d_dispatched = [], d_hooks = [], d_notices = [], d_audit = []\<rparr>"

theorem event_redelivered_witness:
  "\<exists>D1. length (d_runs D1) = 1
    \<and> handle_event sample_wf_env sample_listener (\<lambda>_. 9) (\<lambda>_. True) 4 (lit ''channel.member_joined'') sample_joined = (D1, Inr 1)
    \<and> handle_event sample_wf_env D1 (\<lambda>_. 10) (\<lambda>_. False) 4 (lit ''channel.member_joined'') sample_joined = (D1, Inr 1)"
proof -
  have "\<exists>D1. length (d_runs D1) = 1
    \<and> handle_event sample_wf_env sample_listener (\<lambda>_. 9) (\<lambda>_. True) 4 (lit ''channel.member_joined'') sample_joined = (D1, Inr 1)"
    by (simp add: handle_event_def fired_event_def fact_id_def sample_joined_def sample_wf_env_def listening_def
        sample_listener_def sample_workflow_def guarded_def queue_run_def run_with_key_def)
  then show ?thesis using event_redelivered [of sample_wf_env sample_listener "\<lambda>_. 9" "\<lambda>_. True" 4
        "lit ''channel.member_joined''" sample_joined _ 1 sample_wf_env "\<lambda>_. 10" "\<lambda>_. False"] by blast
qed

section \<open>Answers\<close>

context uuid_text
begin

lemma cell_person_mention: "cell_person X (lit ''@['' @ n @ lit '']('' @ uuid_str X u @ lit '')'') \<noteq> None"
proof -
  let ?s = "lit ''@['' @ n @ lit '']('' @ uuid_str X u @ lit '')''"
  have t: "trim ?s = ?s"
    unfolding trim_def by (simp add: trim_start_fixed trim_end_fixed char_class_defs)
  have "40 \<notin> set (uuid_str X u)" using uuid_chars [of 40 u] by (auto simp: char_class_defs)
  then have "split_at (rev (lit '')'') @ rev (uuid_str X u) @ rev (lit ''](''  ) @ rev n) (rev (lit ''](''))
      = Some (rev (lit '')'') @ rev (uuid_str X u), rev n)"
    using split_at_first [of "rev (lit ''](''  )" 40 "[93]" "rev (lit '')'') @ rev (uuid_str X u)" "rev n"] by simp
  then have "rsplit_at (n @ lit '']('' @ uuid_str X u @ lit '')'') (lit '']('') = Some (n, uuid_str X u @ lit '')'')"
    by (simp add: rsplit_at_def)
  moreover have "strip_prefix ?s (lit ''@['') = Some (n @ lit '']('' @ uuid_str X u @ lit '')'')"
    using strip_same(1) by blast
  moreover have "strip_suffix (uuid_str X u @ lit '')'') (lit '')'') = Some (uuid_str X u)" by (rule strip_same(2))
  ultimately show ?thesis
    unfolding cell_person_def t Let_def by (simp del: lit_simps split: option.splits)
qed

end

lemma checked_fields_keep:
  "checked_fields E w given acc fs = Inr as \<Longrightarrow> n \<notin> ff_name ` set fs \<Longrightarrow> map_of as n = map_of acc n"
  by (induction fs arbitrary: acc) (auto simp: labelled_def invalid_def Let_def update_conv split: if_splits)

lemma checked_fields_each:
  assumes "checked_fields E w given acc fs = Inr as" and "distinct (map ff_name fs)" and "f \<in> set fs"
  shows "\<exists>v. map_of as (ff_name f) = Some (JString v) \<and>
    (v = [] \<and> \<not> ff_required f \<or> (\<exists>a. a = trim a \<and> checked_answer E w f (ff_kind f) a = Inr v))"
  using assms
proof (induction fs arbitrary: acc)
  case (Cons g fs)
  let ?a = "case map_of given (ff_name g) of None \<Rightarrow> [] | Some x \<Rightarrow> trim x"
  have "trim [] = []" by (simp add: trim_Nil_iff)
  then have t: "?a = trim ?a" by (simp split: option.splits)
  obtain v where rest: "checked_fields E w given (AList.update (ff_name g) (JString v) acc) fs = Inr as"
    and v: "v = [] \<and> \<not> ff_required g \<or> checked_answer E w g (ff_kind g) ?a = Inr v"
    using Cons.prems(1) by (auto simp: labelled_def invalid_def Let_def split: if_splits)
  show ?case
  proof (cases "f = g")
    case True
    have "ff_name g \<notin> ff_name ` set fs" using Cons.prems(2) by simp
    from checked_fields_keep [OF rest this] have "map_of as (ff_name g) = Some (JString v)" by (simp add: update_conv)
    then show ?thesis using True v t by blast
  next
    case False
    then show ?thesis using Cons.IH [OF rest] Cons.prems(2,3) by simp
  qed
qed simp

lemma fields_before_sub:
  assumes "k < i" and "i \<le> length (steps d)" and "steps d ! k = Form to title fs"
  shows "set fs \<subseteq> set (fields_before d i)"
proof -
  have "steps d ! k \<in> set (take (min i (length (steps d))) (steps d))"
    using assms(1,2) by (auto simp: in_set_conv_nth intro!: exI [of _ k])
  then show ?thesis using assms(3) by (force simp: fields_before_def)
qed

lemma fields_before_distinct:
  assumes "check X d = Inr ()"
  shows "distinct (map ff_name (fields_before d i))"
proof -
  have "\<exists>rest. fields_before d (length (steps d)) = fields_before d i @ rest"
    unfolding fields_before_def min.idem
    by (metis append_take_drop_id concat_append map_append take_all order_refl)
  then show ?thesis using check_distinct [OF assms] by auto
qed

lemma form_fields_distinct:
  assumes "check X d = Inr ()" and "k < length (steps d)" and "steps d ! k = Form to title fs"
  shows "distinct (map ff_name fs)"
proof -
  have "fields_before d (Suc k) = fields_before d k @ fs"
    using assms(2,3) by (simp add: fields_before_def take_Suc_conv_app_nth min_def)
  then show ?thesis using fields_before_distinct [OF assms(1), of "Suc k"] by simp
qed

lemma variable_kind_field:
  assumes "check X d = Inr ()" and "f \<in> set (fields_before d i)"
  shows "variable_kind d i (form_variable f) = (case ff_kind f of PersonField \<Rightarrow> VPerson | DateField \<Rightarrow> VDate
    | SelectField \<Rightarrow> VChoice (ff_options f) | ShortText \<Rightarrow> VText | LongText \<Rightarrow> VText)"
proof -
  have "inj_on ff_name (set (fields_before d i))" using fields_before_distinct [OF assms(1)] by (simp add: distinct_map)
  then have "List.find (\<lambda>g. ff_name g = ff_name f) (fields_before d i) = Some f"
    by (intro find_unique) (auto simp: assms(2) dest: inj_onD)
  moreover have "form_variable f \<noteq> lit ''trigger.user''" by (simp add: form_variable_def)
  moreover have "strip_prefix (form_variable f) (lit ''form.'') = Some (ff_name f)"
    unfolding form_variable_def by (rule strip_same(1))
  ultimately show ?thesis unfolding variable_kind_def by (simp del: lit_simps)
qed

lemma checked_answer_conforms:
  assumes X: "uuid_text (we_ext E)" and dates: "\<And>d. trim (format_ymd (we_ext E) d) = format_ymd (we_ext E) d"
    and ok: "checked_answer E w f (ff_kind f) a = Inr v"
  shows "conforms (we_ext E) (case ff_kind f of PersonField \<Rightarrow> VPerson | DateField \<Rightarrow> VDate
    | SelectField \<Rightarrow> VChoice (ff_options f) | ShortText \<Rightarrow> VText | LongText \<Rightarrow> VText) v"
proof (cases "ff_kind f")
  case SelectField
  then show ?thesis using ok by (auto simp: list_ex_iff labelled_def invalid_def split: if_splits)
next
  case PersonField
  then obtain n p where "v = mention_text E n p"
    using ok by (auto simp: labelled_def invalid_def mention_of_def split: option.splits if_splits)
  then show ?thesis
    using PersonField uuid_text.cell_person_mention [OF X] by (simp add: mention_text_def del: lit_simps)
next
  case DateField
  then obtain d where "parse_ymd (we_ext E) a = Some d" "v = format_ymd (we_ext E) d"
    using ok by (auto simp: labelled_def invalid_def split: option.splits)
  then show ?thesis
    using DateField dates ext_laws.parse_print_date [OF uuid_text.axioms(1) [OF X]] by simp
qed simp_all

text \<open>
  C35. The answers a form stores are of the kind its questions promise. When a definition has passed the check and the answers to one of its forms are accepted, then
  every question of the form has a stored answer; it is empty only where none is required; and otherwise it conforms to the kind that
  \<open>variable_kind\<close> gives the variable in every later step: a person is a mention that reads back as a person, a date is a date, a choice is one of the options. Together
  with the soundness of cell templates, a checked workflow writes its answers to list columns without a type error. The printed form of a date must hold no
  surrounding white space, as the library documents.
\<close>

theorem form_answers_conform:
  assumes X: "uuid_text (we_ext E)" and dates: "\<And>d. trim (format_ymd (we_ext E) d) = format_ymd (we_ext E) d"
    and d: "check Y d = Inr ()" and form: "k < i" "i \<le> length (steps d)" "steps d ! k = Form to title fs"
    and ok: "checked_answers E w fs given = Inr as" and f: "f \<in> set fs"
  shows "\<exists>v. map_of as (ff_name f) = Some (JString v)
    \<and> (v = [] \<and> \<not> ff_required f \<or> conforms (we_ext E) (variable_kind d i (form_variable f)) v)"
proof -
  have "distinct (map ff_name fs)" using form_fields_distinct [OF d _ form(3)] form(1,2) by simp
  moreover have "checked_fields E w given [] fs = Inr as"
    using ok by (auto simp: checked_answers_def invalid_def split: option.splits)
  ultimately have "\<exists>v. map_of as (ff_name f) = Some (JString v) \<and>
      (v = [] \<and> \<not> ff_required f \<or> (\<exists>a. a = trim a \<and> checked_answer E w f (ff_kind f) a = Inr v))"
    using checked_fields_each [OF _ _ f, of E w given "[]" as] by simp
  then obtain v where v: "map_of as (ff_name f) = Some (JString v)"
    "v = [] \<and> \<not> ff_required f \<or> (\<exists>a. checked_answer E w f (ff_kind f) a = Inr v)"
    by blast
  have "f \<in> set (fields_before d i)" using fields_before_sub [OF form] f by blast
  note kind = variable_kind_field [OF d this]
  show ?thesis
  proof (intro exI [of _ v] conjI)
    show "v = [] \<and> \<not> ff_required f \<or> conforms (we_ext E) (variable_kind d i (form_variable f)) v"
      using v(2) checked_answer_conforms [OF X dates] unfolding kind by blast
  qed (rule v(1))
qed

theorem form_answers_conform_witness:
  "\<exists>v. map_of [(lit ''why'', JString (lit ''ill''))] (lit ''why'') = Some (JString v)
    \<and> (v = [] \<and> \<not> True \<or> conforms std_ext (variable_kind sample_definition 1 (lit ''form.why'')) v)"
proof -
  let ?f = "\<lparr>ff_name = lit ''why'', ff_label = lit ''Why'', ff_kind = ShortText, ff_options = [], ff_required = True\<rparr>"
  have X: "we_ext sample_wf_env = std_ext" by (simp add: sample_wf_env_def)
  have digit: "\<not> is_whitespace (48 + n mod 10)" for n
  proof -
    have "n mod 10 < 10" by simp
    then show ?thesis unfolding is_whitespace_def by linarith
  qed
  then have dates: "trim (format_ymd std_ext d) = format_ymd std_ext d" for d
    by (cases d) (simp add: std_ext_def print_ymd_def Let_def trim_def trim_start_fixed trim_end_fixed)
  have "checked_answers sample_wf_env 1 [?f] [(lit ''why'', lit ''ill'')] = Inr [(lit ''why'', JString (lit ''ill''))]"
    by (simp add: checked_answers_def trim_def trim_start_def trim_end_def char_class_defs SHORT_ANSWER_MAX_CHARS_def)
  moreover have "check sample_wf_ext sample_definition = Inr ()" by (rule sample_checked)
  moreover have "steps sample_definition ! 0 = Form TriggerUser (lit ''Off'') [?f]" "1 \<le> length (steps sample_definition)"
    by (simp_all add: sample_definition_def)
  ultimately show ?thesis
    using form_answers_conform [of sample_wf_env sample_wf_ext sample_definition 0 1 TriggerUser "lit ''Off''" "[?f]" 1
        "[(lit ''why'', lit ''ill'')]" "[(lit ''why'', JString (lit ''ill''))]" ?f]
      std_text.uuid_text_axioms dates X
    by (simp add: form_variable_def)
qed

end
