(* ===== verification/Outbox.thy ===== *)
theory Outbox
  imports List_Model Workspace
begin

text \<open>
  How events leave the service: \<open>src/backend/api/src/messaging/publisher.rs\<close> and \<open>outbox.rs\<close>, with \<open>Event\<close> of
  \<open>src/backend/shared/events/src/lib.rs\<close>. An event is written to the table \<open>event_outbox\<close> in the transaction of the rows it describes; after
  the commit it is emitted to Redis and its row is marked, and what that misses a relay emits later. Redis is outside the sources: each
  call carries the answers of its commands, and \<open>Redis\<close> records what was accepted (the trimming of a stream to about \<open>STREAM_MAXLEN\<close> entries
  is its own doing). Serialising an event does not fail.
\<close>

section \<open>Events\<close>

definition STREAM_MAXLEN :: nat where "STREAM_MAXLEN = 10000"

definition workspace_stream :: "ext \<Rightarrow> uuid \<Rightarrow> rstr" where
  "workspace_stream X w = lit ''stream:ws:'' @ uuid_str X w"

record Event =
  event_id :: uuid
  event_type :: rstr
  event_payload :: json
  event_timestamp :: timestamp
  event_stream_id :: "rstr option"

definition new_event :: "timestamp \<Rightarrow> uuid \<Rightarrow> rstr \<Rightarrow> json \<Rightarrow> Event" where
  "new_event now new ty payload =
     \<lparr>event_id = new, event_type = ty, event_payload = payload, event_timestamp = now, event_stream_id = None\<rparr>"

text \<open>\<open>event_type.split('.').next()\<close>, which always has a first part.\<close>

definition first_part :: "rstr \<Rightarrow> rstr" where
  "first_part s = takeWhile (\<lambda>c. c \<noteq> 46) s"

definition is_durable :: "rstr \<Rightarrow> bool" where
  "is_durable ty \<longleftrightarrow>
     (if ty \<in> set (map lit [''huddle.member_joined'', ''huddle.member_left'', ''huddle.ring'', ''channel.member_joined'',
          ''channel.read_state'', ''channel.created'', ''channel.updated'']) then True
      else first_part ty \<in> set (map lit [''message'', ''reaction'', ''workspace'', ''conversation'', ''list'']))"

section \<open>Redis\<close>

text \<open>A stream holds entries under identifiers Redis gives them; \<open>live\<close> is what was published to each channel.\<close>

record Redis =
  stream_index :: "rstr list"
  streams :: "(rstr \<times> rstr \<times> Event) list"
  live :: "(rstr \<times> Event) list"

record redis_answers =
  ra_sadd :: bool
  ra_xadd :: "rstr + rstr"
  ra_publish :: "rstr + unit"

definition publish_live :: "redis_answers \<Rightarrow> Redis \<Rightarrow> Event \<Rightarrow> Redis \<times> unit AppResult" where
  "publish_live a R ev =
     (case ra_publish a of
        Inl e \<Rightarrow> (R, Inl (Internal (lit ''Redis publish failed: '' @ e)))
      | Inr _ \<Rightarrow> (R\<lparr>live := live R @ [(lit ''events:'' @ first_part (event_type ev), ev)]\<rparr>, Inr ()))"

definition emit :: "ext \<Rightarrow> redis_answers \<Rightarrow> Redis \<Rightarrow> Event \<Rightarrow> uuid option \<Rightarrow> Redis \<times> unit AppResult" where
  "emit X a R ev workspace =
     (case (if is_durable (event_type ev) then workspace else None) of
        None \<Rightarrow> publish_live a R ev
      | Some w \<Rightarrow>
          let key = workspace_stream X w;
              R1 = (if ra_sadd a then R\<lparr>stream_index := push_new key (stream_index R)\<rparr> else R)
          in case ra_xadd a of
               Inl e \<Rightarrow> (R1, Inl (Internal (lit ''Redis XADD failed: '' @ e)))
             | Inr i \<Rightarrow>
                 publish_live a (R1\<lparr>streams := streams R1 @ [(key, i, ev)]\<rparr>) (ev\<lparr>event_stream_id := Some i\<rparr>))"

section \<open>The outbox\<close>

record OutboxRow =
  ob_id :: int
  ob_event_id :: uuid
  ob_event_type :: rstr
  ob_workspace_id :: uuid
  ob_payload :: json
  ob_created_at :: timestamp
  ob_claimed_at :: "timestamp option"
  ob_published_at :: "timestamp option"

record bus =
  outbox_rows :: "OutboxRow list"
  next_row :: int
  redis :: Redis

record StagedEvent =
  sg_row_id :: int
  sg_event :: Event
  sg_workspace_id :: uuid

definition stage_event :: "timestamp \<Rightarrow> bus \<Rightarrow> uuid \<Rightarrow> rstr \<Rightarrow> uuid \<Rightarrow> json \<Rightarrow> bus \<times> StagedEvent" where
  "stage_event now B new ty w payload =
     (let ev = new_event now new ty payload;
          row = \<lparr>ob_id = next_row B, ob_event_id = event_id ev, ob_event_type = event_type ev, ob_workspace_id = w,
                 ob_payload = event_payload ev, ob_created_at = event_timestamp ev, ob_claimed_at = None,
                 ob_published_at = None\<rparr>
      in (B\<lparr>outbox_rows := outbox_rows B @ [row], next_row := next_row B + 1\<rparr>,
          \<lparr>sg_row_id = ob_id row, sg_event = ev, sg_workspace_id = w\<rparr>))"

text \<open>Marking a row is best effort: \<open>marked\<close> says whether the statement went through.\<close>

definition mark_published :: "timestamp \<Rightarrow> bool \<Rightarrow> bus \<Rightarrow> int \<Rightarrow> bus" where
  "mark_published now marked B i =
     (if marked
      then B\<lparr>outbox_rows := update_rows (\<lambda>r. ob_id r = i) (\<lambda>r. r\<lparr>ob_published_at := Some now\<rparr>) (outbox_rows B)\<rparr>
      else B)"

definition dispatch_staged :: "ext \<Rightarrow> timestamp \<Rightarrow> redis_answers \<Rightarrow> bool \<Rightarrow> bus \<Rightarrow> StagedEvent \<Rightarrow> bus" where
  "dispatch_staged X now a marked B st =
     (case emit X a (redis B) (sg_event st) (Some (sg_workspace_id st)) of
        (R, Inr _) \<Rightarrow> mark_published now marked (B\<lparr>redis := R\<rparr>) (sg_row_id st)
      | (R, Inl e) \<Rightarrow> B\<lparr>redis := R\<rparr>)"

definition publish :: "ext \<Rightarrow> timestamp \<Rightarrow> redis_answers \<Rightarrow> bus \<Rightarrow> uuid \<Rightarrow> rstr \<Rightarrow> json \<Rightarrow> bus \<times> unit AppResult" where
  "publish X now a B new ty payload =
     (case emit X a (redis B) (new_event now new ty payload) None of (R, r) \<Rightarrow> (B\<lparr>redis := R\<rparr>, r))"

definition publish_scoped ::
  "ext \<Rightarrow> timestamp \<Rightarrow> redis_answers \<Rightarrow> bool \<Rightarrow> bus \<Rightarrow> uuid \<Rightarrow> rstr \<Rightarrow> uuid \<Rightarrow> json \<Rightarrow> bus \<times> unit AppResult" where
  "publish_scoped X now a marked B new ty w payload =
     (if \<not> is_durable ty
      then case emit X a (redis B) (new_event now new ty payload) (Some w) of (R, r) \<Rightarrow> (B\<lparr>redis := R\<rparr>, r)
      else case stage_event now B new ty w payload of
        (B1, st) \<Rightarrow> (dispatch_staged X now a marked B1 st, Inr ()))"

section \<open>The relay\<close>

definition BATCH :: nat where "BATCH = 100"
definition FAST_PATH_GRACE_SECS :: int where "FAST_PATH_GRACE_SECS = 5"
definition CLAIM_LEASE_SECS :: int where "CLAIM_LEASE_SECS = 60"
definition KEEP_PUBLISHED_HOURS :: int where "KEEP_PUBLISHED_HOURS = 24"

definition row_due :: "timestamp \<Rightarrow> OutboxRow \<Rightarrow> bool" where
  "row_due now r \<longleftrightarrow> ob_published_at r = None \<and> ob_created_at r < now - FAST_PATH_GRACE_SECS * SECOND
     \<and> (case ob_claimed_at r of None \<Rightarrow> True | Some t \<Rightarrow> t < now - CLAIM_LEASE_SECS * SECOND)"

definition claim_rows :: "timestamp \<Rightarrow> bus \<Rightarrow> bus \<times> OutboxRow list" where
  "claim_rows now B =
     (let ids = set (map ob_id (take BATCH (sort_key ob_id (filter (row_due now) (outbox_rows B)))))
      in (B\<lparr>outbox_rows := update_rows (\<lambda>r. ob_id r \<in> ids) (\<lambda>r. r\<lparr>ob_claimed_at := Some now\<rparr>) (outbox_rows B)\<rparr>,
          filter (\<lambda>r. ob_id r \<in> ids) (outbox_rows B)))"

definition event_of :: "OutboxRow \<Rightarrow> Event" where
  "event_of r = \<lparr>event_id = ob_event_id r, event_type = ob_event_type r, event_payload = ob_payload r,
     event_timestamp = ob_created_at r, event_stream_id = None\<rparr>"

fun relay_rows ::
  "ext \<Rightarrow> timestamp \<Rightarrow> (int \<Rightarrow> redis_answers) \<Rightarrow> (int \<Rightarrow> bool) \<Rightarrow> bus \<Rightarrow> OutboxRow list \<Rightarrow> bus \<times> nat" where
  "relay_rows X now a marked B [] = (B, 0)"
| "relay_rows X now a marked B (row # rows) =
     (case emit X (a (ob_id row)) (redis B) (event_of row) (Some (ob_workspace_id row)) of
        (R, Inr _) \<Rightarrow>
          (case relay_rows X now a marked (mark_published now (marked (ob_id row)) (B\<lparr>redis := R\<rparr>) (ob_id row)) rows of
             (B1, n) \<Rightarrow> (B1, Suc n))
      | (R, Inl e) \<Rightarrow> relay_rows X now a marked (B\<lparr>redis := R\<rparr>) rows)"

text \<open>The statement deletes at most a thousand old rows, those a scan of the table meets first.\<close>

definition prune_rows :: "timestamp \<Rightarrow> bus \<Rightarrow> bus" where
  "prune_rows now B =
     (let old = (\<lambda>r. case ob_published_at r of None \<Rightarrow> False | Some t \<Rightarrow> t < now - KEEP_PUBLISHED_HOURS * 3600 * SECOND);
          ids = set (map ob_id (take 1000 (filter old (outbox_rows B))))
      in B\<lparr>outbox_rows := filter (\<lambda>r. ob_id r \<notin> ids) (outbox_rows B)\<rparr>)"

definition relay_once ::
  "ext \<Rightarrow> timestamp \<Rightarrow> (int \<Rightarrow> redis_answers) \<Rightarrow> (int \<Rightarrow> bool) \<Rightarrow> bus \<Rightarrow> bus \<times> nat" where
  "relay_once X now a marked B =
     (case claim_rows now B of (B1, due) \<Rightarrow>
        (case relay_rows X now a marked B1 due of (B2, n) \<Rightarrow> (prune_rows now B2, n)))"

end
