(* ===== verification/Outbox_Theorems.thy ===== *)
theory Outbox_Theorems
  imports Outbox
begin

text \<open>
  The outbox delivers at least once. The machine takes every way an event is staged, dispatched or relayed, with any answers of Redis and
  with a relay that dies after any number of rows. An event that was staged is on its way (its row waits) or it has arrived, and a relay
  that reaches Redis empties the table.
\<close>

section \<open>The machine\<close>

definition staged_of :: "OutboxRow \<Rightarrow> StagedEvent" where
  "staged_of r = \<lparr>sg_row_id = ob_id r, sg_event = event_of r, sg_workspace_id = ob_workspace_id r\<rparr>"

definition relay_died ::
  "ext \<Rightarrow> timestamp \<Rightarrow> (int \<Rightarrow> redis_answers) \<Rightarrow> (int \<Rightarrow> bool) \<Rightarrow> nat \<Rightarrow> bus \<Rightarrow> bus" where
  "relay_died X now a marked k B =
     (case claim_rows now B of (B1, due) \<Rightarrow> fst (relay_rows X now a marked B1 (take k due)))"

text \<open>A staged event is dispatched by whoever staged it, so \<open>Dispatch\<close> names the row.\<close>

datatype bus_op =
    Stage timestamp uuid rstr uuid json
  | Dispatch timestamp int redis_answers bool
  | Publish timestamp uuid rstr json redis_answers
  | Scoped timestamp uuid rstr uuid json redis_answers bool
  | Relay timestamp "int \<Rightarrow> redis_answers" "int \<Rightarrow> bool"
  | RelayDied timestamp "int \<Rightarrow> redis_answers" "int \<Rightarrow> bool" nat

fun bus_step :: "ext \<Rightarrow> bus \<Rightarrow> bus_op \<Rightarrow> bus" where
  "bus_step X B (Stage now new ty w payload) = fst (stage_event now B new ty w payload)"
| "bus_step X B (Dispatch now i a marked) =
     (case List.find (\<lambda>r. ob_id r = i) (outbox_rows B) of
        None \<Rightarrow> B | Some r \<Rightarrow> dispatch_staged X now a marked B (staged_of r))"
| "bus_step X B (Publish now new ty payload a) = fst (publish X now a B new ty payload)"
| "bus_step X B (Scoped now new ty w payload a marked) = fst (publish_scoped X now a marked B new ty w payload)"
| "bus_step X B (Relay now a marked) = fst (relay_once X now a marked B)"
| "bus_step X B (RelayDied now a marked k) = relay_died X now a marked k B"

definition new_bus :: bus where
  "new_bus = \<lparr>outbox_rows = [], next_row = 1, redis = \<lparr>stream_index = [], streams = [], live = []\<rparr>\<rparr>"

section \<open>On its way or arrived\<close>

definition arrived :: "ext \<Rightarrow> Redis \<Rightarrow> StagedEvent \<Rightarrow> bool" where
  "arrived X R st \<longleftrightarrow> (\<exists>sid. (lit ''events:'' @ first_part (event_type (sg_event st)), (sg_event st)\<lparr>event_stream_id := sid\<rparr>) \<in> set (live R)
     \<and> (is_durable (event_type (sg_event st)) \<longrightarrow>
          (\<exists>i. sid = Some i \<and> (workspace_stream X (sg_workspace_id st), i, sg_event st) \<in> set (streams R))))"

definition waiting :: "bus \<Rightarrow> StagedEvent \<Rightarrow> bool" where
  "waiting B st \<longleftrightarrow> (\<exists>r\<in>set (outbox_rows B). staged_of r = st \<and> ob_published_at r = None)"

definition bus_ok :: "ext \<Rightarrow> bus \<Rightarrow> bool" where
  "bus_ok X B \<longleftrightarrow> distinct (map ob_id (outbox_rows B)) \<and> (\<forall>r\<in>set (outbox_rows B). ob_id r < next_row B)
     \<and> (\<forall>r\<in>set (outbox_rows B). ob_published_at r \<noteq> None \<longrightarrow> arrived X (redis B) (staged_of r))"

definition keeps :: "ext \<Rightarrow> bus \<Rightarrow> bus \<Rightarrow> bool" where
  "keeps X B B' \<longleftrightarrow> (bus_ok X B \<longrightarrow> bus_ok X B'
     \<and> (\<forall>st. waiting B st \<or> arrived X (redis B) st \<longrightarrow> waiting B' st \<or> arrived X (redis B') st))"

lemma keeps_refl [simp]: "keeps X B B"
  by (simp add: keeps_def)

lemma keeps_trans: "keeps X B B1 \<Longrightarrow> keeps X B1 B2 \<Longrightarrow> keeps X B B2"
  by (auto simp: keeps_def)

lemma staged_of_simps [simp]:
  "staged_of (r\<lparr>ob_claimed_at := c\<rparr>) = staged_of r" "staged_of (r\<lparr>ob_published_at := p\<rparr>) = staged_of r"
  by (simp_all add: staged_of_def event_of_def)

lemma staged_of_id [simp]: "sg_row_id (staged_of r) = ob_id r"
  by (simp add: staged_of_def)

section \<open>Redis only grows\<close>

definition grows :: "Redis \<Rightarrow> Redis \<Rightarrow> bool" where
  "grows R R' \<longleftrightarrow> set (streams R) \<subseteq> set (streams R') \<and> set (live R) \<subseteq> set (live R')"

lemma arrived_grows: "arrived X R st \<Longrightarrow> grows R R' \<Longrightarrow> arrived X R' st"
  by (fastforce simp: arrived_def grows_def)

lemma emit_grows: "grows R (fst (emit X a R ev w))"
  by (auto simp: emit_def publish_live_def grows_def Let_def split: option.splits sum.splits)

lemma emit_arrives:
  assumes "emit X a R (sg_event st) (Some (sg_workspace_id st)) = (R', Inr u)" and "event_stream_id (sg_event st) = None"
  shows "arrived X R' st"
proof (cases "is_durable (event_type (sg_event st))")
  case True
  then obtain i where "R' = fst (emit X a R (sg_event st) (Some (sg_workspace_id st)))" "ra_xadd a = Inr i" "ra_publish a = Inr ()"
    using assms(1) by (auto simp: emit_def publish_live_def Let_def split: sum.splits)
  then show ?thesis using True unfolding arrived_def
    by (intro exI [of _ "Some i"]) (simp add: emit_def publish_live_def Let_def)
next
  case False
  then have "R' = R\<lparr>live := live R @ [(lit ''events:'' @ first_part (event_type (sg_event st)), sg_event st)]\<rparr>"
    using assms(1) by (auto simp: emit_def publish_live_def simp del: lit_simps split: sum.splits)
  moreover have "(sg_event st)\<lparr>event_stream_id := None\<rparr> = sg_event st" using assms(2) by simp
  ultimately show ?thesis using False unfolding arrived_def by (intro exI [of _ None]) simp
qed

lemma keeps_redis: "grows (redis B) R \<Longrightarrow> keeps X B (B\<lparr>redis := R\<rparr>)"
  by (auto simp: keeps_def bus_ok_def waiting_def dest: arrived_grows)

lemma keeps_emit: "keeps X B (B\<lparr>redis := fst (emit X a (redis B) ev w)\<rparr>)"
  by (rule keeps_redis [OF emit_grows])

section \<open>Statements on the outbox\<close>

lemma waiting_stage: "waiting (fst (stage_event now B new ty w payload)) (snd (stage_event now B new ty w payload))"
  by (simp add: waiting_def stage_event_def staged_of_def event_of_def new_event_def)

lemma keeps_stage: "keeps X B (fst (stage_event now B new ty w payload))"
  by (fastforce simp: keeps_def bus_ok_def waiting_def stage_event_def Let_def)

lemma bus_ok_id:
  assumes "bus_ok X B" and "r \<in> set (outbox_rows B)" and "r' \<in> set (outbox_rows B)" and "ob_id r = ob_id r'"
  shows "r = r'"
  using assms by (auto simp: bus_ok_def distinct_map dest: inj_onD)

lemma keeps_mark:
  assumes "\<And>r. r \<in> set (outbox_rows B) \<Longrightarrow> ob_id r = i \<Longrightarrow> arrived X (redis B) (staged_of r)"
  shows "keeps X B (mark_published now marked B i)"
proof (cases marked)
  case True
  let ?B = "mark_published now marked B i"
  have rows: "outbox_rows ?B = update_rows (\<lambda>r. ob_id r = i) (\<lambda>r. r\<lparr>ob_published_at := Some now\<rparr>) (outbox_rows B)"
    and same: "redis ?B = redis B" "next_row ?B = next_row B"
    using True by (simp_all add: mark_published_def)
  have "bus_ok X ?B" if "bus_ok X B"
    using that assms by (auto simp: bus_ok_def rows same set_update_rows distinct_map_update_rows split: if_splits)
  moreover have "waiting ?B st \<or> arrived X (redis ?B) st" if "waiting B st" for st
    using that assms unfolding waiting_def rows same set_update_rows by force
  ultimately show ?thesis by (auto simp: keeps_def same)
qed (simp add: mark_published_def)

lemma keeps_claim: "keeps X B (fst (claim_rows now B))"
proof -
  define I where "I = set (map ob_id (take BATCH (sort_key ob_id (filter (row_due now) (outbox_rows B)))))"
  let ?B = "fst (claim_rows now B)"
  have rows: "outbox_rows ?B = update_rows (\<lambda>r. ob_id r \<in> I) (\<lambda>r. r\<lparr>ob_claimed_at := Some now\<rparr>) (outbox_rows B)"
    and same: "redis ?B = redis B" "next_row ?B = next_row B"
    by (simp_all add: claim_rows_def I_def Let_def)
  have "bus_ok X ?B" if "bus_ok X B"
    using that by (auto simp: bus_ok_def rows same set_update_rows distinct_map_update_rows split: if_splits)
  moreover have "waiting ?B st" if "waiting B st" for st
  proof -
    obtain r where r: "r \<in> set (outbox_rows B)" "staged_of r = st" "ob_published_at r = None" using \<open>waiting B st\<close> by (auto simp: waiting_def)
    then have "(if ob_id r \<in> I then r\<lparr>ob_claimed_at := Some now\<rparr> else r) \<in> set (outbox_rows ?B)"
      unfolding rows set_update_rows by blast
    then show ?thesis using r unfolding waiting_def by (rule_tac bexI) auto
  qed
  ultimately show ?thesis by (auto simp: keeps_def same)
qed

lemma keeps_prune: "keeps X B (prune_rows now B)"
proof -
  have gone: "ob_published_at r \<noteq> None" if ok: "bus_ok X B" and r: "r \<in> set (outbox_rows B)" "r \<notin> set (outbox_rows (prune_rows now B))" for r
  proof -
    obtain r' where "r' \<in> set (outbox_rows B)" "ob_id r = ob_id r'" "ob_published_at r' \<noteq> None"
      using r by (auto simp: prune_rows_def Let_def dest!: in_set_takeD split: option.splits)
    then show ?thesis using bus_ok_id [OF ok r(1)] by metis
  qed
  have rows: "set (outbox_rows (prune_rows now B)) \<subseteq> set (outbox_rows B)" and same: "redis (prune_rows now B) = redis B" "next_row (prune_rows now B) = next_row B"
    by (auto simp: prune_rows_def Let_def)
  have "bus_ok X (prune_rows now B)" if "bus_ok X B"
    using that rows by (auto simp: bus_ok_def same subset_iff) (simp add: prune_rows_def Let_def distinct_map_filter)
  moreover have "waiting (prune_rows now B) st" if "bus_ok X B" "waiting B st" for st
    using that gone [OF that(1)] unfolding waiting_def by metis
  ultimately show ?thesis by (auto simp: keeps_def same)
qed

lemma mark_published_simps [simp]:
  "redis (mark_published now marked B i) = redis B"
  by (simp add: mark_published_def)

lemma mark_published_rows:
  "r \<in> set (outbox_rows (mark_published now marked B i)) \<Longrightarrow> \<exists>r'\<in>set (outbox_rows B). staged_of r = staged_of r'"
  by (auto simp: mark_published_def set_update_rows split: if_splits)

lemma keeps_emit_mark:
  assumes "emit X a (redis B) (sg_event st) (Some (sg_workspace_id st)) = (R, Inr u)" and "event_stream_id (sg_event st) = None"
    and "\<And>r. r \<in> set (outbox_rows B) \<Longrightarrow> ob_id r = sg_row_id st \<Longrightarrow> staged_of r = st"
  shows "keeps X B (mark_published now marked (B\<lparr>redis := R\<rparr>) (sg_row_id st))"
proof (rule keeps_trans [OF keeps_redis keeps_mark])
  show "grows (redis B) R" using emit_grows [of "redis B" X a "sg_event st" "Some (sg_workspace_id st)"] assms(1) by simp
  show "arrived X (redis (B\<lparr>redis := R\<rparr>)) (staged_of r)"
    if "r \<in> set (outbox_rows (B\<lparr>redis := R\<rparr>))" "ob_id r = sg_row_id st" for r
    using that assms(3) emit_arrives [OF assms(1,2)] by simp
qed

lemma staged_of_parts [simp]:
  "sg_event (staged_of r) = event_of r" "sg_workspace_id (staged_of r) = ob_workspace_id r" "event_stream_id (event_of r) = None"
  by (simp_all add: staged_of_def event_of_def)

lemma keeps_relay_rows:
  assumes "\<And>row r. row \<in> set rows \<Longrightarrow> r \<in> set (outbox_rows B) \<Longrightarrow> ob_id r = ob_id row \<Longrightarrow> staged_of r = staged_of row"
  shows "keeps X B (fst (relay_rows X now a marked B rows))"
  using assms
proof (induction rows arbitrary: B)
  case (Cons row rows)
  obtain R v where e: "emit X (a (ob_id row)) (redis B) (event_of row) (Some (ob_workspace_id row)) = (R, v)"
    by (cases "emit X (a (ob_id row)) (redis B) (event_of row) (Some (ob_workspace_id row))")
  show ?case
  proof (cases v)
    case (Inl x)
    have "keeps X B (B\<lparr>redis := R\<rparr>)"
      using keeps_emit [of X B "a (ob_id row)" "event_of row" "Some (ob_workspace_id row)"] e by simp
    moreover have "keeps X (B\<lparr>redis := R\<rparr>) (fst (relay_rows X now a marked (B\<lparr>redis := R\<rparr>) rows))"
      using Cons.prems by (intro Cons.IH) simp
    ultimately show ?thesis using e Inl by (auto intro: keeps_trans)
  next
    case (Inr u)
    let ?B = "mark_published now (marked (ob_id row)) (B\<lparr>redis := R\<rparr>) (ob_id row)"
    have "keeps X B ?B"
      using keeps_emit_mark [of X "a (ob_id row)" B "staged_of row" R u] e Inr Cons.prems [of row] by simp
    moreover have "keeps X ?B (fst (relay_rows X now a marked ?B rows))"
    proof (rule Cons.IH)
      fix row' r
      assume r: "row' \<in> set rows" "r \<in> set (outbox_rows ?B)" "ob_id r = ob_id row'"
      obtain r' where r': "r' \<in> set (outbox_rows B)" "staged_of r = staged_of r'" using mark_published_rows [OF r(2)] by auto
      then have "ob_id r' = ob_id row'" using r(3) staged_of_id by metis
      then show "staged_of r = staged_of row'" using Cons.prems [of row' r'] r(1) r' by simp
    qed
    ultimately show ?thesis using e Inr by (auto simp: split_def intro: keeps_trans)
  qed
qed simp

section \<open>Every step keeps what was staged\<close>

lemma keeps_relayed:
  assumes "bus_ok X B" and "set rows \<subseteq> set (snd (claim_rows now B))"
  shows "keeps X (fst (claim_rows now B)) (fst (relay_rows X now a marked (fst (claim_rows now B)) rows))"
proof (rule keeps_relay_rows)
  fix row r
  assume "row \<in> set rows" and r: "r \<in> set (outbox_rows (fst (claim_rows now B)))" "ob_id r = ob_id row"
  then have row: "row \<in> set (outbox_rows B)" using assms(2) by (auto simp: claim_rows_def Let_def)
  obtain r' where "r' \<in> set (outbox_rows B)" "staged_of r = staged_of r'" "ob_id r = ob_id r'"
    using r(1) by (auto simp: claim_rows_def Let_def set_update_rows split: if_splits)
  then show "staged_of r = staged_of row" using bus_ok_id [OF assms(1) _ row] r(2) by metis
qed

lemma keeps_dispatch:
  assumes "\<And>r. r \<in> set (outbox_rows B) \<Longrightarrow> ob_id r = sg_row_id st \<Longrightarrow> staged_of r = st" and "event_stream_id (sg_event st) = None"
  shows "keeps X B (dispatch_staged X now a marked B st)"
proof (cases "emit X a (redis B) (sg_event st) (Some (sg_workspace_id st))")
  case (Pair R v)
  show ?thesis
    using keeps_emit [of X B a "sg_event st" "Some (sg_workspace_id st)"] keeps_emit_mark [OF _ assms(2,1)] Pair
    by (cases v) (auto simp: dispatch_staged_def)
qed

lemma staged_row:
  assumes "bus_ok X B" and "r \<in> set (outbox_rows (fst (stage_event now B new ty w payload)))"
    and "ob_id r = sg_row_id (snd (stage_event now B new ty w payload))"
  shows "staged_of r = snd (stage_event now B new ty w payload)"
  using assms by (auto simp: stage_event_def staged_of_def event_of_def new_event_def bus_ok_def Let_def)

lemma bus_step_keeps:
  assumes "bus_ok X B"
  shows "keeps X B (bus_step X B op)"
proof (cases op)
  case (Dispatch now i a marked)
  show ?thesis
  proof (cases "List.find (\<lambda>r. ob_id r = i) (outbox_rows B)")
    case (Some x)
    then have "staged_of r = staged_of x" if "r \<in> set (outbox_rows B)" "ob_id r = ob_id x" for r
      using bus_ok_id [OF assms that(1), of x] that(2) by (auto dest!: find_Some_iff)
    then show ?thesis using Some Dispatch by (auto intro!: keeps_dispatch)
  qed (simp add: Dispatch)
next
  case (Publish now new ty payload a)
  then show ?thesis using keeps_emit [of X B a "new_event now new ty payload" None] by (simp add: publish_def split_def)
next
  case (Scoped now new ty w payload a marked)
  let ?s = "stage_event now B new ty w payload"
  have "keeps X (fst ?s) (dispatch_staged X now a marked (fst ?s) (snd ?s))"
    by (rule keeps_dispatch) (auto intro: staged_row [OF assms], simp add: stage_event_def new_event_def Let_def)
  from keeps_trans [OF keeps_stage this] show ?thesis using Scoped keeps_emit [of X B a "new_event now new ty payload" "Some w"]
    by (simp add: publish_scoped_def split_def)
next
  case (Relay now a marked)
  then show ?thesis using keeps_trans [OF keeps_trans [OF keeps_claim keeps_relayed [OF assms order_refl]] keeps_prune]
    by (simp add: relay_once_def split_def)
next
  case (RelayDied now a marked k)
  then show ?thesis using keeps_trans [OF keeps_claim keeps_relayed [OF assms set_take_subset]]
    by (simp add: relay_died_def split_def)
qed (simp add: keeps_stage)

interpretation events: stepped new_bus "bus_step X" "bus_ok X"
proof
  show "bus_ok X new_bus" by (simp add: bus_ok_def new_bus_def)
  show "bus_ok X (bus_step X B op)" if "bus_ok X B" for B op
    using bus_step_keeps [OF that] that by (simp add: keeps_def)
qed

lemma run_keeps:
  assumes "bus_ok X B"
  shows "keeps X B (run (bus_step X) B ops)"
  using assms
proof (induction ops arbitrary: B)
  case (Cons op ops)
  then show ?case using bus_step_keeps [OF Cons.prems] events.inv_step [OF Cons.prems] by (auto intro: keeps_trans)
qed simp

text \<open>
  C36. No event is lost. Whatever was staged, dispatched, relayed and pruned before and after, with Redis failing at any command, marks that
  do not go through and relays that die half way: an event that was staged has either arrived (it was published to the live channel of its kind
  and, when it is durable, it stands in the log of its workspace under the identifier the live copy carries), or its row still waits in the outbox, unmarked.
\<close>

theorem staged_events_arrive:
  "case stage_event now (run (bus_step X) new_bus before) new ty w payload of
     (B, st) \<Rightarrow> waiting (run (bus_step X) B after) st \<or> arrived X (redis (run (bus_step X) B after)) st"
proof -
  let ?B = "run (bus_step X) new_bus before" and ?s = "stage_event now (run (bus_step X) new_bus before) new ty w payload"
  have "bus_ok X (fst ?s)" using keeps_stage events.inv_run [of X before] by (auto simp: keeps_def)
  then have "waiting (run (bus_step X) (fst ?s) after) st \<or> arrived X (redis (run (bus_step X) (fst ?s) after)) st"
    if "waiting (fst ?s) st" for st using run_keeps [of X "fst ?s" after] that by (auto simp: keeps_def)
  then show ?thesis using waiting_stage [of now ?B new ty w payload] by (simp add: split_def)
qed

section \<open>The relay empties the outbox\<close>

definition pending :: "bus \<Rightarrow> OutboxRow list" where
  "pending B = filter (\<lambda>r. ob_published_at r = None) (outbox_rows B)"

definition reaches :: "redis_answers \<Rightarrow> bool" where
  "reaches a \<longleftrightarrow> (\<exists>i. ra_xadd a = Inr i) \<and> ra_publish a = Inr ()"

lemma emit_reaches: "reaches a \<Longrightarrow> snd (emit X a R ev w) = Inr ()"
  by (auto simp: reaches_def emit_def publish_live_def Let_def split: option.splits)

lemma relay_rows_marks:
  assumes "\<And>i. reaches (a i)"
  shows "outbox_rows (fst (relay_rows X now a (\<lambda>_. True) B rows)) =
    update_rows (\<lambda>r. ob_id r \<in> ob_id ` set rows) (\<lambda>r. r\<lparr>ob_published_at := Some now\<rparr>) (outbox_rows B)"
proof (induction rows arbitrary: B)
  case Nil
  then show ?case by (simp add: update_rows_def)
next
  case (Cons row rows)
  obtain R where "emit X (a (ob_id row)) (redis B) (event_of row) (Some (ob_workspace_id row)) = (R, Inr ())"
    using emit_reaches [OF assms] by (metis surjective_pairing)
  then show ?case by (auto simp: Cons split_def mark_published_def update_rows_def)
qed

lemma pending_prune:
  assumes "bus_ok X B"
  shows "pending (prune_rows now B) = pending B"
proof -
  define old :: "OutboxRow \<Rightarrow> bool" where "old = (\<lambda>r. case ob_published_at r of None \<Rightarrow> False | Some t \<Rightarrow> t < now - KEEP_PUBLISHED_HOURS * 3600 * SECOND)"
  define I where "I = set (map ob_id (take 1000 (filter old (outbox_rows B))))"
  have "ob_id r \<notin> I" if r: "r \<in> set (outbox_rows B)" "ob_published_at r = None" for r
  proof
    assume "ob_id r \<in> I"
    then obtain x where "x \<in> set (outbox_rows B)" "old x" "ob_id r = ob_id x" by (auto simp: I_def dest!: in_set_takeD)
    then show False using bus_ok_id [OF assms r(1)] r(2) by (auto simp: old_def)
  qed
  moreover have "prune_rows now B = B\<lparr>outbox_rows := filter (\<lambda>r. ob_id r \<notin> I) (outbox_rows B)\<rparr>"
    unfolding prune_rows_def I_def old_def Let_def ..
  ultimately show ?thesis by (auto simp: pending_def intro!: filter_cong)
qed

lemma pending_marked:
  assumes "\<And>r. r \<in> set rows \<Longrightarrow> ob_id r \<in> J \<longleftrightarrow> ob_id r \<in> I"
  shows "filter (\<lambda>r. ob_published_at r = None) (update_rows (\<lambda>r. ob_id r \<in> J) (\<lambda>r. r\<lparr>ob_published_at := Some now\<rparr>)
      (update_rows (\<lambda>r. ob_id r \<in> I) (\<lambda>r. r\<lparr>ob_claimed_at := Some now\<rparr>) rows))
    = filter (\<lambda>r. ob_id r \<notin> I) (filter (\<lambda>r. ob_published_at r = None) rows)"
  using assms by (induction rows) (auto simp: update_rows_def)

lemma relay_round:
  assumes ok: "bus_ok X B" and due: "\<And>r. r \<in> set (pending B) \<Longrightarrow> row_due now r" and a: "\<And>i. reaches (a i)"
  defines "B' \<equiv> fst (relay_once X now a (\<lambda>_. True) B)"
  shows "set (pending B') \<subseteq> set (pending B)" and "length (pending B') = length (pending B) - BATCH"
proof -
  define I where "I = set (map ob_id (take BATCH (sort_key ob_id (pending B))))"
  have "filter (row_due now) (outbox_rows B) = pending B"
    using due by (auto simp: pending_def row_due_def intro!: filter_cong)
  then have claimed: "snd (claim_rows now B) = filter (\<lambda>r. ob_id r \<in> I) (outbox_rows B)"
    "outbox_rows (fst (claim_rows now B)) = update_rows (\<lambda>r. ob_id r \<in> I) (\<lambda>r. r\<lparr>ob_claimed_at := Some now\<rparr>) (outbox_rows B)"
    by (simp_all add: claim_rows_def Let_def I_def)
  let ?C = "fst (relay_rows X now a (\<lambda>_. True) (fst (claim_rows now B)) (snd (claim_rows now B)))"
  have ids: "I \<subseteq> ob_id ` set (pending B)" by (auto simp: I_def dest!: in_set_takeD)
  have "bus_ok X ?C" using keeps_claim keeps_relayed [OF ok order_refl] ok by (auto simp: keeps_def)
  then have "pending B' = pending ?C" by (simp add: B'_def relay_once_def split_def pending_prune)
  also have "\<dots> = filter (\<lambda>r. ob_id r \<notin> I) (pending B)"
    unfolding pending_def relay_rows_marks [OF a] claimed by (rule pending_marked) auto
  finally have rest: "pending B' = filter (\<lambda>r. ob_id r \<notin> I) (pending B)" .
  then show "set (pending B') \<subseteq> set (pending B)" by auto
  have d: "distinct (map ob_id (pending B))" using ok by (simp add: bus_ok_def pending_def distinct_map_filter)
  have "length (filter (\<lambda>r. ob_id r \<in> I) (pending B)) = card (ob_id ` set (filter (\<lambda>r. ob_id r \<in> I) (pending B)))"
    using d distinct_card [of "map ob_id (filter (\<lambda>r. ob_id r \<in> I) (pending B))"] by (simp add: distinct_map_filter)
  also have "ob_id ` set (filter (\<lambda>r. ob_id r \<in> I) (pending B)) = I" using ids by auto
  also have "card I = min BATCH (length (pending B))"
  proof -
    have "distinct (map ob_id (sort_key ob_id (pending B)))" using d by (simp add: distinct_map)
    then have "distinct (take BATCH (map ob_id (sort_key ob_id (pending B))))" by (rule distinct_take)
    from distinct_card [OF this] show ?thesis by (simp add: I_def take_map min.commute)
  qed
  finally show "length (pending B') = length (pending B) - BATCH"
    using sum_length_filter_compl [of "\<lambda>r. ob_id r \<in> I" "pending B"] by (simp add: rest)
qed

lemma relays_drain:
  assumes "bus_ok X B" and "\<And>r. r \<in> set (pending B) \<Longrightarrow> row_due now r" and "\<And>i. reaches (a i)" and "\<forall>t\<in>set ts. now \<le> t"
  shows "length (pending (run (bus_step X) B (map (\<lambda>t. Relay t a (\<lambda>_. True)) ts))) = length (pending B) - BATCH * length ts"
  using assms
proof (induction ts arbitrary: B)
  case (Cons t ts)
  have due: "row_due t r" if "r \<in> set (pending B)" for r
    using Cons.prems(2) [OF that] Cons.prems(4) by (auto simp: row_due_def split: option.splits)
  let ?B = "bus_step X B (Relay t a (\<lambda>_. True))"
  have ok: "bus_ok X ?B" by (rule events.inv_step [OF Cons.prems(1)])
  have sub: "set (pending ?B) \<subseteq> set (pending B)" using relay_round(1) [OF Cons.prems(1) due Cons.prems(3)] by simp
  have "length (pending (run (bus_step X) ?B (map (\<lambda>t. Relay t a (\<lambda>_. True)) ts))) = length (pending ?B) - BATCH * length ts"
    using Cons.prems(2,3,4) sub by (intro Cons.IH [OF ok]) auto
  then show ?case using relay_round(2) [OF Cons.prems(1) due Cons.prems(3)] by simp
qed simp

text \<open>
  C37. The outbox drains. Once no waiting row is younger than the five seconds the fast path has or under a lease of the last minute, relays that
  reach Redis, at whatever later times, publish a hundred rows each: when there were enough of them for the rows that waited, nothing
  waits any more, and every event that waited has arrived.
\<close>

theorem outbox_drains:
  assumes "bus_ok X B" and "\<And>r. r \<in> set (pending B) \<Longrightarrow> row_due now r"
    and "\<And>i. reaches (a i)" and "\<forall>t\<in>set ts. now \<le> t" and "length (pending B) \<le> 100 * length ts"
  shows "pending (run (bus_step X) B (map (\<lambda>t. Relay t a (\<lambda>_. True)) ts)) = []
    \<and> (\<forall>st. waiting B st \<longrightarrow> arrived X (redis (run (bus_step X) B (map (\<lambda>t. Relay t a (\<lambda>_. True)) ts))) st)"
proof -
  let ?B = "run (bus_step X) B (map (\<lambda>t. Relay t a (\<lambda>_. True)) ts)"
  have "pending ?B = []" using relays_drain [OF assms(1-4)] assms(5) by (simp add: BATCH_def)
  moreover from this have "\<not> waiting ?B st" for st by (auto simp: waiting_def pending_def filter_empty_conv)
  ultimately show ?thesis using run_keeps [OF assms(1)] assms(1) by (auto simp: keeps_def)
qed

definition sample_answers :: redis_answers where
  "sample_answers = \<lparr>ra_sadd = True, ra_xadd = Inr (lit ''1-0''), ra_publish = Inr ()\<rparr>"

definition sample_bus :: bus where
  "sample_bus = fst (stage_event 0 new_bus 7 (lit ''message.created'') 3 JNull)"

theorem outbox_drains_witness:
  "pending (run (bus_step std_ext) sample_bus [Relay 6000000 (\<lambda>_. sample_answers) (\<lambda>_. True)]) = []
    \<and> arrived std_ext (redis (run (bus_step std_ext) sample_bus [Relay 6000000 (\<lambda>_. sample_answers) (\<lambda>_. True)]))
        (snd (stage_event 0 new_bus 7 (lit ''message.created'') 3 JNull))"
proof -
  have ok: "bus_ok std_ext sample_bus"
    unfolding sample_bus_def using keeps_stage events.inv_init by (auto simp: keeps_def)
  have one: "pending sample_bus = outbox_rows sample_bus" "length (outbox_rows sample_bus) = 1"
    by (simp_all add: sample_bus_def pending_def stage_event_def new_bus_def Let_def)
  have due: "row_due 6000000 r" if "r \<in> set (pending sample_bus)" for r
    using that by (auto simp: sample_bus_def pending_def stage_event_def new_bus_def row_due_def new_event_def Let_def
        FAST_PATH_GRACE_SECS_def SECOND_def)
  have "waiting sample_bus (snd (stage_event 0 new_bus 7 (lit ''message.created'') 3 JNull))"
    unfolding sample_bus_def by (rule waiting_stage)
  then show ?thesis
    using outbox_drains [of std_ext sample_bus 6000000 "\<lambda>_. sample_answers" "[6000000]"] ok one due
    by (simp add: sample_answers_def reaches_def del: bus_step.simps)
qed

end
