(* ===== verification/Message_Store.thy ===== *)
theory Message_Store
  imports Mentions Outbox "HOL-Library.AList" "HOL-Library.Product_Lexorder"
begin

text \<open>
  The tables of messages and the statements of \<open>src/backend/api/src/messaging/repo.rs\<close>, with the statements of \<open>threads/repo.rs\<close>,
  \<open>files/repo.rs\<close> and \<open>notifications/repo.rs\<close> that the message routes use. A table is the list of its rows in the order of insertion. The read
  positions and counters are the columns of \<open>channel_members\<close> that only these statements write; \<open>NOW()\<close> and drawn identifiers are arguments.
  The column \<open>metadata\<close> always holds an object. References to rows of other tables hold.
\<close>

section \<open>Rows\<close>

record Message =
  m_id :: uuid
  m_channel_id :: uuid
  m_user_id :: uuid
  m_client_message_id :: "uuid option"
  m_content :: rstr
  m_metadata :: json
  m_thread_parent_id :: "uuid option"
  m_reply_count :: int
  m_is_pinned :: bool
  m_created_at :: timestamp
  m_updated_at :: timestamp
  m_deleted_at :: "timestamp option"

record NewMessage =
  nm_channel_id :: uuid
  nm_user_id :: uuid
  nm_content :: rstr
  nm_thread_parent_id :: "uuid option"
  nm_also_in_channel :: bool
  nm_forwarded_from :: "uuid option"
  nm_client_message_id :: "uuid option"
  nm_mentioned :: "uuid list"

record MessageEdit =
  edit_id :: uuid
  edit_message_id :: uuid
  previous_content :: rstr
  edited_by :: uuid
  edited_at :: timestamp

record Reaction =
  rx_id :: uuid
  rx_message_id :: uuid
  rx_user_id :: uuid
  rx_emoji :: rstr
  rx_created_at :: timestamp

text \<open>The columns of \<open>channel_members\<close> that say what a member has read.\<close>

record ReadRow =
  rd_channel_id :: uuid
  rd_user_id :: uuid
  rd_role :: ChannelRole
  rd_unread_count :: int
  rd_mention_count :: int
  rd_last_read_at :: "timestamp option"
  rd_last_read_msg :: "uuid option"
  rd_last_read_message_id :: "uuid option"

record ThreadFollow =
  tf_user_id :: uuid
  tf_workspace_id :: uuid
  tf_root_message_id :: uuid
  tf_following :: bool
  tf_last_read_at :: timestamp

record NotificationRow =
  n_user_id :: uuid
  n_workspace_id :: uuid
  n_type :: rstr
  n_data :: json
  n_is_read :: bool

record FileRecord =
  f_id :: uuid
  f_message_id :: "uuid option"
  f_user_id :: uuid
  f_workspace_id :: uuid
  f_filename :: rstr
  f_storage_key :: rstr
  f_mime_type :: rstr
  f_size_bytes :: int
  f_thumbnail_key :: "rstr option"
  f_width :: "int option"
  f_height :: "int option"
  f_created_at :: timestamp
  f_draft_until :: "timestamp option"

datatype MessageAudit = MessageDeleted | MessageHistoryRead

record MessageAuditEntry =
  ma_action :: MessageAudit
  ma_actor_id :: uuid
  ma_workspace_id :: uuid
  ma_resource_id :: uuid
  ma_details :: json

record msg_db =
  t_messages :: "Message list"
  t_edits :: "MessageEdit list"
  t_reactions :: "Reaction list"
  t_reads :: "ReadRow list"
  t_follows :: "ThreadFollow list"
  t_notifications :: "NotificationRow list"
  t_files :: "FileRecord list"
  t_objects :: "rstr list"
  t_audit :: "MessageAuditEntry list"
  t_bus :: bus

text \<open>\<open>t_objects\<close> holds the keys of the object storage, which no transaction covers.\<close>

text \<open>What a statement can fail with: a unique key that is taken, a row that \<open>fetch_one\<close> needs.\<close>

datatype SqlError = UniqueViolation | RowNotFound

fun sql_error :: "SqlError \<Rightarrow> AppError" where
  "sql_error UniqueViolation = db_error ''duplicate key value violates unique constraint''"
| "sql_error RowNotFound = db_error ''no rows returned by a query that expected to return at least one row''"

section \<open>Metadata\<close>

fun with_key :: "json \<Rightarrow> rstr \<Rightarrow> json \<Rightarrow> json" where
  "with_key (JObject kvs) k v = JObject (AList.update k v kvs)"
| "with_key other k v = other"

fun without_key :: "json \<Rightarrow> rstr \<Rightarrow> json" where
  "without_key (JObject kvs) k = JObject (AList.delete k kvs)"
| "without_key other k = other"

text \<open>
  \<open>metadata @> '{"also_in_channel": true}'\<close> asks for the boolean, \<open>metadata->>'also_in_channel' = 'true'\<close> also takes the text.
\<close>

definition also_in_channel :: "Message \<Rightarrow> bool" where
  "also_in_channel m \<longleftrightarrow> json_get (m_metadata m) (lit ''also_in_channel'') = Some (JBool True)"

definition stands_in_channel :: "Message \<Rightarrow> bool" where
  "stands_in_channel m \<longleftrightarrow> m_thread_parent_id m = None
     \<or> json_get (m_metadata m) (lit ''also_in_channel'') \<in> {Some (JBool True), Some (JString (lit ''true''))}"

definition message_key :: "Message \<Rightarrow> timestamp \<times> uuid" where
  "message_key m = (m_created_at m, m_id m)"

text \<open>A deleted message is shown without its content, where it is shown at all.\<close>

definition masked :: "Message \<Rightarrow> Message" where
  "masked m = (if m_deleted_at m = None then m else m\<lparr>m_content := [], m_metadata := JObject []\<rparr>)"

section \<open>Writing messages\<close>

definition on_message :: "msg_db \<Rightarrow> uuid \<Rightarrow> (Message \<Rightarrow> Message) \<Rightarrow> msg_db" where
  "on_message D i f = D\<lparr>t_messages := update_rows (\<lambda>m. m_id m = i) f (t_messages D)\<rparr>"

definition message_row :: "msg_db \<Rightarrow> uuid \<Rightarrow> Message option" where
  "message_row D i = List.find (\<lambda>m. m_id m = i) (t_messages D)"

text \<open>\<open>UPDATE messages ... WHERE id = $1 RETURNING ...\<close> with \<open>fetch_one\<close>.\<close>

definition update_returning :: "msg_db \<Rightarrow> uuid \<Rightarrow> (Message \<Rightarrow> Message) \<Rightarrow> SqlError + msg_db \<times> Message" where
  "update_returning D i f =
     (case message_row D i of None \<Rightarrow> Inl RowNotFound | Some m \<Rightarrow> Inr (on_message D i f, f m))"

definition bump_unread :: "msg_db \<Rightarrow> uuid \<Rightarrow> uuid \<Rightarrow> uuid list \<Rightarrow> msg_db" where
  "bump_unread D c author mentioned =
     D\<lparr>t_reads := update_rows (\<lambda>r. rd_channel_id r = c \<and> rd_user_id r \<noteq> author)
       (\<lambda>r. r\<lparr>rd_unread_count := rd_unread_count r + 1,
              rd_mention_count := rd_mention_count r + (if rd_user_id r \<in> set mentioned then 1 else 0)\<rparr>) (t_reads D)\<rparr>"

definition new_metadata :: "ext \<Rightarrow> NewMessage \<Rightarrow> json" where
  "new_metadata X nm = JObject (
     (if nm_also_in_channel nm \<and> nm_thread_parent_id nm \<noteq> None then [(lit ''also_in_channel'', JBool True)] else [])
     @ (case nm_forwarded_from nm of None \<Rightarrow> []
        | Some i \<Rightarrow> [(lit ''forwarded_from'', JObject [(lit ''message_id'', JString (uuid_str X i))])]))"

definition client_id_taken :: "msg_db \<Rightarrow> uuid \<Rightarrow> uuid option \<Rightarrow> bool" where
  "client_id_taken D c client \<longleftrightarrow>
     client \<noteq> None \<and> list_ex (\<lambda>m. m_channel_id m = c \<and> m_client_message_id m = client) (t_messages D)"

definition create_message_in :: "ext \<Rightarrow> timestamp \<Rightarrow> msg_db \<Rightarrow> uuid \<Rightarrow> NewMessage \<Rightarrow> SqlError + msg_db \<times> Message" where
  "create_message_in X now D new nm =
     (if message_row D new \<noteq> None \<or> client_id_taken D (nm_channel_id nm) (nm_client_message_id nm)
      then Inl UniqueViolation
      else
        let msg = \<lparr>m_id = new, m_channel_id = nm_channel_id nm, m_user_id = nm_user_id nm,
              m_client_message_id = nm_client_message_id nm, m_content = nm_content nm, m_metadata = new_metadata X nm,
              m_thread_parent_id = nm_thread_parent_id nm, m_reply_count = 0, m_is_pinned = False,
              m_created_at = now, m_updated_at = now, m_deleted_at = None\<rparr>;
            D1 = D\<lparr>t_messages := t_messages D @ [msg]\<rparr>;
            D2 = (case nm_thread_parent_id nm of None \<Rightarrow> D1
                  | Some p \<Rightarrow> on_message D1 p (\<lambda>m. m\<lparr>m_reply_count := m_reply_count m + 1\<rparr>));
            D3 = (if nm_thread_parent_id nm = None \<or> nm_also_in_channel nm
                  then bump_unread D2 (nm_channel_id nm) (nm_user_id nm) (nm_mentioned nm) else D2)
        in Inr (D3, msg))"

definition create_system_message_in ::
  "timestamp \<Rightarrow> msg_db \<Rightarrow> uuid \<Rightarrow> uuid \<Rightarrow> uuid \<Rightarrow> rstr \<Rightarrow> json \<Rightarrow> SqlError + msg_db \<times> Message" where
  "create_system_message_in now D new c u content metadata =
     (if message_row D new \<noteq> None then Inl UniqueViolation
      else
        let msg = \<lparr>m_id = new, m_channel_id = c, m_user_id = u, m_client_message_id = None, m_content = content,
              m_metadata = metadata, m_thread_parent_id = None, m_reply_count = 0, m_is_pinned = False,
              m_created_at = now, m_updated_at = now, m_deleted_at = None\<rparr>
        in Inr (D\<lparr>t_messages := t_messages D @ [msg]\<rparr>, msg))"

definition MAX_STORED_EDITS :: nat where "MAX_STORED_EDITS = 50"

definition edits_of :: "msg_db \<Rightarrow> uuid \<Rightarrow> MessageEdit list" where
  "edits_of D i = rev (sort_key (\<lambda>e. (edited_at e, edit_id e)) (filter (\<lambda>e. edit_message_id e = i) (t_edits D)))"

definition update_message_in ::
  "timestamp \<Rightarrow> msg_db \<Rightarrow> uuid \<Rightarrow> uuid \<Rightarrow> rstr \<Rightarrow> uuid \<Rightarrow> SqlError + msg_db \<times> Message" where
  "update_message_in now D new i content by =
     (case message_row D i of
        None \<Rightarrow> Inl RowNotFound
      | Some m \<Rightarrow>
          if list_ex (\<lambda>e. edit_id e = new) (t_edits D) then Inl UniqueViolation
          else
            let D1 = D\<lparr>t_edits := t_edits D @ [\<lparr>edit_id = new, edit_message_id = i, previous_content = m_content m,
                       edited_by = by, edited_at = now\<rparr>]\<rparr>;
                kept = set (map edit_id (take MAX_STORED_EDITS (edits_of D1 i)));
                D2 = D1\<lparr>t_edits := filter (\<lambda>e. edit_message_id e \<noteq> i \<or> edit_id e \<in> kept) (t_edits D1)\<rparr>
            in update_returning D2 i (\<lambda>m. m\<lparr>m_content := content, m_updated_at := now\<rparr>))"

definition soft_delete_message_in :: "timestamp \<Rightarrow> msg_db \<Rightarrow> uuid \<Rightarrow> msg_db \<times> Message option" where
  "soft_delete_message_in now D i =
     (case List.find (\<lambda>m. m_id m = i \<and> m_deleted_at m = None) (t_messages D) of
        None \<Rightarrow> (D, None)
      | Some gone \<Rightarrow>
          let D1 = on_message D i (\<lambda>m. m\<lparr>m_deleted_at := Some now\<rparr>);
              drop_one = (\<lambda>p. p\<lparr>m_reply_count := max (m_reply_count p - 1) 0\<rparr>)
          in case m_thread_parent_id gone of
               None \<Rightarrow> (D1, None)
             | Some p \<Rightarrow> (on_message D1 p drop_one, map_option (\<lambda>m. masked (drop_one m)) (message_row D p)))"

definition set_pinned_in :: "msg_db \<Rightarrow> uuid \<Rightarrow> bool \<Rightarrow> SqlError + msg_db \<times> Message" where
  "set_pinned_in D i pinned = update_returning D i (\<lambda>m. m\<lparr>m_is_pinned := pinned\<rparr>)"

definition add_reaction_in :: "timestamp \<Rightarrow> msg_db \<Rightarrow> uuid \<Rightarrow> uuid \<Rightarrow> uuid \<Rightarrow> rstr \<Rightarrow> SqlError + msg_db \<times> Reaction" where
  "add_reaction_in now D new i u emoji =
     (if list_ex (\<lambda>r. rx_id r = new \<or> rx_message_id r = i \<and> rx_user_id r = u \<and> rx_emoji r = emoji) (t_reactions D)
      then Inl UniqueViolation
      else let r = \<lparr>rx_id = new, rx_message_id = i, rx_user_id = u, rx_emoji = emoji, rx_created_at = now\<rparr>
           in Inr (D\<lparr>t_reactions := t_reactions D @ [r]\<rparr>, r))"

definition remove_reaction_in :: "msg_db \<Rightarrow> uuid \<Rightarrow> uuid \<Rightarrow> rstr \<Rightarrow> msg_db" where
  "remove_reaction_in D i u emoji =
     D\<lparr>t_reactions := filter (\<lambda>r. \<not> (rx_message_id r = i \<and> rx_user_id r = u \<and> rx_emoji r = emoji)) (t_reactions D)\<rparr>"

definition set_attachments_in :: "msg_db \<Rightarrow> uuid \<Rightarrow> json list \<Rightarrow> SqlError + msg_db \<times> Message" where
  "set_attachments_in D i attachments =
     update_returning D i (\<lambda>m. m\<lparr>m_metadata :=
       (if attachments = [] then without_key (m_metadata m) (lit ''attachments'')
        else with_key (m_metadata m) (lit ''attachments'') (JArray attachments))\<rparr>)"

definition reset_unfurls_in :: "msg_db \<Rightarrow> uuid \<Rightarrow> SqlError + msg_db \<times> Message" where
  "reset_unfurls_in D i =
     update_returning D i (\<lambda>m. m\<lparr>m_metadata := without_key (m_metadata m) (lit ''unfurls_source'')\<rparr>)"

definition hide_unfurls_in :: "msg_db \<Rightarrow> uuid \<Rightarrow> SqlError + msg_db \<times> Message" where
  "hide_unfurls_in D i =
     update_returning D i (\<lambda>m. m\<lparr>m_metadata :=
       with_key (without_key (m_metadata m) (lit ''unfurls'')) (lit ''unfurls_hidden'') (JBool True)\<rparr>)"

section \<open>Reading messages\<close>

definition find_by_client_id :: "msg_db \<Rightarrow> uuid \<Rightarrow> uuid \<Rightarrow> Message option" where
  "find_by_client_id D c client =
     List.find (\<lambda>m. m_channel_id m = c \<and> m_client_message_id m = Some client) (t_messages D)"

definition find_message :: "msg_db \<Rightarrow> uuid \<Rightarrow> Message option" where
  "find_message D i = List.find (\<lambda>m. m_id m = i \<and> m_deleted_at m = None) (t_messages D)"

definition find_root :: "msg_db \<Rightarrow> uuid \<Rightarrow> Message option" where
  "find_root D i = map_option masked
     (List.find (\<lambda>m. m_id m = i \<and> (m_deleted_at m = None \<or> m_reply_count m > 0)) (t_messages D))"

definition newest_first :: "Message list \<Rightarrow> Message list" where
  "newest_first ms = rev (sort_key message_key ms)"

text \<open>\<open>(created_at, id) < (SELECT created_at, id FROM messages WHERE id = cursor)\<close>; nothing is below a cursor that names no row.\<close>

definition below_cursor :: "msg_db \<Rightarrow> uuid option \<Rightarrow> Message \<Rightarrow> bool" where
  "below_cursor D cursor m \<longleftrightarrow>
     (case cursor of None \<Rightarrow> True
      | Some i \<Rightarrow> (case message_row D i of None \<Rightarrow> False | Some t \<Rightarrow> message_key m < message_key t))"

definition listed :: "uuid \<Rightarrow> Message \<Rightarrow> bool" where
  "listed c m \<longleftrightarrow> m_channel_id m = c \<and> (m_deleted_at m = None \<or> m_reply_count m > 0)
     \<and> (m_thread_parent_id m = None \<or> m_deleted_at m = None \<and> also_in_channel m)"

definition list_channel_messages :: "msg_db \<Rightarrow> uuid \<Rightarrow> int \<Rightarrow> uuid option \<Rightarrow> Message list" where
  "list_channel_messages D c limit before =
     map masked (take (nat limit) (newest_first
       (filter (\<lambda>m. listed c m \<and> below_cursor D before m) (t_messages D))))"

definition list_thread_messages :: "msg_db \<Rightarrow> uuid \<Rightarrow> int \<Rightarrow> uuid option \<Rightarrow> Message list" where
  "list_thread_messages D parent limit before =
     take (nat limit) (newest_first
       (filter (\<lambda>m. m_thread_parent_id m = Some parent \<and> m_deleted_at m = None \<and> below_cursor D before m) (t_messages D)))"

definition list_edits :: "msg_db \<Rightarrow> uuid \<Rightarrow> MessageEdit list" where
  "list_edits D i = edits_of D i"

definition list_pinned :: "msg_db \<Rightarrow> uuid \<Rightarrow> Message list" where
  "list_pinned D c = rev (sort_key m_updated_at
     (filter (\<lambda>m. m_channel_id m = c \<and> m_is_pinned m \<and> m_deleted_at m = None) (t_messages D)))"

definition list_reactions :: "msg_db \<Rightarrow> uuid \<Rightarrow> Reaction list" where
  "list_reactions D i = sort_key rx_created_at (filter (\<lambda>r. rx_message_id r = i) (t_reactions D))"

definition list_reactions_for_messages :: "msg_db \<Rightarrow> uuid list \<Rightarrow> Reaction list" where
  "list_reactions_for_messages D ids =
     (if ids = [] then [] else sort_key rx_created_at (filter (\<lambda>r. rx_message_id r \<in> set ids) (t_reactions D)))"

section \<open>Moderators\<close>

definition repo_is_channel_admin :: "msg_db \<Rightarrow> uuid \<Rightarrow> uuid \<Rightarrow> bool" where
  "repo_is_channel_admin D c u \<longleftrightarrow>
     list_ex (\<lambda>r. rd_channel_id r = c \<and> rd_user_id r = u \<and> rd_role r = ChAdmin) (t_reads D)"

definition is_workspace_admin_for_channel :: "tables \<Rightarrow> uuid \<Rightarrow> uuid \<Rightarrow> bool" where
  "is_workspace_admin_for_channel T c u \<longleftrightarrow>
     list_ex (\<lambda>m. mr_user_id m = u \<and> (mr_role m = Admin \<or> mr_role m = Owner)
       \<and> list_ex (\<lambda>ch. ch_id ch = c \<and> ch_workspace_id ch = mr_workspace_id m) (channels T)) (workspace_members T)"

definition repo_can_moderate_channel :: "tables \<Rightarrow> msg_db \<Rightarrow> uuid \<Rightarrow> uuid \<Rightarrow> bool" where
  "repo_can_moderate_channel T D c u \<longleftrightarrow>
     (if repo_is_channel_admin D c u then True else is_workspace_admin_for_channel T c u)"

section \<open>Read positions\<close>

record MarkedRead =
  mk_boundary :: "uuid option"
  mk_before :: "uuid option"
  mk_before_at :: "timestamp option"

record ReadState =
  rs_channel_id :: uuid
  rs_unread_count :: int
  rs_mention_count :: int
  rs_last_read_message_id :: "uuid option"

definition read_row :: "msg_db \<Rightarrow> uuid \<Rightarrow> uuid \<Rightarrow> ReadRow option" where
  "read_row D c u = List.find (\<lambda>r. rd_channel_id r = c \<and> rd_user_id r = u) (t_reads D)"

definition on_read :: "msg_db \<Rightarrow> uuid \<Rightarrow> uuid \<Rightarrow> (ReadRow \<Rightarrow> ReadRow) \<Rightarrow> msg_db" where
  "on_read D c u f = D\<lparr>t_reads := update_rows (\<lambda>r. rd_channel_id r = c \<and> rd_user_id r = u) f (t_reads D)\<rparr>"

definition counted :: "uuid \<Rightarrow> Message \<Rightarrow> bool" where
  "counted c m \<longleftrightarrow> m_channel_id m = c \<and> m_deleted_at m = None \<and> stands_in_channel m"

definition newest_id :: "Message list \<Rightarrow> uuid option" where
  "newest_id ms = (case newest_first ms of [] \<Rightarrow> None | m # _ \<Rightarrow> Some (m_id m))"

definition read_boundary :: "msg_db \<Rightarrow> uuid \<Rightarrow> uuid \<Rightarrow> uuid option" where
  "read_boundary D c i =
     (case message_row D i of
        None \<Rightarrow> None
      | Some t \<Rightarrow>
          if m_channel_id t \<noteq> c then None
          else newest_id (filter (\<lambda>m. counted c m \<and> message_key m \<le> message_key t) (t_messages D)))"

definition set_read :: "timestamp \<Rightarrow> uuid option \<Rightarrow> ReadRow \<Rightarrow> ReadRow" where
  "set_read now boundary r = r\<lparr>rd_last_read_at := Some now, rd_last_read_msg := boundary,
     rd_last_read_message_id := boundary, rd_unread_count := 0, rd_mention_count := 0\<rparr>"

definition repo_mark_read :: "timestamp \<Rightarrow> msg_db \<Rightarrow> uuid \<Rightarrow> uuid \<Rightarrow> uuid \<Rightarrow> msg_db \<times> MarkedRead option" where
  "repo_mark_read now D c u i =
     (let boundary = read_boundary D c i in
      (on_read D c u (set_read now boundary),
       map_option (\<lambda>before.
         let moved = (rd_unread_count before > 0 \<and> rd_last_read_msg before \<noteq> boundary)
         in \<lparr>mk_boundary = boundary, mk_before = (if moved then rd_last_read_msg before else None),
             mk_before_at = (if moved then rd_last_read_at before else None)\<rparr>) (read_row D c u)))"

definition read_state :: "ReadRow \<Rightarrow> ReadState" where
  "read_state r = \<lparr>rs_channel_id = rd_channel_id r, rs_unread_count = rd_unread_count r,
     rs_mention_count = rd_mention_count r, rs_last_read_message_id = rd_last_read_message_id r\<rparr>"

definition repo_mark_workspace_read :: "tables \<Rightarrow> timestamp \<Rightarrow> msg_db \<Rightarrow> uuid \<Rightarrow> uuid \<Rightarrow> msg_db \<times> ReadState list" where
  "repo_mark_workspace_read T now D w u =
     (let newest = (\<lambda>r. newest_id (filter (counted (rd_channel_id r)) (t_messages D)));
          hit = (\<lambda>r. rd_user_id r = u
            \<and> list_ex (\<lambda>ch. ch_id ch = rd_channel_id r \<and> ch_workspace_id ch = w) (channels T)
            \<and> (rd_unread_count r > 0 \<or> rd_mention_count r > 0) \<and> newest r \<noteq> None)
      in (D\<lparr>t_reads := update_rows hit (\<lambda>r. set_read now (newest r) r) (t_reads D)\<rparr>,
          map (\<lambda>r. read_state (set_read now (newest r) r)) (filter hit (t_reads D))))"

text \<open>\<open>m.id::text = n.data->>'message_id'\<close>.\<close>

definition mentions_since :: "ext \<Rightarrow> msg_db \<Rightarrow> uuid \<Rightarrow> uuid \<Rightarrow> timestamp \<Rightarrow> nat" where
  "mentions_since X D c u t =
     sum_list (map (\<lambda>n. length (filter (\<lambda>m. counted c m \<and> m_created_at m \<ge> t
         \<and> json_get (n_data n) (lit ''message_id'') = Some (JString (uuid_str X (m_id m)))) (t_messages D)))
       (filter (\<lambda>n. n_user_id n = u \<and> n_type n = lit ''mention'') (t_notifications D)))"

definition unread_since :: "msg_db \<Rightarrow> uuid \<Rightarrow> uuid \<Rightarrow> timestamp \<Rightarrow> nat" where
  "unread_since D c u t =
     length (filter (\<lambda>m. counted c m \<and> m_user_id m \<noteq> u \<and> m_created_at m \<ge> t) (t_messages D))"

definition repo_mark_unread :: "ext \<Rightarrow> msg_db \<Rightarrow> uuid \<Rightarrow> uuid \<Rightarrow> uuid \<Rightarrow> msg_db \<times> ReadState option" where
  "repo_mark_unread X D c u i =
     (case List.find (\<lambda>m. m_id m = i \<and> m_channel_id m = c \<and> m_deleted_at m = None) (t_messages D) of
        None \<Rightarrow> (D, None)
      | Some t \<Rightarrow>
          let previous = newest_id (filter (\<lambda>m. counted c m \<and> message_key m < message_key t) (t_messages D));
              f = (\<lambda>r. r\<lparr>rd_last_read_at := Some (m_created_at t - 1), rd_last_read_msg := previous,
                    rd_last_read_message_id := previous, rd_unread_count := int (unread_since D c u (m_created_at t)),
                    rd_mention_count := int (mentions_since X D c u (m_created_at t))\<rparr>)
          in (on_read D c u f, map_option (\<lambda>r. read_state (f r)) (read_row D c u)))"

definition drop_unread_for_message :: "msg_db \<Rightarrow> uuid \<Rightarrow> uuid \<Rightarrow> uuid \<Rightarrow> msg_db" where
  "drop_unread_for_message D c i author =
     (case message_row D i of
        None \<Rightarrow> D
      | Some m \<Rightarrow> D\<lparr>t_reads := update_rows (\<lambda>r. rd_channel_id r = c \<and> rd_user_id r \<noteq> author \<and> stands_in_channel m
          \<and> (case rd_last_read_at r of None \<Rightarrow> True | Some t \<Rightarrow> m_created_at m > t))
          (\<lambda>r. r\<lparr>rd_unread_count := max (rd_unread_count r - 1) 0\<rparr>) (t_reads D)\<rparr>)"

text \<open>The number of messages that stand behind a member's read position, and the job that corrects the counters from it.\<close>

definition unread_truth :: "msg_db \<Rightarrow> ReadRow \<Rightarrow> nat" where
  "unread_truth D r =
     length (filter (\<lambda>m. counted (rd_channel_id r) m \<and> m_user_id m \<noteq> rd_user_id r
       \<and> (case rd_last_read_at r of None \<Rightarrow> True | Some t \<Rightarrow> m_created_at m > t)) (t_messages D))"

definition reconcile_unread_counts :: "timestamp \<Rightarrow> msg_db \<Rightarrow> int \<Rightarrow> msg_db \<times> nat" where
  "reconcile_unread_counts now D since_hours =
     (let recent = (\<lambda>r. list_ex (\<lambda>m. m_channel_id m = rd_channel_id r \<and> m_created_at m > now - since_hours * 3600 * SECOND)
            (t_messages D));
          wrong = (\<lambda>r. recent r \<and> rd_unread_count r \<noteq> int (unread_truth D r))
      in (D\<lparr>t_reads := update_rows wrong (\<lambda>r. r\<lparr>rd_unread_count := int (unread_truth D r)\<rparr>) (t_reads D)\<rparr>,
          length (filter wrong (t_reads D))))"

section \<open>Threads, notifications and files\<close>

definition follow :: "msg_db \<Rightarrow> ThreadFollow \<Rightarrow> (ThreadFollow \<Rightarrow> ThreadFollow) \<Rightarrow> msg_db" where
  "follow D new f =
     (if list_ex (\<lambda>x. tf_user_id x = tf_user_id new \<and> tf_root_message_id x = tf_root_message_id new) (t_follows D)
      then D\<lparr>t_follows := update_rows (\<lambda>x. tf_user_id x = tf_user_id new \<and> tf_root_message_id x = tf_root_message_id new)
             f (t_follows D)\<rparr>
      else D\<lparr>t_follows := t_follows D @ [new]\<rparr>)"

definition is_member_row :: "tables \<Rightarrow> uuid \<Rightarrow> uuid \<Rightarrow> bool" where
  "is_member_row T w u \<longleftrightarrow> list_ex (\<lambda>m. mr_workspace_id m = w \<and> mr_user_id m = u) (workspace_members T)"

definition follow_on_reply_in ::
  "tables \<Rightarrow> msg_db \<Rightarrow> uuid \<Rightarrow> uuid \<Rightarrow> uuid \<Rightarrow> uuid \<Rightarrow> uuid list \<Rightarrow> timestamp \<Rightarrow> msg_db" where
  "follow_on_reply_in T D root w replier root_author mentioned replied_at =
     (let row = (\<lambda>u t. \<lparr>tf_user_id = u, tf_workspace_id = w, tf_root_message_id = root, tf_following = True, tf_last_read_at = t\<rparr>);
          D1 = (if is_member_row T w replier
                then follow D (row replier replied_at)
                  (\<lambda>x. x\<lparr>tf_following := True, tf_last_read_at := max (tf_last_read_at x) replied_at\<rparr>) else D);
          D2 = (if is_member_row T w root_author \<and> root_author \<noteq> replier
                then follow D1 (row root_author (replied_at - 1)) id else D1)
      in foldl (\<lambda>D u. follow D (row u (replied_at - 1)) (\<lambda>x. x\<lparr>tf_following := True\<rparr>)) D2
           (filter (\<lambda>u. is_member_row T w u \<and> u \<noteq> replier) (remdups mentioned)))"

record FollowerState =
  fs_user_id :: uuid
  fs_following :: bool
  fs_unread_count :: nat

definition follower_states :: "msg_db \<Rightarrow> uuid \<Rightarrow> FollowerState list" where
  "follower_states D root =
     map (\<lambda>x. \<lparr>fs_user_id = tf_user_id x, fs_following = tf_following x,
         fs_unread_count = length (filter (\<lambda>m. m_thread_parent_id m = Some root \<and> m_deleted_at m = None
           \<and> m_user_id m \<noteq> tf_user_id x \<and> m_created_at m > tf_last_read_at x) (t_messages D))\<rparr>)
       (filter (\<lambda>x. tf_root_message_id x = root \<and> tf_following x) (t_follows D))"

text \<open>A notification about a message of the channel itself, not of one of its threads.\<close>

definition about_channel :: "json \<Rightarrow> bool" where
  "about_channel v \<longleftrightarrow> json_get v (lit ''thread_parent_id'') \<in> {None, Some JNull} \<or> json_get v (lit ''in_channel'') = Some (JBool True)"

definition mark_channel_read :: "ext \<Rightarrow> msg_db \<Rightarrow> uuid \<Rightarrow> uuid \<Rightarrow> uuid \<Rightarrow> msg_db" where
  "mark_channel_read X D u w c =
     D\<lparr>t_notifications := update_rows (\<lambda>n. n_user_id n = u \<and> n_workspace_id n = w \<and> \<not> n_is_read n
         \<and> json_get (n_data n) (lit ''channel_id'') = Some (JString (uuid_str X c)) \<and> about_channel (n_data n))
       (\<lambda>n. n\<lparr>n_is_read := True\<rparr>) (t_notifications D)\<rparr>"

definition mark_channels_read :: "msg_db \<Rightarrow> uuid \<Rightarrow> uuid \<Rightarrow> msg_db" where
  "mark_channels_read D u w =
     D\<lparr>t_notifications := update_rows (\<lambda>n. n_user_id n = u \<and> n_workspace_id n = w \<and> \<not> n_is_read n
         \<and> json_get (n_data n) (lit ''channel_id'') \<notin> {None, Some JNull} \<and> about_channel (n_data n))
       (\<lambda>n. n\<lparr>n_is_read := True\<rparr>) (t_notifications D)\<rparr>"

definition for_message :: "msg_db \<Rightarrow> uuid \<Rightarrow> FileRecord list" where
  "for_message D i = sort_key (\<lambda>f. (f_created_at f, f_id f)) (filter (\<lambda>f. f_message_id f = Some i) (t_files D))"

definition repo_claim_drafts_in :: "msg_db \<Rightarrow> uuid list \<Rightarrow> uuid \<Rightarrow> uuid \<Rightarrow> uuid \<Rightarrow> msg_db \<times> FileRecord list" where
  "repo_claim_drafts_in D ids i w u =
     (let hit = (\<lambda>f. f_id f \<in> set ids \<and> f_workspace_id f = w \<and> f_user_id f = u \<and> f_message_id f = None \<and> f_draft_until f \<noteq> None);
          claim = (\<lambda>f. f\<lparr>f_message_id := Some i, f_draft_until := None\<rparr>)
      in (D\<lparr>t_files := update_rows hit claim (t_files D)\<rparr>, map claim (filter hit (t_files D))))"

definition delete_from_message_except_in :: "msg_db \<Rightarrow> uuid \<Rightarrow> uuid list \<Rightarrow> msg_db \<times> FileRecord list" where
  "delete_from_message_except_in D i keep =
     (let hit = (\<lambda>f. f_message_id f = Some i \<and> f_id f \<notin> set keep)
      in (D\<lparr>t_files := filter (\<lambda>f. \<not> hit f) (t_files D)\<rparr>, filter hit (t_files D)))"

definition repo_delete_for_channel_message :: "msg_db \<Rightarrow> uuid \<Rightarrow> msg_db \<times> FileRecord list" where
  "repo_delete_for_channel_message D i =
     (let hit = (\<lambda>f. f_message_id f = Some i)
      in (D\<lparr>t_files := filter (\<lambda>f. \<not> hit f) (t_files D)\<rparr>, filter hit (t_files D)))"

definition create_file_in :: "msg_db \<Rightarrow> FileRecord \<Rightarrow> SqlError + msg_db \<times> FileRecord" where
  "create_file_in D f =
     (if list_ex (\<lambda>g. f_id g = f_id f) (t_files D) then Inl UniqueViolation
      else Inr (D\<lparr>t_files := t_files D @ [f]\<rparr>, f))"

definition notifications_unread_count :: "msg_db \<Rightarrow> uuid \<Rightarrow> uuid \<Rightarrow> nat" where
  "notifications_unread_count D u w =
     length (filter (\<lambda>n. n_user_id n = u \<and> n_workspace_id n = w \<and> \<not> n_is_read n) (t_notifications D))"

section \<open>Joining and leaving\<close>

text \<open>A member who joins has no read position and counters of zero.\<close>

definition add_channel_member :: "msg_db \<Rightarrow> uuid \<Rightarrow> uuid \<Rightarrow> ChannelRole \<Rightarrow> msg_db" where
  "add_channel_member D c u ro =
     (if read_row D c u \<noteq> None then D
      else D\<lparr>t_reads := t_reads D @ [\<lparr>rd_channel_id = c, rd_user_id = u, rd_role = ro, rd_unread_count = 0, rd_mention_count = 0,
             rd_last_read_at = None, rd_last_read_msg = None, rd_last_read_message_id = None\<rparr>]\<rparr>)"

definition remove_channel_member :: "msg_db \<Rightarrow> uuid \<Rightarrow> uuid \<Rightarrow> msg_db" where
  "remove_channel_member D c u = D\<lparr>t_reads := filter (\<lambda>r. \<not> (rd_channel_id r = c \<and> rd_user_id r = u)) (t_reads D)\<rparr>"

end
