(* ===== verification/Attachments.thy ===== *)
theory Attachments
  imports Message_Store
begin

text \<open>
  Files of messages: \<open>src/backend/api/src/files/names.rs\<close> and the part of \<open>files/service.rs\<close> that the message routes call. The object
  storage is outside the sources: \<open>storage_env\<close> carries its answers, and \<open>t_objects\<close> the keys it holds. A storage key is safe as a path: the name
  part is made of letters, digits, dots, dashes and underscores and begins with none of the dots.
\<close>

section \<open>Names\<close>

definition DISPLAY_MAX_CHARS :: nat where "DISPLAY_MAX_CHARS = 200"
definition STORAGE_MAX_CHARS :: nat where "STORAGE_MAX_CHARS = 100"
definition FALLBACK :: rstr where "FALLBACK = lit ''file''"

text \<open>\<open>str::rsplit_once\<close> and \<open>str::trim_matches\<close>.\<close>

definition rsplit_once :: "rstr \<Rightarrow> uchar \<Rightarrow> (rstr \<times> rstr) option" where
  "rsplit_once s c = map_option (\<lambda>(a, b). (rev b, rev a)) (split_once (rev s) c)"

definition trim_matches :: "(uchar \<Rightarrow> bool) \<Rightarrow> rstr \<Rightarrow> rstr" where
  "trim_matches P s = rev (dropWhile P (rev (dropWhile P s)))"

fun ascii_slug_loop :: "rstr \<Rightarrow> rstr \<Rightarrow> rstr" where
  "ascii_slug_loop slug [] = slug"
| "ascii_slug_loop slug (c # cs) =
     (if is_ascii_alphanumeric c \<or> c = 45 \<or> c = 95 then ascii_slug_loop (slug @ [c]) cs
      else if c = 46 then (if ends_with slug [46] then ascii_slug_loop slug cs else ascii_slug_loop (slug @ [46]) cs)
      else if ends_with slug [95] then ascii_slug_loop slug cs
      else ascii_slug_loop (slug @ [95]) cs)"

definition ascii_slug :: "rstr \<Rightarrow> rstr" where
  "ascii_slug s = trim_matches (\<lambda>c. c = 46 \<or> c = 95) (ascii_slug_loop [] s)"

definition storage_name :: "rstr \<Rightarrow> rstr" where
  "storage_name display =
     (let (stem, extension) =
        (case rsplit_once display 46 of
           Some (stem, e) \<Rightarrow> if e \<noteq> [] \<and> str_len e \<le> 10 \<and> list_all is_ascii_alphanumeric e then (stem, Some e) else (display, None)
         | None \<Rightarrow> (display, None));
        slug = ascii_slug stem;
        stem = (if slug = [] then FALLBACK else slug)
      in case extension of
           Some e \<Rightarrow> take (STORAGE_MAX_CHARS - str_len e - 1) stem @ 46 # e
         | None \<Rightarrow> take STORAGE_MAX_CHARS stem)"

definition shorten :: "rstr \<Rightarrow> nat \<Rightarrow> rstr" where
  "shorten name max_chars =
     (if length name \<le> max_chars then name
      else case (case rsplit_once name 46 of Some (_, e) \<Rightarrow> if e \<noteq> [] \<and> length e \<le> 10 then Some e else None | None \<Rightarrow> None) of
             Some e \<Rightarrow> trim_end (take (max_chars - length e - 1) name) @ 46 # e
           | None \<Rightarrow> take max_chars name)"

text \<open>\<open>nfc\<close> is the normalisation of \<open>unicode_normalization\<close>; a backslash parts directories too.\<close>

definition basename :: "rstr \<Rightarrow> rstr" where
  "basename raw = rev (takeWhile (\<lambda>c. c \<noteq> 47 \<and> c \<noteq> 92) (rev raw))"

definition file_display_name :: "(rstr \<Rightarrow> rstr) \<Rightarrow> rstr \<Rightarrow> rstr" where
  "file_display_name nfc raw =
     (let cleaned = map (\<lambda>c. if is_whitespace c then 32 else c)
            (filter (\<lambda>c. \<not> is_control c) (map (\<lambda>c. if c = 9 then 32 else c) (nfc (basename raw))));
          trimmed = trim_start (dropWhile (\<lambda>c. c = 46) (trim cleaned))
      in if trimmed = [] then FALLBACK else shorten trimmed DISPLAY_MAX_CHARS)"

section \<open>Object storage\<close>

record storage_env =
  se_copy :: "rstr \<Rightarrow> rstr \<Rightarrow> unit AppResult"
  se_delete :: "rstr \<Rightarrow> unit AppResult"
  se_public_url :: rstr
  se_object_id :: "nat \<Rightarrow> uuid"
  se_file_id :: "nat \<Rightarrow> uuid"

definition storage_copy :: "storage_env \<Rightarrow> rstr list \<Rightarrow> rstr \<Rightarrow> rstr \<Rightarrow> rstr list \<times> unit AppResult" where
  "storage_copy S Os from to = (case se_copy S from to of Inl e \<Rightarrow> (Os, Inl e) | Inr _ \<Rightarrow> (push_new to Os, Inr ()))"

definition storage_delete :: "storage_env \<Rightarrow> rstr list \<Rightarrow> rstr \<Rightarrow> rstr list" where
  "storage_delete S Os key = (case se_delete S key of Inl _ \<Rightarrow> Os | Inr _ \<Rightarrow> filter (\<lambda>k. k \<noteq> key) Os)"

definition public_url :: "storage_env \<Rightarrow> rstr \<Rightarrow> rstr" where
  "public_url S key = se_public_url S @ lit ''/api/files/download/'' @ key"

definition object_key :: "ext \<Rightarrow> uuid \<Rightarrow> uuid \<Rightarrow> rstr \<Rightarrow> rstr" where
  "object_key X w new filename = uuid_str X w @ [47] @ uuid_str X new @ [47] @ storage_name filename"

definition last_segment :: "rstr \<Rightarrow> rstr" where
  "last_segment key = rev (takeWhile (\<lambda>c. c \<noteq> 47) (rev key))"

record CopiedObject =
  co_source :: FileRecord
  co_storage_key :: rstr
  co_thumbnail_key :: "rstr option"

definition copy_one ::
  "ext \<Rightarrow> storage_env \<Rightarrow> rstr list \<Rightarrow> nat \<Rightarrow> FileRecord \<Rightarrow> uuid \<Rightarrow> rstr list \<times> (rstr \<times> rstr option) AppResult" where
  "copy_one X S Os n source w =
     (let storage_key = object_key X w (se_object_id S (2 * n)) (last_segment (f_storage_key source))
      in case storage_copy S Os (f_storage_key source) storage_key of
           (Os1, Inl e) \<Rightarrow> (Os1, Inl e)
         | (Os1, Inr _) \<Rightarrow>
             (case f_thumbnail_key source of
                None \<Rightarrow> (Os1, Inr (storage_key, None))
              | Some thumbnail \<Rightarrow>
                  let thumbnail_key = object_key X w (se_object_id S (2 * n + 1)) (last_segment thumbnail)
                  in case storage_copy S Os1 thumbnail thumbnail_key of
                       (Os2, Inl e) \<Rightarrow> (storage_delete S Os2 storage_key, Inl e)
                     | (Os2, Inr _) \<Rightarrow> (Os2, Inr (storage_key, Some thumbnail_key))))"

definition delete_keys :: "storage_env \<Rightarrow> rstr list \<Rightarrow> rstr list \<Rightarrow> rstr list" where
  "delete_keys S Os keys = foldl (storage_delete S) Os keys"

definition copied_keys :: "CopiedObject \<Rightarrow> rstr list" where
  "copied_keys c = co_storage_key c # (case co_thumbnail_key c of None \<Rightarrow> [] | Some k \<Rightarrow> [k])"

definition discard_copies :: "storage_env \<Rightarrow> rstr list \<Rightarrow> CopiedObject list \<Rightarrow> rstr list" where
  "discard_copies S Os copied = delete_keys S Os (concat (map copied_keys copied))"

definition purge_objects :: "storage_env \<Rightarrow> rstr list \<Rightarrow> FileRecord list \<Rightarrow> rstr list" where
  "purge_objects S Os records =
     delete_keys S Os (concat (map (\<lambda>f. f_storage_key f # (case f_thumbnail_key f of None \<Rightarrow> [] | Some k \<Rightarrow> [k])) records))"

fun copy_loop ::
  "ext \<Rightarrow> storage_env \<Rightarrow> uuid \<Rightarrow> rstr list \<Rightarrow> CopiedObject list \<Rightarrow> FileRecord list \<Rightarrow> rstr list \<times> CopiedObject list AppResult" where
  "copy_loop X S w Os copied [] = (Os, Inr copied)"
| "copy_loop X S w Os copied (source # sources) =
     (case copy_one X S Os (length copied) source w of
        (Os1, Inr (storage_key, thumbnail_key)) \<Rightarrow>
          copy_loop X S w Os1
            (copied @ [\<lparr>co_source = source, co_storage_key = storage_key, co_thumbnail_key = thumbnail_key\<rparr>]) sources
      | (Os1, Inl e) \<Rightarrow> (discard_copies S Os1 copied, Inl e))"

definition copy_objects ::
  "ext \<Rightarrow> storage_env \<Rightarrow> rstr list \<Rightarrow> FileRecord list \<Rightarrow> uuid \<Rightarrow> rstr list \<times> CopiedObject list AppResult" where
  "copy_objects X S Os sources w = copy_loop X S w Os [] sources"

section \<open>Attachments\<close>

definition MAX_ATTACHMENTS :: nat where "MAX_ATTACHMENTS = 10"

record Attachment =
  at_id :: uuid
  at_filename :: rstr
  at_mime_type :: rstr
  at_size_bytes :: int
  at_url :: rstr
  at_thumbnail_url :: "rstr option"
  at_width :: "int option"
  at_height :: "int option"

definition attachment :: "storage_env \<Rightarrow> FileRecord \<Rightarrow> Attachment" where
  "attachment S f = \<lparr>at_id = f_id f, at_filename = f_filename f, at_mime_type = f_mime_type f, at_size_bytes = f_size_bytes f,
     at_url = public_url S (f_storage_key f), at_thumbnail_url = map_option (public_url S) (f_thumbnail_key f),
     at_width = f_width f, at_height = f_height f\<rparr>"

text \<open>
  The JSON of an attachment, which leaves out what is absent, and the attachments a message's metadata holds: none when one of them
  does not parse. (\<open>serde\<close> would take a sequence for the object too; none is ever stored.)
\<close>

definition json_int :: "int \<Rightarrow> json" where
  "json_int i = JNumber (if i < 0 then NegInt (of_int i) else PosInt (of_int i))"

definition optional_key :: "rstr \<Rightarrow> ('a \<Rightarrow> json) \<Rightarrow> 'a option \<Rightarrow> (rstr \<times> json) list" where
  "optional_key k f v = (case v of None \<Rightarrow> [] | Some x \<Rightarrow> [(k, f x)])"

definition attachment_json :: "ext \<Rightarrow> Attachment \<Rightarrow> json" where
  "attachment_json X a = JObject (
     [(lit ''id'', JString (uuid_str X (at_id a))), (lit ''filename'', JString (at_filename a)),
      (lit ''mime_type'', JString (at_mime_type a)), (lit ''size_bytes'', json_int (at_size_bytes a)), (lit ''url'', JString (at_url a))]
     @ optional_key (lit ''thumbnail_url'') JString (at_thumbnail_url a) @ optional_key (lit ''width'') json_int (at_width a)
     @ optional_key (lit ''height'') json_int (at_height a))"

definition attachments_json :: "ext \<Rightarrow> storage_env \<Rightarrow> FileRecord list \<Rightarrow> json list" where
  "attachments_json X S records = map (\<lambda>f. attachment_json X (attachment S f)) records"

text \<open>A field of type \<open>Option\<close>: absent or null is none, a value of another type is an error.\<close>

definition optional_field :: "json \<Rightarrow> rstr \<Rightarrow> (json \<Rightarrow> 'a option) \<Rightarrow> 'a option option" where
  "optional_field v k f =
     (case json_get v k of None \<Rightarrow> Some None | Some JNull \<Rightarrow> Some None | Some x \<Rightarrow> map_option Some (f x))"

definition json_i32 :: "json \<Rightarrow> int option" where
  "json_i32 v = (case as_i64 v of Some i \<Rightarrow> if - (2 ^ 31) \<le> i \<and> i < 2 ^ 31 then Some i else None | None \<Rightarrow> None)"

definition attachment_of_json :: "ext \<Rightarrow> json \<Rightarrow> Attachment option" where
  "attachment_of_json X v =
     (case (Option.bind (Option.bind (json_get v (lit ''id'')) as_str) (parse_uuid X), Option.bind (json_get v (lit ''filename'')) as_str,
            Option.bind (json_get v (lit ''mime_type'')) as_str, Option.bind (json_get v (lit ''size_bytes'')) as_i64,
            Option.bind (json_get v (lit ''url'')) as_str, optional_field v (lit ''thumbnail_url'') as_str,
            optional_field v (lit ''width'') json_i32, optional_field v (lit ''height'') json_i32) of
        (Some i, Some name, Some mime, Some bytes, Some url, Some thumb, Some w, Some h) \<Rightarrow>
          Some \<lparr>at_id = i, at_filename = name, at_mime_type = mime, at_size_bytes = bytes, at_url = url,
                at_thumbnail_url = thumb, at_width = w, at_height = h\<rparr>
      | _ \<Rightarrow> None)"

definition attachments_in :: "ext \<Rightarrow> json \<Rightarrow> Attachment list" where
  "attachments_in X metadata =
     (case Option.bind (json_get metadata (lit ''attachments'')) as_array of
        None \<Rightarrow> []
      | Some vs \<Rightarrow> (case collect (\<lambda>v. ok_or (attachment_of_json X v) ()) vs of Inr xs \<Rightarrow> xs | Inl _ \<Rightarrow> []))"

definition too_many_files :: AppError where
  "too_many_files = Validation (lit ''A message can carry at most 10 files'')"

definition check_attachment_ids :: "uuid list \<Rightarrow> unit AppResult" where
  "check_attachment_ids ids =
     (if length ids > MAX_ATTACHMENTS then Inl too_many_files
      else if \<not> distinct ids then Inl (Validation (lit ''The same file is attached twice''))
      else Inr ())"

text \<open>The place of a file in the request orders what was claimed; every claimed file has one.\<close>

definition place :: "uuid list \<Rightarrow> uuid \<Rightarrow> nat" where
  "place ids i = length (takeWhile (\<lambda>j. j \<noteq> i) ids)"

definition claim_drafts_in :: "msg_db \<Rightarrow> uuid list \<Rightarrow> uuid \<Rightarrow> uuid \<Rightarrow> uuid \<Rightarrow> (msg_db \<times> FileRecord list) AppResult" where
  "claim_drafts_in D ids i w u =
     (if ids = [] then Inr (D, [])
      else case repo_claim_drafts_in D ids i w u of
        (D1, claimed) \<Rightarrow>
          if length claimed \<noteq> length ids
          then Inl (Validation (lit ''Attach only files you uploaded here and have not sent yet''))
          else Inr (D1, sort_key (\<lambda>f. place ids (f_id f)) claimed))"

fun record_loop ::
  "storage_env \<Rightarrow> timestamp \<Rightarrow> uuid \<Rightarrow> uuid \<Rightarrow> uuid \<Rightarrow> msg_db \<Rightarrow> FileRecord list \<Rightarrow> CopiedObject list
   \<Rightarrow> (msg_db \<times> FileRecord list) AppResult" where
  "record_loop S now i w u D records [] = Inr (D, records)"
| "record_loop S now i w u D records (c # cs) =
     and_then (map_err sql_error (create_file_in D
       \<lparr>f_id = se_file_id S (length records), f_message_id = Some i, f_user_id = u, f_workspace_id = w,
        f_filename = f_filename (co_source c), f_storage_key = co_storage_key c, f_mime_type = f_mime_type (co_source c),
        f_size_bytes = f_size_bytes (co_source c), f_thumbnail_key = co_thumbnail_key c, f_width = f_width (co_source c),
        f_height = f_height (co_source c), f_created_at = now, f_draft_until = None\<rparr>))
     (\<lambda>(D1, f). record_loop S now i w u D1 (records @ [f]) cs)"

definition record_copies_in ::
  "storage_env \<Rightarrow> timestamp \<Rightarrow> msg_db \<Rightarrow> CopiedObject list \<Rightarrow> uuid \<Rightarrow> uuid \<Rightarrow> uuid \<Rightarrow> (msg_db \<times> FileRecord list) AppResult" where
  "record_copies_in S now D copied i w u = record_loop S now i w u D [] copied"

definition delete_for_channel_message :: "storage_env \<Rightarrow> msg_db \<Rightarrow> uuid \<Rightarrow> msg_db" where
  "delete_for_channel_message S D i =
     (case repo_delete_for_channel_message D i of (D1, records) \<Rightarrow> D1\<lparr>t_objects := purge_objects S (t_objects D1) records\<rparr>)"

section \<open>Storage names are safe\<close>

definition safe_char :: "uchar \<Rightarrow> bool" where
  "safe_char c \<longleftrightarrow> is_ascii_alphanumeric c \<or> c = 45 \<or> c = 46 \<or> c = 95"

lemma slug_loop_safe: "list_all safe_char slug \<Longrightarrow> list_all safe_char (ascii_slug_loop slug cs)"
  by (induction slug cs rule: ascii_slug_loop.induct) (auto simp: safe_char_def)

lemma trim_matches_prefix: "\<exists>rest. dropWhile P s = trim_matches P s @ rest"
proof -
  let ?u = "dropWhile P s"
  have "?u = rev (takeWhile P (rev ?u) @ dropWhile P (rev ?u))" by simp
  also have "\<dots> = trim_matches P s @ rev (takeWhile P (rev ?u))" by (simp only: trim_matches_def rev_append)
  finally show ?thesis by blast
qed

lemma trim_matches_set: "set (trim_matches P s) \<subseteq> set s"
  by (auto simp: trim_matches_def dest!: set_dropWhileD)

lemma trim_matches_hd: "trim_matches P s \<noteq> [] \<Longrightarrow> \<not> P (hd (trim_matches P s))"
proof -
  assume "trim_matches P s \<noteq> []"
  moreover obtain rest where "dropWhile P s = trim_matches P s @ rest" using trim_matches_prefix [of P s] by blast
  ultimately show ?thesis using hd_dropWhile [of P s] by (metis append_is_Nil_conv hd_append2)
qed

lemma ascii_slug_safe: "list_all safe_char (ascii_slug s)"
  using slug_loop_safe [of "[]" s] trim_matches_set by (fastforce simp: ascii_slug_def list_all_iff)

lemma ascii_slug_hd: "ascii_slug s \<noteq> [] \<Longrightarrow> hd (ascii_slug s) \<noteq> 46"
  unfolding ascii_slug_def using trim_matches_hd by fastforce

lemma ascii_len: "list_all is_ascii_alphanumeric e \<Longrightarrow> str_len e = length e"
  by (induction e) (auto simp: str_len_def utf8_len_def is_ascii_alphanumeric_def is_ascii_alphabetic_def is_ascii_digit_def
      is_ascii_lowercase_def is_ascii_uppercase_def)

lemma fallback_safe: "list_all safe_char FALLBACK" "FALLBACK \<noteq> []" "hd FALLBACK \<noteq> 46"
  by (simp_all add: FALLBACK_def safe_char_def is_ascii_alphanumeric_def is_ascii_alphabetic_def is_ascii_lowercase_def)

lemma named_safe:
  assumes stem: "list_all safe_char st" "st \<noteq> []" "hd st \<noteq> 46" and e: "list_all is_ascii_alphanumeric e" "length e \<le> 10"
  shows "list_all safe_char (take (STORAGE_MAX_CHARS - length e - 1) st @ 46 # e)"
    and "length (take (STORAGE_MAX_CHARS - length e - 1) st @ 46 # e) \<le> STORAGE_MAX_CHARS"
    and "hd (take (STORAGE_MAX_CHARS - length e - 1) st @ 46 # e) \<noteq> 46"
proof -
  show "list_all safe_char (take (STORAGE_MAX_CHARS - length e - 1) st @ 46 # e)"
    using stem(1) e(1) by (auto simp: list_all_iff safe_char_def dest: in_set_takeD)
  show "length (take (STORAGE_MAX_CHARS - length e - 1) st @ 46 # e) \<le> STORAGE_MAX_CHARS" using e(2) by (simp add: STORAGE_MAX_CHARS_def)
  have "0 < STORAGE_MAX_CHARS - length e - 1" using e(2) by (simp add: STORAGE_MAX_CHARS_def)
  then show "hd (take (STORAGE_MAX_CHARS - length e - 1) st @ 46 # e) \<noteq> 46" using stem(2,3) by (cases st) (auto simp: take_Cons')
qed

text \<open>
  C40. A storage name is a safe part of a path. Whatever a file is called, the name its object is stored under has between one and a hundred characters, only
  ASCII letters, digits, dots, dashes and underscores, and no dot in front: it holds no separator and is never a directory.
\<close>

theorem storage_name_safe:
  "list_all safe_char (storage_name s) \<and> 0 < length (storage_name s) \<and> length (storage_name s) \<le> STORAGE_MAX_CHARS
   \<and> hd (storage_name s) \<noteq> 46"
proof -
  define stem where "stem st = (if ascii_slug st = [] then FALLBACK else ascii_slug st)" for st
  have ok: "list_all safe_char (stem st)" "stem st \<noteq> []" "hd (stem st) \<noteq> 46" for st
    using fallback_safe ascii_slug_safe ascii_slug_hd by (simp_all add: stem_def)
  have plain: "list_all safe_char (take STORAGE_MAX_CHARS (stem st)) \<and> 0 < length (take STORAGE_MAX_CHARS (stem st))
      \<and> length (take STORAGE_MAX_CHARS (stem st)) \<le> STORAGE_MAX_CHARS \<and> hd (take STORAGE_MAX_CHARS (stem st)) \<noteq> 46" for st
    using ok [of st] by (cases "stem st") (auto simp: STORAGE_MAX_CHARS_def list_all_iff dest: in_set_takeD)
  define parts where "parts = (case rsplit_once s 46 of
      Some (st, e) \<Rightarrow> if e \<noteq> [] \<and> str_len e \<le> 10 \<and> list_all is_ascii_alphanumeric e then (st, Some e) else (s, None)
    | None \<Rightarrow> (s, None))"
  obtain st ex where parts: "parts = (st, ex)" by fastforce
  have name: "storage_name s = (case ex of Some e \<Rightarrow> take (STORAGE_MAX_CHARS - str_len e - 1) (stem st) @ 46 # e
      | None \<Rightarrow> take STORAGE_MAX_CHARS (stem st))"
    unfolding storage_name_def parts_def [symmetric] parts by (simp add: stem_def Let_def split: option.split)
  show ?thesis
  proof (cases ex)
    case None
    then show ?thesis using plain [of st] ok(3) [of st] name by simp
  next
    case (Some e)
    have e: "list_all is_ascii_alphanumeric e" "str_len e \<le> 10"
      using parts Some by (auto simp: parts_def split: option.splits if_splits)
    then show ?thesis using named_safe [OF ok e(1)] name Some by (simp add: ascii_len)
  qed
qed

end
