(* ===== verification/Message_Service.thy ===== *)
theory Message_Service
  imports Attachments Validation
begin

text \<open>
  The requests about messages: \<open>src/backend/api/src/messaging/routes.rs\<close> with the events of \<open>messaging/publisher.rs\<close>, \<open>Caller::scoped\<close> and
  \<open>history_scope\<close> of \<open>bots/mod.rs\<close>, \<open>announce_reply\<close> of \<open>threads/routes.rs\<close> and \<open>record\<close> of \<open>audit.rs\<close>. A request runs from its first read to its
  last event; a transaction that fails leaves the tables as they were. \<open>msg_env\<close> carries what a request takes from outside: the clock, drawn
  identifiers, the answers of Redis and of the object storage, and who is online. A statement fails only on a key or on a row it needs.
\<close>

section \<open>What a request takes from outside\<close>

record msg_env =
  e_clock :: timestamp
  e_id :: uuid
  e_event_id :: "nat \<Rightarrow> uuid"
  e_redis :: "nat \<Rightarrow> redis_answers"
  e_marked :: "nat \<Rightarrow> bool"
  e_alnum :: "uchar \<Rightarrow> bool"
  e_mentions :: mention_env
  e_emoji :: "uuid \<Rightarrow> rstr \<Rightarrow> bool"
  e_rfc3339 :: "timestamp \<Rightarrow> rstr"
  e_storage :: storage_env

section \<open>Callers\<close>

fun scope_as_str :: "Scope \<Rightarrow> rstr" where
  "scope_as_str ChatWrite = lit ''chat:write''"
| "scope_as_str ChatWritePublic = lit ''chat:write.public''"
| "scope_as_str ChannelsRead = lit ''channels:read''"
| "scope_as_str ChannelsHistory = lit ''channels:history''"
| "scope_as_str GroupsHistory = lit ''groups:history''"
| "scope_as_str ImWrite = lit ''im:write''"
| "scope_as_str ReactionsWrite = lit ''reactions:write''"
| "scope_as_str FilesWrite = lit ''files:write''"
| "scope_as_str UsersRead = lit ''users:read''"
| "scope_as_str Commands = lit ''commands''"

definition scoped :: "AuthUser \<Rightarrow> Scope \<Rightarrow> unit AppResult" where
  "scoped caller s =
     (case bot caller of
        Some b \<Rightarrow> if bot_allows b s then Inr ()
                  else Inl (Forbidden (lit ''This bot token does not have the '' @ scope_as_str s @ lit '' scope''))
      | None \<Rightarrow> Inr ())"

definition history_scope :: "Channel \<Rightarrow> Scope" where
  "history_scope ch = (case channel_type ch of Public \<Rightarrow> ChannelsHistory | _ \<Rightarrow> GroupsHistory)"

section \<open>Events\<close>

definition id_json :: "ext \<Rightarrow> uuid \<Rightarrow> json" where
  "id_json X i = JString (uuid_str X i)"

definition opt_json :: "('a \<Rightarrow> json) \<Rightarrow> 'a option \<Rightarrow> json" where
  "opt_json f v = (case v of None \<Rightarrow> JNull | Some x \<Rightarrow> f x)"

definition time_json :: "msg_env \<Rightarrow> timestamp \<Rightarrow> json" where
  "time_json E t = JString (e_rfc3339 E t)"

definition message_json :: "ext \<Rightarrow> msg_env \<Rightarrow> Message \<Rightarrow> json" where
  "message_json X E m = JObject
     [(lit ''id'', id_json X (m_id m)), (lit ''channel_id'', id_json X (m_channel_id m)), (lit ''user_id'', id_json X (m_user_id m)),
      (lit ''client_message_id'', opt_json (id_json X) (m_client_message_id m)), (lit ''content'', JString (m_content m)),
      (lit ''metadata'', m_metadata m), (lit ''thread_parent_id'', opt_json (id_json X) (m_thread_parent_id m)),
      (lit ''reply_count'', json_int (m_reply_count m)), (lit ''is_pinned'', JBool (m_is_pinned m)),
      (lit ''created_at'', time_json E (m_created_at m)), (lit ''updated_at'', time_json E (m_updated_at m)),
      (lit ''deleted_at'', opt_json (time_json E) (m_deleted_at m))]"

definition reaction_json :: "ext \<Rightarrow> msg_env \<Rightarrow> Reaction \<Rightarrow> json" where
  "reaction_json X E r = JObject
     [(lit ''id'', id_json X (rx_id r)), (lit ''message_id'', id_json X (rx_message_id r)), (lit ''user_id'', id_json X (rx_user_id r)),
      (lit ''emoji'', JString (rx_emoji r)), (lit ''created_at'', time_json E (rx_created_at r))]"

text \<open>The \<open>n\<close>-th event of a request is staged in its transaction and dispatched after the commit.\<close>

definition stage_in :: "msg_env \<Rightarrow> msg_db \<Rightarrow> nat \<Rightarrow> string \<Rightarrow> uuid \<Rightarrow> json \<Rightarrow> msg_db \<times> StagedEvent" where
  "stage_in E D n ty w payload =
     (case stage_event (e_clock E) (t_bus D) (e_event_id E n) (lit ty) w payload of (B, st) \<Rightarrow> (D\<lparr>t_bus := B\<rparr>, st))"

definition dispatch_in :: "ext \<Rightarrow> msg_env \<Rightarrow> msg_db \<Rightarrow> nat \<Rightarrow> StagedEvent \<Rightarrow> msg_db" where
  "dispatch_in X E D n st = D\<lparr>t_bus := dispatch_staged X (e_clock E) (e_redis E n) (e_marked E n) (t_bus D) st\<rparr>"

definition message_created_payload :: "ext \<Rightarrow> json \<Rightarrow> uuid \<Rightarrow> uuid list \<Rightarrow> json" where
  "message_created_payload X message w mentioned =
     with_key (with_key message (lit ''workspace_id'') (id_json X w)) (lit ''mentioned_user_ids'') (JArray (map (id_json X) mentioned))"

definition stage_message_created :: "ext \<Rightarrow> msg_env \<Rightarrow> msg_db \<Rightarrow> nat \<Rightarrow> Message \<Rightarrow> uuid \<Rightarrow> uuid list \<Rightarrow> msg_db \<times> StagedEvent" where
  "stage_message_created X E D n m w mentioned =
     stage_in E D n ''message.created'' w (message_created_payload X (message_json X E m) w mentioned)"

definition stage_message_updated :: "ext \<Rightarrow> msg_env \<Rightarrow> msg_db \<Rightarrow> nat \<Rightarrow> Message \<Rightarrow> uuid \<Rightarrow> msg_db \<times> StagedEvent" where
  "stage_message_updated X E D n m w = stage_in E D n ''message.updated'' w (message_json X E m)"

definition stage_message_deleted :: "ext \<Rightarrow> msg_env \<Rightarrow> msg_db \<Rightarrow> nat \<Rightarrow> uuid \<Rightarrow> uuid \<Rightarrow> uuid \<Rightarrow> msg_db \<times> StagedEvent" where
  "stage_message_deleted X E D n i c w =
     stage_in E D n ''message.deleted'' w (JObject [(lit ''message_id'', id_json X i), (lit ''channel_id'', id_json X c)])"

definition stage_message_pinned :: "ext \<Rightarrow> msg_env \<Rightarrow> msg_db \<Rightarrow> nat \<Rightarrow> uuid \<Rightarrow> uuid \<Rightarrow> uuid \<Rightarrow> bool \<Rightarrow> msg_db \<times> StagedEvent" where
  "stage_message_pinned X E D n i c w pinned =
     stage_in E D n ''message.pinned'' w
       (JObject [(lit ''message_id'', id_json X i), (lit ''channel_id'', id_json X c), (lit ''pinned'', JBool pinned)])"

definition stage_reaction_added :: "ext \<Rightarrow> msg_env \<Rightarrow> msg_db \<Rightarrow> nat \<Rightarrow> Reaction \<Rightarrow> uuid \<Rightarrow> uuid \<Rightarrow> msg_db \<times> StagedEvent" where
  "stage_reaction_added X E D n r c w =
     stage_in E D n ''reaction.added'' w (with_key (reaction_json X E r) (lit ''channel_id'') (id_json X c))"

definition stage_reaction_removed ::
  "ext \<Rightarrow> msg_env \<Rightarrow> msg_db \<Rightarrow> nat \<Rightarrow> uuid \<Rightarrow> uuid \<Rightarrow> uuid \<Rightarrow> uuid \<Rightarrow> rstr \<Rightarrow> msg_db \<times> StagedEvent" where
  "stage_reaction_removed X E D n i c w u emoji =
     stage_in E D n ''reaction.removed'' w
       (JObject [(lit ''message_id'', id_json X i), (lit ''channel_id'', id_json X c), (lit ''user_id'', id_json X u), (lit ''emoji'', JString emoji)])"

text \<open>A read position that is not announced is only logged.\<close>

definition publish_read_state :: "ext \<Rightarrow> msg_env \<Rightarrow> msg_db \<Rightarrow> nat \<Rightarrow> uuid \<Rightarrow> uuid \<Rightarrow> ReadState \<Rightarrow> msg_db" where
  "publish_read_state X E D n u w st =
     D\<lparr>t_bus := fst (publish_scoped X (e_clock E) (e_redis E n) (e_marked E n) (t_bus D) (e_event_id E n) (lit ''channel.read_state'') w
       (JObject [(lit ''user_id'', id_json X u), (lit ''workspace_id'', id_json X w), (lit ''channel_id'', id_json X (rs_channel_id st)),
         (lit ''unread_count'', json_int (rs_unread_count st)), (lit ''mention_count'', json_int (rs_mention_count st)),
         (lit ''last_read_message_id'', opt_json (id_json X) (rs_last_read_message_id st))]))\<rparr>"

definition announce_thread :: "ext \<Rightarrow> msg_env \<Rightarrow> msg_db \<Rightarrow> nat \<Rightarrow> uuid \<Rightarrow> uuid \<Rightarrow> FollowerState \<Rightarrow> msg_db" where
  "announce_thread X E D n root w fs =
     D\<lparr>t_bus := fst (publish X (e_clock E) (e_redis E n) (t_bus D) (e_event_id E n) (lit ''thread.read_state'')
       (JObject [(lit ''user_id'', id_json X (fs_user_id fs)), (lit ''workspace_id'', id_json X w),
         (lit ''root_message_id'', id_json X root), (lit ''following'', JBool (fs_following fs)),
         (lit ''unread_count'', json_int (int (fs_unread_count fs)))]))\<rparr>"

fun announce_all :: "ext \<Rightarrow> msg_env \<Rightarrow> msg_db \<Rightarrow> nat \<Rightarrow> uuid \<Rightarrow> uuid \<Rightarrow> FollowerState list \<Rightarrow> msg_db" where
  "announce_all X E D n root w [] = D"
| "announce_all X E D n root w (fs # rest) = announce_all X E (announce_thread X E D n root w fs) (Suc n) root w rest"

definition announce_reply :: "ext \<Rightarrow> msg_env \<Rightarrow> msg_db \<Rightarrow> nat \<Rightarrow> uuid \<Rightarrow> uuid \<Rightarrow> msg_db" where
  "announce_reply X E D n root w = announce_all X E D n root w (follower_states D root)"

definition audit_record :: "msg_db \<Rightarrow> MessageAuditEntry \<Rightarrow> msg_db" where
  "audit_record D entry = D\<lparr>t_audit := t_audit D @ [entry]\<rparr>"

section \<open>Shared steps\<close>

text \<open>\<open>req.validate()?\<close>: the first error of the report.\<close>

definition validated :: "rstr + unit \<Rightarrow> unit AppResult" where
  "validated r = map_err Validation r"

definition found :: "msg_db \<Rightarrow> uuid \<Rightarrow> Message AppResult" where
  "found D i = ok_or (find_message D i) (NotFound (lit ''Message not found''))"

text \<open>A step that only reads: its error is the answer and the tables stay as they are.\<close>

definition reading :: "msg_db \<Rightarrow> 'a AppResult \<Rightarrow> ('a \<Rightarrow> msg_db \<times> 'b AppResult) \<Rightarrow> msg_db \<times> 'b AppResult" where
  "reading D r k = (case r of Inl e \<Rightarrow> (D, Inl e) | Inr x \<Rightarrow> k x)"

text \<open>A statement of the transaction that began with the tables \<open>D\<close>: its error rolls back to them.\<close>

definition in_tx :: "msg_db \<Rightarrow> SqlError + 'a \<Rightarrow> ('a \<Rightarrow> msg_db \<times> 'b AppResult) \<Rightarrow> msg_db \<times> 'b AppResult" where
  "in_tx D r k = reading D (map_err sql_error r) k"

definition open_channel_of :: "tables \<Rightarrow> Message \<Rightarrow> Channel AppResult" where
  "open_channel_of T m =
     and_then (find_channel (queries_of T) (m_channel_id m)) (\<lambda>ch. and_then (require_not_archived ch) (\<lambda>_. Inr ch))"

definition thread_root :: "msg_db \<Rightarrow> uuid \<Rightarrow> uuid \<Rightarrow> Message AppResult" where
  "thread_root D c parent_id =
     (let gone = NotFound (lit ''This thread was deleted'')
      in and_then (ok_or (find_root D parent_id) gone) (\<lambda>parent.
         and_then (ensure (m_channel_id parent = c) (Validation (lit ''Thread parent is not in this channel''))) (\<lambda>_.
         case m_thread_parent_id parent of
           Some root_id \<Rightarrow> ok_or (find_root D root_id) gone
         | None \<Rightarrow> Inr parent)))"

definition forwarded_files :: "tables \<Rightarrow> msg_db \<Rightarrow> uuid \<Rightarrow> uuid \<Rightarrow> FileRecord list AppResult" where
  "forwarded_files T D source_id u =
     and_then (ok_or (find_message D source_id) (NotFound (lit ''The forwarded message is gone''))) (\<lambda>source.
     and_then (require_channel_access (queries_of T) (m_channel_id source) u) (\<lambda>_. Inr (for_message D source_id)))"

definition attach_in ::
  "ext \<Rightarrow> msg_env \<Rightarrow> msg_db \<Rightarrow> Message \<Rightarrow> uuid list \<Rightarrow> CopiedObject list \<Rightarrow> uuid \<Rightarrow> uuid \<Rightarrow> (msg_db \<times> Message) AppResult" where
  "attach_in X E D m attachment_ids copied w u =
     and_then (claim_drafts_in D attachment_ids (m_id m) w u) (\<lambda>(D1, claimed).
     and_then (record_copies_in (e_storage E) (e_clock E) D1 copied (m_id m) w u) (\<lambda>(D2, made).
     let records = claimed @ made
     in if records = [] then Inr (D2, m)
        else map_err sql_error (set_attachments_in D2 (m_id m) (attachments_json X (e_storage E) records))))"

section \<open>Sending\<close>

record SendMessageRequest =
  sm_content :: rstr
  sm_thread_parent_id :: "uuid option"
  sm_also_to_channel :: bool
  sm_client_message_id :: "uuid option"
  sm_attachment_ids :: "uuid list"
  sm_forwarded_from :: "uuid option"

definition send_validate :: "SendMessageRequest \<Rightarrow> unit AppResult" where
  "send_validate req =
     and_then (validated (adapt (validate_message_body (sm_content req)))) (\<lambda>_.
     case sm_client_message_id req of None \<Rightarrow> Inr () | Some i \<Rightarrow> validated (client_message_id i))"

text \<open>What a send reads before it copies and writes: the channel, the text that addresses people, the files and the thread.\<close>

definition send_checks ::
  "tables \<Rightarrow> msg_env \<Rightarrow> msg_db \<Rightarrow> AuthUser \<Rightarrow> uuid \<Rightarrow> SendMessageRequest \<Rightarrow> (Channel \<times> FileRecord list \<times> Message option) AppResult" where
  "send_checks T E D caller c req =
     and_then (scoped caller ChatWrite) (\<lambda>_.
     and_then (send_validate req) (\<lambda>_.
     and_then (check_attachment_ids (sm_attachment_ids req)) (\<lambda>_.
     and_then (require_channel_post_as (queries_of T) c caller) (\<lambda>access.
     and_then (if mentions_everyone (e_alnum E) (addressed_text (sm_content req) (sm_forwarded_from req \<noteq> None))
               then require_broadcast (queries_of T) (channel access) (user_id caller) else Inr ()) (\<lambda>_.
     and_then (case sm_forwarded_from req of Some i \<Rightarrow> forwarded_files T D i (user_id caller) | None \<Rightarrow> Inr []) (\<lambda>forwarded.
     and_then (ensure (length (sm_attachment_ids req) + length forwarded \<le> MAX_ATTACHMENTS) too_many_files) (\<lambda>_.
     and_then (ensure (\<not> (trim (sm_content req) = [] \<and> sm_attachment_ids req = [] \<and> forwarded = []))
                 (Validation (lit ''Message content cannot be empty''))) (\<lambda>_.
     and_then (case sm_thread_parent_id req of Some p \<Rightarrow> map_sum id Some (thread_root D c p) | None \<Rightarrow> Inr None) (\<lambda>root.
     Inr (channel access, forwarded, root))))))))))"

definition new_message :: "AuthUser \<Rightarrow> uuid \<Rightarrow> SendMessageRequest \<Rightarrow> Message option \<Rightarrow> uuid list \<Rightarrow> NewMessage" where
  "new_message caller c req root mentioned =
     \<lparr>nm_channel_id = c, nm_user_id = user_id caller, nm_content = sm_content req, nm_thread_parent_id = map_option m_id root,
      nm_also_in_channel = sm_also_to_channel req, nm_forwarded_from = sm_forwarded_from req,
      nm_client_message_id = sm_client_message_id req, nm_mentioned = mentioned\<rparr>"

definition discarded :: "msg_env \<Rightarrow> msg_db \<Rightarrow> CopiedObject list \<Rightarrow> msg_db" where
  "discarded E D copied = D\<lparr>t_objects := discard_copies (e_storage E) (t_objects D) copied\<rparr>"

text \<open>The transaction of a send after the row is in: the files, the follows and the event.\<close>

definition finish_send ::
  "ext \<Rightarrow> tables \<Rightarrow> msg_env \<Rightarrow> msg_db \<Rightarrow> msg_db \<Rightarrow> AuthUser \<Rightarrow> SendMessageRequest \<Rightarrow> Channel \<Rightarrow> Message option \<Rightarrow> uuid list
   \<Rightarrow> CopiedObject list \<Rightarrow> Message \<Rightarrow> msg_db \<times> Message AppResult" where
  "finish_send X T E D D1 caller req ch root mentioned copied m0 =
     (case attach_in X E D1 m0 (sm_attachment_ids req) copied (ch_workspace_id ch) (user_id caller) of
        Inl e \<Rightarrow> (discarded E D copied, Inl e)
      | Inr (D2, m) \<Rightarrow>
          let D3 = (case root of None \<Rightarrow> D2
                    | Some r \<Rightarrow> follow_on_reply_in T D2 (m_id r) (ch_workspace_id ch) (user_id caller) (m_user_id r) mentioned (m_created_at m))
          in case stage_message_created X E D3 0 m (ch_workspace_id ch) mentioned of
               (D4, st) \<Rightarrow>
                 let D5 = dispatch_in X E D4 0 st
                 in (case root of None \<Rightarrow> D5 | Some r \<Rightarrow> announce_reply X E D5 1 (m_id r) (ch_workspace_id ch), Inr m))"

definition write_send ::
  "ext \<Rightarrow> tables \<Rightarrow> msg_env \<Rightarrow> msg_db \<Rightarrow> AuthUser \<Rightarrow> uuid \<Rightarrow> SendMessageRequest \<Rightarrow> Channel \<Rightarrow> Message option \<Rightarrow> uuid list
   \<Rightarrow> CopiedObject list \<Rightarrow> msg_db \<times> Message AppResult" where
  "write_send X T E D caller c req ch root mentioned copied =
     (case (create_message_in X (e_clock E) D (e_id E) (new_message caller c req root mentioned), sm_client_message_id req) of
        (Inr (D1, m), _) \<Rightarrow> finish_send X T E D D1 caller req ch root mentioned copied m
      | (Inl UniqueViolation, Some client) \<Rightarrow>
          (discarded E D copied, ok_or (find_by_client_id D c client) (Conflict (lit ''Message id already in use'')))
      | (Inl e, _) \<Rightarrow> (discarded E D copied, Inl (sql_error e)))"

definition mentioned_in :: "ext \<Rightarrow> tables \<Rightarrow> msg_env \<Rightarrow> AuthUser \<Rightarrow> uuid \<Rightarrow> SendMessageRequest \<Rightarrow> uuid list" where
  "mentioned_in X T E caller c req =
     expand_mentions X (e_alnum E) ((e_mentions E)\<lparr>me_queries := queries_of T\<rparr>) c (user_id caller)
       (addressed_text (sm_content req) (sm_forwarded_from req \<noteq> None))"

definition send_message ::
  "ext \<Rightarrow> tables \<Rightarrow> msg_env \<Rightarrow> msg_db \<Rightarrow> AuthUser \<Rightarrow> uuid \<Rightarrow> SendMessageRequest \<Rightarrow> msg_db \<times> Message AppResult" where
  "send_message X T E D caller c req =
     reading D (send_checks T E D caller c req) (\<lambda>(ch, forwarded, root).
     case copy_objects X (e_storage E) (t_objects D) forwarded (ch_workspace_id ch) of
       (Os, Inl e) \<Rightarrow> (D\<lparr>t_objects := Os\<rparr>, Inl e)
     | (Os, Inr copied) \<Rightarrow>
         write_send X T E (D\<lparr>t_objects := Os\<rparr>) caller c req ch root (mentioned_in X T E caller c req) copied)"

section \<open>Editing, pinning and deleting\<close>

text \<open>Commit of a transaction with one event: the answer is computed from the row the statement returned.\<close>

definition commit_one :: "ext \<Rightarrow> msg_env \<Rightarrow> msg_db \<times> StagedEvent \<Rightarrow> msg_db" where
  "commit_one X E r = dispatch_in X E (fst r) 0 (snd r)"

record UpdateMessageRequest =
  um_content :: rstr
  um_attachment_ids :: "uuid list option"

definition update_message ::
  "ext \<Rightarrow> tables \<Rightarrow> msg_env \<Rightarrow> msg_db \<Rightarrow> AuthUser \<Rightarrow> uuid \<Rightarrow> UpdateMessageRequest \<Rightarrow> msg_db \<times> Message AppResult" where
  "update_message X T E D caller i req =
     reading D (scoped caller ChatWrite) (\<lambda>_.
     reading D (validated (adapt (validate_message_body (um_content req)))) (\<lambda>_.
     reading D (found D i) (\<lambda>existing.
     reading D (ensure (m_user_id existing = user_id caller) (Forbidden (lit ''Can only edit your own messages''))) (\<lambda>_.
     reading D (ensure (json_get (m_metadata existing) (lit ''poll'') = None) (Validation (lit ''A poll cannot be edited''))) (\<lambda>_.
     let current = attachments_in X (m_metadata existing);
         kept = map_option (\<lambda>keep. filter (\<lambda>a. at_id a \<in> set keep) current) (um_attachment_ids req);
         remaining = (case kept of None \<Rightarrow> length current | Some k \<Rightarrow> length k)
     in
     reading D (ensure (\<not> (trim (um_content req) = [] \<and> remaining = 0)) (Validation (lit ''Message content cannot be empty''))) (\<lambda>_.
     reading D (open_channel_of T existing) (\<lambda>ch.
     in_tx D (update_message_in (e_clock E) D (e_id E) i (um_content req) (user_id caller)) (\<lambda>(D1, m1).
     case (case kept of Some k \<Rightarrow> if length k \<noteq> length current then Some k else None | None \<Rightarrow> None) of
       None \<Rightarrow> (commit_one X E (stage_message_updated X E D1 0 m1 (ch_workspace_id ch)), Inr m1)
     | Some k \<Rightarrow>
         (case delete_from_message_except_in D1 i (map at_id k) of
            (D2, removed) \<Rightarrow>
              in_tx D (set_attachments_in D2 i (map (attachment_json X) k)) (\<lambda>(D3, m).
              case stage_message_updated X E D3 0 m (ch_workspace_id ch) of
                (D4, st) \<Rightarrow> (dispatch_in X E (D4\<lparr>t_objects := purge_objects (e_storage E) (t_objects D4) removed\<rparr>) 0 st, Inr m)))))))))))"

text \<open>The author's own previews: both requests read and check alike.\<close>

definition own_message :: "tables \<Rightarrow> msg_db \<Rightarrow> AuthUser \<Rightarrow> uuid \<Rightarrow> string \<Rightarrow> (Message \<times> Channel) AppResult" where
  "own_message T D caller i refusal =
     and_then (found D i) (\<lambda>existing.
     and_then (ensure (m_user_id existing = user_id caller) (Forbidden (lit refusal))) (\<lambda>_.
     and_then (open_channel_of T existing) (\<lambda>ch. Inr (existing, ch))))"

definition refresh_unfurls :: "ext \<Rightarrow> tables \<Rightarrow> msg_env \<Rightarrow> msg_db \<Rightarrow> AuthUser \<Rightarrow> uuid \<Rightarrow> msg_db \<times> rstr AppResult" where
  "refresh_unfurls X T E D caller i =
     reading D (own_message T D caller i ''Only the author can refresh a message's previews'') (\<lambda>(existing, ch).
     in_tx D (reset_unfurls_in D i) (\<lambda>(D1, m).
     (commit_one X E (stage_message_updated X E D1 0 m (ch_workspace_id ch)), Inr (lit ''refreshing''))))"

definition hide_unfurls :: "ext \<Rightarrow> tables \<Rightarrow> msg_env \<Rightarrow> msg_db \<Rightarrow> AuthUser \<Rightarrow> uuid \<Rightarrow> msg_db \<times> Message AppResult" where
  "hide_unfurls X T E D caller i =
     reading D (own_message T D caller i ''Only the author can remove a message's previews'') (\<lambda>(existing, ch).
     in_tx D (hide_unfurls_in D i) (\<lambda>(D1, m).
     (commit_one X E (stage_message_updated X E D1 0 m (ch_workspace_id ch)), Inr m)))"

definition message_history :: "ext \<Rightarrow> tables \<Rightarrow> msg_env \<Rightarrow> msg_db \<Rightarrow> AuthUser \<Rightarrow> uuid \<Rightarrow> msg_db \<times> MessageEdit list AppResult" where
  "message_history X T E D caller i =
     reading D (found D i) (\<lambda>message.
     reading D (require_channel_access (queries_of T) (m_channel_id message) (user_id caller)) (\<lambda>access.
     if m_user_id message = user_id caller then (D, Inr (list_edits D i))
     else reading D (require_workspace_role (queries_of T) (ch_workspace_id (channel access)) (user_id caller) Admin) (\<lambda>_.
       (audit_record D \<lparr>ma_action = MessageHistoryRead, ma_actor_id = user_id caller, ma_workspace_id = ch_workspace_id (channel access),
          ma_resource_id = i, ma_details = JObject [(lit ''author_id'', id_json X (m_user_id message))]\<rparr>, Inr (list_edits D i)))))"

definition delete_message :: "ext \<Rightarrow> tables \<Rightarrow> msg_env \<Rightarrow> msg_db \<Rightarrow> AuthUser \<Rightarrow> uuid \<Rightarrow> msg_db \<times> rstr AppResult" where
  "delete_message X T E D caller i =
     reading D (scoped caller ChatWrite) (\<lambda>_.
     reading D (found D i) (\<lambda>existing.
     reading D (ensure (m_user_id existing = user_id caller \<or> repo_can_moderate_channel T D (m_channel_id existing) (user_id caller))
                  (Forbidden (lit ''Can only delete your own messages''))) (\<lambda>_.
     reading D (open_channel_of T existing) (\<lambda>ch.
     let D0 = drop_unread_for_message D (m_channel_id existing) i (m_user_id existing)
     in case soft_delete_message_in (e_clock E) D0 i of
          (D1, parent) \<Rightarrow>
            (case stage_message_deleted X E D1 0 i (m_channel_id existing) (ch_workspace_id ch) of
               (D2, st) \<Rightarrow>
                 let (D3, parent_staged) = (case parent of
                        None \<Rightarrow> (D2, None)
                      | Some p \<Rightarrow> (case stage_message_updated X E D2 1 p (ch_workspace_id ch) of (D3, st1) \<Rightarrow> (D3, Some st1)));
                     D4 = dispatch_in X E (delete_for_channel_message (e_storage E) D3 i) 0 st;
                     D5 = (case parent_staged of None \<Rightarrow> D4 | Some st1 \<Rightarrow> dispatch_in X E D4 1 st1)
                 in (audit_record D5 \<lparr>ma_action = MessageDeleted, ma_actor_id = user_id caller,
                       ma_workspace_id = ch_workspace_id ch, ma_resource_id = i,
                       ma_details = JObject [(lit ''channel_id'', id_json X (m_channel_id existing)),
                         (lit ''author_id'', id_json X (m_user_id existing)),
                         (lit ''moderated'', JBool (m_user_id existing \<noteq> user_id caller))]\<rparr>,
                     Inr (lit ''deleted'')))))))"

definition pinning :: "ext \<Rightarrow> tables \<Rightarrow> msg_env \<Rightarrow> msg_db \<Rightarrow> AuthUser \<Rightarrow> uuid \<Rightarrow> bool \<Rightarrow> string \<Rightarrow> msg_db \<times> rstr AppResult" where
  "pinning X T E D caller i pinned answer =
     reading D (found D i) (\<lambda>existing.
     reading D (ensure (repo_can_moderate_channel T D (m_channel_id existing) (user_id caller))
                  (Forbidden (lit ''Requires channel or workspace admin''))) (\<lambda>_.
     reading D (open_channel_of T existing) (\<lambda>ch.
     in_tx D (set_pinned_in D i pinned) (\<lambda>(D1, m).
     (commit_one X E (stage_message_pinned X E D1 0 i (m_channel_id m) (ch_workspace_id ch) pinned), Inr (lit answer))))))"

definition pin_message :: "ext \<Rightarrow> tables \<Rightarrow> msg_env \<Rightarrow> msg_db \<Rightarrow> AuthUser \<Rightarrow> uuid \<Rightarrow> msg_db \<times> rstr AppResult" where
  "pin_message X T E D caller i = pinning X T E D caller i True ''pinned''"

definition unpin_message :: "ext \<Rightarrow> tables \<Rightarrow> msg_env \<Rightarrow> msg_db \<Rightarrow> AuthUser \<Rightarrow> uuid \<Rightarrow> msg_db \<times> rstr AppResult" where
  "unpin_message X T E D caller i = pinning X T E D caller i False ''unpinned''"

section \<open>Reactions\<close>

definition require_reacting :: "tables \<Rightarrow> msg_db \<Rightarrow> AuthUser \<Rightarrow> uuid \<Rightarrow> (Message \<times> ChannelAccess) AppResult" where
  "require_reacting T D caller i =
     and_then (found D i) (\<lambda>m.
     and_then (require_channel_access (queries_of T) (m_channel_id m) (user_id caller)) (\<lambda>access.
     and_then (require_not_archived (channel access)) (\<lambda>_. Inr (m, access))))"

definition add_reaction :: "ext \<Rightarrow> tables \<Rightarrow> msg_env \<Rightarrow> msg_db \<Rightarrow> AuthUser \<Rightarrow> uuid \<Rightarrow> rstr \<Rightarrow> msg_db \<times> Reaction AppResult" where
  "add_reaction X T E D caller i emoji =
     reading D (scoped caller ReactionsWrite) (\<lambda>_.
     reading D (validated (adapt (validate_reaction_emoji emoji))) (\<lambda>_.
     reading D (require_reacting T D caller i) (\<lambda>(m, access).
     reading D (case custom_emoji_name emoji of
                  None \<Rightarrow> Inr ()
                | Some name \<Rightarrow> ensure (e_emoji E (ch_workspace_id (channel access)) name)
                    (Validation (lit '':'' @ name @ lit '': is not an emoji in this workspace''))) (\<lambda>_.
     reading D (map_err (\<lambda>e. case e of UniqueViolation \<Rightarrow> Conflict (lit ''You already reacted with this emoji'') | _ \<Rightarrow> sql_error e)
                  (add_reaction_in (e_clock E) D (e_id E) i (user_id caller) emoji)) (\<lambda>(D1, r).
     (commit_one X E (stage_reaction_added X E D1 0 r (m_channel_id m) (ch_workspace_id (channel access))), Inr r))))))"

definition remove_reaction :: "ext \<Rightarrow> tables \<Rightarrow> msg_env \<Rightarrow> msg_db \<Rightarrow> AuthUser \<Rightarrow> uuid \<Rightarrow> rstr \<Rightarrow> msg_db \<times> rstr AppResult" where
  "remove_reaction X T E D caller i emoji =
     reading D (scoped caller ReactionsWrite) (\<lambda>_.
     reading D (require_reacting T D caller i) (\<lambda>(m, access).
     (commit_one X E (stage_reaction_removed X E (remove_reaction_in D i (user_id caller) emoji) 0 i (m_channel_id m)
        (ch_workspace_id (channel access)) (user_id caller) emoji), Inr (lit ''removed''))))"

section \<open>Read positions\<close>

definition read_up_to :: "ext \<Rightarrow> msg_env \<Rightarrow> msg_db \<Rightarrow> ChannelAccess \<Rightarrow> uuid \<Rightarrow> uuid \<Rightarrow> msg_db \<times> MarkedRead option" where
  "read_up_to X E D access u i =
     (let c = ch_id (channel access); w = ch_workspace_id (channel access)
      in case repo_mark_read (e_clock E) D c u i of
           (D1, marked) \<Rightarrow>
             (publish_read_state X E (mark_channel_read X D1 u w c) 0 u w
                \<lparr>rs_channel_id = c, rs_unread_count = 0, rs_mention_count = 0,
                 rs_last_read_message_id = Option.bind marked mk_boundary\<rparr>, marked))"

definition mark_read :: "ext \<Rightarrow> tables \<Rightarrow> msg_env \<Rightarrow> msg_db \<Rightarrow> AuthUser \<Rightarrow> uuid \<Rightarrow> uuid \<Rightarrow> msg_db \<times> rstr AppResult" where
  "mark_read X T E D caller c i =
     reading D (require_channel_access (queries_of T) c (user_id caller)) (\<lambda>access.
     (fst (read_up_to X E D access (user_id caller) i), Inr (lit ''read'')))"

fun publish_read_states :: "ext \<Rightarrow> msg_env \<Rightarrow> msg_db \<Rightarrow> nat \<Rightarrow> uuid \<Rightarrow> uuid \<Rightarrow> ReadState list \<Rightarrow> msg_db" where
  "publish_read_states X E D n u w [] = D"
| "publish_read_states X E D n u w (st # sts) = publish_read_states X E (publish_read_state X E D n u w st) (Suc n) u w sts"

definition mark_workspace_read :: "ext \<Rightarrow> tables \<Rightarrow> msg_env \<Rightarrow> msg_db \<Rightarrow> AuthUser \<Rightarrow> uuid \<Rightarrow> msg_db \<times> rstr AppResult" where
  "mark_workspace_read X T E D caller w =
     reading D (require_workspace_member (queries_of T) w (user_id caller)) (\<lambda>_.
     case repo_mark_workspace_read T (e_clock E) D w (user_id caller) of
       (D1, changed) \<Rightarrow> (publish_read_states X E (mark_channels_read D1 (user_id caller) w) 0 (user_id caller) w changed, Inr (lit ''read'')))"

definition mark_unread :: "ext \<Rightarrow> tables \<Rightarrow> msg_env \<Rightarrow> msg_db \<Rightarrow> AuthUser \<Rightarrow> uuid \<Rightarrow> uuid \<Rightarrow> msg_db \<times> ReadState AppResult" where
  "mark_unread X T E D caller c i =
     reading D (require_channel_access (queries_of T) c (user_id caller)) (\<lambda>access.
     case repo_mark_unread X D c (user_id caller) i of
       (D1, None) \<Rightarrow> (D1, Inl (NotFound (lit ''Message not found in this channel'')))
     | (D1, Some st) \<Rightarrow> (publish_read_state X E D1 0 (user_id caller) (ch_workspace_id (channel access)) st, Inr st))"

section \<open>Listing\<close>

record MessageWithReactions =
  mw_message :: Message
  mw_reactions :: "Reaction list"

text \<open>The map is emptied as it is read, so a message that stood twice in the list would show its reactions once.\<close>

fun take_reactions :: "Message list \<Rightarrow> (uuid \<Rightarrow> Reaction list) \<Rightarrow> MessageWithReactions list" where
  "take_reactions [] by_message = []"
| "take_reactions (m # ms) by_message =
     \<lparr>mw_message = m, mw_reactions = by_message (m_id m)\<rparr> # take_reactions ms (by_message(m_id m := []))"

definition with_reactions :: "msg_db \<Rightarrow> Message list \<Rightarrow> MessageWithReactions list" where
  "with_reactions D ms =
     (let reactions = list_reactions_for_messages D (map m_id ms)
      in take_reactions ms (\<lambda>i. filter (\<lambda>r. rx_message_id r = i) reactions))"

record MessagePage =
  mp_data :: "MessageWithReactions list"
  mp_unread_notifications :: "nat option"
  mp_last_read_before :: "uuid option"
  mp_last_read_before_at :: "timestamp option"

record ListMessagesQuery =
  lq_limit :: "int option"
  lq_cursor :: "uuid option"
  lq_mark_read :: "bool option"

definition page_limit :: "int option \<Rightarrow> int" where
  "page_limit l = max 1 (min 200 (case l of None \<Rightarrow> 50 | Some n \<Rightarrow> n))"

definition list_messages ::
  "ext \<Rightarrow> tables \<Rightarrow> msg_env \<Rightarrow> msg_db \<Rightarrow> AuthUser \<Rightarrow> uuid \<Rightarrow> ListMessagesQuery \<Rightarrow> msg_db \<times> MessagePage AppResult" where
  "list_messages X T E D caller c params =
     reading D (require_channel_access (queries_of T) c (user_id caller)) (\<lambda>access.
     reading D (scoped caller (history_scope (channel access))) (\<lambda>_.
     let page = with_reactions D (list_channel_messages D c (page_limit (lq_limit params)) (lq_cursor params))
     in case (case page of [] \<Rightarrow> None | mw # _ \<Rightarrow> if lq_mark_read params = Some True \<and> lq_cursor params = None then Some (m_id (mw_message mw)) else None) of
          None \<Rightarrow> (D, Inr \<lparr>mp_data = page, mp_unread_notifications = None, mp_last_read_before = None, mp_last_read_before_at = None\<rparr>)
        | Some newest \<Rightarrow>
            (case read_up_to X E D access (user_id caller) newest of
               (D1, marked) \<Rightarrow>
                 (D1, Inr \<lparr>mp_data = page,
                    mp_unread_notifications = Some (notifications_unread_count D1 (user_id caller) (ch_workspace_id (channel access))),
                    mp_last_read_before = Option.bind marked mk_before, mp_last_read_before_at = Option.bind marked mk_before_at\<rparr>))))"

definition list_thread ::
  "tables \<Rightarrow> msg_db \<Rightarrow> AuthUser \<Rightarrow> uuid \<Rightarrow> int option \<Rightarrow> uuid option \<Rightarrow> MessageWithReactions list AppResult" where
  "list_thread T D caller i limit cursor =
     and_then (ok_or (find_root D i) (NotFound (lit ''Message not found''))) (\<lambda>root.
     and_then (require_channel_access (queries_of T) (m_channel_id root) (user_id caller)) (\<lambda>access.
     and_then (scoped caller (history_scope (channel access))) (\<lambda>_.
     Inr (with_reactions D (list_thread_messages D i (page_limit limit) cursor)))))"

definition list_pins :: "tables \<Rightarrow> msg_db \<Rightarrow> AuthUser \<Rightarrow> uuid \<Rightarrow> Message list AppResult" where
  "list_pins T D caller c =
     and_then (require_channel_access (queries_of T) c (user_id caller)) (\<lambda>_. Inr (list_pinned D c))"

definition route_list_reactions :: "tables \<Rightarrow> msg_db \<Rightarrow> AuthUser \<Rightarrow> uuid \<Rightarrow> Reaction list AppResult" where
  "route_list_reactions T D caller i =
     and_then (found D i) (\<lambda>m.
     and_then (require_channel_access (queries_of T) (m_channel_id m) (user_id caller)) (\<lambda>_. Inr (list_reactions D i)))"

datatype LocationKind = LkChannel | LkDm | LkGroupDm

record MessageLocation =
  ml_workspace_id :: uuid
  ml_channel_id :: uuid
  ml_kind :: LocationKind
  ml_thread_parent_id :: "uuid option"
  ml_joined :: bool

definition locate_message :: "tables \<Rightarrow> msg_db \<Rightarrow> AuthUser \<Rightarrow> uuid \<Rightarrow> MessageLocation AppResult" where
  "locate_message T D caller i =
     (let not_found = NotFound (lit ''Message not found'')
      in and_then (ok_or (find_root D i) not_found) (\<lambda>m.
         and_then (map_err (\<lambda>e. case e of Forbidden _ \<Rightarrow> not_found | _ \<Rightarrow> e)
                     (require_channel_access (queries_of T) (m_channel_id m) (user_id caller))) (\<lambda>access.
         Inr \<lparr>ml_workspace_id = ch_workspace_id (channel access), ml_channel_id = m_channel_id m,
              ml_kind = (case channel_type (channel access) of Dm \<Rightarrow> LkDm | GroupDm \<Rightarrow> LkGroupDm | _ \<Rightarrow> LkChannel),
              ml_thread_parent_id = m_thread_parent_id m, ml_joined = (channel_member access \<noteq> None)\<rparr>)))"

end
