(* ===== verification/Message_Effects.thy ===== *)
theory Message_Effects
  imports Message_Service Outbox_Theorems
begin

text \<open>
  What a request does to the tables of messages, edits, reactions and read positions. \<open>row_effect\<close> is the abstract transition system: one change of
  those four tables, or none. Every request of \<open>Message_Service\<close> refines it (\<open>perform_effect\<close>), so an invariant of the four tables is
  proved once, against the rules of \<open>row_effect\<close>.
\<close>

section \<open>The four tables\<close>

definition core :: "msg_db \<Rightarrow> msg_db" where
  "core D = D\<lparr>t_follows := [], t_notifications := [], t_files := [], t_objects := [], t_audit := [], t_bus := new_bus\<rparr>"

lemma core_simps [simp]:
  "t_messages (core D) = t_messages D"
  "t_edits (core D) = t_edits D"
  "t_reactions (core D) = t_reactions D"
  "t_reads (core D) = t_reads D"
  "core (core D) = core D"
  "core (D\<lparr>t_follows := a\<rparr>) = core D"
  "core (D\<lparr>t_notifications := b\<rparr>) = core D"
  "core (D\<lparr>t_files := c\<rparr>) = core D"
  "core (D\<lparr>t_objects := d\<rparr>) = core D"
  "core (D\<lparr>t_audit := e\<rparr>) = core D"
  "core (D\<lparr>t_bus := f\<rparr>) = core D"
  "core (D\<lparr>t_messages := ms\<rparr>) = (core D)\<lparr>t_messages := ms\<rparr>"
  "core (D\<lparr>t_edits := es\<rparr>) = (core D)\<lparr>t_edits := es\<rparr>"
  "core (D\<lparr>t_reactions := rs\<rparr>) = (core D)\<lparr>t_reactions := rs\<rparr>"
  "core (D\<lparr>t_reads := xs\<rparr>) = (core D)\<lparr>t_reads := xs\<rparr>"
  by (simp_all add: core_def)

lemma core_reads [simp]:
  "message_row (core D) i = message_row D i"
  "find_message (core D) i = find_message D i"
  "find_root (core D) i = find_root D i"
  "thread_root (core D) c i = thread_root D c i"
  "client_id_taken (core D) c k = client_id_taken D c k"
  "edits_of (core D) i = edits_of D i"
  "read_row (core D) c u = read_row D c u"
  "unread_truth (core D) r = unread_truth D r"
  "unread_since (core D) c u t = unread_since D c u t"
  "read_boundary (core D) c i = read_boundary D c i"
  by (simp_all add: message_row_def find_message_def find_root_def thread_root_def client_id_taken_def edits_of_def read_row_def
      unread_truth_def unread_since_def read_boundary_def cong: option.case_cong if_cong)

lemma core_writes [simp]:
  "core (on_message D i f) = on_message (core D) i f"
  "core (on_read D c u h) = on_read (core D) c u h"
  "core (bump_unread D c u us) = bump_unread (core D) c u us"
  by (simp_all add: on_message_def on_read_def bump_unread_def)

text \<open>What touches none of the four.\<close>

lemma core_stage [simp]: "core (fst (stage_in E D n ty w v)) = core D"
  by (simp add: stage_in_def split_def)

lemma core_dispatch [simp]: "core (dispatch_in X E D n st) = core D"
  by (simp add: dispatch_in_def)

lemma core_commit_one [simp]: "core (commit_one X E r) = core (fst r)"
  by (simp add: commit_one_def)

lemma core_publish_read_state [simp]: "core (publish_read_state X E D n u w st) = core D"
  by (simp add: publish_read_state_def)

lemma core_publish_read_states [simp]: "core (publish_read_states X E D n u w sts) = core D"
  by (induction sts arbitrary: D n) simp_all

lemma core_announce_all [simp]: "core (announce_all X E D n root w fs) = core D"
  by (induction fs arbitrary: D n) (simp_all add: announce_thread_def)

lemma core_announce_reply [simp]: "core (announce_reply X E D n root w) = core D"
  by (simp add: announce_reply_def)

lemma core_follow [simp]: "core (follow D new f) = core D"
  by (simp add: follow_def)

lemma core_foldl_follow: "core (foldl (\<lambda>D u. follow D (row u) f) D us) = core D"
  by (induction us arbitrary: D) simp_all

lemma core_follow_on_reply [simp]: "core (follow_on_reply_in T D root w u v us t) = core D"
  by (simp add: follow_on_reply_in_def core_foldl_follow Let_def)

lemma core_audit_record [simp]: "core (audit_record D a) = core D"
  by (simp add: audit_record_def)

lemma core_discarded [simp]: "core (discarded E D cs) = core D"
  by (simp add: discarded_def)

lemma core_mark_notifications [simp]:
  "core (mark_channel_read X D u w c) = core D"
  "core (mark_channels_read D u w) = core D"
  by (simp_all add: mark_channel_read_def mark_channels_read_def)

lemma core_delete_files [simp]:
  "core (delete_for_channel_message S D i) = core D"
  "core (fst (delete_from_message_except_in D i keep)) = core D"
  by (simp_all add: delete_for_channel_message_def repo_delete_for_channel_message_def delete_from_message_except_in_def Let_def)

lemma core_claim_drafts: "claim_drafts_in D ids i w u = Inr (D1, fs) \<Longrightarrow> core D1 = core D"
  by (auto simp: claim_drafts_in_def repo_claim_drafts_in_def Let_def split: if_splits)

lemma core_record_loop: "record_loop S now i w u D fs cs = Inr (D1, gs) \<Longrightarrow> core D1 = core D"
  by (induction cs arbitrary: D fs) (auto simp: create_file_in_def split: if_splits)

lemmas stage_defs = stage_message_created_def stage_message_updated_def stage_message_deleted_def stage_message_pinned_def
  stage_reaction_added_def stage_reaction_removed_def

section \<open>The abstract transitions\<close>

text \<open>A change of the metadata that leaves alone where the message stands.\<close>

definition flag :: "json \<Rightarrow> json option" where
  "flag v = json_get v (lit ''also_in_channel'')"

definition remeta :: "(json \<Rightarrow> json) \<Rightarrow> Message \<Rightarrow> Message" where
  "remeta g m = m\<lparr>m_metadata := g (m_metadata m)\<rparr>"

inductive row_change :: "ext \<Rightarrow> timestamp \<Rightarrow> msg_db \<Rightarrow> msg_db \<Rightarrow> bool" for X now where
  none: "row_change X now C C"
| edited: "update_message_in now C new i content by = Inr (C1, m) \<Longrightarrow> (\<And>v. flag (g v) = flag v) \<Longrightarrow>
    row_change X now C (on_message C1 i (remeta g))"
| remade: "(\<And>v. flag (g v) = flag v) \<Longrightarrow> row_change X now C (on_message C i (remeta g))"
| pinned: "row_change X now C (on_message C i (\<lambda>m. m\<lparr>m_is_pinned := p\<rparr>))"
| deleted: "find_message C i = Some m \<Longrightarrow>
    row_change X now C (fst (soft_delete_message_in now (drop_unread_for_message C (m_channel_id m) i (m_user_id m)) i))"
| reacted: "add_reaction_in now C new i u emoji = Inr (C1, r) \<Longrightarrow> row_change X now C C1"
| unreacted: "row_change X now C (remove_reaction_in C i u emoji)"
| read_up: "row_change X now C (on_read C c u (set_read now b))"
| read_all: "row_change X now C (fst (repo_mark_workspace_read T now C w u))"
| unread: "t \<in> set (t_messages C) \<Longrightarrow>
    row_change X now C (on_read C c u (\<lambda>r. r\<lparr>rd_last_read_at := Some (m_created_at t - 1), rd_last_read_msg := b,
      rd_last_read_message_id := b, rd_unread_count := int (unread_since C c u (m_created_at t)), rd_mention_count := n\<rparr>))"
| joined: "row_change X now C (add_channel_member C c u ro)"
| departed: "row_change X now C (remove_channel_member C c u)"
| reconciled: "row_change X now C (fst (reconcile_unread_counts now C h))"

text \<open>A message comes into the tables only when it is sent.\<close>

inductive row_effect :: "ext \<Rightarrow> timestamp \<Rightarrow> msg_db \<Rightarrow> msg_db \<Rightarrow> bool" for X now where
  changed: "row_change X now C C' \<Longrightarrow> row_effect X now C C'"
| created: "create_message_in X now C new nm = Inr (C1, m) \<Longrightarrow> nm_thread_parent_id nm = map_option m_id root \<Longrightarrow>
    (\<And>r. root = Some r \<Longrightarrow> \<exists>p. thread_root C (nm_channel_id nm) p = Inr r) \<Longrightarrow> (\<And>v. flag (g v) = flag v) \<Longrightarrow>
    row_effect X now C (on_message C1 new (remeta g))"

lemma with_key_get [simp]: "k \<noteq> k' \<Longrightarrow> json_get (with_key v k x) k' = json_get v k'"
  by (cases v) (simp_all add: update_conv')

lemma without_key_get [simp]: "k \<noteq> k' \<Longrightarrow> json_get (without_key v k) k' = json_get v k'"
  by (cases v) (simp_all add: delete_conv')

lemma flag_keys [simp]:
  "flag (with_key v (lit ''attachments'') x) = flag v"
  "flag (without_key v (lit ''attachments'')) = flag v"
  "flag (without_key v (lit ''unfurls_source'')) = flag v"
  "flag (without_key v (lit ''unfurls'')) = flag v"
  "flag (with_key v (lit ''unfurls_hidden'') x) = flag v"
  unfolding flag_def by (rule with_key_get without_key_get; simp)+

section \<open>Requests refine it\<close>

datatype (plugins only: code) msg_op =
    Send tables msg_env AuthUser uuid SendMessageRequest
  | Update tables msg_env AuthUser uuid UpdateMessageRequest
  | RefreshUnfurls tables msg_env AuthUser uuid
  | HideUnfurls tables msg_env AuthUser uuid
  | History tables msg_env AuthUser uuid
  | Delete tables msg_env AuthUser uuid
  | Pin tables msg_env AuthUser uuid
  | Unpin tables msg_env AuthUser uuid
  | React tables msg_env AuthUser uuid rstr
  | Unreact tables msg_env AuthUser uuid rstr
  | MarkRead tables msg_env AuthUser uuid uuid
  | MarkWorkspaceRead tables msg_env AuthUser uuid
  | MarkUnread tables msg_env AuthUser uuid uuid
  | ListMessages tables msg_env AuthUser uuid ListMessagesQuery
  | Join uuid uuid ChannelRole
  | Leave uuid uuid
  | Draft FileRecord
  | Reconcile int
  | Bus bus_op

definition finished :: "msg_db \<times> 'a AppResult \<Rightarrow> msg_db \<times> unit AppResult" where
  "finished r = (fst r, map_sum id (\<lambda>_. ()) (snd r))"

text \<open>The clock of the operation stands in its environment.\<close>

fun perform_message :: "ext \<Rightarrow> timestamp \<Rightarrow> msg_db \<Rightarrow> msg_op \<Rightarrow> msg_db \<times> unit AppResult" where
  "perform_message X now D (Send T E caller c req) = finished (send_message X T (E\<lparr>e_clock := now\<rparr>) D caller c req)"
| "perform_message X now D (Update T E caller i req) = finished (update_message X T (E\<lparr>e_clock := now\<rparr>) D caller i req)"
| "perform_message X now D (RefreshUnfurls T E caller i) = finished (refresh_unfurls X T (E\<lparr>e_clock := now\<rparr>) D caller i)"
| "perform_message X now D (HideUnfurls T E caller i) = finished (hide_unfurls X T (E\<lparr>e_clock := now\<rparr>) D caller i)"
| "perform_message X now D (History T E caller i) = finished (message_history X T (E\<lparr>e_clock := now\<rparr>) D caller i)"
| "perform_message X now D (Delete T E caller i) = finished (delete_message X T (E\<lparr>e_clock := now\<rparr>) D caller i)"
| "perform_message X now D (Pin T E caller i) = finished (pin_message X T (E\<lparr>e_clock := now\<rparr>) D caller i)"
| "perform_message X now D (Unpin T E caller i) = finished (unpin_message X T (E\<lparr>e_clock := now\<rparr>) D caller i)"
| "perform_message X now D (React T E caller i emoji) = finished (add_reaction X T (E\<lparr>e_clock := now\<rparr>) D caller i emoji)"
| "perform_message X now D (Unreact T E caller i emoji) = finished (remove_reaction X T (E\<lparr>e_clock := now\<rparr>) D caller i emoji)"
| "perform_message X now D (MarkRead T E caller c i) = finished (mark_read X T (E\<lparr>e_clock := now\<rparr>) D caller c i)"
| "perform_message X now D (MarkWorkspaceRead T E caller w) = finished (mark_workspace_read X T (E\<lparr>e_clock := now\<rparr>) D caller w)"
| "perform_message X now D (MarkUnread T E caller c i) = finished (mark_unread X T (E\<lparr>e_clock := now\<rparr>) D caller c i)"
| "perform_message X now D (ListMessages T E caller c q) = finished (list_messages X T (E\<lparr>e_clock := now\<rparr>) D caller c q)"
| "perform_message X now D (Join c u ro) = (add_channel_member D c u ro, Inr ())"
| "perform_message X now D (Leave c u) = (remove_channel_member D c u, Inr ())"
| "perform_message X now D (Draft f) = (case create_file_in D f of Inr (D1, _) \<Rightarrow> (D1, Inr ()) | Inl e \<Rightarrow> (D, Inl (sql_error e)))"
| "perform_message X now D (Reconcile h) = (fst (reconcile_unread_counts now D h), Inr ())"
| "perform_message X now D (Bus b) = (D\<lparr>t_bus := bus_step X (t_bus D) b\<rparr>, Inr ())"

lemma finished_simps [simp]: "fst (finished r) = fst r" "snd (finished r) = Inl e \<longleftrightarrow> snd r = Inl e"
  by (cases "snd r"; simp add: finished_def)+

lemma reading_simps [simp]: "reading D (Inl e) k = (D, Inl e)" "reading D (Inr x) k = k x"
  by (simp_all add: reading_def)

lemma in_tx_simps [simp]: "in_tx D (Inl e) k = (D, Inl (sql_error e))" "in_tx D (Inr x) k = k x"
  by (simp_all add: in_tx_def)

text \<open>The proof rule of a request: a step that only reads either answers or goes on.\<close>

lemma reading_effect:
  "R (core D) (core (fst (reading D r k)))" if "R (core D) (core D)" "\<And>x. r = Inr x \<Longrightarrow> R (core D) (core (fst (k x)))"
  using that by (cases r) auto

lemma in_tx_effect:
  "R (core D) (core (fst (in_tx D r k)))" if "R (core D) (core D)" "\<And>x. r = Inr x \<Longrightarrow> R (core D) (core (fst (k x)))"
  using that by (cases r) auto

lemmas reading_change = reading_effect [of "row_change X now" for X now, OF row_change.none]
lemmas in_tx_change = in_tx_effect [of "row_change X now" for X now, OF row_change.none]
lemmas no_effect = row_effect.changed [OF row_change.none]

text \<open>The statements see only the four tables.\<close>

lemma create_core: "create_message_in X now D new nm = Inr (D1, m) \<Longrightarrow> create_message_in X now (core D) new nm = Inr (core D1, m)"
  by (auto simp: create_message_in_def Let_def split: if_splits option.splits)

lemma update_returning_eq:
  "update_returning D i f = Inr (D1, m) \<Longrightarrow> D1 = on_message D i f \<and> (\<exists>m0. message_row D i = Some m0 \<and> m = f m0)"
  by (auto simp: update_returning_def split: option.splits)

lemma update_core: "update_message_in now D new i s u = Inr (D1, m) \<Longrightarrow> update_message_in now (core D) new i s u = Inr (core D1, m)"
  by (auto simp: update_message_in_def Let_def update_returning_def edits_of_def message_row_def split: if_splits option.splits)

lemma drop_unread_core [simp]: "core (drop_unread_for_message D c i u) = drop_unread_for_message (core D) c i u"
  by (auto simp: drop_unread_for_message_def split: option.splits)

lemma soft_delete_core [simp]: "core (fst (soft_delete_message_in now D i)) = fst (soft_delete_message_in now (core D) i)"
  by (auto simp: soft_delete_message_in_def Let_def split: option.splits)

lemma react_core: "add_reaction_in now D new i u s = Inr (D1, r) \<Longrightarrow> add_reaction_in now (core D) new i u s = Inr (core D1, r)"
  by (auto simp: add_reaction_in_def Let_def split: if_splits)

lemma reads_core [simp]:
  "core (remove_reaction_in D i u s) = remove_reaction_in (core D) i u s"
  "core (fst (repo_mark_workspace_read T now D w u)) = fst (repo_mark_workspace_read T now (core D) w u)"
  "core (add_channel_member D c u ro) = add_channel_member (core D) c u ro"
  "core (remove_channel_member D c u) = remove_channel_member (core D) c u"
  "core (fst (reconcile_unread_counts now D h)) = fst (reconcile_unread_counts now (core D) h)"
  by (simp_all add: remove_reaction_in_def repo_mark_workspace_read_def add_channel_member_def remove_channel_member_def
      reconcile_unread_counts_def Let_def)

lemma remeta_id [simp]: "remeta id = id"
  by (simp add: remeta_def [abs_def] fun_eq_iff)

lemma on_message_same [simp]: "on_message D i id = D"
  by (simp add: on_message_def update_rows_def cong: if_cong)

lemma row_id: "message_row D i = Some m \<Longrightarrow> m_id m = i"
  by (auto simp: message_row_def dest!: find_Some_iff)

lemma set_attachments_effect:
  assumes "set_attachments_in D i vs = Inr (D1, m)"
  shows "\<exists>g. D1 = on_message D i (remeta g) \<and> (\<forall>v. flag (g v) = flag v) \<and> m_id m = i"
  using update_returning_eq [OF assms [unfolded set_attachments_in_def]] row_id [of D i]
  by (intro exI [of _ "\<lambda>v. if vs = [] then without_key v (lit ''attachments'') else with_key v (lit ''attachments'') (JArray vs)"])
    (auto simp: remeta_def [abs_def] simp del: lit_simps)

lemma attach_effect:
  assumes "attach_in X E D m ids copied w u = Inr (D1, m1)"
  shows "\<exists>g. core D1 = on_message (core D) (m_id m) (remeta g) \<and> (\<forall>v. flag (g v) = flag v) \<and> m_id m1 = m_id m"
proof -
  obtain Da fs where a: "claim_drafts_in D ids (m_id m) w u = Inr (Da, fs)"
    using assms by (cases "claim_drafts_in D ids (m_id m) w u") (auto simp: attach_in_def)
  with assms obtain Db gs where b: "record_copies_in (e_storage E) (e_clock E) Da copied (m_id m) w u = Inr (Db, gs)"
    by (cases "record_copies_in (e_storage E) (e_clock E) Da copied (m_id m) w u") (auto simp: attach_in_def)
  have core: "core Db = core D"
    using core_claim_drafts [OF a] core_record_loop [OF b [unfolded record_copies_in_def]] by simp
  show ?thesis
  proof (cases "fs @ gs = []")
    case True
    with assms a b have "D1 = Db" "m1 = m" by (auto simp: attach_in_def Let_def)
    with core show ?thesis by (intro exI [of _ id]) simp
  next
    case False
    let ?r = "set_attachments_in Db (m_id m) (attachments_json X (e_storage E) (fs @ gs))"
    have "map_err sql_error ?r = Inr (D1, m1)" using assms a b False by (auto simp: attach_in_def Let_def)
    then have "?r = Inr (D1, m1)" by (cases ?r) auto
    from set_attachments_effect [OF this] core show ?thesis by auto
  qed
qed

lemma finish_send_result:
  assumes "create_message_in X (e_clock E) D (e_id E) nm = Inr (D1, m0)"
    and "finish_send X T E D D1 caller req ch root mentioned copied m0 = (D', r)"
  shows "case r of Inl e \<Rightarrow> core D' = core D
    | Inr m \<Rightarrow> m_id m = e_id E \<and> (\<exists>g. core D' = on_message (core D1) (e_id E) (remeta g) \<and> (\<forall>v. flag (g v) = flag v))"
proof -
  have [simp]: "m_id m0 = e_id E" using assms by (auto simp: create_message_in_def Let_def split: if_splits)
  show ?thesis
  proof (cases "attach_in X E D1 m0 (sm_attachment_ids req) copied (ch_workspace_id ch) (user_id caller)")
    case (Inr q)
    then obtain D2 m where "attach_in X E D1 m0 (sm_attachment_ids req) copied (ch_workspace_id ch) (user_id caller) = Inr (D2, m)"
      by (cases q) auto
    with attach_effect [OF this] assms(2) show ?thesis
      by (auto simp: finish_send_def Let_def split_def stage_defs split: option.splits)
  qed (use assms(2) in \<open>auto simp: finish_send_def\<close>)
qed

lemma finish_send_core:
  assumes "create_message_in X (e_clock E) D (e_id E) nm = Inr (D1, m0)"
  shows "core (fst (finish_send X T E D D1 caller req ch root mentioned copied m0)) = core D
    \<or> (\<exists>g. core (fst (finish_send X T E D D1 caller req ch root mentioned copied m0)) = on_message (core D1) (e_id E) (remeta g)
         \<and> (\<forall>v. flag (g v) = flag v))"
  using finish_send_result [OF assms, of T caller req ch root mentioned copied]
  by (cases "finish_send X T E D D1 caller req ch root mentioned copied m0") (auto split: sum.splits)

lemma send_checks_root:
  "send_checks T E D caller c req = Inr (ch, forwarded, Some r) \<Longrightarrow> \<exists>p. thread_root D c p = Inr r"
  by (auto simp: send_checks_def map_sum_def split: option.splits sum.splits if_splits)

lemma write_send_effect:
  assumes "send_checks T E D caller c req = Inr (ch, forwarded, root)" and "core D1 = core D"
  shows "row_effect X (e_clock E) (core D) (core (fst (write_send X T E D1 caller c req ch root us copied)))"
proof (cases "create_message_in X (e_clock E) D1 (e_id E) (new_message caller c req root us)")
  case (Inl e)
  then show ?thesis using assms(2) by (auto simp: write_send_def intro: no_effect split: option.splits SqlError.splits)
next
  case (Inr r)
  then obtain D2 m where made: "create_message_in X (e_clock E) D1 (e_id E) (new_message caller c req root us) = Inr (D2, m)"
    by (cases r) auto
  have "row_effect X (e_clock E) (core D) (on_message (core D2) (e_id E) (remeta g))" if "\<And>v. flag (g v) = flag v" for g
    using create_core [OF made] assms that
    by (intro row_effect.created [where root = root]) (auto simp: new_message_def dest: send_checks_root)
  moreover have "fst (write_send X T E D1 caller c req ch root us copied) = fst (finish_send X T E D1 D2 caller req ch root us copied m)"
    using made by (simp add: write_send_def)
  ultimately show ?thesis
    using finish_send_core [OF made, of T caller req ch root us copied] assms(2) by (auto intro: no_effect)
qed

lemma send_message_effect: "row_effect X (e_clock E) (core D) (core (fst (send_message X T E D caller c req)))"
  unfolding send_message_def
  by (rule reading_effect [where R = "row_effect X (e_clock E)", OF no_effect]) (auto intro: no_effect write_send_effect split: prod.splits sum.splits)

lemma update_message_effect: "row_change X (e_clock E) (core D) (core (fst (update_message X T E D caller i req)))"
proof -
  have edit: "row_change X (e_clock E) (core D) (on_message (core D1) i (remeta g))"
    if "update_message_in (e_clock E) D (e_id E) i s u = Inr (D1, m)" "\<And>v. flag (g v) = flag v" for D1 m g s u
    using row_change.edited [OF update_core [OF that(1)]] that(2) by blast
  have same: "row_change X (e_clock E) (core D) (core D1)"
    if "update_message_in (e_clock E) D (e_id E) i s u = Inr (D1, m)" for D1 m s u
    using edit [OF that, of id] by simp
  have attached: "row_change X (e_clock E) (core D) (core D3)"
    if "update_message_in (e_clock E) D (e_id E) i s u = Inr (D1, m)"
      "set_attachments_in (fst (delete_from_message_except_in D1 i keep)) i vs = Inr (D3, m3)" for D1 D3 m m3 s u keep vs
    using set_attachments_effect [OF that(2)] edit [OF that(1)] by auto
  show ?thesis
    unfolding update_message_def Let_def
    by (intro reading_change in_tx_change)
      (auto simp: split_def stage_defs intro!: in_tx_change dest: same attached split: option.splits)
qed

lemma returning_effect:
  assumes "update_returning D i (remeta g) = Inr (D1, m)" and "\<And>v. flag (g v) = flag v"
  shows "row_change X now (core D) (core D1)"
  using update_returning_eq [OF assms(1)] row_change.remade [of g X now "core D" i] assms(2) by simp

lemma unfurl_statements_effect:
  "reset_unfurls_in D i = Inr (D1, m) \<Longrightarrow> row_change X now (core D) (core D1)"
  "hide_unfurls_in D i = Inr (D1, m) \<Longrightarrow> row_change X now (core D) (core D1)"
  unfolding reset_unfurls_in_def hide_unfurls_in_def
  by (erule returning_effect [unfolded remeta_def]; simp del: lit_simps)+

lemma unfurls_effect:
  "row_change X (e_clock E) (core D) (core (fst (refresh_unfurls X T E D caller i)))"
  "row_change X (e_clock E) (core D) (core (fst (hide_unfurls X T E D caller i)))"
  unfolding refresh_unfurls_def hide_unfurls_def
  by (rule reading_change, clarify, rule in_tx_change, auto simp: stage_defs intro: unfurl_statements_effect)+

lemma message_history_effect: "row_change X (e_clock E) (core D) (core (fst (message_history X T E D caller i)))"
  unfolding message_history_def by (intro reading_change) (auto intro!: reading_change row_change.none)

lemma pinning_effect: "row_change X (e_clock E) (core D) (core (fst (pinning X T E D caller i p s)))"
  unfolding pinning_def
  by (intro reading_change in_tx_change)
    (auto simp: stage_defs set_pinned_in_def dest!: update_returning_eq intro: row_change.pinned)

lemma delete_message_effect: "row_change X (e_clock E) (core D) (core (fst (delete_message X T E D caller i)))"
proof -
  have "row_change X (e_clock E) (core D) (fst (soft_delete_message_in (e_clock E)
      (drop_unread_for_message (core D) (m_channel_id m) i (m_user_id m)) i))" if "found D i = Inr m" for m
    using that by (intro row_change.deleted) (auto simp: found_def)
  then show ?thesis
    unfolding delete_message_def Let_def
    by (intro reading_change) (auto simp: split_def stage_defs split: option.splits)
qed

lemma reaction_effect:
  "row_change X (e_clock E) (core D) (core (fst (add_reaction X T E D caller i s)))"
  "row_change X (e_clock E) (core D) (core (fst (remove_reaction X T E D caller i s)))"
proof -
  have "row_change X (e_clock E) (core D) (core D1)"
    if "map_err h (add_reaction_in (e_clock E) D (e_id E) i u s) = Inr (D1, r)" for D1 r u h
  proof -
    have "add_reaction_in (e_clock E) D (e_id E) i u s = Inr (D1, r)"
      using that by (cases "add_reaction_in (e_clock E) D (e_id E) i u s") auto
    then show ?thesis by (intro row_change.reacted react_core)
  qed
  then show "row_change X (e_clock E) (core D) (core (fst (add_reaction X T E D caller i s)))"
    unfolding add_reaction_def by (intro reading_change) (auto simp: stage_defs intro!: reading_change)
  show "row_change X (e_clock E) (core D) (core (fst (remove_reaction X T E D caller i s)))"
    unfolding remove_reaction_def by (intro reading_change) (auto simp: stage_defs intro: row_change.unreacted)
qed

lemma read_up_to_effect: "row_change X (e_clock E) (core D) (core (fst (read_up_to X E D access u i)))"
  by (auto simp: read_up_to_def repo_mark_read_def Let_def intro: row_change.read_up)

lemma mark_unread_effect: "row_change X (e_clock E) (core D) (core (fst (mark_unread X T E D caller c i)))"
proof -
  have "row_change X (e_clock E) (core D) (core (fst (repo_mark_unread X D c u i)))" for u
  proof (cases "List.find (\<lambda>m. m_id m = i \<and> m_channel_id m = c \<and> m_deleted_at m = None) (t_messages D)")
    case None
    then show ?thesis by (simp add: repo_mark_unread_def row_change.none)
  next
    case (Some t)
    show ?thesis
      using row_change.unread [OF find_Some_iff [OF Some, THEN conjunct1, unfolded core_simps(1) [of D, symmetric]]] Some
      by (simp add: repo_mark_unread_def Let_def)
  qed
  from this [of "user_id caller"] show ?thesis
    unfolding mark_unread_def by (intro reading_change) (auto split: prod.splits option.splits)
qed

lemma mark_read_effect:
  "row_change X (e_clock E) (core D) (core (fst (mark_read X T E D caller c i)))"
  "row_change X (e_clock E) (core D) (core (fst (mark_workspace_read X T E D caller w)))"
  "row_change X (e_clock E) (core D) (core (fst (list_messages X T E D caller c q)))"
proof -
  show "row_change X (e_clock E) (core D) (core (fst (mark_read X T E D caller c i)))"
    unfolding mark_read_def by (rule reading_change) (simp add: read_up_to_effect)
  show "row_change X (e_clock E) (core D) (core (fst (mark_workspace_read X T E D caller w)))"
    unfolding mark_workspace_read_def by (rule reading_change) (simp add: split_def row_change.read_all)
  show "row_change X (e_clock E) (core D) (core (fst (list_messages X T E D caller c q)))"
    unfolding list_messages_def Let_def
    by (intro reading_change) (auto simp: split_def read_up_to_effect row_change.none split: option.splits list.splits if_splits)
qed

lemma create_file_core: "create_file_in D f = Inr (D1, g) \<Longrightarrow> core D1 = core D"
  by (auto simp: create_file_in_def split: if_splits)

lemmas request_changes = update_message_effect unfurls_effect message_history_effect delete_message_effect
  pinning_effect reaction_effect mark_read_effect mark_unread_effect

lemma at_now: "row_change X (e_clock (E\<lparr>e_clock := now\<rparr>)) C C' \<Longrightarrow> row_change X now C C'"
  by simp

text \<open>The refinement: whatever is performed, the four tables make one transition.\<close>

fun is_send :: "msg_op \<Rightarrow> bool" where
  "is_send (Send T E caller c req) = True"
| "is_send _ = False"

lemma perform_change: "\<not> is_send op \<Longrightarrow> row_change X now (core D) (core (fst (perform_message X now D op)))"
proof (cases op)
  case (Draft f)
  then show ?thesis by (auto simp: row_change.none create_file_core split: sum.splits)
qed (auto simp: pin_message_def unpin_message_def
    intro: at_now request_changes row_change.joined row_change.departed row_change.reconciled row_change.none)

lemma perform_effect: "row_effect X now (core D) (core (fst (perform_message X now D op)))"
proof (cases "is_send op")
  case True
  then obtain T E caller c req where "op = Send T E caller c req" by (cases op) auto
  then show ?thesis using send_message_effect [of X "E\<lparr>e_clock := now\<rparr>"] by simp
qed (blast intro: row_effect.changed perform_change)

end
