(* ===== verification/Message_Invariant.thy ===== *)
theory Message_Invariant
  imports Message_Effects
begin

text \<open>
  What holds of the tables of messages after any requests. The invariant is proved against the transitions of \<open>Message_Effects\<close>, in three parts:
  threads (one level deep, in one channel, their counters exact), keys, and the unread counters, which agree with the messages
  behind each read position as long as the clock moves.
\<close>

section \<open>Simulation\<close>

text \<open>
  The contract between a machine and the transition system it refines: every step of the machine is a transition of its abstract state, and
  the transitions keep an invariant. The client gets the invariant of the abstract state after any run.
\<close>

locale simulated =
  fixes abs :: "'s \<Rightarrow> 'a"
    and step :: "'s \<Rightarrow> 'o \<Rightarrow> 's"
    and trans :: "'a \<Rightarrow> 'a \<Rightarrow> bool"
    and inv :: "'a \<Rightarrow> bool"
    and init :: 's
  assumes simulates: "trans (abs s) (abs (step s x))"
    and inv_trans: "inv a \<Longrightarrow> trans a b \<Longrightarrow> inv b"
    and inv_init: "inv (abs init)"
begin

lemma abs_inv_from: "inv (abs s) \<Longrightarrow> inv (abs (run step s xs))"
  by (induction xs arbitrary: s) (auto intro: inv_trans simulates)

lemma abs_inv: "inv (abs (run step init xs))"
  by (rule abs_inv_from [OF inv_init])

end

section \<open>The invariant\<close>

definition live_replies :: "Message list \<Rightarrow> uuid \<Rightarrow> Message list" where
  "live_replies ms i = filter (\<lambda>m. m_thread_parent_id m = Some i \<and> m_deleted_at m = None) ms"

text \<open>A reply hangs off a message of its channel that is no reply, and a message counts its live replies.\<close>

definition reply_ok :: "Message list \<Rightarrow> Message \<Rightarrow> bool" where
  "reply_ok ms m \<longleftrightarrow> (case m_thread_parent_id m of None \<Rightarrow> True
     | Some p \<Rightarrow> list_ex (\<lambda>r. m_id r = p \<and> m_thread_parent_id r = None \<and> m_channel_id r = m_channel_id m) ms)"

definition threads_ok :: "Message list \<Rightarrow> bool" where
  "threads_ok ms \<longleftrightarrow> distinct (map m_id ms) \<and> list_all (reply_ok ms) ms
     \<and> list_all (\<lambda>r. m_reply_count r = int (length (live_replies ms (m_id r)))) ms"

definition client_key :: "Message \<Rightarrow> uuid \<times> uuid option" where
  "client_key m = (m_channel_id m, m_client_message_id m)"

definition keys_ok :: "msg_db \<Rightarrow> bool" where
  "keys_ok C \<longleftrightarrow> distinct (map client_key (filter (\<lambda>m. m_client_message_id m \<noteq> None) (t_messages C)))
     \<and> distinct (map (\<lambda>r. (rx_message_id r, rx_user_id r, rx_emoji r)) (t_reactions C))
     \<and> distinct (map (\<lambda>r. (rd_channel_id r, rd_user_id r)) (t_reads C))"

definition edits_ok :: "msg_db \<Rightarrow> bool" where
  "edits_ok C \<longleftrightarrow> distinct (map edit_id (t_edits C)) \<and> (\<forall>i. length (edits_of C i) \<le> MAX_STORED_EDITS)"

text \<open>A counter is exact once its member has a read position; until then it is only not negative.\<close>

definition counter_ok :: "msg_db \<Rightarrow> ReadRow \<Rightarrow> bool" where
  "counter_ok C r \<longleftrightarrow> (case rd_last_read_at r of None \<Rightarrow> 0 \<le> rd_unread_count r | Some _ \<Rightarrow> rd_unread_count r = int (unread_truth C r))"

definition clock_ok :: "timestamp \<Rightarrow> msg_db \<Rightarrow> bool" where
  "clock_ok now C \<longleftrightarrow> list_all (\<lambda>m. m_created_at m \<le> now) (t_messages C)
     \<and> list_all (\<lambda>r. case rd_last_read_at r of None \<Rightarrow> True | Some t \<Rightarrow> t \<le> now) (t_reads C)"

definition msgs_ok :: "timestamp \<times> msg_db \<Rightarrow> bool" where
  "msgs_ok s \<longleftrightarrow> threads_ok (t_messages (snd s)) \<and> keys_ok (snd s) \<and> edits_ok (snd s)
     \<and> list_all (counter_ok (snd s)) (t_reads (snd s)) \<and> clock_ok (fst s) (snd s)"

section \<open>Changes of one message\<close>

text \<open>What a change of a message in place leaves alone: its keys, its thread, whether it lives and where it stands.\<close>

definition stays :: "(Message \<Rightarrow> Message) \<Rightarrow> bool" where
  "stays f \<longleftrightarrow> (\<forall>m. m_id (f m) = m_id m \<and> m_channel_id (f m) = m_channel_id m \<and> m_user_id (f m) = m_user_id m
     \<and> client_key (f m) = client_key m \<and> m_thread_parent_id (f m) = m_thread_parent_id m
     \<and> m_created_at (f m) = m_created_at m \<and> stands_in_channel (f m) = stands_in_channel m)"

definition harmless :: "(Message \<Rightarrow> Message) \<Rightarrow> bool" where
  "harmless f \<longleftrightarrow> stays f \<and> (\<forall>m. m_deleted_at (f m) = m_deleted_at m \<and> m_reply_count (f m) = m_reply_count m)"

lemma stands_flag: "stands_in_channel m \<longleftrightarrow> m_thread_parent_id m = None
    \<or> flag (m_metadata m) \<in> {Some (JBool True), Some (JString (lit ''true''))}"
  by (simp add: stands_in_channel_def flag_def del: lit_simps)

lemma harmless_remeta: "(\<And>v. flag (g v) = flag v) \<Longrightarrow> harmless (remeta g)"
  by (simp add: harmless_def stays_def remeta_def client_key_def stands_flag del: lit_simps)

lemma harmless_pinned: "harmless (\<lambda>m. m\<lparr>m_is_pinned := p\<rparr>)"
  by (simp add: harmless_def stays_def client_key_def stands_flag del: lit_simps)

lemma harmless_content: "harmless (\<lambda>m. m\<lparr>m_content := s, m_updated_at := t\<rparr>)"
  by (simp add: harmless_def stays_def client_key_def stands_flag del: lit_simps)

lemma length_filter_update_rows:
  "(\<And>r. Q (f r) = Q r) \<Longrightarrow> length (filter Q (update_rows P f rs)) = length (filter Q rs)"
  by (simp add: filter_update_rows)

lemma list_all_update_rows:
  "list_all Q (update_rows P f rs) \<longleftrightarrow> list_all (\<lambda>r. if P r then Q (f r) else Q r) rs"
  by (induction rs) (auto simp: update_rows_def)

lemma list_all_update_rowsI:
  "(\<And>r. r \<in> set rs \<Longrightarrow> Q (if P r then f r else r)) \<Longrightarrow> list_all Q (update_rows P f rs)"
  unfolding update_rows_def list.pred_map by (simp add: list_all_iff)

lemma list_ex_update_rows:
  "(\<And>r. Q (f r) = Q r) \<Longrightarrow> list_ex Q (update_rows P f rs) = list_ex Q rs"
  by (induction rs) (auto simp: update_rows_def)

lemma on_message_simps [simp]:
  "t_messages (on_message C i f) = update_rows (\<lambda>m. m_id m = i) f (t_messages C)"
  "t_edits (on_message C i f) = t_edits C"
  "t_reactions (on_message C i f) = t_reactions C"
  "t_reads (on_message C i f) = t_reads C"
  by (simp_all add: on_message_def)

lemma threads_harmless:
  assumes "harmless f" and "threads_ok ms"
  shows "threads_ok (update_rows P f ms)"
proof -
  have f: "m_id (f m) = m_id m" "m_channel_id (f m) = m_channel_id m" "m_thread_parent_id (f m) = m_thread_parent_id m"
    "m_deleted_at (f m) = m_deleted_at m" "m_reply_count (f m) = m_reply_count m" for m
    using assms(1) by (simp_all add: harmless_def stays_def)
  have "reply_ok (update_rows P f ms) m = reply_ok ms m" for m
    by (auto simp: reply_ok_def list_ex_update_rows f split: option.splits)
  moreover have "length (live_replies (update_rows P f ms) i) = length (live_replies ms i)" for i
    by (simp add: live_replies_def length_filter_update_rows f)
  moreover have "reply_ok ms (f m) = reply_ok ms m" for m by (simp add: reply_ok_def f split: option.split)
  ultimately show ?thesis
    using assms(2) by (simp add: threads_ok_def distinct_map_update_rows f list_all_update_rows cong: if_cong)
qed

text \<open>The counters rest on the messages through \<open>unread_truth\<close> alone.\<close>

definition behind :: "ReadRow \<Rightarrow> Message \<Rightarrow> bool" where
  "behind r m \<longleftrightarrow> counted (rd_channel_id r) m \<and> m_user_id m \<noteq> rd_user_id r
     \<and> (case rd_last_read_at r of None \<Rightarrow> True | Some t \<Rightarrow> m_created_at m > t)"

lemma unread_truth_behind: "unread_truth C r = length (filter (behind r) (t_messages C))"
  by (simp add: unread_truth_def behind_def [abs_def])

lemma behind_harmless: "harmless f \<Longrightarrow> behind r (f m) = behind r m"
  by (simp add: behind_def counted_def harmless_def stays_def split: option.split)

lemma counter_harmless: "harmless f \<Longrightarrow> counter_ok (on_message C i f) = counter_ok C"
  by (simp add: fun_eq_iff counter_ok_def unread_truth_behind length_filter_update_rows behind_harmless cong: option.case_cong)

lemma msgs_ok_harmless:
  assumes "harmless f" and "msgs_ok (t, C)"
  shows "msgs_ok (t, on_message C i f)"
proof -
  have f: "client_key (f m) = client_key m" "m_created_at (f m) = m_created_at m" for m
    using assms(1) by (simp_all add: harmless_def stays_def)
  then have "m_client_message_id (f m) = m_client_message_id m" for m by (simp add: client_key_def)
  then have "keys_ok (on_message C i f) = keys_ok C"
    by (simp add: keys_ok_def filter_update_rows distinct_map_update_rows f)
  moreover have "edits_ok (on_message C i f) = edits_ok C" by (simp add: edits_ok_def edits_of_def)
  moreover have "clock_ok t (on_message C i f) = clock_ok t C"
    by (simp add: clock_ok_def list_all_update_rows f cong: if_cong)
  ultimately show ?thesis
    using assms by (simp add: msgs_ok_def threads_harmless counter_harmless)
qed

lemma clock_ok_later: "clock_ok t C \<Longrightarrow> t \<le> now \<Longrightarrow> clock_ok now C"
  by (fastforce simp: clock_ok_def list_all_iff split: option.splits)

lemma msgs_ok_later: "msgs_ok (t, C) \<Longrightarrow> t \<le> now \<Longrightarrow> msgs_ok (now, C)"
  by (auto simp: msgs_ok_def intro: clock_ok_later)

section \<open>New messages\<close>

lemma reply_okD:
  "reply_ok ms m \<Longrightarrow> m_thread_parent_id m = Some p \<Longrightarrow>
    \<exists>r\<in>set ms. m_id r = p \<and> m_thread_parent_id r = None \<and> m_channel_id r = m_channel_id m"
  by (auto simp: reply_ok_def list_ex_iff)

lemma no_replies_to_fresh:
  assumes "threads_ok ms" and "new \<notin> m_id ` set ms"
  shows "live_replies ms new = []"
proof -
  have "m_thread_parent_id m \<noteq> Some new" if "m \<in> set ms" for m
    using assms that reply_okD [of ms m new] by (fastforce simp: threads_ok_def list_all_iff)
  then show ?thesis by (simp add: live_replies_def)
qed

lemma reply_ok_append: "reply_ok ms m \<Longrightarrow> reply_ok (ms @ ms') m"
  by (auto simp: reply_ok_def split: option.splits)

lemma threads_new_root:
  assumes "threads_ok ms" and "m_id msg \<notin> m_id ` set ms" and "m_thread_parent_id msg = None" and "m_reply_count msg = 0"
  shows "threads_ok (ms @ [msg])"
proof -
  have "live_replies (ms @ [msg]) i = live_replies ms i" for i using assms(3) by (simp add: live_replies_def)
  then show ?thesis
    using assms no_replies_to_fresh [OF assms(1,2)]
    by (auto simp: threads_ok_def list_all_iff reply_ok_append) (auto simp: reply_ok_def)
qed

lemma threads_new_reply:
  assumes ok: "threads_ok ms" and new: "m_id msg \<notin> m_id ` set ms" and msg: "m_reply_count msg = 0" "m_deleted_at msg = None"
    and root: "m_thread_parent_id msg = Some (m_id r)" "r \<in> set ms" "m_thread_parent_id r = None" "m_channel_id r = m_channel_id msg"
  shows "threads_ok (update_rows (\<lambda>m. m_id m = m_id r) (\<lambda>m. m\<lparr>m_reply_count := m_reply_count m + 1\<rparr>) (ms @ [msg]))"
    (is "threads_ok (update_rows ?P ?f _)")
proof -
  have replies: "length (live_replies (update_rows ?P ?f (ms @ [msg])) i) = length (live_replies ms i) + (if i = m_id r then 1 else 0)" for i
    using msg(2) root(1) by (simp add: live_replies_def length_filter_update_rows)
  have ok': "reply_ok (update_rows ?P ?f (ms @ [msg])) m = reply_ok (ms @ [msg]) m" for m
    by (auto simp: reply_ok_def list_ex_update_rows split: option.splits)
  have f: "reply_ok ns (?f m) = reply_ok ns m" for ns m by (simp add: reply_ok_def split: option.split)
  have "m_id msg \<noteq> m_id r" using new root(2) by auto
  moreover have "reply_ok (ms @ [msg]) msg" using root by (auto simp: reply_ok_def list_ex_iff)
  ultimately show ?thesis
    using ok new msg(1) no_replies_to_fresh [OF ok new]
    by (simp add: threads_ok_def list_all_update_rows distinct_map_update_rows ok' f replies) (auto simp: list_all_iff reply_ok_append)
qed

text \<open>A thread is found at a message that is no reply.\<close>

lemma masked_simps [simp]:
  "m_id (masked m) = m_id m" "m_channel_id (masked m) = m_channel_id m" "m_thread_parent_id (masked m) = m_thread_parent_id m"
  by (simp_all add: masked_def)

lemma find_root_row: "find_root C i = Some m \<Longrightarrow> \<exists>m0\<in>set (t_messages C). m = masked m0 \<and> m_id m0 = i"
  by (auto simp: find_root_def dest!: find_Some_iff)

lemma thread_root_row:
  assumes ok: "threads_ok (t_messages C)" and root: "thread_root C c p = Inr r"
  shows "\<exists>r0\<in>set (t_messages C). m_id r0 = m_id r \<and> m_thread_parent_id r0 = None \<and> m_channel_id r0 = c"
proof -
  obtain q where q: "find_root C p = Some q" "m_channel_id q = c"
    and r: "case m_thread_parent_id q of Some i \<Rightarrow> find_root C i = Some r | None \<Rightarrow> r = q"
    using root by (auto simp: thread_root_def Let_def split: option.splits)
  obtain q0 where q0: "q0 \<in> set (t_messages C)" "q = masked q0" using find_root_row [OF q(1)] by auto
  show ?thesis
  proof (cases "m_thread_parent_id q")
    case None
    with q q0 r show ?thesis by auto
  next
    case (Some i)
    with r obtain r0 where r0: "r0 \<in> set (t_messages C)" "r = masked r0" "m_id r0 = i" using find_root_row [of C i r] by auto
    have "reply_ok (t_messages C) q0" using ok q0(1) by (simp add: threads_ok_def list_all_iff)
    from reply_okD [OF this] Some q q0 obtain s where s: "s \<in> set (t_messages C)" "m_id s = i" "m_thread_parent_id s = None" "m_channel_id s = c"
      by auto
    with r0 ok have "s = r0" by (auto simp: threads_ok_def distinct_map inj_on_def)
    with s r0 show ?thesis by auto
  qed
qed

text \<open>The row a send inserts, and what it does to the counters.\<close>

definition sent_row :: "ext \<Rightarrow> timestamp \<Rightarrow> uuid \<Rightarrow> NewMessage \<Rightarrow> Message" where
  "sent_row X now new nm = \<lparr>m_id = new, m_channel_id = nm_channel_id nm, m_user_id = nm_user_id nm,
     m_client_message_id = nm_client_message_id nm, m_content = nm_content nm, m_metadata = new_metadata X nm,
     m_thread_parent_id = nm_thread_parent_id nm, m_reply_count = 0, m_is_pinned = False,
     m_created_at = now, m_updated_at = now, m_deleted_at = None\<rparr>"

lemma create_parts:
  assumes "create_message_in X now C new nm = Inr (C1, m)"
  shows "m = sent_row X now new nm" and "new \<notin> m_id ` set (t_messages C)"
    and "\<not> client_id_taken C (nm_channel_id nm) (nm_client_message_id nm)"
    and "t_messages C1 = (case nm_thread_parent_id nm of None \<Rightarrow> t_messages C @ [m]
      | Some p \<Rightarrow> update_rows (\<lambda>m. m_id m = p) (\<lambda>m. m\<lparr>m_reply_count := m_reply_count m + 1\<rparr>) (t_messages C @ [m]))"
    and "t_reads C1 = (if nm_thread_parent_id nm = None \<or> nm_also_in_channel nm
      then t_reads (bump_unread C (nm_channel_id nm) (nm_user_id nm) (nm_mentioned nm)) else t_reads C)"
    and "t_edits C1 = t_edits C" and "t_reactions C1 = t_reactions C"
  using assms
  by (auto simp: create_message_in_def sent_row_def Let_def message_row_def find_None_iff bump_unread_def
      split: if_splits option.splits)

lemma stands_sent: "stands_in_channel (sent_row X now new nm) \<longleftrightarrow> nm_thread_parent_id nm = None \<or> nm_also_in_channel nm"
  by (auto simp: stands_in_channel_def sent_row_def new_metadata_def split: option.splits)

lemma create_threads:
  assumes "create_message_in X now C new nm = Inr (C1, m)" and "threads_ok (t_messages C)"
    and "nm_thread_parent_id nm = map_option m_id root" and "\<And>r. root = Some r \<Longrightarrow> \<exists>p. thread_root C (nm_channel_id nm) p = Inr r"
  shows "threads_ok (t_messages C1)"
proof (cases root)
  case None
  with create_parts [OF assms(1)] assms(2,3) show ?thesis by (simp add: threads_new_root sent_row_def)
next
  case (Some r)
  then obtain r0 where r0: "r0 \<in> set (t_messages C)" "m_id r0 = m_id r" "m_thread_parent_id r0 = None" "m_channel_id r0 = nm_channel_id nm"
    using assms(4) thread_root_row [OF assms(2)] by blast
  with create_parts [OF assms(1)] Some assms(3) threads_new_reply [OF assms(2), of m r0] show ?thesis
    by (simp add: sent_row_def)
qed

lemma counter_ok_Some: "rd_last_read_at r = Some t \<Longrightarrow> counter_ok C r \<longleftrightarrow> rd_unread_count r = int (length (filter (behind r) (t_messages C)))"
  by (simp add: counter_ok_def unread_truth_behind)

lemma counter_ok_None: "rd_last_read_at r = None \<Longrightarrow> counter_ok C r \<longleftrightarrow> 0 \<le> rd_unread_count r"
  by (simp add: counter_ok_def)

text \<open>A row whose position is the same sees the same messages behind it.\<close>

definition same_position :: "ReadRow \<Rightarrow> ReadRow \<Rightarrow> bool" where
  "same_position r r' \<longleftrightarrow> rd_channel_id r = rd_channel_id r' \<and> rd_user_id r = rd_user_id r' \<and> rd_last_read_at r = rd_last_read_at r'"

lemma behind_same: "same_position r r' \<Longrightarrow> behind r = behind r'"
  by (simp add: same_position_def behind_def [abs_def])

lemma counter_okI:
  assumes "same_position r' r" and "rd_last_read_at r = Some u" and "rd_unread_count r' = int (length (filter (behind r) (t_messages C)))"
  shows "counter_ok C r'"
  using assms behind_same [OF assms(1)] by (simp add: counter_ok_def unread_truth_behind same_position_def)

lemma create_counters:
  assumes made: "create_message_in X now C new nm = Inr (C1, m)" and ok: "msgs_ok (t, C)" and later: "t < now"
  shows "list_all (counter_ok C1) (t_reads C1)"
proof -
  let ?bump = "\<lambda>r. r\<lparr>rd_unread_count := rd_unread_count r + 1,
    rd_mention_count := rd_mention_count r + (if rd_user_id r \<in> set (nm_mentioned nm) then 1 else 0)\<rparr>"
  let ?hit = "\<lambda>r. stands_in_channel m \<and> rd_channel_id r = nm_channel_id nm \<and> rd_user_id r \<noteq> nm_user_id nm"
  note parts = create_parts [OF made]
  have truth: "length (filter (behind r) (t_messages C1)) = length (filter (behind r) (t_messages C)) + (if behind r m then 1 else 0)" for r
    unfolding parts(4) by (simp add: length_filter_update_rows behind_def counted_def stands_in_channel_def split: option.split)
  have hit: "behind r m \<longleftrightarrow> ?hit r" if "r \<in> set (t_reads C)" "rd_last_read_at r = Some u" for r u
    using that ok later parts(1) by (auto simp: behind_def counted_def sent_row_def msgs_ok_def clock_ok_def list_all_iff)
  have reads: "t_reads C1 = update_rows ?hit ?bump (t_reads C)"
    unfolding parts(5) using parts(1) by (auto simp: stands_sent bump_unread_def update_rows_def)
  have "counter_ok C1 (if ?hit r then ?bump r else r)" if r: "r \<in> set (t_reads C)" for r
  proof -
    have old: "counter_ok C r" using ok r by (simp add: msgs_ok_def list_all_iff)
    show ?thesis
    proof (cases "rd_last_read_at r")
      case None
      with old show ?thesis by (simp add: counter_ok_None)
    next
      case (Some u)
      then show ?thesis
        using old hit [OF r Some] truth [of r] by (intro counter_okI [OF _ Some]) (auto simp: same_position_def counter_ok_Some)
    qed
  qed
  then show ?thesis unfolding reads by (rule list_all_update_rowsI)
qed

lemma create_keys:
  assumes made: "create_message_in X now C new nm = Inr (C1, m)" and ok: "keys_ok C"
  shows "keys_ok C1"
proof -
  note parts = create_parts [OF made]
  have "distinct (map client_key (filter (\<lambda>m. m_client_message_id m \<noteq> None) (t_messages C @ [m])))"
    using ok parts(1,3) by (auto simp: keys_ok_def sent_row_def client_id_taken_def client_key_def list_ex_iff)
  then have "distinct (map client_key (filter (\<lambda>m. m_client_message_id m \<noteq> None) (t_messages C1)))"
    unfolding parts(4) by (simp add: filter_update_rows distinct_map_update_rows client_key_def split: option.split)
  moreover have "map (\<lambda>r. (rd_channel_id r, rd_user_id r)) (t_reads C1) = map (\<lambda>r. (rd_channel_id r, rd_user_id r)) (t_reads C)"
    unfolding parts(5) by (simp add: bump_unread_def map_update_rows)
  ultimately show ?thesis using ok parts(7) by (simp add: keys_ok_def)
qed

lemma create_ok:
  assumes made: "create_message_in X now C new nm = Inr (C1, m)" and ok: "msgs_ok (t, C)" and later: "t < now"
    and "nm_thread_parent_id nm = map_option m_id root" and "\<And>r. root = Some r \<Longrightarrow> \<exists>p. thread_root C (nm_channel_id nm) p = Inr r"
  shows "msgs_ok (now, C1)"
proof -
  note parts = create_parts [OF made]
  have "clock_ok now C" using ok later by (auto simp: msgs_ok_def intro: clock_ok_later)
  then have "clock_ok now C1"
    unfolding clock_ok_def parts(4,5) using parts(1)
    by (simp add: list_all_update_rows bump_unread_def sent_row_def split: option.split)
      (auto simp: list_all_iff split: option.splits)
  moreover have "edits_ok C1" using ok parts(6) by (simp add: msgs_ok_def edits_ok_def edits_of_def)
  ultimately show ?thesis
    using create_threads [OF made _ assms(4,5)] create_keys [OF made] create_counters [OF made ok later] ok by (simp add: msgs_ok_def)
qed

section \<open>Deletions and edits\<close>

lemma count_update_one:
  assumes "distinct (map k rs)" and "m \<in> set rs" and "\<not> Q (f m)"
  shows "length (filter Q rs) = length (filter Q (update_rows (\<lambda>r. k r = k m) f rs)) + (if Q m then 1 else 0)"
  using assms
proof (induction rs)
  case (Cons r rs)
  have "update_rows (\<lambda>r. k r = k m) f rs = rs" if "m = r"
    using Cons.prems(1) that by (intro update_rows_id) (auto simp: image_iff)
  moreover have "k r \<noteq> k m" if "m \<noteq> r" using Cons.prems that by (auto simp: image_iff)
  ultimately show ?case using Cons by (cases "m = r") (auto simp: update_rows_def)
qed simp

lemma find_message_row: "find_message C i = Some m \<Longrightarrow> m \<in> set (t_messages C) \<and> m_id m = i \<and> m_deleted_at m = None"
  by (auto simp: find_message_def dest!: find_Some_iff)

lemma row_of_id:
  assumes "distinct (map m_id (t_messages C))" and "m \<in> set (t_messages C)"
  shows "message_row C (m_id m) = Some m"
  unfolding message_row_def using assms by (intro find_unique) (auto simp: distinct_map inj_on_def)

definition killed :: "timestamp \<Rightarrow> Message \<Rightarrow> Message" where
  "killed now m = m\<lparr>m_deleted_at := Some now\<rparr>"

definition one_less :: "Message \<Rightarrow> Message" where
  "one_less p = p\<lparr>m_reply_count := max (m_reply_count p - 1) 0\<rparr>"

lemma soft_delete_parts:
  assumes "find_message C i = Some m"
  shows "fst (soft_delete_message_in now C i) = (case m_thread_parent_id m of None \<Rightarrow> on_message C i (killed now)
    | Some p \<Rightarrow> on_message (on_message C i (killed now)) p one_less)"
  using assms by (simp add: soft_delete_message_in_def find_message_def killed_def [abs_def] one_less_def [abs_def] Let_def split: option.split)

lemma reply_ok_stays: "stays f \<Longrightarrow> reply_ok (update_rows P f ms) m = reply_ok ms m" "stays f \<Longrightarrow> reply_ok ms (f m) = reply_ok ms m"
  by (auto simp: reply_ok_def list_ex_update_rows stays_def split: option.splits)

lemma stays_delete [simp]: "stays (killed now)" "stays one_less"
  by (simp_all add: stays_def killed_def one_less_def client_key_def stands_flag del: lit_simps)

lemma threads_deleted:
  assumes ok: "threads_ok ms" and m: "m \<in> set ms" "m_deleted_at m = None"
  shows "threads_ok (case m_thread_parent_id m of None \<Rightarrow> update_rows (\<lambda>x. m_id x = m_id m) (killed now) ms
    | Some p \<Rightarrow> update_rows (\<lambda>x. m_id x = p) one_less (update_rows (\<lambda>x. m_id x = m_id m) (killed now) ms))"
proof -
  let ?ms = "update_rows (\<lambda>x. m_id x = m_id m) (killed now) ms"
  have d: "distinct (map m_id ms)" using ok by (simp add: threads_ok_def)
  have left: "length (live_replies ms i) = length (live_replies ?ms i) + (if m_thread_parent_id m = Some i then 1 else 0)" for i
    using count_update_one [OF d m(1), of "\<lambda>x. m_thread_parent_id x = Some i \<and> m_deleted_at x = None" "killed now"] m(2)
    by (simp add: live_replies_def killed_def)
  have less: "length (live_replies (update_rows P one_less ns) i) = length (live_replies ns i)" for P ns i
    by (simp add: live_replies_def length_filter_update_rows one_less_def)
  have ids: "m_id (killed now x) = m_id x" "m_id (one_less x) = m_id x" "m_reply_count (killed now x) = m_reply_count x"
    "m_reply_count (one_less x) = max (m_reply_count x - 1) 0" for x
    by (simp_all add: killed_def one_less_def)
  have count: "m_reply_count x = int (length (live_replies ?ms (m_id x))) + (if m_thread_parent_id m = Some (m_id x) then 1 else 0)"
    if "x \<in> set ms" for x using ok that left [of "m_id x"] by (simp add: threads_ok_def list_all_iff)
  show ?thesis
    using ok d
    by (auto simp: threads_ok_def list_all_iff set_update_rows distinct_map_update_rows reply_ok_stays ids less count split: option.split)
qed

lemma drop_unread_simps [simp]:
  "t_messages (drop_unread_for_message C c i u) = t_messages C"
  "t_edits (drop_unread_for_message C c i u) = t_edits C"
  "t_reactions (drop_unread_for_message C c i u) = t_reactions C"
  by (simp_all add: drop_unread_for_message_def split: option.split)

lemma find_message_drop [simp]: "find_message (drop_unread_for_message C c i u) j = find_message C j"
  by (simp add: find_message_def)

lemma deleted_counters:
  assumes ok: "msgs_ok (t, C)" and m: "find_message C i = Some m"
  shows "list_all (counter_ok (on_message C i (killed now))) (t_reads (drop_unread_for_message C (m_channel_id m) i (m_user_id m)))"
proof -
  have d: "distinct (map m_id (t_messages C))" using ok by (simp add: msgs_ok_def threads_ok_def)
  note row = find_message_row [OF m]
  let ?f = "\<lambda>r. r\<lparr>rd_unread_count := max (rd_unread_count r - 1) 0\<rparr>"
  have "message_row C i = Some m" using row_of_id [OF d, of m] row by simp
  then have reads: "t_reads (drop_unread_for_message C (m_channel_id m) i (m_user_id m)) = update_rows (\<lambda>r. behind r m) ?f (t_reads C)"
    using row by (auto simp: drop_unread_for_message_def behind_def counted_def update_rows_def)
  have left: "length (filter (behind r) (t_messages C))
      = length (filter (behind r) (t_messages (on_message C i (killed now)))) + (if behind r m then 1 else 0)" for r
    using count_update_one [OF d, of m "behind r" "killed now"] row by (simp add: behind_def counted_def killed_def)
  have "counter_ok (on_message C i (killed now)) (if behind r m then ?f r else r)" if r: "r \<in> set (t_reads C)" for r
  proof (cases "rd_last_read_at r")
    case None
    then show ?thesis using ok r by (auto simp: counter_ok_None msgs_ok_def list_all_iff)
  next
    case (Some u)
    moreover have "counter_ok C r" using ok r by (simp add: msgs_ok_def list_all_iff)
    ultimately show ?thesis using left [of r] by (intro counter_okI [OF _ Some]) (auto simp: same_position_def counter_ok_Some)
  qed
  then show ?thesis unfolding reads by (rule list_all_update_rowsI)
qed

lemma counter_ok_cong: "t_messages C = t_messages C' \<Longrightarrow> counter_ok C = counter_ok C'"
  by (simp add: fun_eq_iff counter_ok_def unread_truth_def cong: option.case_cong)

lemma behind_one_less [simp]: "behind r (one_less m) = behind r m"
  by (simp add: behind_def counted_def one_less_def stands_in_channel_def split: option.split)

lemma counter_one_less: "counter_ok (on_message C i one_less) = counter_ok C"
  by (simp add: fun_eq_iff counter_ok_def unread_truth_behind length_filter_update_rows cong: option.case_cong)

lemma deleted_ok:
  assumes ok: "msgs_ok (t, C)" and m: "find_message C i = Some m" and later: "t \<le> now"
  shows "msgs_ok (now, fst (soft_delete_message_in now (drop_unread_for_message C (m_channel_id m) i (m_user_id m)) i))"
    (is "msgs_ok (now, fst (soft_delete_message_in now ?C i))")
proof -
  note row = find_message_row [OF m]
  let ?K = "on_message ?C i (killed now)"
  have parts: "fst (soft_delete_message_in now ?C i) = (case m_thread_parent_id m of None \<Rightarrow> ?K | Some p \<Rightarrow> on_message ?K p one_less)"
    using m by (simp add: soft_delete_parts)
  have "threads_ok (t_messages (fst (soft_delete_message_in now ?C i)))"
    using threads_deleted [of "t_messages C" m now] ok row unfolding parts by (simp add: msgs_ok_def split: option.splits)
  moreover have "counter_ok ?K = counter_ok (on_message C i (killed now))" by (rule counter_ok_cong) simp
  then have "list_all (counter_ok (fst (soft_delete_message_in now ?C i))) (t_reads (fst (soft_delete_message_in now ?C i)))"
    using deleted_counters [OF ok m, of now] unfolding parts by (simp add: counter_one_less split: option.split)
  moreover have "keys_ok (fst (soft_delete_message_in now ?C i))"
    using ok unfolding parts
    by (simp add: msgs_ok_def keys_ok_def filter_update_rows distinct_map_update_rows killed_def one_less_def client_key_def
        drop_unread_for_message_def split: option.split)
  moreover have "edits_ok (fst (soft_delete_message_in now ?C i))"
    using ok unfolding parts by (simp add: msgs_ok_def edits_ok_def edits_of_def split: option.split)
  moreover have "clock_ok now ?C"
    using ok later clock_ok_later [of t C now]
    by (auto simp: msgs_ok_def clock_ok_def drop_unread_for_message_def list_all_update_rows list_all_iff set_update_rows split: option.splits)
  then have "clock_ok now (fst (soft_delete_message_in now ?C i))"
    unfolding parts by (simp add: clock_ok_def list_all_update_rows killed_def one_less_def split: option.split cong: if_cong)
  ultimately show ?thesis by (simp add: msgs_ok_def)
qed

text \<open>An edit keeps the fifty newest versions of a message.\<close>

lemma edits_kept:
  assumes "distinct (map edit_id es)" and "kept = set (map edit_id (take n (rev (sort_key k (filter (\<lambda>e. edit_message_id e = i) es)))))"
  shows "length (filter (\<lambda>e. edit_message_id e = i) (filter (\<lambda>e. edit_message_id e \<noteq> i \<or> edit_id e \<in> kept) es)) \<le> n"
proof -
  let ?fs = "filter (\<lambda>e. edit_message_id e = i \<and> edit_id e \<in> kept) es"
  have "distinct (map edit_id ?fs)" using assms(1) by (rule distinct_map_filter)
  then have "length ?fs = card (edit_id ` set ?fs)" using distinct_card by fastforce
  also have "\<dots> \<le> card kept" by (rule card_mono) (auto simp: assms(2))
  also have "\<dots> \<le> n" unfolding assms(2) by (rule order_trans [OF card_length]) simp
  finally have "length ?fs \<le> n" .
  moreover have "filter (\<lambda>e. edit_message_id e = i) (filter (\<lambda>e. edit_message_id e \<noteq> i \<or> edit_id e \<in> kept) es) = ?fs"
    by (simp add: conj_commute cong: filter_cong) (rule filter_cong, auto)
  ultimately show ?thesis by simp
qed

lemma edited_parts:
  assumes "update_message_in now C new i content by = Inr (C1, m)"
  obtains es where "C1 = on_message (C\<lparr>t_edits := es\<rparr>) i (\<lambda>m. m\<lparr>m_content := content, m_updated_at := now\<rparr>)"
    and "edits_ok C \<longrightarrow> edits_ok (C\<lparr>t_edits := es\<rparr>)"
proof -
  from assms obtain m0 where fresh: "\<not> list_ex (\<lambda>e. edit_id e = new) (t_edits C)" and m0: "message_row C i = Some m0"
    by (auto simp: update_message_in_def split: option.splits if_splits)
  define es where "es = t_edits C @ [\<lparr>edit_id = new, edit_message_id = i, previous_content = m_content m0, edited_by = by, edited_at = now\<rparr>]"
  define kept where "kept = set (map edit_id (take MAX_STORED_EDITS (edits_of (C\<lparr>t_edits := es\<rparr>) i)))"
  define fs where "fs = filter (\<lambda>e. edit_message_id e \<noteq> i \<or> edit_id e \<in> kept) es"
  have "C1 = on_message (C\<lparr>t_edits := fs\<rparr>) i (\<lambda>m. m\<lparr>m_content := content, m_updated_at := now\<rparr>)"
    using assms fresh m0
    by (auto simp: update_message_in_def Let_def fs_def kept_def es_def dest!: update_returning_eq)
  moreover have "edits_ok (C\<lparr>t_edits := fs\<rparr>)" if "edits_ok C"
  proof -
    have d: "distinct (map edit_id es)" using that fresh by (auto simp: edits_ok_def es_def list_ex_iff)
    have "length (edits_of (C\<lparr>t_edits := fs\<rparr>) j) \<le> MAX_STORED_EDITS" for j
    proof (cases "j = i")
      case True
      have "length (filter (\<lambda>e. edit_message_id e = i) fs) \<le> MAX_STORED_EDITS"
        unfolding fs_def by (rule edits_kept [OF d, where k = "\<lambda>e. (edited_at e, edit_id e)"]) (simp add: kept_def edits_of_def)
      with True show ?thesis by (simp add: edits_of_def)
    next
      case False
      then have "filter (\<lambda>e. edit_message_id e = j) fs = filter (\<lambda>e. edit_message_id e = j) (t_edits C)"
        by (auto simp: fs_def es_def intro: filter_cong)
      then show ?thesis using that by (simp add: edits_ok_def edits_of_def)
    qed
    then show ?thesis using d by (simp add: edits_ok_def fs_def distinct_map_filter)
  qed
  ultimately show thesis using that by blast
qed

lemma edited_ok:
  assumes "update_message_in now C new i content by = Inr (C1, m)" and "msgs_ok (t, C)"
  shows "msgs_ok (t, C1)"
proof -
  obtain es where es: "C1 = on_message (C\<lparr>t_edits := es\<rparr>) i (\<lambda>m. m\<lparr>m_content := content, m_updated_at := now\<rparr>)"
      "edits_ok C \<longrightarrow> edits_ok (C\<lparr>t_edits := es\<rparr>)"
    using edited_parts [OF assms(1)] by blast
  have "counter_ok (C\<lparr>t_edits := es\<rparr>) = counter_ok C" by (rule counter_ok_cong) simp
  then have "msgs_ok (t, C\<lparr>t_edits := es\<rparr>)" using assms(2) es(2) by (simp add: msgs_ok_def keys_ok_def clock_ok_def)
  then show ?thesis unfolding es(1) by (rule msgs_ok_harmless [OF harmless_content])
qed

section \<open>Reactions and read positions\<close>

lemma reacted_ok:
  assumes "add_reaction_in now C new i u emoji = Inr (C1, r)" and "msgs_ok (t, C)"
  shows "msgs_ok (t, C1)"
proof -
  have C1: "C1 = C\<lparr>t_reactions := t_reactions C @ [r]\<rparr>"
    using assms(1) by (auto simp: add_reaction_in_def Let_def split: if_splits)
  moreover have "keys_ok C1"
    using assms by (auto simp: add_reaction_in_def Let_def msgs_ok_def keys_ok_def list_ex_iff split: if_splits)
  moreover have "counter_ok C1 = counter_ok C" unfolding C1 by (rule counter_ok_cong) simp
  ultimately show ?thesis using assms(2) by (simp add: msgs_ok_def edits_ok_def edits_of_def clock_ok_def)
qed

lemma unreacted_ok: "msgs_ok (t, C) \<Longrightarrow> msgs_ok (t, remove_reaction_in C i u emoji)"
  using counter_ok_cong [of "remove_reaction_in C i u emoji" C]
  by (simp add: msgs_ok_def keys_ok_def edits_ok_def edits_of_def clock_ok_def remove_reaction_in_def distinct_map_filter)

text \<open>New rows of read positions that are right for the messages as they are.\<close>

definition position_ok :: "timestamp \<Rightarrow> msg_db \<Rightarrow> ReadRow \<Rightarrow> bool" where
  "position_ok now C r \<longleftrightarrow> counter_ok C r \<and> (case rd_last_read_at r of None \<Rightarrow> True | Some t \<Rightarrow> t \<le> now)"

lemma positions_ok: "msgs_ok (t, C) \<Longrightarrow> t \<le> now \<Longrightarrow> r \<in> set (t_reads C) \<Longrightarrow> position_ok now C r"
  by (drule msgs_ok_later) (auto simp: msgs_ok_def position_ok_def clock_ok_def list_all_iff)

lemma reads_ok:
  assumes "msgs_ok (t, C)" and "t \<le> now" and "distinct (map (\<lambda>r. (rd_channel_id r, rd_user_id r)) rs)"
    and "list_all (position_ok now C) rs"
  shows "msgs_ok (now, C\<lparr>t_reads := rs\<rparr>)"
proof -
  have "counter_ok (C\<lparr>t_reads := rs\<rparr>) = counter_ok C" by (rule counter_ok_cong) simp
  then show ?thesis
    using msgs_ok_later [OF assms(1,2)] assms(3,4)
    by (simp add: msgs_ok_def keys_ok_def edits_ok_def edits_of_def clock_ok_def position_ok_def list_all_iff)
qed

lemma reads_updated_ok:
  assumes "msgs_ok (t, C)" and "t \<le> now" and "\<And>r. rd_channel_id (f r) = rd_channel_id r \<and> rd_user_id (f r) = rd_user_id r"
    and "\<And>r. r \<in> set (t_reads C) \<Longrightarrow> P r \<Longrightarrow> position_ok now C (f r)"
  shows "msgs_ok (now, C\<lparr>t_reads := update_rows P f (t_reads C)\<rparr>)"
  using assms positions_ok [OF assms(1,2)]
  by (intro reads_ok [OF assms(1,2)] list_all_update_rowsI) (auto simp: distinct_map_update_rows msgs_ok_def keys_ok_def)

lemma set_read_simps [simp]: "rd_channel_id (set_read now b r) = rd_channel_id r" "rd_user_id (set_read now b r) = rd_user_id r"
  by (simp_all add: set_read_def)

lemma set_read_ok: "clock_ok now C \<Longrightarrow> position_ok now C (set_read now b r)"
  by (force simp: position_ok_def set_read_def counter_ok_def unread_truth_def clock_ok_def list_all_iff filter_empty_conv)

lemma set_unread_ok:
  assumes "clock_ok now C" and "m \<in> set (t_messages C)"
  shows "position_ok now C (r\<lparr>rd_last_read_at := Some (m_created_at m - 1), rd_last_read_msg := b, rd_last_read_message_id := b,
    rd_unread_count := int (unread_since C (rd_channel_id r) (rd_user_id r) (m_created_at m)), rd_mention_count := n\<rparr>)"
proof -
  have "m_created_at m - 1 < t \<longleftrightarrow> m_created_at m \<le> t" for t by arith
  then show ?thesis
    using assms by (auto simp: position_ok_def counter_ok_def unread_truth_def unread_since_def clock_ok_def list_all_iff)
qed

lemma reconciled_ok:
  assumes "msgs_ok (t, C)" and "t \<le> now"
  shows "msgs_ok (now, fst (reconcile_unread_counts now C h))"
  unfolding reconcile_unread_counts_def Let_def fst_conv
proof (rule reads_updated_ok [OF assms])
  fix r
  assume r: "r \<in> set (t_reads C)"
  have "unread_truth C (r\<lparr>rd_unread_count := k\<rparr>) = unread_truth C r" for k by (simp add: unread_truth_def)
  then show "position_ok now C (r\<lparr>rd_unread_count := int (unread_truth C r)\<rparr>)"
    using positions_ok [OF assms r] by (simp add: position_ok_def counter_ok_def split: option.split)
qed simp

section \<open>Every transition keeps it\<close>

lemma row_change_ok:
  assumes step: "row_change X now C C'" and ok: "msgs_ok (t, C)" and later: "t < now"
  shows "msgs_ok (now, C')"
proof -
  have le: "t \<le> now" using later by simp
  have now: "msgs_ok (now, C)" and clock: "clock_ok now C" using msgs_ok_later [OF ok le] by (auto simp: msgs_ok_def)
  from step show ?thesis
  proof cases
    case (edited new i content "by" C1 m g)
    show ?thesis
      unfolding edited(1) by (rule msgs_ok_harmless [OF harmless_remeta [OF edited(3)] edited_ok [OF edited(2) now]])
  next
    case (remade g i)
    show ?thesis unfolding remade(1) by (rule msgs_ok_harmless [OF harmless_remeta [OF remade(2)] now])
  next
    case (pinned i p)
    show ?thesis unfolding pinned by (rule msgs_ok_harmless [OF harmless_pinned now])
  next
    case (deleted i m)
    show ?thesis unfolding deleted(1) by (rule deleted_ok [OF ok deleted(2) le])
  next
    case (reacted new i u emoji r)
    show ?thesis by (rule reacted_ok [OF reacted now])
  next
    case (unreacted i u emoji)
    show ?thesis unfolding unreacted by (rule unreacted_ok [OF now])
  next
    case (read_up c u b)
    show ?thesis
      unfolding read_up on_read_def by (rule reads_updated_ok [OF ok le]) (simp_all add: set_read_ok [OF clock])
  next
    case (read_all T w u)
    show ?thesis
      unfolding read_all repo_mark_workspace_read_def Let_def fst_conv
      by (rule reads_updated_ok [OF ok le]) (simp_all add: set_read_ok [OF clock])
  next
    case (unread m c u b n)
    show ?thesis
      unfolding unread(1) on_read_def by (rule reads_updated_ok [OF ok le]) (use set_unread_ok [OF clock unread(2)] in auto)
  next
    case (joined c u ro)
    have keys: "distinct (map (\<lambda>r. (rd_channel_id r, rd_user_id r)) (t_reads C))" using ok by (simp add: msgs_ok_def keys_ok_def)
    have old: "list_all (position_ok now C) (t_reads C)" using positions_ok [OF ok le] by (simp add: list_all_iff)
    show ?thesis
    proof (cases "read_row C c u")
      case None
      then show ?thesis
        unfolding joined add_channel_member_def using keys old
        by (simp, intro reads_ok [OF ok le]) (auto simp: read_row_def find_None_iff position_ok_def counter_ok_def)
    qed (use now joined in \<open>simp add: add_channel_member_def\<close>)
  next
    case (departed c u)
    have "list_all (position_ok now C) (filter P (t_reads C))" for P using positions_ok [OF ok le] by (simp add: list_all_iff)
    then show ?thesis
      unfolding departed remove_channel_member_def using ok
      by (intro reads_ok [OF ok le]) (auto simp: msgs_ok_def keys_ok_def intro: distinct_map_filter)
  next
    case (reconciled h)
    show ?thesis unfolding reconciled by (rule reconciled_ok [OF ok le])
  qed (use now in simp)
qed

lemma row_effect_ok:
  assumes "row_effect X now C C'" and ok: "msgs_ok (t, C)" and later: "t < now"
  shows "msgs_ok (now, C')"
  using assms(1)
proof cases
  case (created new nm C1 m root g)
  have "msgs_ok (now, C1)" by (rule create_ok [OF created(2) ok later created(3,4)])
  then show ?thesis unfolding created(1) by (rule msgs_ok_harmless [OF harmless_remeta [OF created(5)]])
qed (rule row_change_ok [OF _ ok later])

end
