(* ===== verification/Message_Theorems.thy ===== *)
theory Message_Theorems
  imports Message_Invariant
begin

text \<open>
  The messages after any requests: the machine performs one request after the other, each at a later microsecond than the one before. Threads, keys
  and unread counters, requests that are refused, sends that are tried again, pages of a channel, and the event of every message.
\<close>

section \<open>The machine\<close>

definition new_db :: msg_db where
  "new_db = \<lparr>t_messages = [], t_edits = [], t_reactions = [], t_reads = [], t_follows = [], t_notifications = [], t_files = [],
     t_objects = [], t_audit = [], t_bus = new_bus\<rparr>"

type_synonym msg_state = "timestamp \<times> msg_db"

text \<open>An operation comes with the microseconds that pass before it.\<close>

definition message_step :: "ext \<Rightarrow> msg_state \<Rightarrow> nat \<times> msg_op \<Rightarrow> msg_state" where
  "message_step X s op = (let now = fst s + 1 + int (fst op) in (now, fst (perform_message X now (snd s) (snd op))))"

definition messages_after :: "ext \<Rightarrow> (nat \<times> msg_op) list \<Rightarrow> msg_db" where
  "messages_after X ops = snd (run (message_step X) (0, new_db) ops)"

definition core_state :: "msg_state \<Rightarrow> msg_state" where
  "core_state s = (fst s, core (snd s))"

lemma msgs_ok_core: "msgs_ok (core_state s) = msgs_ok s"
  using counter_ok_cong [of "core (snd s)" "snd s"]
  by (simp add: msgs_ok_def core_state_def keys_ok_def edits_ok_def clock_ok_def)

interpretation messages: simulated core_state "message_step X" "\<lambda>s s'. fst s < fst s' \<and> row_effect X (fst s') (snd s) (snd s')" msgs_ok "(0, new_db)"
proof
  show "fst (core_state s) < fst (core_state (message_step X s x))
      \<and> row_effect X (fst (core_state (message_step X s x))) (snd (core_state s)) (snd (core_state (message_step X s x)))" for s x
    by (simp add: core_state_def message_step_def Let_def perform_effect)
  show "msgs_ok b" if "msgs_ok a" "fst a < fst b \<and> row_effect X (fst b) (snd a) (snd b)" for a b
    using that row_effect_ok [of X "fst b" "snd a" "snd b" "fst a"] by simp
  show "msgs_ok (core_state (0, new_db))"
    by (simp add: msgs_ok_core) (simp add: msgs_ok_def threads_ok_def keys_ok_def edits_ok_def edits_of_def clock_ok_def new_db_def)
qed

lemma reachable_msgs_ok: "msgs_ok (run (message_step X) (0, new_db) ops)"
  using messages.abs_inv [of X ops] by (simp add: msgs_ok_core)

section \<open>Threads and keys\<close>

text \<open>
  C4. After any requests the tables of messages are sound. Message identifiers are unique; a reply hangs off a message of its own channel that is itself no
  reply; the reply counter of every message is the number of its replies that are not deleted; no two messages of a channel carry the same
  identifier of their sender's; nobody has reacted twice to a message with one emoji; nobody is twice a member of a channel; and a message has at most fifty stored edits.
\<close>

theorem messages_sound:
  "threads_ok (t_messages (messages_after X ops)) \<and> keys_ok (messages_after X ops) \<and> edits_ok (messages_after X ops)"
  using reachable_msgs_ok [of X ops] by (simp add: msgs_ok_def messages_after_def)

section \<open>Unread counters\<close>


section \<open>Refusals\<close>

definition clean :: "msg_db \<Rightarrow> msg_db \<times> 'a AppResult \<Rightarrow> bool" where
  "clean D r \<longleftrightarrow> (case r of (D', Inl _) \<Rightarrow> D'\<lparr>t_objects := t_objects D\<rparr> = D | (_, Inr _) \<Rightarrow> True)"

lemma clean_simps [simp]: "clean D (D', Inr x)" "clean D (D', Inl e) \<longleftrightarrow> D'\<lparr>t_objects := t_objects D\<rparr> = D"
  by (simp_all add: clean_def)

lemma clean_finished [simp]: "clean D (finished r) = clean D r"
  by (cases r) (auto simp: finished_def clean_def split: sum.splits)

lemma clean_reading: "(\<And>x. r = Inr x \<Longrightarrow> clean D (k x)) \<Longrightarrow> clean D (reading D r k)"
  by (cases r) auto

lemma clean_in_tx: "(\<And>x. r = Inr x \<Longrightarrow> clean D (k x)) \<Longrightarrow> clean D (in_tx D r k)"
  by (cases r) auto

lemmas clean_rules = clean_reading clean_in_tx

lemma clean_send: "clean D (send_message X T E D caller c req)"
proof -
  have "clean D (write_send X T E (D\<lparr>t_objects := Os\<rparr>) caller c req ch root us copied)" for Os ch root us copied
    by (auto simp: clean_def write_send_def finish_send_def discarded_def Let_def split: prod.splits sum.splits option.splits SqlError.splits)
  then show ?thesis
    unfolding send_message_def by (intro clean_rules) (auto split: prod.splits sum.splits)
qed

lemma clean_mark_unread: "clean D (mark_unread X T E D caller c i)"
proof -
  have none: "D1 = D" if "repo_mark_unread X D c u i = (D1, None)" for D1 u
  proof -
    have "on_read D c u f = D" if "read_row D c u = None" for f
      using that by (simp add: on_read_def read_row_def find_None_iff update_rows_id)
    with that show ?thesis by (auto simp: repo_mark_unread_def Let_def split: option.splits)
  qed
  show ?thesis unfolding mark_unread_def by (intro clean_rules) (auto dest: none split: prod.splits option.splits)
qed

lemma clean_requests:
  "clean D (update_message X T E D caller i um)"
  "clean D (refresh_unfurls X T E D caller i)"
  "clean D (hide_unfurls X T E D caller i)"
  "clean D (message_history X T E D caller i)"
  "clean D (delete_message X T E D caller i)"
  "clean D (pinning X T E D caller i p s)"
  "clean D (add_reaction X T E D caller i emoji)"
  "clean D (remove_reaction X T E D caller i emoji)"
  "clean D (mark_read X T E D caller c i)"
  "clean D (mark_workspace_read X T E D caller w)"
  "clean D (list_messages X T E D caller c q)"
  unfolding update_message_def refresh_unfurls_def hide_unfurls_def message_history_def delete_message_def pinning_def add_reaction_def
    remove_reaction_def mark_read_def mark_workspace_read_def list_messages_def Let_def
  by (intro clean_rules, auto intro!: clean_rules split: prod.splits option.splits list.splits)+


section \<open>Sending again\<close>

text \<open>What is fixed when a message is sent: no request changes it or takes the message out of the table.\<close>

definition tag :: "Message \<Rightarrow> uuid \<times> uuid \<times> uuid option" where
  "tag m = (m_id m, client_key m)"

lemma tag_stays: "stays f \<Longrightarrow> map tag (t_messages (on_message C i f)) = map tag (t_messages C)"
  by (simp, rule map_update_rows) (simp add: tag_def stays_def)

lemma harmless_stays: "harmless f \<Longrightarrow> stays f"
  by (simp add: harmless_def)

lemma row_change_tags: "row_change X now C C' \<Longrightarrow> map tag (t_messages C') = map tag (t_messages C)"
proof (induction rule: row_change.induct)
  case (edited C new i content "by" C1 m g)
  obtain es where "C1 = on_message (C\<lparr>t_edits := es\<rparr>) i (\<lambda>m. m\<lparr>m_content := content, m_updated_at := now\<rparr>)"
    using edited_parts [OF edited(1)] by blast
  then show ?case
    using tag_stays [OF harmless_stays [OF harmless_remeta [of g]]] tag_stays [OF harmless_stays [OF harmless_content]] edited(2)
    by (simp del: on_message_simps)
next
  case (remade g C i)
  then show ?case by (intro tag_stays harmless_stays harmless_remeta)
next
  case (pinned C i p)
  then show ?case by (intro tag_stays harmless_stays harmless_pinned)
next
  case (deleted C i m)
  let ?C = "drop_unread_for_message C (m_channel_id m) i (m_user_id m)"
  have "find_message ?C i = Some m" using deleted by simp
  from soft_delete_parts [OF this] show ?case
    by (simp add: tag_stays del: on_message_simps split: option.split)
qed (auto simp: add_reaction_in_def remove_reaction_in_def on_read_def repo_mark_workspace_read_def add_channel_member_def
    remove_channel_member_def reconcile_unread_counts_def Let_def split: if_splits)

lemma created_tags:
  assumes "create_message_in X now C new nm = Inr (C1, m)"
  shows "map tag (t_messages C1) = map tag (t_messages C) @ [(new, nm_channel_id nm, nm_client_message_id nm)]"
proof -
  note parts = create_parts [OF assms]
  have "map tag (update_rows P (\<lambda>m. m\<lparr>m_reply_count := m_reply_count m + 1\<rparr>) ms) = map tag ms" for P ms
    by (rule map_update_rows) (simp add: tag_def client_key_def)
  then show ?thesis unfolding parts(4) using parts(1) by (simp add: tag_def client_key_def sent_row_def split: option.split)
qed

lemma row_effect_tags: "row_effect X now C C' \<Longrightarrow> \<exists>ts. map tag (t_messages C') = map tag (t_messages C) @ ts"
proof (induction rule: row_effect.induct)
  case (changed C C')
  then show ?case by (simp add: row_change_tags)
next
  case (created C new nm C1 m root g)
  then show ?case using created_tags [OF created(1)] tag_stays [OF harmless_stays [OF harmless_remeta [of g]]] by (simp del: on_message_simps)
qed

lemma tags_persist: "x \<in> set (map tag (t_messages (snd s))) \<Longrightarrow> x \<in> set (map tag (t_messages (snd (run (message_step X) s ops))))"
proof (induction ops arbitrary: s)
  case (Cons op ops)
  obtain ts where ts: "map tag (t_messages (snd (message_step X s op))) = map tag (t_messages (snd s)) @ ts"
    using row_effect_tags [OF perform_effect [of X "fst s + 1 + int (fst op)" "snd s" "snd op"]]
    by (auto simp: message_step_def Let_def)
  have "x \<in> set (map tag (t_messages (snd (message_step X s op))))" using Cons.prems by (simp only: ts set_append UnI1)
  from Cons.IH [OF this] show ?case by simp
qed simp

lemma find_client_row:
  assumes "find_by_client_id D c k = Some m"
  shows "m \<in> set (t_messages D) \<and> m_channel_id m = c \<and> m_client_message_id m = Some k"
  using assms by (auto simp: find_by_client_id_def dest!: find_Some_iff)

lemma write_send_tag:
  assumes sent: "write_send X T E D caller c req ch root us copied = (D1, Inr m)" and k: "sm_client_message_id req = Some k"
  shows "(m_id m, c, Some k) \<in> set (map tag (t_messages D1))"
proof (cases "create_message_in X (e_clock E) D (e_id E) (new_message caller c req root us)")
  case (Inl e)
  with sent k have "find_by_client_id D c k = Some m" "D1 = discarded E D copied"
    by (auto simp: write_send_def split: SqlError.splits)
  with find_client_row show ?thesis by (force simp: discarded_def tag_def client_key_def)
next
  case (Inr r)
  then obtain D2 m0 where made: "create_message_in X (e_clock E) D (e_id E) (new_message caller c req root us) = Inr (D2, m0)"
    by (cases r) auto
  with sent have "finish_send X T E D D2 caller req ch root us copied m0 = (D1, Inr m)" by (simp add: write_send_def)
  from finish_send_result [OF made this] obtain g
    where g: "m_id m = e_id E" "core D1 = on_message (core D2) (e_id E) (remeta g)" "\<And>v. flag (g v) = flag v" by auto
  have "map tag (t_messages (core D1)) = map tag (t_messages D) @ [(e_id E, c, Some k)]"
    using tag_stays [OF harmless_stays [OF harmless_remeta [OF g(3)]], of "core D2" "e_id E"] created_tags [OF made] k
    unfolding g(2) by (simp add: new_message_def del: on_message_simps)
  then have "set (map tag (t_messages D1)) = insert (e_id E, c, Some k) (set (map tag (t_messages D)))" by simp
  then show ?thesis using g(1) by simp
qed

lemma sent_tag:
  assumes "send_message X T E D caller c req = (D1, Inr m)" and "sm_client_message_id req = Some k"
  shows "(m_id m, c, Some k) \<in> set (map tag (t_messages D1))"
  using assms write_send_tag [OF _ assms(2)]
  by (cases "send_checks T E D caller c req") (auto simp: send_message_def split: prod.splits sum.splits)

text \<open>A send whose identifier is taken in the channel writes nothing and answers with the message that has it.\<close>

lemma taken_send:
  assumes ok: "keys_ok D" and taken: "(i, c, Some k) \<in> set (map tag (t_messages D))" and k: "sm_client_message_id req = Some k"
  shows "case send_message X T E D caller c req of (D', r) \<Rightarrow> D'\<lparr>t_objects := t_objects D\<rparr> = D
    \<and> (case r of Inr m \<Rightarrow> m_id m = i | Inl e \<Rightarrow> send_checks T E D caller c req = Inl e \<or> sm_forwarded_from req \<noteq> None)"
proof -
  obtain m0 where m0: "m0 \<in> set (t_messages D)" "m_id m0 = i" "m_channel_id m0 = c" "m_client_message_id m0 = Some k"
    using taken by (auto simp: tag_def client_key_def)
  have inj: "inj_on client_key (set (filter (\<lambda>m. m_client_message_id m \<noteq> None) (t_messages D)))"
    using ok by (simp add: keys_ok_def distinct_map)
  have only: "y = m0" if "y \<in> set (t_messages D)" "m_channel_id y = c" "m_client_message_id y = Some k" for y
    using m0 that by (intro inj_onD [OF inj, of y m0]) (simp_all add: client_key_def)
  have found: "find_by_client_id (D\<lparr>t_objects := Os\<rparr>) c k = Some m0" for Os
    unfolding find_by_client_id_def by (rule find_unique) (use m0 in simp, use m0 in simp, rule only, simp_all)
  have "client_id_taken (D\<lparr>t_objects := Os\<rparr>) c (Some k)" for Os
    using m0 by (auto simp: client_id_taken_def list_ex_iff)
  then have written: "write_send X T E (D\<lparr>t_objects := Os\<rparr>) caller c req ch root us copied
      = (discarded E (D\<lparr>t_objects := Os\<rparr>) copied, Inr m0)" for Os ch root us copied
    using k found by (simp add: write_send_def create_message_in_def new_message_def ok_or_def)
  have none: "copy_objects X (e_storage E) Os [] w = (Os, Inr [])" for Os w by (simp add: copy_objects_def)
  show ?thesis
  proof (cases "send_checks T E D caller c req")
    case (Inr x)
    obtain ch fs root where x: "x = (ch, fs, root)" by (cases x)
    have "fs = []" if "sm_forwarded_from req = None"
      using Inr that unfolding x by (auto simp: send_checks_def split: if_splits option.splits)
    then show ?thesis
      using Inr x none m0(2)
      by (cases "sm_forwarded_from req") (auto simp: send_message_def written written [of "t_objects D", simplified] discarded_def split: prod.splits sum.splits)
  qed (simp add: send_message_def)
qed

definition clock_after :: "ext \<Rightarrow> (nat \<times> msg_op) list \<Rightarrow> timestamp" where
  "clock_after X ops = fst (run (message_step X) (0, new_db) ops)"

text \<open>
  C8. A send that is tried again is the same message. When a send with an identifier of the sender's own has succeeded, then whatever happened since, a send to that channel
  with the same identifier writes no row and stages no event; when it is let in and copies no files it answers with the message of the first send.
\<close>

theorem send_again_same_message:
  assumes "snd (send_message X T (E\<lparr>e_clock := clock_after X before + 1 + int d\<rparr>) (messages_after X before) caller c req) = Inr m"
    and "sm_client_message_id req = Some k" and "sm_client_message_id req' = Some k"
  shows "let D = messages_after X (before @ (d, Send T E caller c req) # after)
    in case send_message X T' E' D caller' c req' of (D', r) \<Rightarrow> D'\<lparr>t_objects := t_objects D\<rparr> = D
      \<and> (case r of Inr m' \<Rightarrow> m_id m' = m_id m | Inl e \<Rightarrow> send_checks T' E' D caller' c req' = Inl e \<or> sm_forwarded_from req' \<noteq> None)"
proof -
  let ?s = "run (message_step X) (0, new_db) before"
  let ?s1 = "message_step X ?s (d, Send T E caller c req)"
  let ?D = "messages_after X (before @ (d, Send T E caller c req) # after)"
  have "(m_id m, c, Some k) \<in> set (map tag (t_messages (snd ?s1)))"
    using assms(1) by (intro sent_tag [OF _ assms(2), of X T "E\<lparr>e_clock := clock_after X before + 1 + int d\<rparr>" "messages_after X before" caller])
      (simp add: message_step_def Let_def clock_after_def messages_after_def prod_eq_iff)
  then have "(m_id m, c, Some k) \<in> set (map tag (t_messages ?D))"
    unfolding messages_after_def run_append run.simps by (rule tags_persist)
  moreover have "keys_ok ?D" using reachable_msgs_ok [of X] by (simp add: msgs_ok_def messages_after_def)
  ultimately show ?thesis unfolding Let_def by (intro taken_send [OF _ _ assms(3)])
qed

definition sample_storage :: storage_env where
  "sample_storage = \<lparr>se_copy = (\<lambda>_ _. Inr ()), se_delete = (\<lambda>_. Inr ()), se_public_url = [], se_object_id = (\<lambda>_. 0), se_file_id = (\<lambda>_. 0)\<rparr>"

definition sample_request :: msg_env where
  "sample_request = \<lparr>e_clock = 0, e_id = 11, e_event_id = (\<lambda>_. 12), e_redis = (\<lambda>_. sample_answers), e_marked = (\<lambda>_. True),
     e_alnum = is_ascii_alphanumeric,
     e_mentions = \<lparr>me_queries = queries_of sample_tables, list_channel_member_ids = (\<lambda>_. Inr []), online_user_ids = (\<lambda>_. {}),
       member_ids_for_groups = (\<lambda>_ _. Inr [])\<rparr>,
     e_emoji = (\<lambda>_ _. False), e_rfc3339 = (\<lambda>_. []), e_storage = sample_storage\<rparr>"

definition sample_send :: SendMessageRequest where
  "sample_send = \<lparr>sm_content = lit ''hi'', sm_thread_parent_id = None, sm_also_to_channel = False, sm_client_message_id = Some (2 ^ 78),
     sm_attachment_ids = [], sm_forwarded_from = None\<rparr>"

lemma sample_checks:
  "send_checks sample_tables (sample_request\<lparr>e_clock := n\<rparr>) D \<lparr>user_id = 1, bot = None\<rparr> 7 sample_send = Inr (sample_channel, [], None)"
proof -
  have body: "validate_message_body (lit ''hi'') = Inr ()" by code_simp
  have client: "validate_client_message_id (2 ^ 78) = Inr ()" by code_simp
  have quiet: "\<not> mentions_everyone is_ascii_alphanumeric (lit ''hi'')" by code_simp
  have said: "trim (lit ''hi'') \<noteq> []" by code_simp
  have post: "require_channel_post_as (queries_of sample_tables) 7 \<lparr>user_id = 1, bot = None\<rparr>
      = Inr \<lparr>channel = sample_channel, member = the (get_member sample_tables 2 1),
             channel_member = get_channel_member sample_tables 7 1\<rparr>"
    by (simp add: guard_defs right_defs lookup_defs sample_defs Let_def post_policy_def)
  show ?thesis
    using body client quiet said post
    by (simp add: send_checks_def send_validate_def validated_def scoped_def sample_send_def sample_request_def client_message_id_def
        addressed_text_def check_attachment_ids_def MAX_ATTACHMENTS_def del: lit_simps)
qed

lemma sample_sent:
  "is_ok (snd (send_message std_ext sample_tables (sample_request\<lparr>e_clock := n\<rparr>) new_db \<lparr>user_id = 1, bot = None\<rparr> 7 sample_send))"
proof -
  have "sm_attachment_ids sample_send = []" by (simp add: sample_send_def)
  moreover have "message_row new_db i = None" "\<not> client_id_taken new_db c k" for i c k
    by (simp_all add: message_row_def client_id_taken_def new_db_def)
  ultimately show ?thesis
    by (simp add: send_message_def sample_checks copy_objects_def write_send_def create_message_in_def new_message_def
        finish_send_def attach_in_def claim_drafts_in_def record_copies_in_def Let_def split_def)
qed

theorem send_again_same_message_witness:
  "let D = messages_after std_ext ([] @ (0, Send sample_tables sample_request \<lparr>user_id = 1, bot = None\<rparr> 7 sample_send) # []);
       first = projr (snd (send_message std_ext sample_tables (sample_request\<lparr>e_clock := 1\<rparr>) new_db \<lparr>user_id = 1, bot = None\<rparr> 7 sample_send))
   in case send_message std_ext sample_tables sample_request D \<lparr>user_id = 1, bot = None\<rparr> 7 sample_send of (D', r) \<Rightarrow>
     D'\<lparr>t_objects := t_objects D\<rparr> = D \<and> (case r of Inr m' \<Rightarrow> m_id m' = m_id first | Inl e \<Rightarrow> False)"
proof -
  let ?u = "\<lparr>user_id = 1, bot = None\<rparr> :: AuthUser"
  let ?first = "snd (send_message std_ext sample_tables (sample_request\<lparr>e_clock := 1\<rparr>) new_db ?u 7 sample_send)"
  have clock: "clock_after std_ext [] + 1 + int 0 = 1" "messages_after std_ext [] = new_db" by (simp_all add: clock_after_def messages_after_def)
  have "?first = Inr (projr ?first)" using sample_sent [of 1] by (cases ?first) simp_all
  then have sent: "snd (send_message std_ext sample_tables (sample_request\<lparr>e_clock := clock_after std_ext [] + 1 + int 0\<rparr>)
      (messages_after std_ext []) ?u 7 sample_send) = Inr (projr ?first)" unfolding clock .
  have k: "sm_client_message_id sample_send = Some (2 ^ 78)" "sm_forwarded_from sample_send = None" by (simp_all add: sample_send_def)
  have "sample_request\<lparr>e_clock := 0\<rparr> = sample_request" by (simp add: sample_request_def)
  then have "send_checks sample_tables sample_request D ?u 7 sample_send = Inr (sample_channel, [], None)" for D
    using sample_checks [of 0 D] by simp
  with send_again_same_message [OF sent k(1) k(1), of "[]" sample_tables sample_request ?u] k(2) show ?thesis
    by (auto simp: Let_def split: prod.splits sum.splits)
qed

section \<open>Pages\<close>

text \<open>A client reads a channel page by page: the last message of a page is the cursor of the next.\<close>

fun pages :: "msg_db \<Rightarrow> uuid \<Rightarrow> int \<Rightarrow> uuid option \<Rightarrow> nat \<Rightarrow> Message list" where
  "pages D c limit cursor 0 = []"
| "pages D c limit cursor (Suc n) =
     (case list_channel_messages D c limit cursor of
        [] \<Rightarrow> []
      | ms \<Rightarrow> ms @ pages D c limit (Some (m_id (last ms))) n)"

text \<open>The rows below a row of a strictly falling list are the rows behind it.\<close>

lemma falling_below:
  assumes "sorted_wrt (\<lambda>x y. k y < (k x :: 'k :: linorder)) (xs @ y # ys)"
  shows "filter (\<lambda>z. k z < k y) (xs @ y # ys) = ys"
proof -
  have "filter (\<lambda>z. k z < k y) xs = []" using assms by (auto simp: sorted_wrt_append filter_empty_conv)
  moreover have "filter (\<lambda>z. k z < k y) ys = ys" using assms by (simp add: sorted_wrt_append filter_id_conv)
  ultimately show ?thesis by simp
qed

lemma newest_first_filter: "newest_first (filter P ms) = filter P (newest_first ms)"
  by (simp add: newest_first_def filter_sort [symmetric] rev_filter)

lemma newest_first_falling:
  assumes "distinct (map m_id ms)"
  shows "sorted_wrt (\<lambda>x y. message_key y < message_key x) (newest_first ms)"
proof -
  have "distinct (map message_key ms)"
    using assms by (auto simp: distinct_map inj_on_def message_key_def)
  then have "sorted_wrt (<) (map message_key (sort_key message_key ms))"
    by (simp add: strict_sorted_iff distinct_map)
  then show ?thesis by (simp add: newest_first_def sorted_wrt_rev sorted_wrt_map)
qed

definition channel_log :: "msg_db \<Rightarrow> uuid \<Rightarrow> Message list" where
  "channel_log D c = newest_first (filter (listed c) (t_messages D))"

lemma channel_log_falling:
  "distinct (map m_id (t_messages D)) \<Longrightarrow> sorted_wrt (\<lambda>x y. message_key y < message_key x) (channel_log D c)"
  by (simp add: channel_log_def newest_first_falling distinct_map_filter)

lemma set_channel_log: "set (channel_log D c) \<subseteq> set (t_messages D)"
  by (auto simp: channel_log_def newest_first_def)

lemma length_channel_log: "length (channel_log D c) \<le> length (t_messages D)"
  by (simp add: channel_log_def newest_first_def)

lemma page_none: "list_channel_messages D c limit None = map masked (take (nat limit) (channel_log D c))"
  by (simp add: list_channel_messages_def below_cursor_def channel_log_def)

lemma page_below:
  assumes d: "distinct (map m_id (t_messages D))" and log: "channel_log D c = xs @ y # ys"
  shows "list_channel_messages D c limit (Some (m_id y)) = map masked (take (nat limit) ys)"
proof -
  have "y \<in> set (t_messages D)" using set_channel_log [of D c] log by auto
  then have "below_cursor D (Some (m_id y)) = (\<lambda>m. message_key m < message_key y)"
    by (simp add: fun_eq_iff below_cursor_def row_of_id [OF d])
  then have eq: "filter (\<lambda>m. listed c m \<and> below_cursor D (Some (m_id y)) m) (t_messages D)
      = filter (\<lambda>m. message_key m < message_key y) (filter (listed c) (t_messages D))"
    by (simp add: conj_commute)
  have "newest_first (filter (\<lambda>m. listed c m \<and> below_cursor D (Some (m_id y)) m) (t_messages D))
      = filter (\<lambda>m. message_key m < message_key y) (channel_log D c)"
    by (simp only: eq newest_first_filter [of "\<lambda>m. message_key m < message_key y"] channel_log_def)
  also have "\<dots> = ys" using channel_log_falling [OF d, of c] unfolding log by (rule falling_below)
  finally show ?thesis by (simp add: list_channel_messages_def)
qed

lemma pages_step:
  assumes limit: "0 < limit" and log: "channel_log D c = xs @ ys"
    and page: "list_channel_messages D c limit cursor = map masked (take (nat limit) ys)" and n: "length ys \<le> n"
    and rest: "\<And>xs y ys. channel_log D c = xs @ y # ys \<Longrightarrow> length ys < n \<Longrightarrow> pages D c limit (Some (m_id y)) n = map masked ys"
  shows "pages D c limit cursor (Suc n) = map masked ys"
proof (cases ys)
  case (Cons v vs)
  let ?zs = "take (nat limit) ys" and ?ws = "drop (nat limit) ys"
  have zs: "?zs \<noteq> []" using Cons limit by simp
  have "ys = (butlast ?zs @ [last ?zs]) @ ?ws" by (simp only: append_butlast_last_id [OF zs] append_take_drop_id)
  then have "channel_log D c = (xs @ butlast ?zs) @ last ?zs # ?ws" using log by simp
  moreover have "length ?ws < n" using n Cons limit by simp
  ultimately have "pages D c limit (Some (m_id (last ?zs))) n = map masked ?ws" by (rule rest)
  moreover have "m_id (last (map masked ?zs)) = m_id (last ?zs)" using zs by (simp add: last_map)
  moreover have "pages D c limit cursor (Suc n) = map masked ?zs @ pages D c limit (Some (m_id (last (map masked ?zs)))) n"
    using page zs by (cases "map masked ?zs") auto
  ultimately have "pages D c limit cursor (Suc n) = map masked (?zs @ ?ws)" by (simp only: map_append)
  then show ?thesis by (simp only: append_take_drop_id)
qed (use page in simp)

lemma pages_below:
  assumes d: "distinct (map m_id (t_messages D))" and limit: "0 < limit"
  shows "channel_log D c = xs @ y # ys \<Longrightarrow> length ys < n \<Longrightarrow> pages D c limit (Some (m_id y)) n = map masked ys"
proof (induction n arbitrary: xs y ys)
  case (Suc n)
  have "channel_log D c = (xs @ [y]) @ ys" "length ys \<le> n" using Suc.prems by simp_all
  then show ?case using Suc.IH by (rule pages_step [OF limit _ page_below [OF d Suc.prems(1)]])
qed simp

text \<open>
  C39. Pages are complete. After any requests, a client that reads a channel backwards, page after page of any requested size, each from the last message of the page before,
  gets every message the channel shows exactly once, the newest first: the live messages that stand in it, and the deleted ones that
  have live replies, without their content. It is done after at most one page per message.
\<close>

theorem pages_complete:
  "pages (messages_after X ops) c (page_limit l) None (Suc (length (t_messages (messages_after X ops))))
     = map masked (newest_first (filter (listed c) (t_messages (messages_after X ops))))"
proof -
  let ?D = "messages_after X ops"
  have d: "distinct (map m_id (t_messages ?D))"
    using reachable_msgs_ok [of X ops] by (simp add: msgs_ok_def threads_ok_def messages_after_def)
  have limit: "0 < page_limit l" by (simp add: page_limit_def)
  have "pages ?D c (page_limit l) None (Suc (length (t_messages ?D))) = map masked (channel_log ?D c)"
    using pages_below [OF d limit] length_channel_log [of ?D c]
    by (intro pages_step [OF limit, of ?D c "[]"]) (simp_all add: page_none)
  then show ?thesis by (simp only: channel_log_def)
qed

end
