(* ===== verification/Message_Events.thy ===== *)
theory Message_Events
  imports Message_Theorems
begin

text \<open>
  Messages and the outbox together: every request hands its events to the bus the way \<open>Outbox_Theorems\<close> requires, so the machine of messages inherits
  the guarantees of the outbox. After any requests and relays, every message in the tables has its event on the way or delivered.
\<close>

section \<open>What a request does to the bus\<close>

lemma keeps_ok: "(bus_ok X B \<Longrightarrow> keeps X B B') \<Longrightarrow> keeps X B B'"
  by (auto simp: keeps_def)

text \<open>A staged event and its row, if the table still has it.\<close>

definition rowed :: "bus \<Rightarrow> StagedEvent \<Rightarrow> bool" where
  "rowed B st \<longleftrightarrow> (\<forall>r\<in>set (outbox_rows B). ob_id r = sg_row_id st \<longrightarrow> staged_of r = st) \<and> event_stream_id (sg_event st) = None"

lemma rowed_stage: "bus_ok X B \<Longrightarrow> rowed (fst (stage_event now B new ty w v)) (snd (stage_event now B new ty w v))"
  using staged_row [of X B] by (auto simp: rowed_def) (simp add: stage_event_def new_event_def Let_def)

lemma rowed_other_stage:
  "bus_ok X B \<Longrightarrow> sg_row_id st < next_row B \<Longrightarrow> rowed B st \<Longrightarrow> rowed (fst (stage_event now B new ty w v)) st"
  by (auto simp: rowed_def stage_event_def Let_def)

lemma mark_rows: "\<exists>P. outbox_rows (mark_published now mk B i) = update_rows P (\<lambda>r. r\<lparr>ob_published_at := Some now\<rparr>) (outbox_rows B)"
proof (cases mk)
  case False
  then show ?thesis by (intro exI [of _ "\<lambda>_. False"]) (simp add: mark_published_def update_rows_def)
next
  case True
  then show ?thesis by (intro exI [of _ "\<lambda>r. ob_id r = i"]) (simp add: mark_published_def)
qed

lemma dispatch_rows:
  "\<exists>P. outbox_rows (dispatch_staged X now a mk B st) = update_rows P (\<lambda>r. r\<lparr>ob_published_at := Some now\<rparr>) (outbox_rows B)"
proof (cases "emit X a (redis B) (sg_event st) (Some (sg_workspace_id st))")
  case (Pair R v)
  have "outbox_rows B = update_rows (\<lambda>_. False) f (outbox_rows B)" for f by (simp add: update_rows_def)
  then show ?thesis using mark_rows [of now mk "B\<lparr>redis := R\<rparr>"] by (cases v) (auto simp: dispatch_staged_def Pair)
qed

lemma rowed_dispatch: "rowed B st' \<Longrightarrow> rowed (dispatch_staged X now a mk B st) st'"
  using dispatch_rows [of X now a mk B st] by (auto simp: rowed_def update_rows_def staged_of_def event_of_def)

lemma keeps_rowed: "rowed B st \<Longrightarrow> keeps X B (dispatch_staged X now a mk B st)"
  by (rule keeps_dispatch) (auto simp: rowed_def)

lemma keeps_stage_dispatch:
  "keeps X B (dispatch_staged X now' a mk (fst (stage_event now B new ty w v)) (snd (stage_event now B new ty w v)))"
  by (rule keeps_ok, rule keeps_trans [OF keeps_stage], rule keeps_rowed, rule rowed_stage)

lemma bus_stage_in [simp]:
  "t_bus (fst (stage_in E D n ty w v)) = fst (stage_event (e_clock E) (t_bus D) (e_event_id E n) (lit ty) w v)"
  "snd (stage_in E D n ty w v) = snd (stage_event (e_clock E) (t_bus D) (e_event_id E n) (lit ty) w v)"
  by (simp_all add: stage_in_def split_def)

lemma bus_dispatch_in [simp]:
  "t_bus (dispatch_in X E D n st) = dispatch_staged X (e_clock E) (e_redis E n) (e_marked E n) (t_bus D) st"
  by (simp add: dispatch_in_def)

definition handed_on :: "ext \<Rightarrow> msg_db \<Rightarrow> msg_db \<Rightarrow> bool" where
  "handed_on X D D' \<longleftrightarrow> keeps X (t_bus D) (t_bus D')"

lemma handed_refl [simp]: "t_bus D = t_bus D' \<Longrightarrow> handed_on X D D'"
  by (simp add: handed_on_def)

lemma handed_trans: "handed_on X D D1 \<Longrightarrow> handed_on X D1 D2 \<Longrightarrow> handed_on X D D2"
  unfolding handed_on_def by (rule keeps_trans)

lemma handed_commit: "t_bus D' = t_bus D \<Longrightarrow> handed_on X D (commit_one X E (stage_in E D' 0 ty w v))"
  using keeps_stage_dispatch by (simp add: handed_on_def commit_one_def del: keeps_refl)

lemma keeps_publish_scoped: "keeps X B (fst (publish_scoped X now a mk B new ty w v))"
  by (rule keeps_ok, drule bus_step_keeps [where op = "Scoped now new ty w v a mk"], simp only: bus_step.simps)

lemma keeps_publish: "keeps X B (fst (publish X now a B new ty v))"
  by (rule keeps_ok, drule bus_step_keeps [where op = "Publish now new ty v a"], simp only: bus_step.simps)

lemma handed_read_state: "handed_on X D (publish_read_state X E D n u w st)"
  by (simp add: handed_on_def publish_read_state_def keeps_publish_scoped)

lemma handed_read_states: "handed_on X D (publish_read_states X E D n u w sts)"
proof (induction sts arbitrary: D n)
  case (Cons st sts)
  show ?case using handed_trans [OF handed_read_state Cons.IH] by simp
qed simp

lemma handed_announce_all: "handed_on X D (announce_all X E D n root w fs)"
proof (induction fs arbitrary: D n)
  case (Cons f fs)
  have "handed_on X D (announce_thread X E D n root w f)" by (simp add: handed_on_def announce_thread_def keeps_publish)
  from handed_trans [OF this Cons.IH] show ?case by simp
qed simp

text \<open>The statements leave the bus alone.\<close>

lemma bus_frames [simp]:
  "t_bus (on_message D i f) = t_bus D"
  "t_bus (bump_unread D c u us) = t_bus D"
  "t_bus (on_read D c u rf) = t_bus D"
  "t_bus (drop_unread_for_message D c i u) = t_bus D"
  "t_bus (remove_reaction_in D i u s) = t_bus D"
  "t_bus (fst (repo_mark_workspace_read T now D w u)) = t_bus D"
  "t_bus (mark_channel_read X D u w c) = t_bus D"
  "t_bus (mark_channels_read D u w) = t_bus D"
  "t_bus (delete_for_channel_message S D i) = t_bus D"
  "t_bus (fst (delete_from_message_except_in D i keep)) = t_bus D"
  "t_bus (add_channel_member D c u ro) = t_bus D"
  "t_bus (remove_channel_member D c u) = t_bus D"
  "t_bus (fst (reconcile_unread_counts now D h)) = t_bus D"
  "t_bus (audit_record D a) = t_bus D"
  "t_bus (discarded E D cs) = t_bus D"
  "t_bus (follow D row ff) = t_bus D"
  by (simp_all add: on_message_def bump_unread_def on_read_def drop_unread_for_message_def remove_reaction_in_def repo_mark_workspace_read_def
      mark_channel_read_def mark_channels_read_def delete_for_channel_message_def repo_delete_for_channel_message_def
      delete_from_message_except_in_def add_channel_member_def remove_channel_member_def reconcile_unread_counts_def audit_record_def
      discarded_def follow_def Let_def split: option.split)

lemma bus_foldl_follow: "t_bus (foldl (\<lambda>D u. follow D (row u) f) D us) = t_bus D"
  by (induction us arbitrary: D) simp_all

lemma bus_follows [simp]: "t_bus (follow_on_reply_in T D root w u v us t) = t_bus D"
  by (simp add: follow_on_reply_in_def bus_foldl_follow Let_def)

lemma bus_create: "create_message_in X now D new nm = Inr (D1, m) \<Longrightarrow> t_bus D1 = t_bus D"
  by (auto simp: create_message_in_def Let_def split: if_splits option.splits)

lemma bus_returning: "update_returning D i f = Inr (D1, m) \<Longrightarrow> t_bus D1 = t_bus D"
  using update_returning_eq by fastforce

lemma bus_statements:
  "set_pinned_in D i p = Inr (D1, m) \<Longrightarrow> t_bus D1 = t_bus D"
  "set_attachments_in D i vs = Inr (D1, m) \<Longrightarrow> t_bus D1 = t_bus D"
  "reset_unfurls_in D i = Inr (D1, m) \<Longrightarrow> t_bus D1 = t_bus D"
  "hide_unfurls_in D i = Inr (D1, m) \<Longrightarrow> t_bus D1 = t_bus D"
  unfolding set_pinned_in_def set_attachments_in_def reset_unfurls_in_def hide_unfurls_in_def by (erule bus_returning)+

lemma bus_update: "update_message_in now D new i s u = Inr (D1, m) \<Longrightarrow> t_bus D1 = t_bus D"
  by (auto simp: update_message_in_def Let_def dest!: bus_returning split: if_splits option.splits)

lemma bus_react: "add_reaction_in now D new i u s = Inr (D1, r) \<Longrightarrow> t_bus D1 = t_bus D"
  by (auto simp: add_reaction_in_def Let_def split: if_splits)

lemma bus_soft_delete [simp]: "t_bus (fst (soft_delete_message_in now D i)) = t_bus D"
  by (auto simp: soft_delete_message_in_def Let_def split: option.splits)

lemma bus_claim: "claim_drafts_in D ids i w u = Inr (D1, fs) \<Longrightarrow> t_bus D1 = t_bus D"
  by (auto simp: claim_drafts_in_def repo_claim_drafts_in_def Let_def split: if_splits)

lemma bus_record_loop: "record_loop S now i w u D fs cs = Inr (D1, gs) \<Longrightarrow> t_bus D1 = t_bus D"
  by (induction cs arbitrary: D fs) (auto simp: create_file_in_def split: if_splits)

lemma map_err_Inr [simp]: "map_err f r = Inr x \<longleftrightarrow> r = Inr x"
  by (cases r) auto

lemma bus_attach: "attach_in X E D m ids cs w u = Inr (D1, m1) \<Longrightarrow> t_bus D1 = t_bus D"
  by (auto simp: attach_in_def record_copies_in_def Let_def dest!: bus_claim bus_record_loop bus_statements split: if_splits)

lemma handed_reading: "(\<And>x. r = Inr x \<Longrightarrow> handed_on X D (fst (k x))) \<Longrightarrow> handed_on X D (fst (reading D r k))"
  by (cases r) auto

lemma handed_in_tx: "(\<And>x. r = Inr x \<Longrightarrow> handed_on X D (fst (k x))) \<Longrightarrow> handed_on X D (fst (in_tx D r k))"
  by (cases r) auto

lemmas handed_rules = handed_reading handed_in_tx

lemma handed_dispatched:
  "t_bus D1 = fst (stage_event now (t_bus D) new ty w v) \<Longrightarrow> handed_on X D (dispatch_in X E D1 n (snd (stage_event now (t_bus D) new ty w v)))"
  by (simp add: handed_on_def keeps_stage_dispatch)

lemma handed_single:
  assumes "t_bus D1 = t_bus D" and "stage_in E D1 0 ty w v = (D2, st)" and "t_bus D3 = t_bus D2"
  shows "handed_on X D (dispatch_in X E D3 0 st)"
  using assms bus_stage_in [of E D1 0 ty w v] by (simp add: handed_dispatched)

lemma handed_deleted:
  assumes bus: "t_bus D1 = t_bus D" and s1: "stage_in E D1 0 ty w v = (D2, st)" and s2: "stage_in E D2 1 ty' w v' = (D3, st')"
    and "t_bus D4 = t_bus D3"
  shows "handed_on X D (dispatch_in X E (dispatch_in X E D4 0 st) 1 st')"
proof (unfold handed_on_def, rule keeps_ok)
  assume ok: "bus_ok X (t_bus D)"
  let ?B = "t_bus D"
  let ?s1 = "stage_event (e_clock E) ?B (e_event_id E 0) (lit ty) w v"
  let ?s2 = "stage_event (e_clock E) (fst ?s1) (e_event_id E 1) (lit ty') w v'"
  have st: "st = snd ?s1" "t_bus D2 = fst ?s1" using s1 bus bus_stage_in [of E D1 0 ty w v] by simp_all
  have st': "st' = snd ?s2" "t_bus D3 = fst ?s2" using s2 st bus_stage_in [of E D2 1 ty' w v'] by simp_all
  have ok1: "bus_ok X (fst ?s1)" using keeps_stage ok by (auto simp: keeps_def)
  have "sg_row_id (snd ?s1) < next_row (fst ?s1)" by (simp add: stage_event_def Let_def)
  then have r1: "rowed (fst ?s2) st" using rowed_other_stage [OF ok1 _ rowed_stage [OF ok]] st(1) by simp
  have r2: "rowed (fst ?s2) st'" using rowed_stage [OF ok1] st'(1) by simp
  have "keeps X ?B (fst ?s2)" by (rule keeps_trans [OF keeps_stage keeps_stage])
  then have "keeps X ?B (dispatch_staged X (e_clock E) (e_redis E 0) (e_marked E 0) (fst ?s2) st)"
    by (rule keeps_trans) (rule keeps_rowed [OF r1])
  then have "keeps X ?B (dispatch_staged X (e_clock E) (e_redis E 1) (e_marked E 1)
      (dispatch_staged X (e_clock E) (e_redis E 0) (e_marked E 0) (fst ?s2) st) st')"
    by (rule keeps_trans) (rule keeps_rowed [OF rowed_dispatch [OF r2]])
  then show "keeps X ?B (t_bus (dispatch_in X E (dispatch_in X E D4 0 st) 1 st'))" using st' assms(4) by simp
qed

lemma handed_update: "handed_on X D (fst (update_message X T E D caller i req))"
  unfolding update_message_def Let_def
  by (intro handed_rules)
    (auto simp: stage_defs split_def dest!: bus_update bus_statements intro!: handed_rules handed_commit handed_dispatched split: option.splits)

lemma handed_delete: "handed_on X D (fst (delete_message X T E D caller i))"
  unfolding delete_message_def Let_def
proof (intro handed_reading, goal_cases)
  case (1 u m v ch)
  let ?D = "drop_unread_for_message D (m_channel_id m) i (m_user_id m)"
  obtain D1 parent where del: "soft_delete_message_in (e_clock E) ?D i = (D1, parent)" by fastforce
  have bus: "t_bus D1 = t_bus D" using bus_soft_delete [of "e_clock E" ?D i] del by simp
  obtain D2 st where s1: "stage_message_deleted X E D1 0 i (m_channel_id m) (ch_workspace_id ch) = (D2, st)" by fastforce
  show ?case
  proof (cases parent)
    case None
    have "handed_on X D (dispatch_in X E (delete_for_channel_message (e_storage E) D2 i) 0 st)"
      using s1 unfolding stage_defs by (rule handed_single [OF bus]) simp
    then show ?thesis using del s1 None by (simp add: handed_on_def)
  next
    case (Some p)
    obtain D3 st' where s2: "stage_message_updated X E D2 1 p (ch_workspace_id ch) = (D3, st')" by fastforce
    have "handed_on X D (dispatch_in X E (dispatch_in X E (delete_for_channel_message (e_storage E) D3 i) 0 st) 1 st')"
      using s1 s2 unfolding stage_defs by (rule handed_deleted [OF bus]) simp
    then show ?thesis using del s1 s2 Some by (simp add: handed_on_def)
  qed
qed

lemma handed_requests:
  "handed_on X D (fst (refresh_unfurls X T E D caller i))"
  "handed_on X D (fst (hide_unfurls X T E D caller i))"
  "handed_on X D (fst (message_history X T E D caller i))"
  "handed_on X D (fst (pinning X T E D caller i p s))"
  "handed_on X D (fst (add_reaction X T E D caller i emoji))"
  "handed_on X D (fst (remove_reaction X T E D caller i emoji))"
  unfolding refresh_unfurls_def hide_unfurls_def message_history_def pinning_def add_reaction_def remove_reaction_def
  by (intro handed_rules, auto simp: stage_defs dest!: bus_statements bus_react intro!: handed_rules handed_commit)+

lemma handed_read_up_to: "handed_on X D (fst (read_up_to X E D access u i))"
proof -
  let ?D = "mark_channel_read X (fst (repo_mark_read (e_clock E) D (ch_id (channel access)) u i)) u
    (ch_workspace_id (channel access)) (ch_id (channel access))"
  have "t_bus D = t_bus ?D" by (simp add: repo_mark_read_def Let_def)
  from handed_trans [OF handed_refl [OF this] handed_read_state] show ?thesis by (simp add: read_up_to_def split_def Let_def)
qed

lemma handed_mark:
  "handed_on X D (fst (mark_read X T E D caller c i))"
  "handed_on X D (fst (list_messages X T E D caller c q))"
  "handed_on X D (fst (mark_workspace_read X T E D caller w))"
  "handed_on X D (fst (mark_unread X T E D caller c i))"
proof -
  show "handed_on X D (fst (mark_read X T E D caller c i))"
    unfolding mark_read_def by (rule handed_reading) (simp add: handed_read_up_to)
  show "handed_on X D (fst (list_messages X T E D caller c q))"
    unfolding list_messages_def Let_def
    by (intro handed_rules) (auto simp: split_def handed_read_up_to split: option.splits list.splits if_splits)
  show "handed_on X D (fst (mark_workspace_read X T E D caller w))"
    unfolding mark_workspace_read_def
    by (rule handed_reading) (auto simp: split_def intro!: handed_trans [OF handed_refl handed_read_states])
  have "t_bus D1 = t_bus D" if "repo_mark_unread X D c u i = (D1, r)" for D1 r u
    using that by (auto simp: repo_mark_unread_def Let_def split: option.splits)
  then show "handed_on X D (fst (mark_unread X T E D caller c i))"
    unfolding mark_unread_def
    by (intro handed_reading) (auto intro!: handed_trans [OF handed_refl handed_read_state] split: prod.splits option.splits)
qed

section \<open>The event of a message\<close>

definition announced :: "ext \<Rightarrow> bus \<Rightarrow> uuid \<Rightarrow> bool" where
  "announced X B i \<longleftrightarrow> (\<exists>st. event_type (sg_event st) = lit ''message.created''
     \<and> json_get (event_payload (sg_event st)) (lit ''id'') = Some (id_json X i) \<and> (waiting B st \<or> arrived X (redis B) st))"

lemma announced_kept: "keeps X B B' \<Longrightarrow> bus_ok X B \<Longrightarrow> announced X B i \<Longrightarrow> announced X B' i"
  unfolding keeps_def announced_def by blast

lemma stage_created_announced:
  assumes "stage_message_created X E D n m w us = (D1, st)"
  shows "announced X (t_bus D1) (m_id m)"
proof -
  let ?v = "message_created_payload X (message_json X E m) w us"
  have st: "st = snd (stage_event (e_clock E) (t_bus D) (e_event_id E n) (lit ''message.created'') w ?v)"
      "t_bus D1 = fst (stage_event (e_clock E) (t_bus D) (e_event_id E n) (lit ''message.created'') w ?v)"
    using assms bus_stage_in [of E D n "''message.created''" w ?v] by (auto simp: stage_message_created_def)
  have "json_get ?v (lit ''id'') = Some (id_json X (m_id m))"
    by (simp add: message_created_payload_def message_json_def)
  moreover have "event_type (sg_event st) = lit ''message.created''" "event_payload (sg_event st) = ?v"
    unfolding st(1) by (simp_all add: stage_event_def new_event_def Let_def del: lit_simps)
  moreover have "waiting (t_bus D1) st" unfolding st by (rule waiting_stage)
  ultimately show ?thesis unfolding announced_def by (intro exI [of _ st]) simp
qed

lemma staged_in_ok:
  assumes "bus_ok X (t_bus D)" and "stage_in E D n ty w v = (D1, st)"
  shows "rowed (t_bus D1) st" and "bus_ok X (t_bus D1)"
proof -
  let ?s = "stage_event (e_clock E) (t_bus D) (e_event_id E n) (lit ty) w v"
  have "t_bus D1 = fst ?s" "st = snd ?s" using bus_stage_in [of E D n ty w v] assms(2) by simp_all
  moreover have "rowed (fst ?s) (snd ?s)" by (rule rowed_stage [OF assms(1)])
  moreover have "bus_ok X (fst ?s)" using keeps_stage [of X "t_bus D"] assms(1) unfolding keeps_def by blast
  ultimately show "rowed (t_bus D1) st" "bus_ok X (t_bus D1)" by simp_all
qed

lemma finish_send_handed:
  assumes bus: "t_bus D1 = t_bus D" and ok: "bus_ok X (t_bus D)"
    and sent: "finish_send X T E D D1 caller req ch root us copied m0 = (D', r)"
  shows "handed_on X D D' \<and> (case r of Inr m \<Rightarrow> announced X (t_bus D') (m_id m) | Inl e \<Rightarrow> True)"
proof (cases "attach_in X E D1 m0 (sm_attachment_ids req) copied (ch_workspace_id ch) (user_id caller)")
  case (Inl e)
  with sent show ?thesis by (auto simp: finish_send_def)
next
  case (Inr q)
  then obtain D2 m where att: "attach_in X E D1 m0 (sm_attachment_ids req) copied (ch_workspace_id ch) (user_id caller) = Inr (D2, m)"
    by (cases q) auto
  define D3 where "D3 = (case root of None \<Rightarrow> D2 | Some r \<Rightarrow> follow_on_reply_in T D2 (m_id r) (ch_workspace_id ch) (user_id caller)
    (m_user_id r) us (m_created_at m))"
  have b3: "t_bus D3 = t_bus D" using bus_attach [OF att] bus by (simp add: D3_def split: option.split)
  obtain D4 st where s: "stage_message_created X E D3 0 m (ch_workspace_id ch) us = (D4, st)" by fastforce
  let ?D5 = "dispatch_in X E D4 0 st"
  have D': "D' = (case root of None \<Rightarrow> ?D5 | Some r \<Rightarrow> announce_reply X E ?D5 1 (m_id r) (ch_workspace_id ch))" and r: "r = Inr m"
    using sent att s by (auto simp: finish_send_def D3_def Let_def split: option.splits)
  have all: "handed_on X D1' D'" if "handed_on X D1' ?D5" for D1'
    using that handed_trans [OF that handed_announce_all] by (simp add: D' announce_reply_def split: option.split)
  have s': "stage_in E D3 0 ''message.created'' (ch_workspace_id ch)
      (message_created_payload X (message_json X E m) (ch_workspace_id ch) us) = (D4, st)" using s by (simp add: stage_message_created_def)
  have "handed_on X D ?D5" by (rule handed_single [OF b3 s' refl])
  moreover have "rowed (t_bus D4) st" "bus_ok X (t_bus D4)"
    using staged_in_ok [OF _ s'] ok b3 by simp_all
  then have "handed_on X D4 ?D5" "bus_ok X (t_bus D4)" by (simp_all add: handed_on_def keeps_rowed)
  then have "announced X (t_bus D') (m_id m)"
    using announced_kept [OF _ _ stage_created_announced [OF s]] all unfolding handed_on_def by blast
  ultimately show ?thesis using all r by simp
qed

section \<open>Every message has its event\<close>

definition told :: "ext \<Rightarrow> msg_db \<Rightarrow> bool" where
  "told X D \<longleftrightarrow> bus_ok X (t_bus D) \<and> list_all (announced X (t_bus D)) (map m_id (t_messages D))"

lemma told_kept:
  assumes "told X D" and "handed_on X D D'" and "map m_id (t_messages D') = map m_id (t_messages D)"
  shows "told X D'"
  using assms announced_kept [of X "t_bus D" "t_bus D'"] unfolding told_def handed_on_def by (simp add: list_all_iff) (simp add: keeps_def)

lemma ids_of_tags: "map tag ms = map tag ms' @ ts \<Longrightarrow> map m_id ms = map m_id ms' @ map fst ts"
proof -
  assume "map tag ms = map tag ms' @ ts"
  then have "map fst (map tag ms) = map fst (map tag ms') @ map fst ts" by simp
  then show ?thesis by (simp add: tag_def comp_def)
qed

lemma write_send_told:
  assumes told: "told X D0" and bus: "t_bus D = t_bus D0" and msgs: "t_messages D = t_messages D0"
  shows "told X (fst (write_send X T E D caller c req ch root us copied))"
proof (cases "create_message_in X (e_clock E) D (e_id E) (new_message caller c req root us)")
  case (Inl e)
  then have "fst (write_send X T E D caller c req ch root us copied) = discarded E D copied"
    by (auto simp: write_send_def split: option.splits SqlError.splits)
  then show ?thesis using assms by (simp add: told_def discarded_def)
next
  case (Inr q)
  then obtain D1 m0 where made: "create_message_in X (e_clock E) D (e_id E) (new_message caller c req root us) = Inr (D1, m0)"
    by (cases q) auto
  obtain D' r where sent: "finish_send X T E D D1 caller req ch root us copied m0 = (D', r)" by fastforce
  have D': "fst (write_send X T E D caller c req ch root us copied) = D'" using made sent by (simp add: write_send_def)
  have ok: "bus_ok X (t_bus D)" "told X D" using assms by (simp_all add: told_def)
  note handed = finish_send_handed [OF bus_create [OF made] ok(1) sent]
  show ?thesis
  proof (cases r)
    case (Inl e)
    then have "t_messages (core D') = t_messages (core D)" using finish_send_result [OF made sent] by simp
    then show ?thesis using told_kept [OF ok(2)] handed D' by simp
  next
    case (Inr m)
    with finish_send_result [OF made sent] obtain g
      where g: "m_id m = e_id E" "core D' = on_message (core D1) (e_id E) (remeta g)" "\<And>v. flag (g v) = flag v" by auto
    have "map tag (t_messages (core D')) = map tag (t_messages D) @ [(m_id m, c, sm_client_message_id req)]"
      using tag_stays [OF harmless_stays [OF harmless_remeta [OF g(3)]], of "core D1" "e_id E"] created_tags [OF made] g(1)
      unfolding g(2) by (simp add: new_message_def del: on_message_simps)
    from ids_of_tags [OF this] have "map m_id (t_messages D') = map m_id (t_messages D) @ [m_id m]" by simp
    then show ?thesis
      using ok handed Inr announced_kept [of X "t_bus D" "t_bus D'"] unfolding D' told_def handed_on_def by (auto simp: list_all_iff keeps_def)
  qed
qed

lemma send_told: "told X D \<Longrightarrow> told X (fst (send_message X T E D caller c req))"
proof -
  assume told: "told X D"
  then have "told X (D\<lparr>t_objects := Os\<rparr>)" for Os by (simp add: told_def)
  with told show ?thesis
    using write_send_told [OF told]
    by (cases "send_checks T E D caller c req") (auto simp: send_message_def split: prod.splits sum.splits)
qed

lemma perform_handed: "\<not> is_send op \<Longrightarrow> handed_on X D (fst (perform_message X now D op))"
proof (cases op)
  case (Draft f)
  then show ?thesis by (auto simp: create_file_in_def split: sum.splits)
next
  case (Bus b)
  then show ?thesis using bus_step_keeps [of X "t_bus D" b] by (simp add: handed_on_def keeps_ok)
qed (auto simp: handed_update handed_delete handed_requests handed_mark pin_message_def unpin_message_def)

interpretation announcing: stepped "(0, new_db)" "message_step X" "\<lambda>s. told X (snd s)"
proof
  show "told X (snd (0 :: timestamp, new_db))" by (simp add: told_def new_db_def bus_ok_def new_bus_def)
  fix s :: msg_state and x
  assume told: "told X (snd s)"
  show "told X (snd (message_step X s x))"
  proof (cases "is_send (snd x)")
    case True
    then obtain T E caller c req where "snd x = Send T E caller c req" by (cases "snd x") auto
    then show ?thesis using send_told [OF told] by (simp add: message_step_def Let_def)
  next
    case False
    have "map tag (t_messages (snd (message_step X s x))) = map tag (t_messages (snd s)) @ []"
      using row_change_tags [OF perform_change [OF False, of X "fst s + 1 + int (fst x)" "snd s"]] by (simp add: message_step_def Let_def)
    from ids_of_tags [OF this] show ?thesis
      using told_kept [OF told] perform_handed [OF False] by (simp add: message_step_def Let_def)
  qed
qed

text \<open>
  C7. Every message is announced. After any requests and relays, with Redis and the marks of the outbox failing at any point, every message in the table, deleted or not, has
  an event \<open>message.created\<close> with its identifier that has arrived at Redis or whose row waits in the outbox.
\<close>

theorem every_message_announced:
  "list_all (\<lambda>m. announced X (t_bus (messages_after X ops)) (m_id m)) (t_messages (messages_after X ops))"
  using announcing.inv_run [of X ops] by (simp add: told_def messages_after_def list_all_iff)

end
