(* ===== verification/Spec2Isabelle.thy ===== *)
theory Spec2Isabelle
  imports Prelude List_Rank Validation Workspace Authz List_Model List_Views List_Store List_Csv Mentions List_Service
    List_Invariant List_Columns List_Ordering List_Requests List_Theorems Connections Event_Consumer Gateway Realtime_Node Workflow_Theorems
    Outbox Outbox_Theorems Message_Store Attachments Message_Service Message_Effects
    Message_Invariant Message_Theorems Message_Events
begin

text \<open>
  A model of a team chat server: an HTTP service over PostgreSQL (\<open>src/backend/api/src\<close>), realtime nodes that hold the clients'
  web sockets (\<open>src/backend/realtime/src\<close>), and the crates they share (\<open>src/backend/shared\<close>). The service changes rows in
  transactions and stages events with them; an event reaches every realtime node through Redis, and a node turns it into frames
  for the sockets that may see it. Redis also keeps the log from which a client that was away replays what it missed.

  \<^bold>\<open>The theories and the sources they model\<close>

  \<^item> \<open>Prelude\<close>: Rust characters and strings, JSON and floating point values, \<open>AppError\<close> and the early return
    (\<open>shared/common/src/errors.rs\<close>), and the locale \<open>stepped\<close> of a machine with an invariant.
  \<^item> \<open>Validation\<close>: \<open>shared/common/src/validation.rs\<close>, all validators and the rules module. Lemmas say exactly which e-mail
    addresses, bookmark addresses and emoji names are accepted.
  \<^item> \<open>Workspace\<close>, \<open>Authz\<close>: \<open>workspace/models.rs\<close>, the lookups of \<open>workspace/repo.rs\<close>, and \<open>authz.rs\<close>. The guards take
    the answers of the database as the record \<open>queries\<close>; the locale \<open>membership_queries\<close> states what the answers mean and is interpreted on
    lookups in tables. C9, C10, C11 and C12 say
    who may post, when a hook goes on acting and that a failed lookup grants nothing; lemmas bound invites and show that rights grow with the role.
  \<^item> \<open>List_Rank\<close>: \<open>lists/rank.rs\<close>, strings between strings. C1: the result is valid and strictly between; the locale
    \<open>fractional_rank\<close> is the contract the ordering of items rests on.
  \<^item> \<open>List_Model\<close>, \<open>List_Views\<close>, \<open>List_Store\<close>, \<open>List_Csv\<close>, \<open>List_Service\<close>: \<open>lists/models.rs\<close>, \<open>cells.rs\<close>,
    \<open>comments.rs\<close>, \<open>views.rs\<close>, \<open>repo.rs\<close>, \<open>csv.rs\<close>, \<open>service.rs\<close>. The tables are the record \<open>store\<close>; a statement of the
    repository is a function on it, an operation of the service a function on the \<open>world\<close> (tables, staged and dispatched events, due reminders).
  \<^item> \<open>List_Invariant\<close>, \<open>List_Columns\<close>, \<open>List_Ordering\<close>, \<open>List_Requests\<close>, \<open>List_Theorems\<close>: the invariant of the list
    tables and its preservation; C13 views, C14 the export, C2 the invariant of every reachable world,
    C17 and C18 where an item stands after it was created or moved,
    C19 what retyping a column may empty.
  \<^item> \<open>Mentions\<close>: the text functions of \<open>messaging/routes.rs\<close>. C15 and C16: what counts as a mention
    and whom a message reaches.
  \<^item> \<open>Connections\<close>, \<open>Event_Consumer\<close>, \<open>Gateway\<close>, \<open>Realtime_Node\<close>: \<open>connection_manager.rs\<close>,
    \<open>event_consumer.rs\<close> with \<open>replay.rs\<close> and \<open>shared/events/src/frames.rs\<close>, \<open>ws_handler.rs\<close>, \<open>main.rs\<close> of the realtime crate. C20,
    C21, C22, C23: the index of sockets, who receives a broadcast, refinement of
    a map of sessions, closing of revoked sockets. C24, C25, C26: replay and removal of
    members. C27, C28, C6: opening a socket, admission to a huddle, and that every
    subscription was granted.
  \<^item> \<open>Workflow_Model\<close>: \<open>workflows/models.rs\<close> and \<open>cells.rs\<close>; \<open>Workflow_Store\<close>: \<open>workflows/repo.rs\<close>, the bot messages of
    \<open>messaging/repo.rs\<close>, direct conversations of \<open>conversations/\<close>; \<open>Workflow_Runs\<close>: \<open>workflows/runner.rs\<close>;
    \<open>Workflow_Service\<close>: \<open>workflows/service.rs\<close>, \<open>listener.rs\<close>, the webhook of \<open>routes.rs\<close>.
  \<^item> \<open>Workflow_Check\<close>: C29 a checked definition is well typed, C30 templates, C31 a checked cell gets a value its column takes.
  \<^item> \<open>Workflow_Invariant\<close>, \<open>Workflow_Theorems\<close>: the machine of runs with its invariant; C5 no step posts twice, C32 a run
    ends, C33 untrusted values never mention anyone, C34 an event delivered again starts nothing,
    C35 the answers of a form have the kinds that later steps rely on.
  \<^item> \<open>Outbox\<close>, \<open>Outbox_Theorems\<close>: \<open>messaging/publisher.rs\<close>, \<open>messaging/outbox.rs\<close> and \<open>shared/events/src/lib.rs\<close>. C36 no staged
    event is lost, C37 the relay empties the table.
  \<^item> \<open>Message_Store\<close>, \<open>Attachments\<close>, \<open>Message_Service\<close>: the statements of \<open>messaging/repo.rs\<close> on the record \<open>msg_db\<close> (with those of \<open>threads/repo.rs\<close>,
    \<open>notifications/repo.rs\<close> and \<open>files/repo.rs\<close> that a request about a message uses), \<open>files/names.rs\<close> and the part of \<open>files/service.rs\<close> about attachments, and
    the requests of \<open>messaging/routes.rs\<close>. C40: the name an object is stored under is a safe part of a path.
  \<^item> \<open>Message_Effects\<close>: the transition system \<open>row_effect\<close> of the tables of messages, and that every request refines it.
  \<^item> \<open>Message_Invariant\<close>: the invariant \<open>msgs_ok\<close> of that system (threads, keys, stored edits, counters, clock) and its preservation. The locale
    \<open>simulated\<close> carries an invariant of the abstract system over to the requests.
  \<^item> \<open>Message_Theorems\<close>, \<open>Message_Events\<close>: the machine \<open>message_step\<close> of requests, relays and joins. C4 threads, counters of
    replies and keys, C3 the counters of unread messages, C38 a refused request changes no row,
    C8 a repeated send is the same message, C39 paging through a channel misses and repeats nothing,
    C7 no message is without its event.

  \<^bold>\<open>How the model relates to the code\<close>

  A struct is a record, an enum a datatype, a fallible function returns \<open>AppError + 'a\<close>. A handler takes the state it reads and
  returns the state it leaves; guards stand in the order of the source, so a request that breaks several rules gets the error the code gives.
  A transaction is one function: it commits as a whole or its result is discarded. The \<open>async\<close> operations of one node are interleaved as
  whole steps: the node's tables are locked entry by entry for no longer than such a step, and the rows of the service are locked by the
  statements of its transactions. Identifiers that the database or \<open>Uuid::new_v4\<close> draws, the clock, and the verdicts of the rate limiter are
  arguments. Loops are recursive functions with termination proofs, and no model of code uses fuel; the
  walk \<open>pages\<close> of a client is bounded by one page per message, and C39 shows that this is enough. In the machine of messages every request
  has a later microsecond than the one before, and a statement fails only on a key. System messages and imported messages are outside that machine.

  What is outside the sources enters as arguments: \<open>ext\<close> (the uuid, chrono and number libraries; \<open>ext_laws\<close> and \<open>uuid_text\<close>
  state the documented behaviour used, and \<open>std_ext\<close> satisfies them), \<open>wf_ext\<close> (times of day), \<open>queries\<close>, \<open>mention_env\<close> and the other
  fields of \<open>env\<close> and \<open>wf_env\<close> (answers of repositories), \<open>wire\<close> (serde), \<open>stream_api\<close> and \<open>gw_env\<close> (Redis and the
  membership queries of a node), \<open>msg_env\<close> and \<open>redis_answers\<close> (the clock, identifiers, limits and failures a request about messages meets), \<open>storage_env\<close>
  (object storage). The fields \<open>bot_run\<close> and \<open>bot_position\<close> of a message, and the logs of effects, exist so that
  results can speak about them; no operation reads them.

  \<^bold>\<open>Not modelled\<close>

  The unread overview, search and unfurling of messages, the pages of followed threads, polls, reminders, scheduled messages, retention, the creation of
  notifications, apps and commands. Accounts, sessions, passkeys and sealed secrets rest on cryptographic libraries; the upload of files, unfurling, e-mail, push and
  the integrations are outgoing I/O; import and export are archive formats. The listings of the workflow service (\<open>list\<close>, \<open>runs\<close>,
  \<open>shortcuts\<close>) order rows by the collation of the database and change nothing. A failure of the database in the middle of an operation is
  modelled where the code handles it (\<open>queries\<close>, \<open>interrupted\<close>), not at every statement. Tables of the HTTP layer (routers, extractors,
  OpenAPI) have no behaviour of their own.
\<close>

end
